(* ===== verification/Prelude.thy ===== *)
theory Prelude
  imports Main "HOL-Library.Char_ord" "HOL-Library.List_Lexorder"
begin

section \<open>Prelude: time, strings and tables\<close>

text \<open>
  What every component shares.  Go's \<open>string\<close> is a byte string and becomes \<open>string\<close>
  (a list of bytes); a \<open>time.Time\<close> is an \<open>int\<close> of nanoseconds since the Unix epoch and a
  \<open>time.Duration\<close> an \<open>int\<close> of nanoseconds kept in the range of \<open>int64\<close> by \<open>wrap64\<close>
  (arithmetic) and \<open>dur_sub\<close> (\<open>Time.Sub\<close>, which saturates); a timestamp column of SQLite
  is an \<open>int\<close> of seconds, the precision of \<open>datetime('now')\<close> and of RFC3339.  The columns
  hold fixed-width UTC text, so comparing the text is comparing the seconds it denotes.
  A table is the list of its rows in insertion order; \<open>update_where\<close>, \<open>delete_where\<close> and
  \<open>next_rowid\<close> are the SQL statements' parts.  A statement can fail in the driver (disk
  full, lock timeout): each operation takes the environment's \<open>fault\<close>, and a failed
  statement changes nothing.
\<close>

type_synonym nanos = int
type_synonym secs = int
type_synonym fault = "string option"

named_theorems table_simps
named_theorems str_simps

subsection \<open>Errors as values\<close>

definition and_then :: "'e + 'a \<Rightarrow> ('a \<Rightarrow> 'e + 'b) \<Rightarrow> 'e + 'b" where
  \<comment> \<open>\<open>if err != nil { return err }\<close>\<close>
  "and_then r f = (case r of Inl e \<Rightarrow> Inl e | Inr a \<Rightarrow> f a)"

lemma and_then_simps [simp]: "and_then (Inl e) f = Inl e" "and_then (Inr a) f = f a"
  by (simp_all add: and_then_def)

lemma and_then_Inr: "and_then r f = Inr b \<longleftrightarrow> (\<exists>a. r = Inr a \<and> f a = Inr b)"
  by (cases r) auto

datatype sql_err = NoRows | SqlErr string
  \<comment> \<open>\<open>sql.ErrNoRows\<close> and every other error of a statement\<close>

subsection \<open>Time\<close>

definition wrap64 :: "int \<Rightarrow> int" where
  "wrap64 x = (x + 2 ^ 63) mod 2 ^ 64 - 2 ^ 63"

definition second :: int where "second = 1000000000"

definition hour :: int where "hour = 3600 * second"

definition zero_time :: nanos where
  \<comment> \<open>\<open>time.Time{}\<close>: midnight, 1 January of the year 1\<close>
  "zero_time = - 62135596800 * 1000000000"

definition to_secs :: "nanos \<Rightarrow> secs" where
  \<comment> \<open>formatting drops the fraction of the second\<close>
  "to_secs t = t div second"

definition of_secs :: "secs \<Rightarrow> nanos" where
  "of_secs s = s * second"

definition dur_sub :: "nanos \<Rightarrow> nanos \<Rightarrow> int" where
  "dur_sub t u = max (- (2 ^ 63)) (min (2 ^ 63 - 1) (t - u))"

lemma wrap64_id: "- (2 ^ 63) \<le> x \<Longrightarrow> x < 2 ^ 63 \<Longrightarrow> wrap64 x = x"
  by (simp add: wrap64_def)

lemma wrap64_range: "- (2 ^ 63) \<le> wrap64 x \<and> wrap64 x < 2 ^ 63"
proof -
  have "0 \<le> (x + 2 ^ 63) mod 2 ^ 64" "(x + 2 ^ 63) mod 2 ^ 64 < 2 ^ 64" by simp_all
  then show ?thesis by (simp add: wrap64_def)
qed

lemma dur_sub_mono: "u \<le> v \<Longrightarrow> dur_sub t v \<le> dur_sub t u"
  by (simp add: dur_sub_def)

lemma dur_sub_gt_mono: "u \<le> v \<Longrightarrow> w < dur_sub t v \<Longrightarrow> w < dur_sub t u"
  using dur_sub_mono[of u v t] by linarith

lemma dur_sub_mono_left: "t \<le> t' \<Longrightarrow> dur_sub t u \<le> dur_sub t' u"
  by (simp add: dur_sub_def)

lemma dur_sub_gt_mono_left: "t \<le> t' \<Longrightarrow> w < dur_sub t u \<Longrightarrow> w < dur_sub t' u"
  using dur_sub_mono_left[of t t' u] by linarith

lemma of_to_secs_le: "of_secs (to_secs t) \<le> t"
  using minus_mod_eq_mult_div[of t second] pos_mod_sign[of second t]
  by (simp add: of_secs_def to_secs_def second_def)

lemma to_of_secs [simp]: "to_secs (of_secs s) = s"
  by (simp add: to_secs_def of_secs_def second_def)

lemma to_secs_mono: "t \<le> u \<Longrightarrow> to_secs t \<le> to_secs u"
  by (simp add: to_secs_def second_def zdiv_mono1)

lemma of_secs_mono: "s \<le> r \<Longrightarrow> of_secs s \<le> of_secs r"
  by (simp add: of_secs_def second_def)

subsection \<open>Strings\<close>

text \<open>
  \<open>strings.TrimSpace\<close>, \<open>strings.ToLower\<close>, \<open>strings.EqualFold\<close> and SQLite's \<open>LOWER\<close> on
  ASCII text: the six ASCII space characters and the letters A to Z.
\<close>

definition is_space :: "char \<Rightarrow> bool" where
  "is_space c \<longleftrightarrow> (let n = (of_char c :: nat) in n = 32 \<or> (9 \<le> n \<and> n \<le> 13))"

definition trim_left :: "(char \<Rightarrow> bool) \<Rightarrow> string \<Rightarrow> string" where
  "trim_left p s = dropWhile p s"

definition trim_right :: "(char \<Rightarrow> bool) \<Rightarrow> string \<Rightarrow> string" where
  "trim_right p s = rev (dropWhile p (rev s))"

definition trim_both :: "(char \<Rightarrow> bool) \<Rightarrow> string \<Rightarrow> string" where
  "trim_both p s = trim_right p (trim_left p s)"

definition trim_space :: "string \<Rightarrow> string" where
  "trim_space s = trim_both is_space s"

definition in_range :: "char \<Rightarrow> char \<Rightarrow> char \<Rightarrow> bool" where
  "in_range lo hi c \<longleftrightarrow> (of_char lo :: nat) \<le> of_char c \<and> (of_char c :: nat) \<le> of_char hi"

definition to_lower :: "char \<Rightarrow> char" where
  "to_lower c = (if in_range (CHR ''A'') (CHR ''Z'') c then char_of ((of_char c :: nat) + 32) else c)"

definition to_upper :: "char \<Rightarrow> char" where
  "to_upper c = (if in_range (CHR ''a'') (CHR ''z'') c then char_of ((of_char c :: nat) - 32) else c)"

definition lower :: "string \<Rightarrow> string" where "lower s = map to_lower s"

definition upper :: "string \<Rightarrow> string" where "upper s = map to_upper s"

definition equal_fold :: "string \<Rightarrow> string \<Rightarrow> bool" where
  \<comment> \<open>\<open>strings.EqualFold\<close> on ASCII text\<close>
  "equal_fold a b \<longleftrightarrow> lower a = lower b"

fun has_prefix :: "string \<Rightarrow> string \<Rightarrow> bool" where
  "has_prefix s [] = True"
| "has_prefix [] (p # ps) = False"
| "has_prefix (c # s) (p # ps) = (c = p \<and> has_prefix s ps)"

fun split_on :: "char \<Rightarrow> string \<Rightarrow> string list" where
  \<comment> \<open>\<open>strings.Split\<close> on one byte: never empty\<close>
  "split_on d [] = [[]]"
| "split_on d (c # s) =
     (if c = d then [] # split_on d s
      else (case split_on d s of w # ws \<Rightarrow> (c # w) # ws | [] \<Rightarrow> [[c]]))"

fun join_with :: "string \<Rightarrow> string list \<Rightarrow> string" where
  "join_with sep [] = []"
| "join_with sep [x] = x"
| "join_with sep (x # y # zs) = x @ sep @ join_with sep (y # zs)"

definition hex_digit :: "nat \<Rightarrow> char" where
  "hex_digit n = ''0123456789abcdef'' ! n"

definition hex_encode :: "string \<Rightarrow> string" where
  "hex_encode bs = concat (map (\<lambda>b. let n = (of_char b :: nat) in [hex_digit (n div 16), hex_digit (n mod 16)]) bs)"

fun nat_str :: "nat \<Rightarrow> string" where
  "nat_str n = (if n < 10 then [''0123456789'' ! n] else nat_str (n div 10) @ [''0123456789'' ! (n mod 10)])"

declare nat_str.simps [simp del]

definition int_str :: "int \<Rightarrow> string" where
  \<comment> \<open>\<open>strconv.FormatInt(n, 10)\<close>\<close>
  "int_str n = (if n < 0 then CHR ''-'' # nat_str (nat (- n)) else nat_str (nat n))"

lemma has_prefix_iff: "has_prefix s p \<longleftrightarrow> (\<exists>t. s = p @ t)"
  by (induction s p rule: has_prefix.induct) auto

lemma of_char_to_lower:
  "(of_char (to_lower c) :: nat) = (if 65 \<le> (of_char c :: nat) \<and> (of_char c :: nat) \<le> 90 then of_char c + 32 else of_char c)"
  by (simp add: to_lower_def in_range_def of_char_of take_bit_eq_mod)

lemma to_lower_idem [simp]: "to_lower (to_lower c) = to_lower c"
proof -
  have "(of_char (to_lower (to_lower c)) :: nat) = of_char (to_lower c)" by (simp add: of_char_to_lower)
  then show ?thesis by (simp only: of_char_eq_iff)
qed

lemma to_lower_fixed:
  assumes "\<not> (65 \<le> (of_char x :: nat) \<and> (of_char x :: nat) \<le> 90)" and "\<not> (97 \<le> (of_char x :: nat) \<and> (of_char x :: nat) \<le> 122)"
  shows "to_lower c = x \<longleftrightarrow> c = x"
proof -
  have "to_lower c = x \<longleftrightarrow> (of_char (to_lower c) :: nat) = of_char x" by (rule of_char_eq_iff[symmetric])
  also have "\<dots> \<longleftrightarrow> (of_char c :: nat) = of_char x" using assms by (auto simp: of_char_to_lower)
  also have "\<dots> \<longleftrightarrow> c = x" by (rule of_char_eq_iff)
  finally show ?thesis .
qed

lemma lower_idem [simp]: "lower (lower s) = lower s"
  by (simp add: lower_def)

lemma lower_simps [simp]: "lower [] = []" "lower (c # s) = to_lower c # lower s"
  by (simp_all add: lower_def)

lemma lower_append [simp]: "lower (a @ b) = lower a @ lower b"
  by (simp add: lower_def)

lemma lower_eq_append: "lower v = a @ b \<longleftrightarrow> (\<exists>x y. v = x @ y \<and> lower x = a \<and> lower y = b)"
  by (auto simp: lower_def map_eq_append_conv)

lemma equal_fold_refl [simp]: "equal_fold a a"
  by (simp add: equal_fold_def)

lemma equal_fold_sym: "equal_fold a b \<Longrightarrow> equal_fold b a"
  by (simp add: equal_fold_def)

lemma equal_fold_trans: "equal_fold a b \<Longrightarrow> equal_fold b c \<Longrightarrow> equal_fold a c"
  by (simp add: equal_fold_def)

lemma split_on_not_Nil [simp]: "split_on d s \<noteq> []"
  by (cases s) (auto split: list.splits)

lemma split_on_none: "d \<notin> set p \<Longrightarrow> split_on d p = [p]"
  by (induction p) auto

lemma split_on_append: "split_on d (a @ d # b) = split_on d a @ split_on d b"
proof (induction a)
  case Nil
  show ?case by simp
next
  case (Cons c a)
  show ?case
  proof (cases "c = d")
    case True
    then show ?thesis using Cons by simp
  next
    case False
    obtain w ws where w: "split_on d a = w # ws"
      using split_on_not_Nil[of d a] by (cases "split_on d a") auto
    from False Cons show ?thesis by (simp add: w)
  qed
qed

lemma join_split [simp]: "join_with [d] (split_on d s) = s"
proof (induction s)
  case Nil
  show ?case by simp
next
  case (Cons c s)
  obtain w ws where w: "split_on d s = w # ws"
    using split_on_not_Nil[of d s] by (cases "split_on d s") auto
  with Cons show ?case by (cases ws) auto
qed

lemma dropWhile_idem [simp]: "dropWhile p (dropWhile p xs) = dropWhile p xs"
  by (induction xs) auto

lemma trim_left_hd: "trim_left p s = c # t \<Longrightarrow> \<not> p c"
  unfolding trim_left_def by (metis dropWhile_eq_Cons_conv)

subsection \<open>Tables\<close>

definition update_where :: "('r \<Rightarrow> bool) \<Rightarrow> ('r \<Rightarrow> 'r) \<Rightarrow> 'r list \<Rightarrow> 'r list" where
  "update_where p f rows = map (\<lambda>r. if p r then f r else r) rows"

definition delete_where :: "('r \<Rightarrow> bool) \<Rightarrow> 'r list \<Rightarrow> 'r list" where
  "delete_where p rows = filter (\<lambda>r. \<not> p r) rows"

definition affected :: "('r \<Rightarrow> bool) \<Rightarrow> 'r list \<Rightarrow> nat" where
  \<comment> \<open>\<open>RowsAffected\<close> of an UPDATE or DELETE with this condition\<close>
  "affected p rows = length (filter p rows)"

definition next_rowid :: "int list \<Rightarrow> int" where
  \<comment> \<open>an \<open>INTEGER PRIMARY KEY\<close> without AUTOINCREMENT: one more than the largest in use\<close>
  "next_rowid ids = (if ids = [] then 1 else Max (set ids) + 1)"

definition upsert :: "('r \<Rightarrow> bool) \<Rightarrow> ('r \<Rightarrow> 'r) \<Rightarrow> 'r \<Rightarrow> 'r list \<Rightarrow> 'r list" where
  \<comment> \<open>\<open>INSERT ... ON CONFLICT DO UPDATE\<close>: \<open>p\<close> is the conflict on the unique key\<close>
  "upsert p f new rows =
     (if List.find p rows = None then rows @ [new] else update_where p f rows)"

definition on_fault :: "fault \<Rightarrow> 'a list \<Rightarrow> 'a list \<Rightarrow> (sql_err + unit) \<times> 'a list" where
  \<comment> \<open>a statement's error, or the rows it leaves\<close>
  "on_fault ft rows rows' = (case ft of Some e \<Rightarrow> (Inl (SqlErr e), rows) | None \<Rightarrow> (Inr (), rows'))"

definition on_read :: "fault \<Rightarrow> 'a \<Rightarrow> sql_err + 'a" where
  \<comment> \<open>a query's error, or what it reads\<close>
  "on_read ft x = (case ft of Some e \<Rightarrow> Inl (SqlErr e) | None \<Rightarrow> Inr x)"

lemma update_where_simps [table_simps]:
  "update_where p f [] = []"
  "update_where p f (r # rs) = (if p r then f r else r) # update_where p f rs"
  by (simp_all add: update_where_def)

lemma delete_where_simps [table_simps]:
  "delete_where p [] = []"
  "delete_where p (r # rs) = (if p r then delete_where p rs else r # delete_where p rs)"
  by (simp_all add: delete_where_def)

lemma length_update_where [simp]: "length (update_where p f rs) = length rs"
  by (simp add: update_where_def)

lemma map_update_where:
  "(\<And>r. g (f r) = g r) \<Longrightarrow> map g (update_where p f rs) = map g rs"
  by (simp add: update_where_def)

lemma set_update_where:
  "set (update_where p f rs) = f ` {r \<in> set rs. p r} \<union> {r \<in> set rs. \<not> p r}"
  by (auto simp: update_where_def)

lemma set_delete_where [simp]: "set (delete_where p rs) = {r \<in> set rs. \<not> p r}"
  by (simp add: delete_where_def)

lemma update_where_none: "(\<And>r. r \<in> set rs \<Longrightarrow> \<not> p r) \<Longrightarrow> update_where p f rs = rs"
  by (induction rs) (auto simp: update_where_def)

lemma affected_0: "affected p rs = 0 \<longleftrightarrow> (\<forall>r\<in>set rs. \<not> p r)"
  by (auto simp: affected_def filter_empty_conv)

lemma find_update_where:
  "(\<And>r. q (f r) = q r) \<Longrightarrow>
   List.find q (update_where p f rs)
     = map_option (\<lambda>r. if p r then f r else r) (List.find q rs)"
  by (induction rs) (auto simp: update_where_def)

lemma find_delete_where:
  "List.find q (delete_where p rs) = List.find (\<lambda>r. q r \<and> \<not> p r) rs"
  by (induction rs) (auto simp: delete_where_def)

lemma find_append:
  "List.find q (xs @ ys) = (case List.find q xs of None \<Rightarrow> List.find q ys | Some r \<Rightarrow> Some r)"
  by (induction xs) auto

lemma find_SomeD: "List.find p xs = Some x \<Longrightarrow> x \<in> set xs \<and> p x"
  by (auto simp: find_Some_iff)

lemma find_delete_other:
  assumes "j \<noteq> k"
  shows "List.find (\<lambda>r. g r = j) (delete_where (\<lambda>r. g r = k) rs) = List.find (\<lambda>r. g r = j) rs"
proof -
  have "(\<lambda>r. g r = j \<and> g r \<noteq> k) = (\<lambda>r. g r = j)" using assms by auto
  then show ?thesis by (simp add: find_delete_where)
qed

lemma filter_update_where:
  "(\<And>r. P (f r) = P r) \<Longrightarrow> length (filter P (update_where q f rs)) = length (filter P rs)"
  by (induction rs) (auto simp: update_where_def)

lemma distinct_map_delete_where:
  "distinct (map g rs) \<Longrightarrow> distinct (map g (delete_where p rs))"
  by (induction rs) (auto simp: delete_where_def)

lemma find_Some_iff_unique:
  "distinct (map g rs) \<Longrightarrow> (List.find (\<lambda>r. g r = k) rs = Some r) \<longleftrightarrow> (r \<in> set rs \<and> g r = k)"
  by (induction rs) (auto simp: rev_image_eqI)

lemma find_None_key: "List.find (\<lambda>r. g r = k) rs = None \<longleftrightarrow> k \<notin> g ` set rs"
  by (auto simp: find_None_iff)

lemma next_rowid_fresh: "next_rowid ids \<notin> set ids"
proof
  assume a: "next_rowid ids \<in> set ids"
  then have "ids \<noteq> []" by auto
  then have "next_rowid ids = Max (set ids) + 1" by (simp add: next_rowid_def)
  moreover have "next_rowid ids \<le> Max (set ids)" using a by (intro Max_ge) auto
  ultimately show False by simp
qed

lemma distinct_upsert:
  assumes "distinct (map g rs)" and "g new = k" and "\<And>r. g (f r) = g r"
  shows "distinct (map g (upsert (\<lambda>r. g r = k) f new rs))"
  using assms by (auto simp: upsert_def map_update_where find_None_key)

lemma find_upsert_same:
  assumes "g new = k" and "\<And>r. g (f r) = g r"
  shows "List.find (\<lambda>r. g r = k) (upsert (\<lambda>r. g r = k) f new rs) =
    Some (case List.find (\<lambda>r. g r = k) rs of None \<Rightarrow> new | Some r \<Rightarrow> f r)"
proof (cases "List.find (\<lambda>r. g r = k) rs")
  case None
  then show ?thesis using assms(1) by (simp add: upsert_def find_append)
next
  case (Some r)
  then have "g r = k" by (auto simp: find_Some_iff)
  with Some show ?thesis using assms(2) by (simp add: upsert_def find_update_where)
qed

lemma find_upsert_other:
  assumes "g new = k" and "\<And>r. g (f r) = g r" and "j \<noteq> k"
  shows "List.find (\<lambda>r. g r = j) (upsert (\<lambda>r. g r = k) f new rs) = List.find (\<lambda>r. g r = j) rs"
proof (cases "List.find (\<lambda>r. g r = k) rs")
  case None
  then show ?thesis using assms by (simp add: upsert_def find_append split: option.splits)
next
  case (Some r)
  have "List.find (\<lambda>r. g r = j) (update_where (\<lambda>r. g r = k) f rs)
      = map_option (\<lambda>r. if g r = k then f r else r) (List.find (\<lambda>r. g r = j) rs)"
    using assms(2) by (simp add: find_update_where)
  also have "\<dots> = List.find (\<lambda>r. g r = j) rs"
  proof (cases "List.find (\<lambda>r. g r = j) rs")
    case (Some r')
    then have "g r' = j" by (auto simp: find_Some_iff)
    with Some assms(3) show ?thesis by simp
  qed simp
  finally show ?thesis using Some by (simp add: upsert_def)
qed

lemma update_where_find_only:
  assumes "distinct (map g rs)" and "List.find p rs = Some r" and "\<And>x. p x \<Longrightarrow> g x = g r"
  shows "update_where p f rs = update_where (\<lambda>x. g x = g r) f rs"
proof -
  have r: "r \<in> set rs" "p r" using assms(2) by (auto simp: find_Some_iff)
  have "p x \<longleftrightarrow> g x = g r" if "x \<in> set rs" for x
    using that r assms(1,3) by (metis distinct_map inj_on_def)
  then show ?thesis by (auto simp: update_where_def)
qed

lemma find_delete_unique:
  assumes "distinct (map g rows)"
  shows "List.find (\<lambda>r. g r = k) (delete_where p rows) =
    (case List.find (\<lambda>r. g r = k) rows of None \<Rightarrow> None | Some r \<Rightarrow> if p r then None else Some r)"
proof (cases "List.find (\<lambda>r. g r = k) (delete_where p rows)")
  case None
  then have n: "\<And>r. r \<in> set rows \<Longrightarrow> g r = k \<Longrightarrow> p r" by (auto simp: find_None_iff)
  have "p r" if "List.find (\<lambda>r. g r = k) rows = Some r" for r
    using that n by (auto simp: find_Some_iff)
  with None show ?thesis by (auto split: option.splits)
next
  case (Some r)
  then have "r \<in> set (delete_where p rows) \<and> g r = k"
    using find_Some_iff_unique[OF distinct_map_delete_where[OF assms]] by blast
  then have "List.find (\<lambda>r. g r = k) rows = Some r" "\<not> p r"
    using find_Some_iff_unique[OF assms] by auto
  with Some show ?thesis by simp
qed

lemmas upsert_lookup = find_upsert_same find_upsert_other

end
