(* ===== verification/Config.thy ===== *)
theory Config
  imports Prelude
begin

section \<open>Configuration\<close>

text \<open>
  \<open>internal/config/config.go\<close>: the configuration records, their defaults, environment
  overrides, secret resolution and \<open>Validate\<close>.  \<open>Validate\<close> joins one error per violated
  rule, in the order of the code; an empty list is \<open>nil\<close>.  The TOML decoder and \<open>url.Parse\<close>
  are parameters (\<open>decode\<close>; \<open>parse_url\<close>, which gives scheme and host), and so are the
  process environment (\<open>getenv\<close>) and the file system (\<open>read_file\<close>).  A Go map is the list
  of its entries in the order an iteration visits them.
\<close>

type_synonym url_parser = "string \<Rightarrow> (string \<times> string) option"

record login_policy =
  max_attempts :: int
  window_seconds :: int
  lockout_seconds :: int
  min_password_len :: int
  idle_timeout_mins :: int
  max_lifetime_mins :: int

record ldap_cfg =
  ldap_enabled :: bool
  ldap_servers :: "string list"
  start_tls :: bool
  base_dn :: string
  bind_dn :: string
  bind_password :: string
  bind_password_file :: string
  bind_password_env :: string
  user_filter :: string
  ldap_group_roles :: "(string \<times> string) list"
  ldap_default_role :: string
  ldap_ca_file :: string

record oidc_cfg =
  oidc_enabled :: bool
  issuer_url :: string
  client_id :: string
  client_secret :: string
  client_secret_file :: string
  client_secret_env :: string
  scopes :: "string list"
  group_claim :: string
  oidc_group_roles :: "(string \<times> string) list"
  oidc_default_role :: string
  username_claim :: string
  oidc_ca_file :: string

record auth_cfg =
  cfg_ldap :: ldap_cfg
  cfg_oidc :: oidc_cfg
  cfg_login :: login_policy

record tls_cfg =
  tls_mode :: string
  tls_cert_file :: string
  tls_key_file :: string
  acme_email :: string
  acme_cache_dir :: string
  acme_directory :: string
  trusted_proxies :: "string list"

record server_cfg =
  public_url :: string
  listen :: string
  mdm_path :: string
  cfg_tls :: tls_cfg

record storage_cfg =
  driver :: string
  storage_path :: string
  dsn :: string
  dsn_file :: string
  dsn_env :: string

record ca_cfg =
  ca_mode :: string
  import_cert_file :: string
  import_key_file :: string
  scep_url :: string
  ca_chain_file :: string
  crl_url :: string
  challenge_env :: string
  challenge_file :: string
  challenge :: string

record signing_cfg =
  signing_cert_file :: string
  signing_key_file :: string

record log_cfg =
  log_format :: string
  log_level :: string

record config =
  cfg_server :: server_cfg
  cfg_storage :: storage_cfg
  cfg_ca :: ca_cfg
  cfg_auth :: auth_cfg
  allow_open :: bool
  cfg_signing :: signing_cfg
  cfg_log :: log_cfg

subsection \<open>Defaults\<close>

definition login_with_defaults :: "login_policy \<Rightarrow> login_policy" where
  "login_with_defaults p =
     \<lparr>max_attempts = (if max_attempts p = 0 then 5 else max_attempts p),
      window_seconds = (if window_seconds p = 0 then 300 else window_seconds p),
      lockout_seconds = (if lockout_seconds p = 0 then 900 else lockout_seconds p),
      min_password_len = (if min_password_len p = 0 then 8 else min_password_len p),
      idle_timeout_mins = (if idle_timeout_mins p = 0 then 60 else idle_timeout_mins p),
      max_lifetime_mins = (if max_lifetime_mins p = 0 then 720 else max_lifetime_mins p)\<rparr>"

definition oidc_with_defaults :: "oidc_cfg \<Rightarrow> oidc_cfg" where
  "oidc_with_defaults oc = oc\<lparr>
      scopes := (if scopes oc = [] then [''openid'', ''profile'', ''email'', ''groups''] else scopes oc),
      group_claim := (if group_claim oc = [] then ''groups'' else group_claim oc),
      oidc_default_role := (if oidc_default_role oc = [] then ''user'' else oidc_default_role oc),
      username_claim := (if username_claim oc = [] then ''preferred_username'' else username_claim oc)\<rparr>"

definition zero_login :: login_policy where
  "zero_login = \<lparr>max_attempts = 0, window_seconds = 0, lockout_seconds = 0, min_password_len = 0,
     idle_timeout_mins = 0, max_lifetime_mins = 0\<rparr>"

definition zero_ldap :: ldap_cfg where
  "zero_ldap = \<lparr>ldap_enabled = False, ldap_servers = [], start_tls = False, base_dn = [],
     bind_dn = [], bind_password = [], bind_password_file = [], bind_password_env = [],
     user_filter = [], ldap_group_roles = [], ldap_default_role = [], ldap_ca_file = []\<rparr>"

definition zero_oidc :: oidc_cfg where
  "zero_oidc = \<lparr>oidc_enabled = False, issuer_url = [], client_id = [], client_secret = [],
     client_secret_file = [], client_secret_env = [], scopes = [], group_claim = [],
     oidc_group_roles = [], oidc_default_role = [], username_claim = [], oidc_ca_file = []\<rparr>"

definition default_config :: config where
  "default_config = \<lparr>
     cfg_server = \<lparr>public_url = [], listen = '':443'', mdm_path = ''/mdm'',
       cfg_tls = \<lparr>tls_mode = ''acme'', tls_cert_file = [], tls_key_file = [], acme_email = [],
         acme_cache_dir = [], acme_directory = [], trusted_proxies = []\<rparr>\<rparr>,
     cfg_storage = \<lparr>driver = ''sqlite'', storage_path = ''/var/db/cairn/cairn.db'',
       dsn = [], dsn_file = [], dsn_env = []\<rparr>,
     cfg_ca = \<lparr>ca_mode = ''generate'', import_cert_file = [], import_key_file = [], scep_url = [],
       ca_chain_file = [], crl_url = [], challenge_env = [], challenge_file = [], challenge = []\<rparr>,
     cfg_auth = \<lparr>cfg_ldap = zero_ldap, cfg_oidc = zero_oidc, cfg_login = zero_login\<rparr>,
     allow_open = False,
     cfg_signing = \<lparr>signing_cert_file = [], signing_key_file = []\<rparr>,
     cfg_log = \<lparr>log_format = ''text'', log_level = ''info''\<rparr>\<rparr>"

definition embedded :: "string \<Rightarrow> bool" where
  "embedded m \<longleftrightarrow> m = ''generate'' \<or> m = ''import''"

definition signing_enabled :: "signing_cfg \<Rightarrow> bool" where
  "signing_enabled s \<longleftrightarrow> signing_cert_file s \<noteq> [] \<or> signing_key_file s \<noteq> []"

subsection \<open>Validation\<close>

datatype cfg_error =
    PublicURLRequired | PublicURLNotHttps string | ListenRequired | MDMPathNoSlash string
  | AcmeEmailRequired | TLSFilesRequired | TLSModeUnknown string
  | StoragePathRequired | StorageDSNRequired string | StorageDriverUnknown string
  | ImportFilesRequired | ScepURLRequired | CAChainRequired | CAModeUnknown string
  | SigningNeedsBoth
  | LdapServersRequired | LdapServerMalformed string | LdapServerPlaintext string
  | LdapBaseDNRequired | LdapBindRequired | LdapGroupRole string string | LdapDefaultRole string
  | OidcIssuerRequired | OidcIssuerNotHttps string | OidcClientIDRequired | OidcSecretRequired
  | OidcGroupRole string string | OidcDefaultRole string
  | LoginNegative string int

definition err_if :: "bool \<Rightarrow> cfg_error \<Rightarrow> cfg_error list" where
  "err_if b e = (if b then [e] else [])"

definition https_url :: "url_parser \<Rightarrow> string \<Rightarrow> bool" where
  "https_url parse_url s =
     (case parse_url s of None \<Rightarrow> False | Some (scheme, host) \<Rightarrow> scheme = ''https'' \<and> host \<noteq> [])"

definition known_role_name :: "string \<Rightarrow> bool" where
  "known_role_name r \<longleftrightarrow> r = ''admin'' \<or> r = ''operator'' \<or> r = ''user''"

definition validate_server :: "url_parser \<Rightarrow> server_cfg \<Rightarrow> cfg_error list" where
  "validate_server parse_url s =
     (if public_url s = [] then [PublicURLRequired]
      else err_if (\<not> https_url parse_url (public_url s)) (PublicURLNotHttps (public_url s))) @
     err_if (listen s = []) ListenRequired @
     err_if (\<not> has_prefix (mdm_path s) ''/'') (MDMPathNoSlash (mdm_path s)) @
     (let t = cfg_tls s in
      if tls_mode t = ''acme'' then err_if (acme_email t = []) AcmeEmailRequired
      else if tls_mode t = ''files'' then
        err_if (tls_cert_file t = [] \<or> tls_key_file t = []) TLSFilesRequired
      else if tls_mode t = ''proxy'' then []
      else [TLSModeUnknown (tls_mode t)])"

definition validate_storage :: "storage_cfg \<Rightarrow> cfg_error list" where
  "validate_storage s =
     (if driver s = ''sqlite'' then err_if (storage_path s = []) StoragePathRequired
      else if driver s = ''mysql'' \<or> driver s = ''postgres'' then
        err_if (dsn s = []) (StorageDSNRequired (driver s))
      else [StorageDriverUnknown (driver s)])"

definition validate_ca :: "ca_cfg \<Rightarrow> cfg_error list" where
  "validate_ca c =
     (if ca_mode c = ''generate'' then []
      else if ca_mode c = ''import'' then
        err_if (import_cert_file c = [] \<or> import_key_file c = []) ImportFilesRequired
      else if ca_mode c = ''external'' then
        err_if (scep_url c = []) ScepURLRequired @ err_if (ca_chain_file c = []) CAChainRequired
      else [CAModeUnknown (ca_mode c)])"

definition validate_signing :: "signing_cfg \<Rightarrow> cfg_error list" where
  "validate_signing s =
     (if signing_enabled s then err_if (signing_cert_file s = [] \<or> signing_key_file s = []) SigningNeedsBoth
      else [])"

definition validate_ldap_server :: "url_parser \<Rightarrow> bool \<Rightarrow> string \<Rightarrow> cfg_error list" where
  "validate_ldap_server parse_url tls s =
     (case parse_url s of
        None \<Rightarrow> [LdapServerMalformed s]
      | Some (scheme, host) \<Rightarrow>
          if (scheme \<noteq> ''ldap'' \<and> scheme \<noteq> ''ldaps'') \<or> host = [] then [LdapServerMalformed s]
          else err_if (scheme = ''ldap'' \<and> \<not> tls) (LdapServerPlaintext s))"

definition validate_ldap :: "url_parser \<Rightarrow> ldap_cfg \<Rightarrow> cfg_error list" where
  "validate_ldap parse_url l =
     (if \<not> ldap_enabled l then []
      else
        err_if (ldap_servers l = []) LdapServersRequired @
        concat (map (validate_ldap_server parse_url (start_tls l)) (ldap_servers l)) @
        err_if (base_dn l = []) LdapBaseDNRequired @
        err_if (bind_dn l = [] \<or> bind_password l = []) LdapBindRequired @
        concat (map (\<lambda>(dn, r). err_if (\<not> known_role_name r) (LdapGroupRole dn r)) (ldap_group_roles l)) @
        err_if (ldap_default_role l \<noteq> [] \<and> \<not> known_role_name (ldap_default_role l))
          (LdapDefaultRole (ldap_default_role l)))"

definition validate_oidc :: "url_parser \<Rightarrow> oidc_cfg \<Rightarrow> cfg_error list" where
  "validate_oidc parse_url oc =
     (if \<not> oidc_enabled oc then []
      else
        (if issuer_url oc = [] then [OidcIssuerRequired]
         else err_if (\<not> https_url parse_url (issuer_url oc)) (OidcIssuerNotHttps (issuer_url oc))) @
        err_if (client_id oc = []) OidcClientIDRequired @
        err_if (client_secret oc = []) OidcSecretRequired @
        concat (map (\<lambda>(g, r). err_if (\<not> known_role_name r) (OidcGroupRole g r)) (oidc_group_roles oc)) @
        err_if (oidc_default_role oc \<noteq> [] \<and> \<not> known_role_name (oidc_default_role oc))
          (OidcDefaultRole (oidc_default_role oc)))"

definition validate_login :: "login_policy \<Rightarrow> cfg_error list" where
  "validate_login lp =
     concat (map (\<lambda>(n, v). err_if (v < 0) (LoginNegative n v))
       [(''max_attempts'', max_attempts lp), (''window_seconds'', window_seconds lp),
        (''lockout_seconds'', lockout_seconds lp), (''min_password_len'', min_password_len lp),
        (''idle_timeout_mins'', idle_timeout_mins lp), (''max_lifetime_mins'', max_lifetime_mins lp)])"

definition validate :: "url_parser \<Rightarrow> config \<Rightarrow> cfg_error list" where
  "validate parse_url c =
     validate_server parse_url (cfg_server c) @ validate_storage (cfg_storage c) @
     validate_ca (cfg_ca c) @ validate_signing (cfg_signing c) @
     validate_ldap parse_url (cfg_ldap (cfg_auth c)) @
     validate_oidc parse_url (cfg_oidc (cfg_auth c)) @
     validate_login (cfg_login (cfg_auth c))"

subsection \<open>Loading\<close>

datatype load_error =
    ReadConfig string string | ParseConfig string string
  | SecretEnvUnset string string | SecretFileUnreadable string string
  | Invalid "cfg_error list"

definition override :: "(string \<Rightarrow> string option) \<Rightarrow> string \<Rightarrow> string \<Rightarrow> string" where
  \<comment> \<open>\<open>if v := os.Getenv(k); v != "" { field = v }\<close>\<close>
  "override getenv k old = (case getenv k of None \<Rightarrow> old | Some v \<Rightarrow> if v = [] then old else v)"

definition apply_env_overrides :: "(string \<Rightarrow> string option) \<Rightarrow> config \<Rightarrow> config" where
  "apply_env_overrides getenv c = c\<lparr>
     cfg_server := (cfg_server c)\<lparr>
       public_url := override getenv ''CAIRN_PUBLIC_URL'' (public_url (cfg_server c)),
       listen := override getenv ''CAIRN_LISTEN'' (listen (cfg_server c))\<rparr>,
     cfg_storage := (cfg_storage c)\<lparr>
       storage_path := override getenv ''CAIRN_STORAGE_PATH'' (storage_path (cfg_storage c))\<rparr>,
     cfg_log := (cfg_log c)\<lparr>
       log_level := override getenv ''CAIRN_LOG_LEVEL'' (log_level (cfg_log c)),
       log_format := override getenv ''CAIRN_LOG_FORMAT'' (log_format (cfg_log c))\<rparr>\<rparr>"

definition read_secret ::
  "(string \<Rightarrow> string option) \<Rightarrow> (string \<Rightarrow> string + string) \<Rightarrow>
   string \<Rightarrow> string \<Rightarrow> string \<Rightarrow> string \<Rightarrow> load_error + string" where
  "read_secret getenv read_file name inline file env =
     (if env \<noteq> [] then
        (case getenv env of Some v \<Rightarrow> Inr v | None \<Rightarrow> Inl (SecretEnvUnset name env))
      else if file \<noteq> [] then
        (case read_file file of
           Inl e \<Rightarrow> Inl (SecretFileUnreadable name e)
         | Inr b \<Rightarrow> Inr (trim_space b))
      else Inr inline)"

type_synonym env = "string \<Rightarrow> string option"
type_synonym files = "string \<Rightarrow> string + string"

definition resolve_dsn :: "env \<Rightarrow> files \<Rightarrow> config \<Rightarrow> load_error + config" where
  "resolve_dsn getenv read_file c =
     and_then (read_secret getenv read_file ''storage.dsn'' (dsn (cfg_storage c))
        (dsn_file (cfg_storage c)) (dsn_env (cfg_storage c)))
       (\<lambda>d. Inr (c\<lparr>cfg_storage := (cfg_storage c)\<lparr>dsn := d\<rparr>\<rparr>))"

definition resolve_challenge :: "env \<Rightarrow> files \<Rightarrow> config \<Rightarrow> load_error + config" where
  "resolve_challenge getenv read_file c =
     and_then (read_secret getenv read_file ''ca.external.challenge'' []
        (challenge_file (cfg_ca c)) (challenge_env (cfg_ca c)))
       (\<lambda>ch. Inr (c\<lparr>cfg_ca := (cfg_ca c)\<lparr>challenge := ch\<rparr>\<rparr>))"

definition resolve_bind_password :: "env \<Rightarrow> files \<Rightarrow> config \<Rightarrow> load_error + config" where
  "resolve_bind_password getenv read_file c =
     (let l = cfg_ldap (cfg_auth c) in
      if ldap_enabled l then
        and_then (read_secret getenv read_file ''auth.ldap.bind_password'' []
           (bind_password_file l) (bind_password_env l))
          (\<lambda>pw. Inr (c\<lparr>cfg_auth := (cfg_auth c)\<lparr>cfg_ldap := l\<lparr>bind_password := pw\<rparr>\<rparr>\<rparr>))
      else Inr c)"

definition resolve_client_secret :: "env \<Rightarrow> files \<Rightarrow> config \<Rightarrow> load_error + config" where
  "resolve_client_secret getenv read_file c =
     (let oc = cfg_oidc (cfg_auth c) in
      if oidc_enabled oc then
        and_then (read_secret getenv read_file ''auth.oidc.client_secret'' []
           (client_secret_file oc) (client_secret_env oc))
          (\<lambda>sec. Inr (c\<lparr>cfg_auth := (cfg_auth c)\<lparr>cfg_oidc := oc\<lparr>client_secret := sec\<rparr>\<rparr>\<rparr>))
      else Inr c)"

definition resolve_secrets :: "env \<Rightarrow> files \<Rightarrow> config \<Rightarrow> load_error + config" where
  "resolve_secrets getenv read_file c =
     and_then (resolve_dsn getenv read_file c) (\<lambda>c1.
     and_then (resolve_challenge getenv read_file c1) (\<lambda>c2.
     and_then (resolve_bind_password getenv read_file c2) (\<lambda>c3.
     resolve_client_secret getenv read_file c3)))"

definition load ::
  "(string \<Rightarrow> config \<Rightarrow> string + config) \<Rightarrow> url_parser \<Rightarrow> (string \<Rightarrow> string option) \<Rightarrow>
   (string \<Rightarrow> string + string) \<Rightarrow> string \<Rightarrow> load_error + config" where
  "load decode parse_url getenv read_file path =
     (case (if path = [] then Inr default_config
            else case read_file path of
                   Inl e \<Rightarrow> Inl (ReadConfig path e)
                 | Inr data \<Rightarrow>
                     (case decode data default_config of
                        Inl e \<Rightarrow> Inl (ParseConfig path e) | Inr c \<Rightarrow> Inr c)) of
        Inl e \<Rightarrow> Inl e
      | Inr c \<Rightarrow>
          (case resolve_secrets getenv read_file (apply_env_overrides getenv c) of
             Inl e \<Rightarrow> Inl e
           | Inr c' \<Rightarrow>
               (let errs = validate parse_url c' in
                if errs \<noteq> [] then Inl (Invalid errs) else Inr c')))"

subsection \<open>What validation guarantees\<close>

lemma err_if_Nil [simp]: "err_if b e = [] \<longleftrightarrow> \<not> b"
  by (simp add: err_if_def)

lemma login_with_defaults_nonzero:
  "max_attempts (login_with_defaults p) \<noteq> 0" "window_seconds (login_with_defaults p) \<noteq> 0"
  "lockout_seconds (login_with_defaults p) \<noteq> 0" "min_password_len (login_with_defaults p) \<noteq> 0"
  "idle_timeout_mins (login_with_defaults p) \<noteq> 0" "max_lifetime_mins (login_with_defaults p) \<noteq> 0"
  by (simp_all add: login_with_defaults_def)

lemma login_with_defaults_idem [simp]:
  "login_with_defaults (login_with_defaults p) = login_with_defaults p"
  by (cases p) (simp add: login_with_defaults_def)

lemma oidc_with_defaults_idem [simp]:
  "oidc_with_defaults (oidc_with_defaults c) = oidc_with_defaults c"
  by (cases c) (simp add: oidc_with_defaults_def)

lemma validate_login_Nil:
  "validate_login lp = [] \<longleftrightarrow>
     0 \<le> max_attempts lp \<and> 0 \<le> window_seconds lp \<and> 0 \<le> lockout_seconds lp \<and>
     0 \<le> min_password_len lp \<and> 0 \<le> idle_timeout_mins lp \<and> 0 \<le> max_lifetime_mins lp"
  by (auto simp: validate_login_def)

lemma validated_login_positive:
  assumes "validate_login lp = []"
  shows "0 < max_attempts (login_with_defaults lp)" "0 < window_seconds (login_with_defaults lp)"
    "0 < lockout_seconds (login_with_defaults lp)" "0 < min_password_len (login_with_defaults lp)"
    "0 < idle_timeout_mins (login_with_defaults lp)" "0 < max_lifetime_mins (login_with_defaults lp)"
  using assms by (auto simp: validate_login_Nil login_with_defaults_def)

lemma validate_ldap_server_Nil:
  "validate_ldap_server parse_url tls s = [] \<longleftrightarrow>
     (\<exists>scheme host. parse_url s = Some (scheme, host) \<and> host \<noteq> [] \<and>
        (scheme = ''ldaps'' \<or> scheme = ''ldap'' \<and> tls))"
  by (auto simp: validate_ldap_server_def split: option.splits)

definition directory_ok :: "url_parser \<Rightarrow> ldap_cfg \<Rightarrow> bool" where
  "directory_ok parse_url l \<longleftrightarrow>
     ldap_servers l \<noteq> [] \<and>
     (\<forall>s\<in>set (ldap_servers l). \<exists>scheme host. parse_url s = Some (scheme, host) \<and> host \<noteq> [] \<and>
        (scheme = ''ldaps'' \<or> scheme = ''ldap'' \<and> start_tls l)) \<and>
     base_dn l \<noteq> [] \<and> bind_dn l \<noteq> [] \<and> bind_password l \<noteq> [] \<and>
     (\<forall>r\<in>snd ` set (ldap_group_roles l). r \<in> {''admin'', ''operator'', ''user''}) \<and>
     ldap_default_role l \<in> {[], ''admin'', ''operator'', ''user''}"

definition sso_ok :: "url_parser \<Rightarrow> oidc_cfg \<Rightarrow> bool" where
  "sso_ok parse_url s \<longleftrightarrow>
     (\<exists>host. parse_url (issuer_url s) = Some (''https'', host) \<and> host \<noteq> []) \<and> issuer_url s \<noteq> [] \<and>
     client_id s \<noteq> [] \<and> client_secret s \<noteq> [] \<and>
     (\<forall>r\<in>snd ` set (oidc_group_roles s). r \<in> {''admin'', ''operator'', ''user''}) \<and>
     oidc_default_role s \<in> {[], ''admin'', ''operator'', ''user''}"

lemma https_url_iff: "https_url parse_url s \<longleftrightarrow> (\<exists>host. parse_url s = Some (''https'', host) \<and> host \<noteq> [])"
  by (auto simp: https_url_def split: option.splits)

lemma validate_ldap_Nil:
  "validate_ldap parse_url l = [] \<longleftrightarrow> (ldap_enabled l \<longrightarrow> directory_ok parse_url l)"
  by (force simp: validate_ldap_def directory_ok_def validate_ldap_server_Nil known_role_name_def)

lemma validate_oidc_Nil:
  "validate_oidc parse_url s = [] \<longleftrightarrow> (oidc_enabled s \<longrightarrow> sso_ok parse_url s)"
  by (force simp: validate_oidc_def sso_ok_def https_url_iff known_role_name_def)

lemma validate_server_Nil:
  "validate_server parse_url s = [] \<longleftrightarrow>
     public_url s \<noteq> [] \<and> https_url parse_url (public_url s) \<and> listen s \<noteq> [] \<and>
     has_prefix (mdm_path s) ''/'' \<and>
     (tls_mode (cfg_tls s) = ''acme'' \<and> acme_email (cfg_tls s) \<noteq> [] \<or>
      tls_mode (cfg_tls s) = ''files'' \<and> tls_cert_file (cfg_tls s) \<noteq> [] \<and> tls_key_file (cfg_tls s) \<noteq> [] \<or>
      tls_mode (cfg_tls s) = ''proxy'')"
  by (simp add: validate_server_def Let_def)

lemma validate_ca_Nil:
  "validate_ca c = [] \<longleftrightarrow>
     ca_mode c = ''generate'' \<or>
     ca_mode c = ''import'' \<and> import_cert_file c \<noteq> [] \<and> import_key_file c \<noteq> [] \<or>
     ca_mode c = ''external'' \<and> scep_url c \<noteq> [] \<and> ca_chain_file c \<noteq> []"
  by (simp add: validate_ca_def)

lemma validate_storage_Nil:
  "validate_storage s = [] \<longleftrightarrow>
     driver s = ''sqlite'' \<and> storage_path s \<noteq> [] \<or> (driver s = ''mysql'' \<or> driver s = ''postgres'') \<and> dsn s \<noteq> []"
  by (auto simp: validate_storage_def)

lemma validate_signing_Nil:
  "validate_signing s = [] \<longleftrightarrow> (signing_enabled s \<longrightarrow> signing_cert_file s \<noteq> [] \<and> signing_key_file s \<noteq> [])"
  by (simp add: validate_signing_def)

lemmas validate_parts = validate_server_Nil validate_storage_Nil validate_ca_Nil validate_signing_Nil validate_ldap_Nil
  validate_oidc_Nil

lemma load_Inr:
  "load decode parse_url getenv read_file path = Inr c \<Longrightarrow>
   \<exists>c0. resolve_secrets getenv read_file (apply_env_overrides getenv c0) = Inr c \<and> validate parse_url c = []"
  by (auto simp: load_def Let_def split: sum.splits if_splits)

text \<open>
  C23: Whatever the file, the environment and the secret references say, a configuration that
  \<open>Load\<close> returns is complete and safe: an absolute https public URL, a TLS, a storage and a CA
  mode that the program knows, each with the files or the address that mode needs, a signing
  identity with both of its files or none, a login policy whose six effective bounds are all
  positive, no directory server that would carry a bind password in clear text, and only known
  roles in the group maps and the default roles of both external providers.
\<close>

theorem load_safe:
  assumes "load decode parse_url getenv read_file path = Inr c"
  shows "(\<exists>host. parse_url (public_url (cfg_server c)) = Some (''https'', host) \<and> host \<noteq> []) \<and> listen (cfg_server c) \<noteq> [] \<and>
    (let t = cfg_tls (cfg_server c) in
       tls_mode t = ''acme'' \<and> acme_email t \<noteq> [] \<or>
       tls_mode t = ''files'' \<and> tls_cert_file t \<noteq> [] \<and> tls_key_file t \<noteq> [] \<or> tls_mode t = ''proxy'') \<and>
    (let s = cfg_storage c in
       driver s = ''sqlite'' \<and> storage_path s \<noteq> [] \<or> (driver s = ''mysql'' \<or> driver s = ''postgres'') \<and> dsn s \<noteq> []) \<and>
    (let a = cfg_ca c in
       ca_mode a = ''generate'' \<or>
       ca_mode a = ''import'' \<and> import_cert_file a \<noteq> [] \<and> import_key_file a \<noteq> [] \<or>
       ca_mode a = ''external'' \<and> scep_url a \<noteq> [] \<and> ca_chain_file a \<noteq> []) \<and>
    (let g = cfg_signing c in signing_cert_file g \<noteq> [] \<longleftrightarrow> signing_key_file g \<noteq> []) \<and>
    (let p = login_with_defaults (cfg_login (cfg_auth c)) in
       0 < max_attempts p \<and> 0 < window_seconds p \<and> 0 < lockout_seconds p \<and>
       0 < min_password_len p \<and> 0 < idle_timeout_mins p \<and> 0 < max_lifetime_mins p) \<and>
    (ldap_enabled (cfg_ldap (cfg_auth c)) \<longrightarrow> directory_ok parse_url (cfg_ldap (cfg_auth c))) \<and>
    (oidc_enabled (cfg_oidc (cfg_auth c)) \<longrightarrow> sso_ok parse_url (cfg_oidc (cfg_auth c)))"
proof -
  from load_Inr[OF assms] have v: "validate parse_url c = []" by blast
  then have l: "validate_login (cfg_login (cfg_auth c)) = []" by (simp add: validate_def)
  have s: "signing_enabled (cfg_signing c) \<longleftrightarrow> signing_cert_file (cfg_signing c) \<noteq> [] \<or> signing_key_file (cfg_signing c) \<noteq> []"
    by (auto simp: signing_enabled_def)
  show ?thesis
    using v s validated_login_positive[OF l] unfolding Let_def validate_def append_is_Nil_conv validate_parts https_url_iff by blast
qed

definition demo_url :: url_parser where
  "demo_url s = (if has_prefix s ''https://'' then Some (''https'', drop 8 s)
     else if has_prefix s ''ldaps://'' then Some (''ldaps'', drop 8 s) else None)"

definition demo_decode :: "string \<Rightarrow> config \<Rightarrow> string + config" where
  "demo_decode data c = Inr (c\<lparr>
     cfg_server := (cfg_server c)\<lparr>cfg_tls := (cfg_tls (cfg_server c))\<lparr>tls_mode := ''proxy''\<rparr>\<rparr>,
     cfg_auth := (cfg_auth c)\<lparr>cfg_ldap := (cfg_ldap (cfg_auth c))\<lparr>ldap_enabled := True,
       ldap_servers := [''ldaps://dc1''], base_dn := ''DC=x'', bind_dn := ''CN=svc'',
       bind_password_env := ''PW'', ldap_group_roles := [(''CN=Admins'', ''admin'')]\<rparr>\<rparr>\<rparr>)"

definition demo_env :: "string \<Rightarrow> string option" where
  "demo_env k = (if k = ''CAIRN_PUBLIC_URL'' then Some ''https://mdm.example.org''
     else if k = ''PW'' then Some ''secret'' else None)"

definition demo_config :: config where
  "demo_config = (case load demo_decode demo_url demo_env (\<lambda>_. Inr []) ''cairn.toml'' of
     Inr c \<Rightarrow> c | Inl _ \<Rightarrow> default_config)"

lemma demo_load: "load demo_decode demo_url demo_env (\<lambda>_. Inr []) ''cairn.toml'' = Inr demo_config"
  by code_simp

theorem load_safe_witness:
  "ldap_enabled (cfg_ldap (cfg_auth demo_config)) \<and>
   directory_ok demo_url (cfg_ldap (cfg_auth demo_config)) \<and>
   0 < idle_timeout_mins (login_with_defaults (cfg_login (cfg_auth demo_config)))"
proof -
  have "ldap_enabled (cfg_ldap (cfg_auth demo_config))" by code_simp
  then show ?thesis using load_safe[OF demo_load] by (simp add: Let_def)
qed

definition secret_source :: "env \<Rightarrow> files \<Rightarrow> string \<Rightarrow> string \<Rightarrow> string \<Rightarrow> string \<Rightarrow> bool" where
  "secret_source getenv read_file inline file env v \<longleftrightarrow>
     (if env \<noteq> [] then getenv env = Some v
      else if file \<noteq> [] then (\<exists>b. read_file file = Inr b \<and> v = trim_space b)
      else v = inline)"

lemma read_secret_Inr:
  "read_secret getenv read_file n inline file env = Inr v \<longleftrightarrow> secret_source getenv read_file inline file env v"
  by (auto simp: read_secret_def secret_source_def split: option.splits sum.splits)

lemma resolve_dsn_Inr:
  "resolve_dsn getenv read_file c = Inr c' \<Longrightarrow>
   secret_source getenv read_file (dsn (cfg_storage c)) (dsn_file (cfg_storage c)) (dsn_env (cfg_storage c))
     (dsn (cfg_storage c')) \<and> cfg_ca c' = cfg_ca c \<and> cfg_auth c' = cfg_auth c \<and> cfg_server c' = cfg_server c"
  by (auto simp: resolve_dsn_def and_then_Inr read_secret_Inr)

lemma resolve_challenge_Inr:
  "resolve_challenge getenv read_file c = Inr c' \<Longrightarrow>
   secret_source getenv read_file [] (challenge_file (cfg_ca c)) (challenge_env (cfg_ca c))
     (challenge (cfg_ca c')) \<and>
   cfg_storage c' = cfg_storage c \<and> cfg_auth c' = cfg_auth c \<and> cfg_server c' = cfg_server c"
  by (auto simp: resolve_challenge_def and_then_Inr read_secret_Inr)

lemma resolve_bind_password_Inr:
  "resolve_bind_password getenv read_file c = Inr c' \<Longrightarrow>
   (ldap_enabled (cfg_ldap (cfg_auth c)) \<longrightarrow>
      secret_source getenv read_file [] (bind_password_file (cfg_ldap (cfg_auth c)))
        (bind_password_env (cfg_ldap (cfg_auth c))) (bind_password (cfg_ldap (cfg_auth c')))) \<and>
   cfg_storage c' = cfg_storage c \<and> cfg_ca c' = cfg_ca c \<and> cfg_server c' = cfg_server c \<and>
   cfg_oidc (cfg_auth c') = cfg_oidc (cfg_auth c) \<and> cfg_login (cfg_auth c') = cfg_login (cfg_auth c)"
  by (auto simp: resolve_bind_password_def Let_def and_then_Inr read_secret_Inr split: if_splits)

lemma resolve_client_secret_Inr:
  "resolve_client_secret getenv read_file c = Inr c' \<Longrightarrow>
   (oidc_enabled (cfg_oidc (cfg_auth c)) \<longrightarrow>
      secret_source getenv read_file [] (client_secret_file (cfg_oidc (cfg_auth c)))
        (client_secret_env (cfg_oidc (cfg_auth c))) (client_secret (cfg_oidc (cfg_auth c')))) \<and>
   cfg_storage c' = cfg_storage c \<and> cfg_ca c' = cfg_ca c \<and> cfg_server c' = cfg_server c \<and>
   cfg_ldap (cfg_auth c') = cfg_ldap (cfg_auth c) \<and> cfg_login (cfg_auth c') = cfg_login (cfg_auth c)"
  by (auto simp: resolve_client_secret_def Let_def and_then_Inr read_secret_Inr split: if_splits)

text \<open>
  Secrets come only from where the configuration points: after a successful resolution a
  secret with an environment reference is that variable's value (a variable that is not set
  fails the load, it never falls back to the file or the inline value), a secret with only a
  file reference is the trimmed content of that file, the external challenge is never taken
  from the configuration file itself, and everything that is not a secret is unchanged.
\<close>

theorem resolve_secrets_sources:
  assumes "resolve_secrets getenv read_file c = Inr c'"
  shows "(dsn_env (cfg_storage c) \<noteq> [] \<longrightarrow> getenv (dsn_env (cfg_storage c)) = Some (dsn (cfg_storage c'))) \<and>
    (challenge_env (cfg_ca c) \<noteq> [] \<longrightarrow> getenv (challenge_env (cfg_ca c)) = Some (challenge (cfg_ca c'))) \<and>
    (challenge_env (cfg_ca c) = [] \<and> challenge_file (cfg_ca c) \<noteq> [] \<longrightarrow>
       (\<exists>b. read_file (challenge_file (cfg_ca c)) = Inr b \<and> challenge (cfg_ca c') = trim_space b)) \<and>
    (challenge_env (cfg_ca c) = [] \<and> challenge_file (cfg_ca c) = [] \<longrightarrow> challenge (cfg_ca c') = []) \<and>
    (ldap_enabled (cfg_ldap (cfg_auth c)) \<and> bind_password_env (cfg_ldap (cfg_auth c)) \<noteq> [] \<longrightarrow>
       getenv (bind_password_env (cfg_ldap (cfg_auth c))) = Some (bind_password (cfg_ldap (cfg_auth c')))) \<and>
    (oidc_enabled (cfg_oidc (cfg_auth c)) \<and> client_secret_env (cfg_oidc (cfg_auth c)) \<noteq> [] \<longrightarrow>
       getenv (client_secret_env (cfg_oidc (cfg_auth c))) = Some (client_secret (cfg_oidc (cfg_auth c')))) \<and>
    cfg_server c' = cfg_server c \<and> cfg_login (cfg_auth c') = cfg_login (cfg_auth c)"
proof -
  obtain c1 c2 c3 where steps: "resolve_dsn getenv read_file c = Inr c1"
    "resolve_challenge getenv read_file c1 = Inr c2"
    "resolve_bind_password getenv read_file c2 = Inr c3"
    "resolve_client_secret getenv read_file c3 = Inr c'"
    using assms by (auto simp: resolve_secrets_def and_then_Inr)
  note dn = resolve_dsn_Inr[OF steps(1)] and ch = resolve_challenge_Inr[OF steps(2)]
    and bp = resolve_bind_password_Inr[OF steps(3)] and cs = resolve_client_secret_Inr[OF steps(4)]
  show ?thesis
  proof (intro conjI)
    show "dsn_env (cfg_storage c) \<noteq> [] \<longrightarrow> getenv (dsn_env (cfg_storage c)) = Some (dsn (cfg_storage c'))"
      using dn ch bp cs by (simp add: secret_source_def)
    show "challenge_env (cfg_ca c) \<noteq> [] \<longrightarrow> getenv (challenge_env (cfg_ca c)) = Some (challenge (cfg_ca c'))"
      and "challenge_env (cfg_ca c) = [] \<and> challenge_file (cfg_ca c) \<noteq> [] \<longrightarrow>
        (\<exists>b. read_file (challenge_file (cfg_ca c)) = Inr b \<and> challenge (cfg_ca c') = trim_space b)"
      and "challenge_env (cfg_ca c) = [] \<and> challenge_file (cfg_ca c) = [] \<longrightarrow> challenge (cfg_ca c') = []"
      using dn ch bp cs by (simp_all add: secret_source_def)
    show "ldap_enabled (cfg_ldap (cfg_auth c)) \<and> bind_password_env (cfg_ldap (cfg_auth c)) \<noteq> [] \<longrightarrow>
       getenv (bind_password_env (cfg_ldap (cfg_auth c))) = Some (bind_password (cfg_ldap (cfg_auth c')))"
      using dn ch bp cs by (simp add: secret_source_def)
    show "oidc_enabled (cfg_oidc (cfg_auth c)) \<and> client_secret_env (cfg_oidc (cfg_auth c)) \<noteq> [] \<longrightarrow>
       getenv (client_secret_env (cfg_oidc (cfg_auth c))) = Some (client_secret (cfg_oidc (cfg_auth c')))"
      using dn ch bp cs by (simp add: secret_source_def)
    show "cfg_server c' = cfg_server c" and "cfg_login (cfg_auth c') = cfg_login (cfg_auth c)"
      using dn ch bp cs by simp_all
  qed
qed

definition demo_config0 :: config where
  "demo_config0 = (case demo_decode [] default_config of Inr c \<Rightarrow> c | Inl _ \<Rightarrow> default_config)"

definition demo_resolved :: config where
  "demo_resolved = (case resolve_secrets demo_env (\<lambda>_. Inr []) demo_config0 of
     Inr c \<Rightarrow> c | Inl _ \<Rightarrow> default_config)"

lemma demo_resolve: "resolve_secrets demo_env (\<lambda>_. Inr []) demo_config0 = Inr demo_resolved"
  by code_simp

lemma demo_reference:
  "ldap_enabled (cfg_ldap (cfg_auth demo_config0)) \<and>
   bind_password_env (cfg_ldap (cfg_auth demo_config0)) = ''PW''"
  by code_simp

theorem resolve_secrets_sources_witness:
  "demo_env ''PW'' = Some (bind_password (cfg_ldap (cfg_auth demo_resolved)))"
  using resolve_secrets_sources[OF demo_resolve] demo_reference by simp

end
