(* ===== verification/Throttle.thy ===== *)
theory Throttle
  imports Config
begin

section \<open>The login throttle\<close>

text \<open>
  \<open>internal/auth/throttle.go\<close>.  The throttle is a map from keys to entries and its policy;
  every method reads the clock once, under the mutex, so a method is one step at the time it
  is given.  The mutex also makes the times of successive steps non-decreasing.
  \<open>throttle_run\<close> executes a timed sequence of calls and collects the answers of \<open>Allowed\<close>.
\<close>

record throttle_entry =
  failures :: int
  window_start :: nanos
  lockout_until :: nanos
  last_seen :: nanos

record throttle =
  entries :: "string \<Rightarrow> throttle_entry option"
  t_max :: int
  t_window :: int
  t_lockout :: int

definition new_login_throttle :: "login_policy \<Rightarrow> throttle" where
  "new_login_throttle policy =
     (let p = login_with_defaults policy in
      \<lparr>entries = Map.empty, t_max = max_attempts p,
       t_window = wrap64 (window_seconds p * second),
       t_lockout = wrap64 (lockout_seconds p * second)\<rparr>)"

definition allowed :: "throttle \<Rightarrow> nanos \<Rightarrow> string \<Rightarrow> bool \<times> int" where
  "allowed t now key =
     (case entries t key of
        None \<Rightarrow> (True, 0)
      | Some e \<Rightarrow> if now < lockout_until e then (False, dur_sub (lockout_until e) now) else (True, 0))"

definition fresh_entry :: "nanos \<Rightarrow> throttle_entry" where
  "fresh_entry now = \<lparr>failures = 0, window_start = now, lockout_until = zero_time, last_seen = zero_time\<rparr>"

definition fail_entry :: "int \<Rightarrow> int \<Rightarrow> int \<Rightarrow> nanos \<Rightarrow> throttle_entry \<Rightarrow> throttle_entry" where
  "fail_entry mx window lockout now e0 =
     (let e = e0\<lparr>last_seen := now\<rparr> in
      if now < lockout_until e then e
      else
        let e1 = (if window < dur_sub now (window_start e)
                  then e\<lparr>window_start := now, failures := 0\<rparr> else e);
            e2 = e1\<lparr>failures := failures e1 + 1\<rparr>
        in if mx \<le> failures e2 then e2\<lparr>lockout_until := now + lockout\<rparr> else e2)"

definition record_failure :: "throttle \<Rightarrow> nanos \<Rightarrow> string \<Rightarrow> throttle" where
  "record_failure t now key =
     (let e = (case entries t key of None \<Rightarrow> fresh_entry now | Some e \<Rightarrow> e)
      in t\<lparr>entries := (entries t)(key \<mapsto> fail_entry (t_max t) (t_window t) (t_lockout t) now e)\<rparr>)"

definition record_success :: "throttle \<Rightarrow> string \<Rightarrow> throttle" where
  "record_success t key = t\<lparr>entries := (entries t)(key := None)\<rparr>"

definition stale :: "int \<Rightarrow> nanos \<Rightarrow> throttle_entry \<Rightarrow> bool" where
  "stale window now e \<longleftrightarrow> lockout_until e < now \<and> window < dur_sub now (last_seen e)"

definition cleanup :: "throttle \<Rightarrow> nanos \<Rightarrow> throttle" where
  "cleanup t now = t\<lparr>entries := (\<lambda>k. case entries t k of
     None \<Rightarrow> None | Some e \<Rightarrow> if stale (t_window t) now e then None else Some e)\<rparr>"

datatype throttle_call = Allowed string | RecordFailure string | RecordSuccess string | Cleanup

fun throttle_step :: "throttle \<Rightarrow> nanos \<Rightarrow> throttle_call \<Rightarrow> throttle" where
  "throttle_step t now (Allowed k) = t"
| "throttle_step t now (RecordFailure k) = record_failure t now k"
| "throttle_step t now (RecordSuccess k) = record_success t k"
| "throttle_step t now Cleanup = cleanup t now"

fun throttle_run :: "throttle \<Rightarrow> (nanos \<times> throttle_call) list \<Rightarrow> (bool \<times> int) list" where
  "throttle_run t [] = []"
| "throttle_run t ((now, c) # cs) =
     (case c of Allowed k \<Rightarrow> [allowed t now k] | _ \<Rightarrow> []) @ throttle_run (throttle_step t now c) cs"

fun throttle_after :: "throttle \<Rightarrow> (nanos \<times> throttle_call) list \<Rightarrow> throttle" where
  "throttle_after t [] = t"
| "throttle_after t ((now, c) # cs) = throttle_after (throttle_step t now c) cs"

subsection \<open>Well-formed entries\<close>

text \<open>
  At time \<open>now\<close> an entry's window started and was last touched in the past, and it was
  touched at or after its window started.
\<close>

definition entry_ok :: "nanos \<Rightarrow> throttle_entry \<Rightarrow> bool" where
  "entry_ok now e \<longleftrightarrow> window_start e \<le> last_seen e \<and> last_seen e \<le> now"

definition throttle_ok :: "nanos \<Rightarrow> throttle \<Rightarrow> bool" where
  "throttle_ok now t \<longleftrightarrow> (\<forall>k e. entries t k = Some e \<longrightarrow> entry_ok now e)"

lemma fail_entry_ok: "window_start e \<le> now \<Longrightarrow> entry_ok now (fail_entry mx w l now e)"
  by (simp add: fail_entry_def entry_ok_def Let_def)

lemma throttle_step_policy [simp]:
  "t_max (throttle_step t now c) = t_max t" "t_window (throttle_step t now c) = t_window t"
  "t_lockout (throttle_step t now c) = t_lockout t"
  by (cases c; simp add: record_failure_def record_success_def cleanup_def Let_def)+

lemma throttle_ok_later: "throttle_ok now t \<Longrightarrow> now \<le> now' \<Longrightarrow> throttle_ok now' t"
  by (force simp: throttle_ok_def entry_ok_def)

lemma record_failure_ok: "throttle_ok now t \<Longrightarrow> throttle_ok now (record_failure t now k)"
  by (force simp: throttle_ok_def record_failure_def Let_def fresh_entry_def entry_ok_def
      intro!: fail_entry_ok[unfolded entry_ok_def] split: option.splits)

lemma record_success_ok: "throttle_ok now t \<Longrightarrow> throttle_ok now (record_success t k)"
  by (simp add: throttle_ok_def record_success_def)

lemma cleanup_ok: "throttle_ok now t \<Longrightarrow> throttle_ok now (cleanup t now')"
  by (auto simp: throttle_ok_def cleanup_def split: option.splits if_splits)

lemmas throttle_ok_steps = record_failure_ok record_success_ok cleanup_ok

lemma throttle_step_ok: "throttle_ok now t \<Longrightarrow> throttle_ok now (throttle_step t now c)"
  by (cases c) (simp_all add: throttle_ok_steps)

lemma new_login_throttle_ok: "throttle_ok now (new_login_throttle p)"
  by (simp add: throttle_ok_def new_login_throttle_def Let_def)

subsection \<open>Removing cleanup calls changes no answer\<close>

text \<open>
  Two entries agree at \<open>now\<close> when they differ at most in lockouts that are over; a throttle
  with cleanups simulates one without when each of its entries agrees with the other's, or is
  missing where the other's is stale.
\<close>

definition agree :: "nanos \<Rightarrow> throttle_entry \<Rightarrow> throttle_entry \<Rightarrow> bool" where
  "agree now e e' \<longleftrightarrow>
     failures e = failures e' \<and> window_start e = window_start e' \<and> last_seen e = last_seen e' \<and>
     (lockout_until e = lockout_until e' \<or> lockout_until e < now \<and> lockout_until e' < now)"

definition sim_entry :: "int \<Rightarrow> nanos \<Rightarrow> throttle_entry option \<Rightarrow> throttle_entry option \<Rightarrow> bool" where
  "sim_entry w now a b \<longleftrightarrow>
     (case (a, b) of
        (None, None) \<Rightarrow> True
      | (None, Some e') \<Rightarrow> stale w now e' \<and> entry_ok now e'
      | (Some e, None) \<Rightarrow> False
      | (Some e, Some e') \<Rightarrow> agree now e e' \<and> entry_ok now e')"

definition sim :: "nanos \<Rightarrow> throttle \<Rightarrow> throttle \<Rightarrow> bool" where
  "sim now t t' \<longleftrightarrow> t_max t' = t_max t \<and> t_window t' = t_window t \<and> t_lockout t' = t_lockout t \<and>
     (\<forall>k. sim_entry (t_window t) now (entries t k) (entries t' k))"

lemma stale_later: "stale w now e \<Longrightarrow> now \<le> now' \<Longrightarrow> stale w now' e"
  unfolding stale_def by (blast intro: dur_sub_gt_mono_left order_less_le_trans)

lemma sim_entry_later: "sim_entry w now a b \<Longrightarrow> now \<le> now' \<Longrightarrow> sim_entry w now' a b"
  by (auto simp: sim_entry_def agree_def entry_ok_def stale_later split: option.splits)

lemma sim_later: "sim now t t' \<Longrightarrow> now \<le> now' \<Longrightarrow> sim now' t t'"
  by (auto simp: sim_def intro: sim_entry_later)

lemma agree_fail: "agree now e e' \<Longrightarrow> agree now (fail_entry mx w l now e) (fail_entry mx w l now e')"
  by (auto simp: agree_def fail_entry_def Let_def)

lemma stale_fail:
  assumes "stale w now e" and "entry_ok now e" and "zero_time < now"
  shows "agree now (fail_entry mx w l now (fresh_entry now)) (fail_entry mx w l now e)"
proof -
  have "w < dur_sub now (window_start e)"
    using assms by (auto simp: stale_def entry_ok_def intro: dur_sub_gt_mono)
  then show ?thesis
    using assms by (auto simp: agree_def fail_entry_def fresh_entry_def stale_def Let_def)
qed

lemma simD: "sim now t t' \<Longrightarrow> sim_entry (t_window t) now (entries t k) (entries t' k)"
  by (simp add: sim_def)

lemma sim_entry_fail:
  assumes "sim_entry w now a b" and "zero_time < now"
  shows "sim_entry w now
    (Some (fail_entry mx w l now (case a of None \<Rightarrow> fresh_entry now | Some e \<Rightarrow> e)))
    (Some (fail_entry mx w l now (case b of None \<Rightarrow> fresh_entry now | Some e \<Rightarrow> e)))"
proof -
  have f: "entry_ok now (fail_entry mx w l now (fresh_entry now))"
    by (rule fail_entry_ok) (simp add: fresh_entry_def)
  have r: "agree now e e" for e by (simp add: agree_def)
  show ?thesis
    using assms f r
    by (auto simp: sim_entry_def entry_ok_def[of now] intro: agree_fail stale_fail
        intro!: fail_entry_ok[unfolded entry_ok_def] split: option.splits)
qed

lemma sim_failure:
  assumes "sim now t t'" and "zero_time < now"
  shows "sim now (record_failure t now k) (record_failure t' now k)"
  using assms sim_entry_fail[OF simD[OF assms(1), of k] assms(2)]
  by (simp add: sim_def record_failure_def Let_def)

lemma sim_success: "sim now t t' \<Longrightarrow> sim now (record_success t k) (record_success t' k)"
  by (simp add: sim_def record_success_def) (simp add: sim_entry_def)

lemma stale_agree: "agree now e e' \<Longrightarrow> stale w now e \<longleftrightarrow> stale w now e'"
  by (auto simp: agree_def stale_def)

lemma sim_entry_cleanup:
  "sim_entry w now a b \<Longrightarrow>
   sim_entry w now (case a of None \<Rightarrow> None | Some e \<Rightarrow> if stale w now e then None else Some e) b"
  by (auto simp: sim_entry_def stale_agree split: option.splits)

lemma sim_cleanup: "sim now t t' \<Longrightarrow> sim now (cleanup t now) t'"
  by (simp add: sim_def cleanup_def sim_entry_cleanup)

lemma sim_allowed:
  assumes "sim now t t'"
  shows "allowed t now k = allowed t' now k"
  using simD[OF assms, of k]
  by (auto simp: allowed_def sim_entry_def agree_def stale_def split: option.splits)

lemmas sim_steps = sim_failure sim_success sim_cleanup sim_allowed

definition is_cleanup :: "nanos \<times> throttle_call \<Rightarrow> bool" where
  "is_cleanup x \<longleftrightarrow> snd x = Cleanup"

lemma sim_run:
  "sim now t t' \<Longrightarrow> sorted (now # map fst cs) \<Longrightarrow> \<forall>x\<in>set cs. zero_time < fst x \<Longrightarrow>
   throttle_run t cs = throttle_run t' (filter (\<lambda>x. \<not> is_cleanup x) cs)"
proof (induction cs arbitrary: now t t')
  case Nil
  then show ?case by simp
next
  case (Cons x cs)
  obtain u c where x: "x = (u, c)" by (cases x)
  from Cons.prems x have u: "now \<le> u" "zero_time < u" "sorted (u # map fst cs)" by auto
  from Cons.prems(1) u(1) have s: "sim u t t'" by (rule sim_later)
  have pos: "\<forall>y\<in>set cs. zero_time < fst y" using Cons.prems(3) by simp
  note IH = Cons.IH[OF _ u(3) pos]
  show ?case
  proof (cases c)
    case (Allowed k)
    then show ?thesis using x s IH[OF s] by (simp add: is_cleanup_def sim_allowed)
  next
    case (RecordFailure k)
    then show ?thesis using x IH[OF sim_failure[OF s u(2)]] by (simp add: is_cleanup_def)
  next
    case (RecordSuccess k)
    then show ?thesis using x IH[OF sim_success[OF s]] by (simp add: is_cleanup_def)
  next
    case Cleanup
    then show ?thesis using x IH[OF sim_cleanup[OF s]] by (simp add: is_cleanup_def)
  qed
qed

text \<open>
  \<open>Cleanup\<close> is unobservable: for every policy and every sequence of calls at
  non-decreasing times, the answers of \<open>Allowed\<close> are those of the same sequence with all
  cleanup calls removed, so dropping idle entries never lifts a lockout nor forgives or
  invents a failure.
\<close>

theorem cleanup_unobservable:
  assumes "sorted (map fst cs)" and "\<forall>x\<in>set cs. zero_time < fst x"
  shows "throttle_run (new_login_throttle p) cs =
         throttle_run (new_login_throttle p) (filter (\<lambda>x. \<not> is_cleanup x) cs)"
proof (cases cs)
  case Nil
  then show ?thesis by simp
next
  case (Cons x xs)
  have "sim (fst x) (new_login_throttle p) (new_login_throttle p)"
    by (simp add: sim_def sim_entry_def new_login_throttle_def Let_def)
  moreover have "sorted (fst x # map fst cs)" using assms(1) Cons by simp
  ultimately show ?thesis using sim_run assms(2) by blast
qed

definition demo_calls :: "(nanos \<times> throttle_call) list" where
  "demo_calls = [(0, RecordFailure ''k''), (400 * second, Cleanup), (400 * second, RecordFailure ''k''),
     (400 * second, Allowed ''k'')]"

theorem cleanup_unobservable_witness:
  "throttle_run (new_login_throttle zero_login) demo_calls =
   throttle_run (new_login_throttle zero_login)
     [(0, RecordFailure ''k''), (400 * second, RecordFailure ''k''), (400 * second, Allowed ''k'')]"
proof -
  have "sorted (map fst demo_calls)" and "\<forall>x\<in>set demo_calls. zero_time < fst x"
    by (simp_all add: demo_calls_def second_def zero_time_def)
  from cleanup_unobservable[OF this, of zero_login] show ?thesis
    by (simp add: demo_calls_def is_cleanup_def)
qed

subsection \<open>The lockout is enforced\<close>

definition failure_times :: "string \<Rightarrow> (nanos \<times> throttle_call) list \<Rightarrow> nanos list" where
  "failure_times key cs = map fst (filter (\<lambda>x. snd x = RecordFailure key) cs)"

lemma failure_times_simps [simp]:
  "failure_times key [] = []"
  "failure_times key ((u, c) # cs) =
     (if c = RecordFailure key then u # failure_times key cs else failure_times key cs)"
  by (simp_all add: failure_times_def)

lemma failure_times_subset: "set (failure_times key cs) \<subseteq> fst ` set cs"
  by (auto simp: failure_times_def)

lemma throttle_step_other:
  assumes "c \<noteq> RecordFailure key" and "c \<noteq> RecordSuccess key"
  shows "entries (throttle_step t now c) key =
    (case entries t key of None \<Rightarrow> None
     | Some e \<Rightarrow> if c = Cleanup \<and> stale (t_window t) now e then None else Some e)"
  using assms
  by (cases c) (auto simp: record_failure_def record_success_def cleanup_def Let_def split: option.splits)

lemma locked_persists:
  "entries t key = Some e \<Longrightarrow> lockout_until e = L \<Longrightarrow>
   \<forall>x\<in>set cs. fst x < L \<and> snd x \<noteq> RecordSuccess key \<Longrightarrow>
   \<exists>e'. entries (throttle_after t cs) key = Some e' \<and> lockout_until e' = L"
proof (induction cs arbitrary: t e)
  case Nil
  then show ?case by simp
next
  case (Cons x cs)
  obtain u c where x: "x = (u, c)" by (cases x)
  with Cons.prems have u: "u < L" "c \<noteq> RecordSuccess key" by auto
  have "\<exists>e'. entries (throttle_step t u c) key = Some e' \<and> lockout_until e' = L"
  proof (cases "c = RecordFailure key")
    case True
    then show ?thesis
      using Cons.prems(1,2) u by (simp add: record_failure_def fail_entry_def Let_def)
  next
    case False
    then show ?thesis
      using Cons.prems(1,2) u throttle_step_other[of c key t u] by (simp add: stale_def)
  qed
  then obtain e' where "entries (throttle_step t u c) key = Some e'" "lockout_until e' = L" by blast
  from Cons.IH[OF this] Cons.prems(3) x show ?case by simp
qed

text \<open>
  \<open>counting\<close>: the key's entry has counted \<open>n\<close> failures since \<open>w0\<close> and is not locked.
\<close>

definition counting :: "throttle \<Rightarrow> string \<Rightarrow> nat \<Rightarrow> nanos \<Rightarrow> nanos \<Rightarrow> bool" where
  "counting t key n w0 now \<longleftrightarrow>
     (\<exists>e. entries t key = Some e \<and> failures e = int n \<and> window_start e = w0 \<and>
          w0 \<le> last_seen e \<and> lockout_until e \<le> now)"

lemma counting_failure:
  assumes "counting t key n w0 now" and "dur_sub now w0 \<le> t_window t" and "w0 \<le> now"
  shows "if t_max t \<le> int (Suc n)
    then \<exists>e. entries (record_failure t now key) key = Some e \<and> lockout_until e = now + t_lockout t
    else counting (record_failure t now key) key (Suc n) w0 now"
  using assms by (auto simp: counting_def record_failure_def fail_entry_def Let_def)

lemma counting_other:
  assumes "counting t key n w0 now" and "dur_sub now w0 \<le> t_window t"
    and "c \<noteq> RecordFailure key" and "c \<noteq> RecordSuccess key"
  shows "counting (throttle_step t now c) key n w0 now"
proof -
  obtain e where e: "entries t key = Some e" "failures e = int n" "window_start e = w0"
    "w0 \<le> last_seen e" "lockout_until e \<le> now" using assms(1) by (auto simp: counting_def)
  have "\<not> stale (t_window t) now e"
    using e(4) assms(2) dur_sub_mono[of w0 "last_seen e" now] by (auto simp: stale_def)
  then show ?thesis using e throttle_step_other[OF assms(3,4)] by (simp add: counting_def)
qed

lemma record_failure_policy [simp]:
  "t_max (record_failure t now k) = t_max t" "t_window (record_failure t now k) = t_window t"
  "t_lockout (record_failure t now k) = t_lockout t"
  by (simp_all add: record_failure_def Let_def)

lemma counting_locks:
  "counting t key n w0 w \<Longrightarrow> sorted (w # map fst cs) \<Longrightarrow> w0 \<le> w \<Longrightarrow> t_max t = int m \<Longrightarrow> n < m \<Longrightarrow>
   fs = failure_times key cs \<Longrightarrow> m - n \<le> length fs \<Longrightarrow>
   dur_sub (fs ! (m - n - 1)) w0 \<le> t_window t \<Longrightarrow>
   \<forall>x\<in>set cs. snd x \<noteq> RecordSuccess key \<and> fst x < fs ! (m - n - 1) + t_lockout t \<Longrightarrow>
   \<exists>e. entries (throttle_after t cs) key = Some e \<and> lockout_until e = fs ! (m - n - 1) + t_lockout t"
proof (induction cs arbitrary: t n w fs)
  case Nil
  then show ?case by simp
next
  case (Cons x cs)
  obtain u c where x: "x = (u, c)" by (cases x)
  define gs where "gs = failure_times key cs"
  have fs: "fs = (if c = RecordFailure key then u # gs else gs)"
    using Cons.prems(6) x by (simp add: gs_def)
  have wu: "w \<le> u" "sorted (u # map fst cs)" using Cons.prems(2) x by auto
  have idx: "m - n - 1 < length fs" using Cons.prems(5,7) by linarith
  have "u \<le> fs ! (m - n - 1)"
  proof -
    have "fs ! (m - n - 1) \<in> insert u (fst ` set cs)"
      using nth_mem[OF idx] fs failure_times_subset[of key cs] by (auto simp: gs_def split: if_splits)
    then show ?thesis using wu(2) by auto
  qed
  then have win: "dur_sub u w0 \<le> t_window t"
    using Cons.prems(8) dur_sub_mono_left[of u "fs ! (m - n - 1)" w0] by linarith
  have cnt: "counting t key n w0 u"
    using Cons.prems(1) wu(1) by (auto simp: counting_def)
  have ok: "\<forall>y\<in>set cs. snd y \<noteq> RecordSuccess key \<and> fst y < fs ! (m - n - 1) + t_lockout t"
    and ns: "c \<noteq> RecordSuccess key" using Cons.prems(9) x by auto
  show ?case
  proof (cases "c = RecordFailure key")
    case False
    from counting_other[OF cnt win False ns] have "counting (throttle_step t u c) key n w0 u" .
    from Cons.IH[OF this wu(2)] Cons.prems False fs x ok wu(1) show ?thesis
      by (simp add: gs_def)
  next
    case True
    note cf = counting_failure[OF cnt win]
    show ?thesis
    proof (cases "m = Suc n")
      case last: True
      from cf Cons.prems(3,4) wu(1) last obtain e where
        "entries (record_failure t u key) key = Some e" "lockout_until e = u + t_lockout t" by auto
      from locked_persists[OF this, of cs] ok True fs last x show ?thesis by simp
    next
      case False
      with Cons.prems(5) have lt: "Suc n < m" by linarith
      from cf Cons.prems(3,4) wu(1) lt have "counting (record_failure t u key) key (Suc n) w0 u" by auto
      moreover have "fs ! (m - n - 1) = gs ! (m - Suc n - 1)"
        using fs True lt by (simp add: nth_Cons')
      ultimately show ?thesis
        using Cons.IH[of "throttle_step t u c" "Suc n" u gs] wu Cons.prems(3,4,7,8) ok True fs lt x
        by (simp add: gs_def)
    qed
  qed
qed

text \<open>
  C15: From a key with no record, whatever other calls are interleaved (other keys, queries,
  cleanups), once \<open>MaxAttempts\<close> failures of the key fall within one window and no success
  is recorded, every attempt for the key is refused until the lockout that the
  \<open>MaxAttempts\<close>-th failure started has passed, and the reported wait is exactly the rest of
  that lockout.
\<close>

theorem lockout_enforced:
  assumes "entries t key = None" and "t_max t = int m" and "0 < m" and "0 \<le> t_window t"
    and "sorted (map fst cs)" and "\<forall>x\<in>set cs. zero_time < fst x \<and> snd x \<noteq> RecordSuccess key"
    and "fs = failure_times key cs" and "m \<le> length fs"
    and "dur_sub (fs ! (m - 1)) (fs ! 0) \<le> t_window t"
    and "\<forall>x\<in>set cs. fst x \<le> now" and "now < fs ! (m - 1) + t_lockout t"
  shows "allowed (throttle_after t cs) now key = (False, dur_sub (fs ! (m - 1) + t_lockout t) now)"
proof -
  have "\<exists>e. entries (throttle_after t cs) key = Some e \<and> lockout_until e = fs ! (m - 1) + t_lockout t"
    using assms
  proof (induction cs arbitrary: t fs)
    case Nil
    then show ?case by simp
  next
    case (Cons x cs)
    obtain u c where x: "x = (u, c)" by (cases x)
    define gs where "gs = failure_times key cs"
    have fs: "fs = (if c = RecordFailure key then u # gs else gs)"
      using Cons.prems(7) x by (simp add: gs_def)
    have before: "\<forall>y\<in>set cs. snd y \<noteq> RecordSuccess key \<and> fst y < fs ! (m - 1) + t_lockout t"
      using Cons.prems(6,10,11) by fastforce
    show ?case
    proof (cases "c = RecordFailure key")
      case False
      have "entries (throttle_step t u c) key = None"
        using throttle_step_other[of c key t u] False Cons.prems(1,6) x by simp
      from Cons.IH[OF this] Cons.prems fs False x show ?thesis by (simp add: gs_def)
    next
      case True
      define e where "e = fail_entry (t_max t) (t_window t) (t_lockout t) u (fresh_entry u)"
      have e: "entries (record_failure t u key) key = Some e"
        using Cons.prems(1) by (simp add: record_failure_def Let_def e_def)
      have z: "zero_time < u" using Cons.prems(6) x by simp
      show ?thesis
      proof (cases "m = 1")
        case one: True
        have "lockout_until e = u + t_lockout t"
          using z Cons.prems(2,4) one by (simp add: e_def fail_entry_def fresh_entry_def Let_def dur_sub_def)
        from locked_persists[OF e this, of cs] before fs True one x show ?thesis by simp
      next
        case False
        with Cons.prems(3) have lt: "1 < m" by linarith
        have "counting (record_failure t u key) key 1 u u"
          using e z Cons.prems(2,4) lt
          by (simp add: counting_def e_def fail_entry_def fresh_entry_def Let_def dur_sub_def)
        moreover have "fs ! (m - 1) = gs ! (m - 1 - 1)" "fs ! 0 = u"
          using fs True lt by (simp_all add: nth_Cons')
        ultimately show ?thesis
          using counting_locks[of "record_failure t u key" key 1 u u cs m gs] lt before True x fs Cons.prems
          by (simp add: gs_def record_failure_def Let_def)
      qed
    qed
  qed
  then show ?thesis using assms(11) by (auto simp: allowed_def)
qed

definition guess :: "string \<Rightarrow> int \<Rightarrow> nat \<Rightarrow> (nanos \<times> throttle_call) list" where
  \<comment> \<open>\<open>n\<close> failed attempts of the key \<open>s\<close> seconds after the epoch\<close>
  "guess key s n = replicate n (s * second, RecordFailure key)"

theorem lockout_enforced_witness:
  "allowed (throttle_after (new_login_throttle zero_login)
     (guess ''eve'' 0 3 @ guess ''bob'' 5 1 @ (299 * second, Cleanup) # guess ''eve'' 300 2))
     (400 * second) ''eve'' = (False, 800 * second)"
proof -
  let ?t = "new_login_throttle zero_login"
  let ?cs = "guess ''eve'' 0 3 @ guess ''bob'' 5 1 @ (299 * second, Cleanup) # guess ''eve'' 300 2"
  let ?fs = "[0, 0, 0, 300 * second, 300 * second]"
  have p: "entries ?t ''eve'' = None" "t_max ?t = int 5" "t_window ?t = 300 * second"
    "t_lockout ?t = 900 * second"
    by (simp_all add: new_login_throttle_def zero_login_def login_with_defaults_def Let_def
        wrap64_def second_def)
  have "?fs = failure_times ''eve'' ?cs"
    by (simp add: guess_def numeral_2_eq_2 numeral_3_eq_3)
  from lockout_enforced[OF p(1,2) _ _ _ _ this, of "400 * second"] p(3,4) show ?thesis
    by (simp add: guess_def second_def zero_time_def dur_sub_def numeral_2_eq_2 numeral_3_eq_3)
qed

subsection \<open>What the window does not give\<close>

text \<open>
  The counting window is a tumbling one that starts at the first failure, not a sliding
  one: under the default policy (five failures in 300 seconds), three failures 299 seconds
  and four more 301 seconds after the first are seven failures within two seconds, and the
  key is still allowed.
\<close>

theorem window_tumbles:
  "allowed (throttle_after (new_login_throttle zero_login)
     (guess ''eve'' 0 1 @ guess ''eve'' 299 3 @ guess ''eve'' 301 4)) (301 * second) ''eve'' = (True, 0)"
  by (simp add: guess_def new_login_throttle_def zero_login_def login_with_defaults_def Let_def
      wrap64_def second_def record_failure_def fail_entry_def fresh_entry_def zero_time_def dur_sub_def
      allowed_def numeral_3_eq_3 eval_nat_numeral)

text \<open>
  When the configured lockout is shorter than the window, the failures counted before a
  lockout still count after it: one more failure locks the key out again, no fresh window
  starting.
\<close>

theorem lockout_keeps_count:
  "allowed (throttle_after (new_login_throttle (zero_login\<lparr>lockout_seconds := 60\<rparr>))
     (guess ''eve'' 0 5 @ guess ''eve'' 61 1)) (62 * second) ''eve'' = (False, 59 * second)"
  by (simp add: guess_def new_login_throttle_def zero_login_def login_with_defaults_def Let_def
      wrap64_def second_def record_failure_def fail_entry_def fresh_entry_def zero_time_def dur_sub_def
      allowed_def eval_nat_numeral)

end
