(* ===== verification/Roles.thy ===== *)
theory Roles
  imports Prelude
begin

section \<open>Roles, identities and the authenticator chain\<close>

text \<open>
  \<open>internal/auth/auth.go\<close> and \<open>chain.go\<close>.  A role is a string, as in the code, because a
  stored or configured role can be unknown: \<open>rank\<close> gives an unknown role the lowest rank.
  An authenticator takes the credentials and answers with an identity, a rejection
  (\<open>ErrInvalidCredentials\<close>) or an operational error.  The locale \<open>authenticator\<close> is the
  \<open>Authenticator\<close> interface together with what the console relies on: an identity never
  carries an unknown role.  It is interpreted by the local store, the directory provider and
  the chain of both.
\<close>

type_synonym role = string

definition role_admin :: role where "role_admin = ''admin''"
definition role_operator :: role where "role_operator = ''operator''"
definition role_user :: role where "role_user = ''user''"

definition role_valid :: "role \<Rightarrow> bool" where
  "role_valid r \<longleftrightarrow> r = role_admin \<or> r = role_operator \<or> r = role_user"

definition rank :: "role \<Rightarrow> nat" where
  "rank r = (if r = role_admin then 3 else if r = role_operator then 2
             else if r = role_user then 1 else 0)"

definition at_least :: "role \<Rightarrow> role \<Rightarrow> bool" where
  "at_least r m \<longleftrightarrow> rank m \<le> rank r"

record identity =
  id_username :: string
  id_display :: string
  id_role :: role
  id_provider :: string

datatype auth_err = InvalidCredentials | OpError string

type_synonym authn = "string \<Rightarrow> string \<Rightarrow> auth_err + identity"

lemmas role_names = role_admin_def role_operator_def role_user_def

lemma role_valid_simps [simp]:
  "role_valid role_admin" "role_valid role_operator" "role_valid role_user"
  by (simp_all add: role_valid_def)

lemma rank_simps [simp]: "rank role_admin = 3" "rank role_operator = 2" "rank role_user = 1"
  by (simp_all add: rank_def role_names)

lemma rank_le_3: "rank r \<le> 3"
  by (simp add: rank_def)

lemma rank_pos_iff: "0 < rank r \<longleftrightarrow> role_valid r"
  by (simp add: rank_def role_valid_def)

lemma rank_inj: "role_valid r \<Longrightarrow> role_valid s \<Longrightarrow> rank r = rank s \<Longrightarrow> r = s"
  by (auto simp: role_valid_def)

lemma at_least_refl [simp]: "at_least r r"
  by (simp add: at_least_def)

lemma at_least_trans: "at_least a b \<Longrightarrow> at_least b c \<Longrightarrow> at_least a c"
  by (simp add: at_least_def)

lemma at_least_total: "at_least a b \<or> at_least b a"
  by (auto simp: at_least_def)

lemma at_least_valid: "at_least r m \<Longrightarrow> role_valid m \<Longrightarrow> role_valid r"
  by (simp add: at_least_def flip: rank_pos_iff)

lemma at_least_admin: "at_least r role_admin \<longleftrightarrow> r = role_admin"
  by (auto simp: at_least_def rank_def split: if_splits)

lemma at_least_operator: "at_least r role_operator \<longleftrightarrow> r = role_admin \<or> r = role_operator"
  by (auto simp: at_least_def rank_def split: if_splits)

subsection \<open>The chain\<close>

fun chain_loop :: "authn list \<Rightarrow> string \<Rightarrow> string \<Rightarrow> auth_err option \<Rightarrow> bool \<Rightarrow> auth_err + identity" where
  "chain_loop [] u p last_op saw_reject =
     (if saw_reject then Inl InvalidCredentials
      else case last_op of None \<Rightarrow> Inl InvalidCredentials | Some e \<Rightarrow> Inl e)"
| "chain_loop (a # as) u p last_op saw_reject =
     (case a u p of
        Inr ident \<Rightarrow> Inr ident
      | Inl InvalidCredentials \<Rightarrow> chain_loop as u p last_op True
      | Inl (OpError e) \<Rightarrow> chain_loop as u p (Some (OpError e)) saw_reject)"

definition chain_authenticate :: "authn list \<Rightarrow> authn" where
  "chain_authenticate as u p = chain_loop as u p None False"

fun first_success :: "authn list \<Rightarrow> string \<Rightarrow> string \<Rightarrow> identity option" where
  "first_success [] u p = None"
| "first_success (a # as) u p =
     (case a u p of Inr ident \<Rightarrow> Some ident | Inl _ \<Rightarrow> first_success as u p)"

fun op_errors :: "authn list \<Rightarrow> string \<Rightarrow> string \<Rightarrow> auth_err list" where
  "op_errors [] u p = []"
| "op_errors (a # as) u p =
     (case a u p of Inl (OpError e) \<Rightarrow> OpError e # op_errors as u p | _ \<Rightarrow> op_errors as u p)"

definition rejected_by_some :: "authn list \<Rightarrow> string \<Rightarrow> string \<Rightarrow> bool" where
  "rejected_by_some as u p \<longleftrightarrow> (\<exists>a\<in>set as. a u p = Inl InvalidCredentials)"

lemma chain_loop_success: "first_success as u p = Some ident \<Longrightarrow> chain_loop as u p l s = Inr ident"
  by (induction as arbitrary: l s) (auto split: sum.splits auth_err.splits)

lemma chain_loop_failure:
  "first_success as u p = None \<Longrightarrow>
   chain_loop as u p l s =
     (if s \<or> rejected_by_some as u p then Inl InvalidCredentials
      else if op_errors as u p \<noteq> [] then Inl (last (op_errors as u p))
      else case l of None \<Rightarrow> Inl InvalidCredentials | Some e \<Rightarrow> Inl e)"
proof (induction as arbitrary: l s)
  case Nil
  then show ?case by (simp add: rejected_by_some_def)
next
  case (Cons a as)
  show ?case
  proof (cases "a u p")
    case (Inr ident)
    with Cons.prems show ?thesis by simp
  next
    case (Inl e)
    with Cons.prems have "first_success as u p = None" by simp
    note IH = Cons.IH[OF this]
    show ?thesis using Inl IH by (cases e) (auto simp: rejected_by_some_def)
  qed
qed

lemma first_success_None: "first_success as u p = None \<longleftrightarrow> (\<forall>a\<in>set as. \<exists>e. a u p = Inl e)"
  by (induction as) (auto split: sum.splits)

lemma first_success_Some:
  "first_success as u p = Some ident \<Longrightarrow>
   \<exists>pre a post. as = pre @ a # post \<and> a u p = Inr ident \<and> (\<forall>b\<in>set pre. \<exists>e. b u p = Inl e)"
proof (induction as)
  case Nil
  then show ?case by simp
next
  case (Cons b as)
  show ?case
  proof (cases "b u p")
    case (Inl e)
    with Cons obtain pre a post where "as = pre @ a # post" "a u p = Inr ident"
      "\<forall>c\<in>set pre. \<exists>e. c u p = Inl e" by auto
    with Inl have "b # as = (b # pre) @ a # post \<and> a u p = Inr ident
      \<and> (\<forall>c\<in>set (b # pre). \<exists>e. c u p = Inl e)" by simp
    then show ?thesis by (intro exI)
  next
    case (Inr ident')
    with Cons.prems have "b # as = [] @ b # as \<and> b u p = Inr ident \<and> (\<forall>c\<in>set []. \<exists>e. c u p = Inl e)"
      by simp
    then show ?thesis by (intro exI)
  qed
qed

lemma first_success_append:
  "(\<forall>b\<in>set pre. \<exists>e. b u p = Inl e) \<Longrightarrow> a u p = Inr ident \<Longrightarrow>
   first_success (pre @ a # post) u p = Some ident"
  by (induction pre) auto

text \<open>
  The chain returns the identity of the first provider, in order, that accepts the
  credentials, whatever the providers after it would say; when none accepts, the answer is
  a rejection if any provider rejected (or there is none), and otherwise the operational
  error of the last provider.
\<close>

theorem chain_authenticate_spec:
  "chain_authenticate as u p =
     (case first_success as u p of
        Some ident \<Rightarrow> Inr ident
      | None \<Rightarrow>
          if rejected_by_some as u p \<or> op_errors as u p = [] then Inl InvalidCredentials
          else Inl (last (op_errors as u p)))"
  by (auto simp: chain_authenticate_def chain_loop_success chain_loop_failure split: option.splits)

subsection \<open>The interface\<close>

locale authenticator =
  fixes authenticate :: "'st \<Rightarrow> authn"
    and inv :: "'st \<Rightarrow> bool"
  assumes known_role: "inv st \<Longrightarrow> authenticate st u p = Inr ident \<Longrightarrow> role_valid (id_role ident)"
begin

lemma unknown_role_never_authenticates:
  "inv st \<Longrightarrow> \<not> role_valid (id_role ident) \<Longrightarrow> authenticate st u p \<noteq> Inr ident"
  using known_role by blast

lemma role_ranked: "inv st \<Longrightarrow> authenticate st u p = Inr ident \<Longrightarrow> at_least (id_role ident) role_user"
proof -
  assume "inv st" "authenticate st u p = Inr ident"
  then have "0 < rank (id_role ident)" by (simp add: rank_pos_iff known_role)
  then show ?thesis by (simp add: at_least_def)
qed

end

lemma chain_success: "chain_authenticate as u p = Inr ident \<Longrightarrow> first_success as u p = Some ident"
  by (cases "first_success as u p")
    (auto simp: chain_authenticate_def chain_loop_success chain_loop_failure split: if_splits)

lemma chain_role_valid:
  assumes "\<And>a ident. a \<in> set as \<Longrightarrow> a u p = Inr ident \<Longrightarrow> role_valid (id_role ident)"
    and "chain_authenticate as u p = Inr ident"
  shows "role_valid (id_role ident)"
proof -
  from first_success_Some[OF chain_success[OF assms(2)]]
  obtain pre a post where "as = pre @ a # post" "a u p = Inr ident" by blast
  then show ?thesis by (intro assms(1)[of a]) simp_all
qed

end
