(* ===== verification/Sessions.thy ===== *)
theory Sessions
  imports Roles
begin

section \<open>Admin sessions\<close>

text \<open>
  \<open>internal/auth/session.go\<close>: the table \<open>app_sessions\<close> is the list of its rows, keyed by
  the hash of the session token.  \<open>sha\<close> stands for SHA-256 and the tokens' random bytes are
  arguments.  An expiry is stored in seconds and compared in nanoseconds, as in the code.
  \<open>s_created\<close> is \<open>None\<close> for a text that does not parse as a time.
\<close>

record session =
  ses_token :: string
  ses_identity :: identity
  ses_csrf :: string
  ses_expires :: nanos

record session_row =
  s_token :: string
  s_username :: string
  s_role :: role
  s_display :: string
  s_provider :: string
  s_csrf :: string
  s_created :: "secs option"
  s_expires :: secs

record session_store =
  ttl :: int
  max_lifetime :: int

datatype session_err = NoSession | SessionDb sql_err

definition new_session_store :: "int \<Rightarrow> session_store" where
  "new_session_store d = \<lparr>ttl = (if d \<le> 0 then 12 * hour else d), max_lifetime = 0\<rparr>"

definition set_max_lifetime :: "session_store \<Rightarrow> int \<Rightarrow> session_store" where
  "set_max_lifetime s d = s\<lparr>max_lifetime := (if d < 0 then 0 else d)\<rparr>"

definition hash_token :: "(string \<Rightarrow> string) \<Rightarrow> string \<Rightarrow> string" where
  "hash_token sha raw = hex_encode (sha raw)"

definition provider_or :: "string \<Rightarrow> string" where
  "provider_or p = (if p = [] then ''local'' else p)"

definition create_session ::
  "(string \<Rightarrow> string) \<Rightarrow> session_store \<Rightarrow> fault \<Rightarrow> nanos \<Rightarrow> string \<Rightarrow> string \<Rightarrow> identity \<Rightarrow> session_row list \<Rightarrow>
   (sql_err + session) \<times> session_row list" where
  "create_session sha st ft now rnd1 rnd2 ident rows =
     (let token = hex_encode rnd1; csrf = hex_encode rnd2; expires = now + ttl st
      in case ft of
           Some e \<Rightarrow> (Inl (SqlErr e), rows)
         | None \<Rightarrow>
             if hash_token sha token \<in> set (map s_token rows)
             then (Inl (SqlErr ''UNIQUE constraint failed: app_sessions.token''), rows)
             else (Inr \<lparr>ses_token = token, ses_identity = ident, ses_csrf = csrf, ses_expires = expires\<rparr>,
                   rows @ [\<lparr>s_token = hash_token sha token, s_username = id_username ident,
                     s_role = id_role ident, s_display = id_display ident,
                     s_provider = provider_or (id_provider ident), s_csrf = csrf,
                     s_created = Some (to_secs now), s_expires = to_secs expires\<rparr>]))"

definition delete_session :: "(string \<Rightarrow> string) \<Rightarrow> fault \<Rightarrow> string \<Rightarrow> session_row list \<Rightarrow> (sql_err + unit) \<times> session_row list" where
  "delete_session sha ft token rows =
     (case ft of Some e \<Rightarrow> (Inl (SqlErr e), rows)
      | None \<Rightarrow> (Inr (), delete_where (\<lambda>r. s_token r = hash_token sha token) rows))"

definition lifetime_cap :: "session_store \<Rightarrow> session_row \<Rightarrow> nanos" where
  \<comment> \<open>the zero time when there is no cap\<close>
  "lifetime_cap st r =
     (if 0 < max_lifetime st
      then (case s_created r of Some c \<Rightarrow> of_secs c + max_lifetime st | None \<Rightarrow> zero_time)
      else zero_time)"

definition past_cap :: "session_store \<Rightarrow> nanos \<Rightarrow> session_row \<Rightarrow> bool" where
  "past_cap st now r \<longleftrightarrow> 0 < max_lifetime st \<and> s_created r \<noteq> None \<and> lifetime_cap st r < now"

definition slid_expiry :: "session_store \<Rightarrow> nanos \<Rightarrow> session_row \<Rightarrow> nanos" where
  "slid_expiry st now r =
     (let cap = lifetime_cap st r; new_exp = now + ttl st
      in if cap \<noteq> zero_time \<and> cap < new_exp then cap else new_exp)"

definition row_identity :: "session_row \<Rightarrow> identity" where
  "row_identity r = \<lparr>id_username = s_username r, id_display = s_display r, id_role = s_role r,
     id_provider = s_provider r\<rparr>"

definition get_session ::
  "(string \<Rightarrow> string) \<Rightarrow> session_store \<Rightarrow> fault \<Rightarrow> fault \<Rightarrow> fault \<Rightarrow> nanos \<Rightarrow> string \<Rightarrow> session_row list \<Rightarrow>
   (session_err + session) \<times> session_row list" where
  \<comment> \<open>the faults are those of the SELECT, the DELETE of an expired row and the renewing UPDATE\<close>
  "get_session sha st f_sel f_del f_upd now token rows =
     (if token = [] then (Inl NoSession, rows)
      else case f_sel of
        Some e \<Rightarrow> (Inl (SessionDb (SqlErr e)), rows)
      | None \<Rightarrow> (case List.find (\<lambda>r. s_token r = hash_token sha token) rows of
          None \<Rightarrow> (Inl NoSession, rows)
        | Some r \<Rightarrow>
            let expiry = of_secs (s_expires r) in
            if expiry < now then (Inl NoSession, snd (delete_session sha f_del token rows))
            else if past_cap st now r then (Inl NoSession, snd (delete_session sha f_del token rows))
            else
              let new_exp = slid_expiry st now r;
                  renew = (expiry < new_exp \<and> f_upd = None)
              in (Inr \<lparr>ses_token = token, ses_identity = row_identity r, ses_csrf = s_csrf r,
                       ses_expires = (if renew then new_exp else expiry)\<rparr>,
                  if renew then update_where (\<lambda>r. s_token r = hash_token sha token)
                                  (\<lambda>r. r\<lparr>s_expires := to_secs new_exp\<rparr>) rows
                  else rows)))"

definition delete_expired :: "fault \<Rightarrow> nanos \<Rightarrow> session_row list \<Rightarrow> (sql_err + nat) \<times> session_row list" where
  "delete_expired ft now rows =
     (case ft of Some e \<Rightarrow> (Inl (SqlErr e), rows)
      | None \<Rightarrow> (Inr (affected (\<lambda>r. s_expires r < to_secs now) rows),
                 delete_where (\<lambda>r. s_expires r < to_secs now) rows))"

definition delete_by_username :: "fault \<Rightarrow> string \<Rightarrow> session_row list \<Rightarrow> (sql_err + nat) \<times> session_row list" where
  "delete_by_username ft u rows =
     (case ft of Some e \<Rightarrow> (Inl (SqlErr e), rows)
      | None \<Rightarrow> (Inr (affected (\<lambda>r. s_username r = u) rows), delete_where (\<lambda>r. s_username r = u) rows))"

datatype session_call =
    CreateSession identity string string
  | GetSession string fault fault
  | DeleteSession string
  | DeleteExpired
  | DeleteByUsername string

type_synonym session_event = "nanos \<times> fault \<times> session_call"

fun session_step :: "(string \<Rightarrow> string) \<Rightarrow> session_store \<Rightarrow> session_event \<Rightarrow> session_row list \<Rightarrow> session_row list" where
  "session_step sha st (now, ft, CreateSession ident r1 r2) rows = snd (create_session sha st ft now r1 r2 ident rows)"
| "session_step sha st (now, ft, GetSession tok fd fu) rows = snd (get_session sha st ft fd fu now tok rows)"
| "session_step sha st (now, ft, DeleteSession tok) rows = snd (delete_session sha ft tok rows)"
| "session_step sha st (now, ft, DeleteExpired) rows = snd (delete_expired ft now rows)"
| "session_step sha st (now, ft, DeleteByUsername u) rows = snd (delete_by_username ft u rows)"

definition session_run :: "(string \<Rightarrow> string) \<Rightarrow> session_store \<Rightarrow> session_event list \<Rightarrow> session_row list \<Rightarrow> session_row list" where
  "session_run sha st evs rows = fold (session_step sha st) evs rows"

subsection \<open>What a step can leave in the table\<close>

definition sessions_ok :: "session_row list \<Rightarrow> bool" where
  "sessions_ok rows \<longleftrightarrow> distinct (map s_token rows)"

lemma session_step_ok: "sessions_ok rows \<Longrightarrow> sessions_ok (session_step sha st ev rows)"
  by (cases ev rule: prod_cases3; cases "snd (snd ev)")
    (auto simp: sessions_ok_def create_session_def get_session_def delete_session_def delete_expired_def
      delete_by_username_def Let_def map_update_where distinct_map_delete_where split: option.splits)

lemma session_run_ok: "sessions_ok rows \<Longrightarrow> sessions_ok (session_run sha st evs rows)"
  unfolding session_run_def by (induction evs arbitrary: rows) (simp_all add: session_step_ok)

text \<open>
  \<open>made_by\<close>: the row is the one that this creation writes, up to its expiry.
  \<open>touched_by\<close>: the event is a creation of, or a look-up with, the row's token, and gives it
  at least the expiry it has.
\<close>

definition made_by :: "(string \<Rightarrow> string) \<Rightarrow> session_row \<Rightarrow> session_event \<Rightarrow> bool" where
  "made_by sha r ev \<longleftrightarrow>
     (case ev of (t, ft, CreateSession ident r1 r2) \<Rightarrow>
        s_token r = hash_token sha (hex_encode r1) \<and> s_csrf r = hex_encode r2 \<and>
        row_identity r = ident\<lparr>id_provider := provider_or (id_provider ident)\<rparr> \<and>
        s_created r = Some (to_secs t)
      | _ \<Rightarrow> False)"

definition touched_by :: "(string \<Rightarrow> string) \<Rightarrow> session_store \<Rightarrow> session_row \<Rightarrow> session_event \<Rightarrow> bool" where
  "touched_by sha st r ev \<longleftrightarrow>
     of_secs (s_expires r) \<le> fst ev + ttl st \<and>
     (case snd (snd ev) of
        CreateSession ident r1 r2 \<Rightarrow> hash_token sha (hex_encode r1) = s_token r
      | GetSession tok fd fu \<Rightarrow> hash_token sha tok = s_token r
      | _ \<Rightarrow> False)"

lemma of_to_secs_trans: "x \<le> y \<Longrightarrow> of_secs (to_secs x) \<le> y"
  using of_to_secs_le[of x] by linarith

lemma slid_expiry_le: "slid_expiry st now r \<le> now + ttl st"
  by (simp add: slid_expiry_def Let_def)

lemma created_row:
  assumes "r \<in> set (snd (create_session sha st ft now r1 r2 ident rows))"
  shows "r \<in> set rows \<or> made_by sha r (now, ft, CreateSession ident r1 r2)
      \<and> touched_by sha st r (now, ft, CreateSession ident r1 r2)"
  using assms of_to_secs_le[of "now + ttl st"]
  by (auto simp: create_session_def made_by_def touched_by_def row_identity_def Let_def split: option.splits if_splits)

lemma got_row:
  assumes "r \<in> set (snd (get_session sha st ft fd fu now tok rows))"
  shows "r \<in> set rows \<or>
    (\<exists>r0\<in>set rows. r = r0\<lparr>s_expires := s_expires r\<rparr> \<and> touched_by sha st r (now, ft, GetSession tok fd fu))"
  using assms of_to_secs_trans[OF slid_expiry_le[of st now]]
  by (auto simp: get_session_def delete_session_def touched_by_def set_update_where Let_def
      split: option.splits if_splits)

lemma made_by_expires: "made_by sha (r\<lparr>s_expires := e\<rparr>) ev \<longleftrightarrow> made_by sha r ev"
  by (cases ev rule: prod_cases3; cases "snd (snd ev)") (simp_all add: made_by_def row_identity_def)

lemma session_step_rows:
  assumes "r \<in> set (session_step sha st ev rows)"
  shows "r \<in> set rows \<or> made_by sha r ev \<and> touched_by sha st r ev \<or>
    (\<exists>r0\<in>set rows. r = r0\<lparr>s_expires := s_expires r\<rparr> \<and> touched_by sha st r ev)"
proof -
  obtain now ft c where ev: "ev = (now, ft, c)" by (cases ev rule: prod_cases3)
  show ?thesis
  proof (cases c)
    case (CreateSession ident r1 r2)
    with assms created_row[of r sha st ft now r1 r2 ident rows] show ?thesis by (auto simp: ev)
  next
    case (GetSession tok fd fu)
    with assms got_row[of r sha st ft fd fu now tok rows] show ?thesis by (auto simp: ev)
  qed (use assms in \<open>auto simp: ev delete_session_def delete_expired_def delete_by_username_def split: option.splits\<close>)
qed

lemma session_run_rows:
  "r \<in> set (session_run sha st evs []) \<Longrightarrow>
   (\<exists>ev\<in>set evs. made_by sha r ev) \<and> (\<exists>ev\<in>set evs. touched_by sha st r ev)"
proof (induction evs arbitrary: r rule: rev_induct)
  case Nil
  then show ?case by (simp add: session_run_def)
next
  case (snoc ev evs)
  have "r \<in> set (session_step sha st ev (session_run sha st evs []))"
    using snoc.prems by (simp add: session_run_def)
  from session_step_rows[OF this] show ?case
  proof (elim disjE)
    assume "r \<in> set (session_run sha st evs [])"
    with snoc.IH[of r] show ?case by auto
  next
    assume "made_by sha r ev \<and> touched_by sha st r ev"
    then show ?case by auto
  next
    assume "\<exists>r0\<in>set (session_run sha st evs []). r = r0\<lparr>s_expires := s_expires r\<rparr> \<and> touched_by sha st r ev"
    then obtain r0 where r0: "r0 \<in> set (session_run sha st evs [])" "r = r0\<lparr>s_expires := s_expires r\<rparr>"
      "touched_by sha st r ev" by blast
    have "made_by sha r e \<longleftrightarrow> made_by sha r0 e" for e
      by (subst r0(2)) (rule made_by_expires)
    with snoc.IH[OF r0(1)] r0(3) show ?case by auto
  qed
qed

subsection \<open>A session that is accepted\<close>

lemma get_session_Inr:
  assumes "get_session sha st f1 f2 f3 now tok rows = (Inr s, rows')"
  shows "\<exists>r\<in>set rows. s_token r = hash_token sha tok \<and> now \<le> of_secs (s_expires r) \<and> \<not> past_cap st now r \<and>
    ses_identity s = row_identity r \<and> ses_csrf s = s_csrf r \<and> ses_token s = tok \<and>
    now \<le> ses_expires s"
  using assms
  by (auto simp: get_session_def Let_def find_Some_iff split: option.splits if_splits)

definition keeps_alive :: "(string \<Rightarrow> string) \<Rightarrow> string \<Rightarrow> session_event \<Rightarrow> bool" where
  \<comment> \<open>the event creates, or looks up, a session with this token hash\<close>
  "keeps_alive sha h ev \<longleftrightarrow>
     (case snd (snd ev) of
        CreateSession ident r1 r2 \<Rightarrow> hash_token sha (hex_encode r1) = h
      | GetSession tok fd fu \<Rightarrow> hash_token sha tok = h
      | _ \<Rightarrow> False)"

lemma touched_alive: "touched_by sha st r ev \<Longrightarrow> keeps_alive sha (s_token r) ev"
  by (cases ev rule: prod_cases3; cases "snd (snd ev)") (auto simp: touched_by_def keeps_alive_def)

text \<open>
  C6: After any run of the session store from an empty table, with any times and storage
  failures, an accepted token stands for a login made during the run: the session carries
  that login's identity and CSRF token, the login is no older than the absolute lifetime when
  one is set, and the session was created or used at most one idle timeout ago.
\<close>

theorem session_authentic:
  assumes "get_session sha st f1 f2 f3 now tok (session_run sha st evs []) = (Inr s, rows')"
  shows "(\<exists>(t, ft, c)\<in>set evs. \<exists>ident r1 r2. c = CreateSession ident r1 r2 \<and>
      hash_token sha (hex_encode r1) = hash_token sha tok \<and>
      ses_identity s = ident\<lparr>id_provider := provider_or (id_provider ident)\<rparr> \<and> ses_csrf s = hex_encode r2 \<and>
      (0 < max_lifetime st \<longrightarrow> now \<le> of_secs (to_secs t) + max_lifetime st)) \<and>
    (\<exists>ev\<in>set evs. keeps_alive sha (hash_token sha tok) ev \<and> now \<le> fst ev + ttl st)"
proof -
  from get_session_Inr[OF assms] obtain r where r: "r \<in> set (session_run sha st evs [])"
    "s_token r = hash_token sha tok" "now \<le> of_secs (s_expires r)" "\<not> past_cap st now r"
    "ses_identity s = row_identity r" "ses_csrf s = s_csrf r" by blast
  from session_run_rows[OF r(1)] obtain ev ev' where ev: "ev \<in> set evs" "made_by sha r ev"
    "ev' \<in> set evs" "touched_by sha st r ev'" by blast
  obtain t ft c where e: "ev = (t, ft, c)" by (cases ev rule: prod_cases3)
  with ev(2) obtain ident r1 r2 where c: "c = CreateSession ident r1 r2"
    by (cases c) (auto simp: made_by_def)
  have cap: "0 < max_lifetime st \<longrightarrow> now \<le> of_secs (to_secs t) + max_lifetime st"
    using r(4) ev(2) e c by (auto simp: past_cap_def lifetime_cap_def made_by_def)
  have "now \<le> fst ev' + ttl st" using r(3) ev(4) by (auto simp: touched_by_def)
  moreover have "keeps_alive sha (hash_token sha tok) ev'" using touched_alive[OF ev(4)] r(2) by simp
  moreover have "\<exists>ident r1 r2. c = CreateSession ident r1 r2 \<and>
      hash_token sha (hex_encode r1) = hash_token sha tok \<and>
      ses_identity s = ident\<lparr>id_provider := provider_or (id_provider ident)\<rparr> \<and> ses_csrf s = hex_encode r2 \<and>
      (0 < max_lifetime st \<longrightarrow> now \<le> of_secs (to_secs t) + max_lifetime st)"
    using r ev(2) e c cap by (intro exI[of _ ident] exI[of _ r1] exI[of _ r2]) (simp add: made_by_def)
  ultimately show ?thesis
    by (intro conjI bexI[OF _ ev(1)[unfolded e]] bexI[OF _ ev(3)]) simp_all
qed

definition demo_ident :: identity where
  "demo_ident = \<lparr>id_username = ''ann'', id_display = ''Ann'', id_role = role_admin, id_provider = []\<rparr>"

definition demo_store :: session_store where
  "demo_store = set_max_lifetime (new_session_store hour) (2 * hour)"

definition demo_sessions :: "session_event list" where
  "demo_sessions = [(0, None, CreateSession demo_ident ''t'' ''c''), (hour, None, GetSession ''74'' None None)]"

lemma demo_session_run:
  "session_run (\<lambda>s. s) demo_store demo_sessions [] =
     [\<lparr>s_token = ''3734'', s_username = ''ann'', s_role = role_admin, s_display = ''Ann'',
       s_provider = ''local'', s_csrf = ''63'', s_created = Some 0, s_expires = 7200\<rparr>]"
  by (simp add: session_run_def demo_sessions_def demo_store_def set_max_lifetime_def new_session_store_def
      hour_def second_def create_session_def get_session_def hash_token_def hex_encode_def hex_digit_def
      demo_ident_def provider_or_def Let_def to_secs_def of_secs_def past_cap_def lifetime_cap_def
      slid_expiry_def zero_time_def update_where_def)

theorem session_authentic_witness:
  "\<exists>ev\<in>set demo_sessions. keeps_alive (\<lambda>s. s) ''3734'' ev \<and> 2 * hour \<le> fst ev + hour"
proof -
  have "\<exists>s rows'. get_session (\<lambda>s. s) demo_store None None None (2 * hour) ''74''
      (session_run (\<lambda>s. s) demo_store demo_sessions []) = (Inr s, rows')"
    unfolding demo_session_run
    by (simp add: get_session_def demo_store_def set_max_lifetime_def new_session_store_def
        hour_def second_def hash_token_def hex_encode_def hex_digit_def Let_def of_secs_def past_cap_def
        lifetime_cap_def)
  then obtain s rows' where "get_session (\<lambda>s. s) demo_store None None None (2 * hour) ''74''
      (session_run (\<lambda>s. s) demo_store demo_sessions []) = (Inr s, rows')" by blast
  from session_authentic[OF this] show ?thesis
    by (simp add: hash_token_def hex_encode_def hex_digit_def demo_store_def set_max_lifetime_def
        new_session_store_def hour_def second_def)
qed

subsection \<open>Ending sessions\<close>

definition logs_in :: "string \<Rightarrow> session_event \<Rightarrow> bool" where
  "logs_in u ev \<longleftrightarrow> (case snd (snd ev) of CreateSession ident r1 r2 \<Rightarrow> id_username ident = u | _ \<Rightarrow> False)"

lemma made_by_logs_in:
  assumes "made_by sha r ev"
  shows "logs_in (s_username r) ev"
proof -
  obtain t ft c where e: "ev = (t, ft, c)" by (cases ev rule: prod_cases3)
  with assms obtain ident r1 r2 where c: "c = CreateSession ident r1 r2"
    by (cases c) (auto simp: made_by_def)
  have "id_username (row_identity r) = id_username (ident\<lparr>id_provider := provider_or (id_provider ident)\<rparr>)"
    using assms by (simp add: made_by_def e c)
  then show ?thesis by (simp add: logs_in_def e c row_identity_def)
qed

lemma username_gone_step:
  assumes "\<forall>r\<in>set rows. s_username r \<noteq> u" and "\<not> logs_in u ev"
  shows "\<forall>r\<in>set (session_step sha st ev rows). s_username r \<noteq> u"
proof
  fix r assume r: "r \<in> set (session_step sha st ev rows)"
  from session_step_rows[OF r] show "s_username r \<noteq> u"
  proof (elim disjE)
    assume "made_by sha r ev \<and> touched_by sha st r ev"
    with assms(2) show ?thesis using made_by_logs_in by blast
  next
    assume "\<exists>r0\<in>set rows. r = r0\<lparr>s_expires := s_expires r\<rparr> \<and> touched_by sha st r ev"
    then obtain r0 where "r0 \<in> set rows" "r = r0\<lparr>s_expires := s_expires r\<rparr>" by blast
    moreover from this(2) have "s_username r = s_username r0" by (metis session_row.select_convs(2) session_row.surjective session_row.update_convs(8))
    ultimately show ?thesis using assms(1) by simp
  qed (use assms(1) in simp)
qed

lemma username_gone_run:
  "\<forall>r\<in>set rows. s_username r \<noteq> u \<Longrightarrow> (\<And>ev. ev \<in> set evs \<Longrightarrow> \<not> logs_in u ev) \<Longrightarrow>
   \<forall>r\<in>set (session_run sha st evs rows). s_username r \<noteq> u"
proof (induction evs arbitrary: rows)
  case (Cons ev evs)
  from username_gone_step[OF Cons.prems(1), of ev sha st] Cons.prems(2)
  have "\<forall>r\<in>set (session_step sha st ev rows). s_username r \<noteq> u" by simp
  from Cons.IH[OF this] Cons.prems(2) show ?case by (simp add: session_run_def)
qed (simp add: session_run_def)

text \<open>
  After the sessions of a user have been revoked (a password or role change, a deleted
  account), no token is accepted for that user, whatever happens to the table, until the
  user logs in again.
\<close>

theorem revoked_user_stays_out:
  assumes "\<forall>ev\<in>set evs. \<not> logs_in u ev"
    and "later = session_run sha st evs (snd (delete_by_username None u rows))"
    and "get_session sha st f1 f2 f3 now tok later = (Inr s, rows')"
  shows "id_username (ses_identity s) \<noteq> u"
proof -
  have "\<forall>r\<in>set later. s_username r \<noteq> u"
    unfolding assms(2) using assms(1) by (intro username_gone_run) (simp_all add: delete_by_username_def)
  with get_session_Inr[OF assms(3)] show ?thesis by (auto simp: row_identity_def)
qed

definition demo_row :: "string \<Rightarrow> string \<Rightarrow> session_row" where
  "demo_row h u = \<lparr>s_token = h, s_username = u, s_role = role_user, s_display = [], s_provider = ''local'',
     s_csrf = [], s_created = Some 0, s_expires = 60\<rparr>"

theorem revoked_user_stays_out_witness:
  "\<exists>s rows'. get_session (\<lambda>s. s) demo_store None None None second ''1''
      (session_run (\<lambda>s. s) demo_store [(0, None, DeleteExpired)]
        (snd (delete_by_username None ''bob'' [demo_row ''31'' ''ann'', demo_row ''32'' ''bob'']))) = (Inr s, rows')
    \<and> id_username (ses_identity s) \<noteq> ''bob''"
proof -
  let ?later = "session_run (\<lambda>s. s) demo_store [(0, None, DeleteExpired)]
        (snd (delete_by_username None ''bob'' [demo_row ''31'' ''ann'', demo_row ''32'' ''bob'']))"
  have "\<exists>s rows'. get_session (\<lambda>s. s) demo_store None None None second ''1'' ?later = (Inr s, rows')"
    by (simp add: session_run_def delete_expired_def delete_by_username_def delete_where_def demo_row_def
        get_session_def demo_store_def set_max_lifetime_def new_session_store_def hour_def second_def
        hash_token_def hex_encode_def hex_digit_def Let_def of_secs_def to_secs_def past_cap_def lifetime_cap_def)
  then obtain s rows' where g: "get_session (\<lambda>s. s) demo_store None None None second ''1'' ?later = (Inr s, rows')"
    by blast
  have "\<forall>ev\<in>set [(0, None, DeleteExpired)]. \<not> logs_in ''bob'' ev" by (simp add: logs_in_def)
  from revoked_user_stays_out[OF this refl g] g show ?thesis by blast
qed

text \<open>
  The periodic purge of expired sessions is unobservable: at any later time every token
  is answered as if the purge had not run.
\<close>

theorem purge_unobservable:
  assumes "sessions_ok rows" and "now \<le> now'"
  shows "fst (get_session sha st f1 f2 f3 now' tok (snd (delete_expired ft now rows))) =
         fst (get_session sha st f1 f2 f3 now' tok rows)"
proof (cases ft)
  case None
  let ?h = "hash_token sha tok"
  have d: "distinct (map s_token rows)" using assms(1) by (simp add: sessions_ok_def)
  have dead: "of_secs (s_expires r) < now'" if "s_expires r < to_secs now" for r :: session_row
  proof -
    have "of_secs (s_expires r) < of_secs (to_secs now)" using that by (simp add: of_secs_def second_def)
    then show ?thesis using of_to_secs_le[of now] assms(2) by linarith
  qed
  note f = find_delete_unique[OF d, of ?h "\<lambda>r. s_expires r < to_secs now"]
  show ?thesis
  proof (cases "List.find (\<lambda>r. s_token r = ?h) rows")
    case None
    then show ?thesis by (simp add: get_session_def delete_expired_def f \<open>ft = None\<close> split: option.splits)
  next
    case (Some r)
    then show ?thesis
      by (cases "s_expires r < to_secs now")
        (simp_all add: get_session_def delete_expired_def f \<open>ft = None\<close> dead Let_def split: option.splits)
  qed
qed (simp add: delete_expired_def)

theorem purge_unobservable_witness:
  "fst (get_session (\<lambda>s. s) demo_store None None None (61 * second) ''1''
      (snd (delete_expired None (61 * second) [demo_row ''31'' ''ann'']))) =
   fst (get_session (\<lambda>s. s) demo_store None None None (61 * second) ''1'' [demo_row ''31'' ''ann''])"
  by (rule purge_unobservable) (simp_all add: sessions_ok_def)

end
