(* ===== verification/KeyStores.thy ===== *)
theory KeyStores
  imports Prelude
begin

section \<open>Key-value tables, certificate associations and the audit log\<close>

text \<open>
  \<open>kvbucket.go\<close>, \<open>settings.go\<close>, \<open>certauth.go\<close>, \<open>nanostore.go\<close>, \<open>apns.go\<close> and \<open>audit.go\<close> of
  \<open>internal/storage/sqlite\<close>.  A bucket is the rows of \<open>nano_kv\<close> with its name.  The locale
  \<open>key_store\<close> is what a client of a key-value table relies on (the NanoMDM layer, the
  settings, the APNs topics); each of the three tables interprets it.
\<close>

subsection \<open>Buckets\<close>

record kv_row =
  kv_bucket :: string
  kv_key :: string
  kv_value :: string

definition kv_find :: "kv_row list \<Rightarrow> string \<times> string \<Rightarrow> kv_row option" where
  "kv_find rows bk = List.find (\<lambda>r. (kv_bucket r, kv_key r) = bk) rows"

definition kv_has :: "fault \<Rightarrow> string \<Rightarrow> string \<Rightarrow> kv_row list \<Rightarrow> sql_err + bool" where
  "kv_has ft b k rows = on_read ft (kv_find rows (b, k) \<noteq> None)"

datatype kv_err = KeyNotFound | KvDb sql_err

definition kv_get :: "fault \<Rightarrow> string \<Rightarrow> string \<Rightarrow> kv_row list \<Rightarrow> kv_err + string" where
  "kv_get ft b k rows = (case ft of Some e \<Rightarrow> Inl (KvDb (SqlErr e))
     | None \<Rightarrow> (case kv_find rows (b, k) of None \<Rightarrow> Inl KeyNotFound | Some r \<Rightarrow> Inr (kv_value r)))"

definition kv_set :: "fault \<Rightarrow> string \<Rightarrow> string \<Rightarrow> string \<Rightarrow> kv_row list \<Rightarrow> (sql_err + unit) \<times> kv_row list" where
  "kv_set ft b k v rows = on_fault ft rows
     (upsert (\<lambda>r. (kv_bucket r, kv_key r) = (b, k)) (\<lambda>r. r\<lparr>kv_value := v\<rparr>)
        \<lparr>kv_bucket = b, kv_key = k, kv_value = v\<rparr> rows)"

definition kv_delete :: "fault \<Rightarrow> string \<Rightarrow> string \<Rightarrow> kv_row list \<Rightarrow> (sql_err + unit) \<times> kv_row list" where
  "kv_delete ft b k rows = on_fault ft rows (delete_where (\<lambda>r. (kv_bucket r, kv_key r) = (b, k)) rows)"

definition collect_keys :: "fault \<Rightarrow> string \<Rightarrow> string \<Rightarrow> kv_row list \<Rightarrow> sql_err + string list" where
  "collect_keys ft b prefix rows = on_read ft (map kv_key
     (filter (\<lambda>r. kv_bucket r = b \<and> (prefix = [] \<or> take (length prefix) (kv_key r) = prefix)) rows))"

definition stream_keys :: "fault \<Rightarrow> nat \<Rightarrow> string \<Rightarrow> string \<Rightarrow> kv_row list \<Rightarrow> string list" where
  \<comment> \<open>the keys that reach the consumer, which stops (or is cancelled) after \<open>n\<close>; an error yields none\<close>
  "stream_keys ft n b prefix rows = (case collect_keys ft b prefix rows of Inl e \<Rightarrow> [] | Inr ks \<Rightarrow> take n ks)"

definition kv_keys :: "fault \<Rightarrow> nat \<Rightarrow> string \<Rightarrow> kv_row list \<Rightarrow> string list" where
  "kv_keys ft n b rows = stream_keys ft n b [] rows"

datatype kv_call = KvSet string string string | KvDelete string string

fun kv_step :: "fault \<times> kv_call \<Rightarrow> kv_row list \<Rightarrow> kv_row list" where
  "kv_step (ft, KvSet b k v) rows = snd (kv_set ft b k v rows)"
| "kv_step (ft, KvDelete b k) rows = snd (kv_delete ft b k rows)"

definition kv_run :: "(fault \<times> kv_call) list \<Rightarrow> kv_row list \<Rightarrow> kv_row list" where
  "kv_run cs rows = fold kv_step cs rows"

text \<open>The abstract state of a bucket is a finite map.\<close>

definition bucket_map :: "kv_row list \<Rightarrow> string \<Rightarrow> string \<Rightarrow> string option" where
  "bucket_map rows b = (\<lambda>k. map_option kv_value (kv_find rows (b, k)))"

fun map_step :: "string \<Rightarrow> fault \<times> kv_call \<Rightarrow> (string \<Rightarrow> string option) \<Rightarrow> (string \<Rightarrow> string option)" where
  "map_step b (ft, KvSet b' k v) m = (if ft = None \<and> b' = b then m(k \<mapsto> v) else m)"
| "map_step b (ft, KvDelete b' k) m = (if ft = None \<and> b' = b then m(k := None) else m)"

definition kv_ok :: "kv_row list \<Rightarrow> bool" where
  "kv_ok rows \<longleftrightarrow> distinct (map (\<lambda>r. (kv_bucket r, kv_key r)) rows)"

lemma kv_find_set:
  "kv_find (snd (kv_set None b k v rows)) bk =
    (if bk = (b, k) then Some \<lparr>kv_bucket = b, kv_key = k, kv_value = v\<rparr> else kv_find rows bk)"
proof (cases "bk = (b, k)")
  case True
  have "(\<lambda>r. r\<lparr>kv_value := v\<rparr>) x = \<lparr>kv_bucket = b, kv_key = k, kv_value = v\<rparr>" if "(kv_bucket x, kv_key x) = (b, k)" for x
    using that by (cases x) simp
  then have "(case List.find (\<lambda>r. (kv_bucket r, kv_key r) = (b, k)) rows of None \<Rightarrow> \<lparr>kv_bucket = b, kv_key = k, kv_value = v\<rparr>
      | Some r \<Rightarrow> r\<lparr>kv_value := v\<rparr>) = \<lparr>kv_bucket = b, kv_key = k, kv_value = v\<rparr>"
    by (auto split: option.splits dest!: find_SomeD)
  with True show ?thesis
    unfolding kv_find_def kv_set_def on_fault_def
    by (simp only: option.case snd_conv if_True True) (subst find_upsert_same, simp_all)
next
  case False
  then show ?thesis
    unfolding kv_find_def kv_set_def on_fault_def
    by (simp only: option.case snd_conv if_False) (subst find_upsert_other, simp_all)
qed

lemma kv_find_delete:
  "kv_find (snd (kv_delete None b k rows)) bk = (if bk = (b, k) then None else kv_find rows bk)"
proof (cases "bk = (b, k)")
  case True
  then show ?thesis by (auto simp: kv_find_def kv_delete_def on_fault_def find_delete_where find_None_iff)
next
  case False
  then show ?thesis
    unfolding kv_find_def kv_delete_def on_fault_def
    by (simp only: option.case snd_conv if_False) (rule find_delete_other)
qed

lemma kv_ok_step: "kv_ok rows \<Longrightarrow> kv_ok (kv_step c rows)"
proof (cases c)
  case (Pair ft cc)
  assume ok: "kv_ok rows"
  show ?thesis
  proof (cases cc)
    case (KvSet b k v)
    with Pair ok show ?thesis
      by (cases ft) (auto simp: kv_ok_def kv_set_def on_fault_def upsert_def map_update_where find_None_iff)
  next
    case (KvDelete b k)
    with Pair ok show ?thesis
      by (cases ft) (auto simp: kv_ok_def kv_delete_def on_fault_def distinct_map_delete_where)
  qed
qed

lemma kv_ok_run: "kv_ok rows \<Longrightarrow> kv_ok (kv_run cs rows)"
  unfolding kv_run_def by (induction cs arbitrary: rows) (simp_all add: kv_ok_step)

lemma bucket_map_step: "bucket_map (kv_step c rows) b = map_step b c (bucket_map rows b)"
proof (cases c)
  case (Pair ft cc)
  show ?thesis
  proof (cases ft)
    case None
    with Pair show ?thesis
      by (cases cc) (auto simp: bucket_map_def kv_find_set kv_find_delete fun_eq_iff)
  next
    case (Some e)
    with Pair show ?thesis by (cases cc) (simp_all add: kv_set_def kv_delete_def on_fault_def)
  qed
qed

lemma bucket_map_run: "bucket_map (kv_run cs rows) b = fold (map_step b) cs (bucket_map rows b)"
  unfolding kv_run_def by (induction cs arbitrary: rows) (simp_all add: bucket_map_step)

lemma bucket_keys:
  assumes "kv_ok rows" and that: "collect_keys None b p rows = Inr ks"
  shows "distinct ks \<and> set ks = {k \<in> dom (bucket_map rows b). take (length p) k = p}"
proof -
  have ks: "ks = map kv_key (filter (\<lambda>r. kv_bucket r = b \<and> (p = [] \<or> take (length p) (kv_key r) = p)) rows)"
    using that by (simp add: collect_keys_def on_read_def)
  have "inj_on (\<lambda>r. (kv_bucket r, kv_key r)) (set rows)" "distinct rows"
    using assms by (simp_all add: kv_ok_def distinct_map)
  then have "distinct ks" unfolding ks by (auto simp: distinct_map inj_on_def)
  moreover have "k \<in> dom (bucket_map rows b) \<longleftrightarrow> (\<exists>r\<in>set rows. kv_bucket r = b \<and> kv_key r = k)" for k
    by (auto simp: bucket_map_def kv_find_def dom_def find_None_iff dest: find_SomeD split: option.splits)
  then have "set ks = {k \<in> dom (bucket_map rows b). take (length p) k = p}" unfolding ks by auto
  ultimately show ?thesis by blast
qed

text \<open>
  C35: Each bucket is a finite map of its own: after any run of writes and deletions in any
  buckets, with any failures, a bucket answers \<open>Get\<close> and \<open>Has\<close> as the map that received
  exactly its own successful operations, and its key iteration gives each key with the prefix
  once.
\<close>

theorem buckets_refine_maps:
  assumes "kv_ok rows"
  shows "(\<forall>k. kv_get None b k (kv_run cs rows) = (case fold (map_step b) cs (bucket_map rows b) k of
      None \<Rightarrow> Inl KeyNotFound | Some v \<Rightarrow> Inr v)) \<and>
    (\<forall>k. kv_has None b k (kv_run cs rows) = Inr (k \<in> dom (fold (map_step b) cs (bucket_map rows b)))) \<and>
    (\<exists>ks. collect_keys None b p (kv_run cs rows) = Inr ks \<and> distinct ks \<and>
      set ks = {k \<in> dom (fold (map_step b) cs (bucket_map rows b)). take (length p) k = p})"
proof -
  let ?rows = "kv_run cs rows"
  note m = bucket_map_run[of cs rows b, symmetric]
  have g: "kv_get None b k ?rows = (case bucket_map ?rows b k of None \<Rightarrow> Inl KeyNotFound | Some v \<Rightarrow> Inr v)" for k
    by (simp add: kv_get_def bucket_map_def split: option.splits)
  have h: "kv_has None b k ?rows = Inr (k \<in> dom (bucket_map ?rows b))" for k
    by (simp add: kv_has_def on_read_def bucket_map_def dom_def)
  obtain ks where ks: "collect_keys None b p ?rows = Inr ks" by (simp add: collect_keys_def on_read_def)
  show ?thesis unfolding m using g h ks bucket_keys[OF kv_ok_run[OF assms] ks] by blast
qed

theorem buckets_refine_maps_witness:
  "kv_get None ''queue'' ''a'' (kv_run [(None, KvSet ''queue'' ''a'' ''1''), (None, KvSet ''users'' ''a'' ''2''),
     (Some ''disk full'', KvDelete ''queue'' ''a'')] []) = Inr ''1''"
proof -
  have "kv_ok []" by (simp add: kv_ok_def)
  from buckets_refine_maps[OF this, of "''queue''"] show ?thesis
    by (simp add: bucket_map_def kv_find_def)
qed

subsection \<open>Settings and APNs topics\<close>

record setting =
  st_key :: string
  st_value :: string
  st_updated_at :: secs

definition set_setting :: "fault \<Rightarrow> nanos \<Rightarrow> string \<Rightarrow> string \<Rightarrow> setting list \<Rightarrow> (sql_err + unit) \<times> setting list" where
  "set_setting ft now k v rows = on_fault ft rows
     (upsert (\<lambda>r. st_key r = k) (\<lambda>r. r\<lparr>st_value := v, st_updated_at := to_secs now\<rparr>)
        \<lparr>st_key = k, st_value = v, st_updated_at = to_secs now\<rparr> rows)"

definition get_setting :: "fault \<Rightarrow> string \<Rightarrow> setting list \<Rightarrow> kv_err + string" where
  "get_setting ft k rows = (case ft of Some e \<Rightarrow> Inl (KvDb (SqlErr e))
     | None \<Rightarrow> (case List.find (\<lambda>r. st_key r = k) rows of None \<Rightarrow> Inl KeyNotFound | Some r \<Rightarrow> Inr (st_value r)))"

record apns_topic =
  at_topic :: string
  at_not_after :: secs
  at_subject :: string
  at_loaded_at :: secs
  at_loaded_by :: string

definition upsert_apns_topic ::
  "fault \<Rightarrow> nanos \<Rightarrow> string \<Rightarrow> secs \<Rightarrow> string \<Rightarrow> string \<Rightarrow> apns_topic list \<Rightarrow> (sql_err + unit) \<times> apns_topic list" where
  "upsert_apns_topic ft now topic not_after subject by_user rows = on_fault ft rows
     (upsert (\<lambda>r. at_topic r = topic)
        (\<lambda>r. r\<lparr>at_not_after := not_after, at_subject := subject, at_loaded_at := to_secs now, at_loaded_by := by_user\<rparr>)
        \<lparr>at_topic = topic, at_not_after = not_after, at_subject = subject, at_loaded_at = to_secs now,
         at_loaded_by = by_user\<rparr> rows)"

definition list_apns_topics :: "fault \<Rightarrow> apns_topic list \<Rightarrow> sql_err + apns_topic list" where
  "list_apns_topics ft rows = on_read ft (sort_key at_not_after (sort_key at_topic rows))"

definition apns_expiry :: "apns_topic list \<Rightarrow> string \<Rightarrow> secs option" where
  "apns_expiry rows topic = map_option at_not_after (List.find (\<lambda>r. at_topic r = topic) rows)"

lemma apns_expiry_upsert:
  "apns_expiry (snd (upsert_apns_topic None now t na s u rows)) t' = (if t' = t then Some na else apns_expiry rows t')"
proof (cases "t' = t")
  case True
  then show ?thesis
    by (simp add: apns_expiry_def upsert_apns_topic_def on_fault_def find_upsert_same split: option.splits)
next
  case False
  then show ?thesis by (simp add: apns_expiry_def upsert_apns_topic_def on_fault_def find_upsert_other)
qed

lemma apns_distinct:
  "distinct (map at_topic rows) \<Longrightarrow> distinct (map at_topic (snd (upsert_apns_topic ft now t na s u rows)))"
  by (cases ft) (auto simp: upsert_apns_topic_def on_fault_def intro!: distinct_upsert)

text \<open>
  The list of push certificates hides no fleet: after any sequence of imports it has
  exactly one row per imported topic, with the expiry of the last import of that topic, and
  its first row expires no later than any other.
\<close>

theorem apns_list_complete:
  assumes "rows = fold (\<lambda>(now, t, na, s, u) rs. snd (upsert_apns_topic None now t na s u rs)) imps []"
  shows "\<exists>l. list_apns_topics None rows = Inr l \<and> distinct (map at_topic l) \<and>
    set (map at_topic l) = set (map (\<lambda>(now, t, na, s, u). t) imps) \<and>
    (\<forall>r\<in>set l. Some (at_not_after r) = map_of (rev (map (\<lambda>(now, t, na, s, u). (t, na)) imps)) (at_topic r)) \<and>
    (\<forall>r\<in>set l. at_not_after (hd l) \<le> at_not_after r)"
proof -
  have e: "apns_expiry rows = map_of (rev (map (\<lambda>(now, t, na, s, u). (t, na)) imps))"
    unfolding assms
    by (induction imps rule: rev_induct)
      (auto simp: apns_expiry_upsert fun_eq_iff, simp add: apns_expiry_def)
  have d: "distinct (map at_topic rows)"
    unfolding assms by (induction imps rule: rev_induct) (auto intro!: apns_distinct)
  have x: "apns_expiry rows (at_topic r) = Some (at_not_after r)" if "r \<in> set rows" for r
    using that d by (simp add: apns_expiry_def find_Some_iff_unique[THEN iffD2])
  have dom: "at_topic ` set rows = dom (apns_expiry rows)"
    by (auto simp: apns_expiry_def dom_def find_None_iff dest: find_SomeD intro: rev_image_eqI split: option.splits)
  let ?l = "sort_key at_not_after (sort_key at_topic rows)"
  have "sorted (map at_not_after ?l)" by simp
  then have h: "\<forall>r\<in>set ?l. at_not_after (hd ?l) \<le> at_not_after r" by (cases ?l) auto
  have "set (map at_topic ?l) = set (map (\<lambda>(now, t, na, s, u). t) imps)"
    using dom unfolding e by (simp add: dom_map_of_conv_image_fst image_image split_def)
  then show ?thesis
    using d h x e by (simp add: list_apns_topics_def on_read_def distinct_map)
qed

theorem apns_list_complete_witness:
  "\<exists>l. list_apns_topics None (snd (upsert_apns_topic None 0 ''B'' 50 [] [] (snd (upsert_apns_topic None 0 ''A'' 90 [] [] [])))) = Inr l
     \<and> set (map at_topic l) = {''A'', ''B''}"
proof -
  from apns_list_complete[OF refl, of "[(0, ''A'', 90, [], []), (0, ''B'', 50, [], [])]"]
  show ?thesis by auto
qed

subsection \<open>The interface of a key-value table\<close>

locale key_store =
  fixes get :: "'k \<Rightarrow> 'st \<Rightarrow> 'v option"
    and put :: "'k \<Rightarrow> 'v \<Rightarrow> 'st \<Rightarrow> 'st"
  assumes get_put: "get k (put k' v st) = (if k = k' then Some v else get k st)"
begin

lemma last_write_wins: "get k (fold (\<lambda>(k', v). put k' v) ws st) =
    (case map_of (rev ws) k of None \<Rightarrow> get k st | Some v \<Rightarrow> Some v)"
  by (induction ws rule: rev_induct) (auto simp: get_put split: prod.splits)

lemma put_twice: "get k (put k' v (put k' v' st)) = get k (put k' v st)"
  by (simp add: get_put)

end

definition read_value :: "'e + 'v \<Rightarrow> 'v option" where
  "read_value r = (case r of Inl _ \<Rightarrow> None | Inr v \<Rightarrow> Some v)"

interpretation bucket: key_store "\<lambda>k rows. read_value (kv_get None b k rows)" "\<lambda>k v rows. snd (kv_set None b k v rows)" for b
  by unfold_locales (simp add: read_value_def kv_get_def kv_find_set)

interpretation settings: key_store "\<lambda>k rows. read_value (get_setting None k rows)" "\<lambda>k v rows. snd (set_setting None now k v rows)" for now
proof unfold_locales
  fix k k' v rows
  show "read_value (get_setting None k (snd (set_setting None now k' v rows))) =
    (if k = k' then Some v else read_value (get_setting None k rows))"
  proof (cases "k = k'")
    case True
    then show ?thesis
      by (simp add: read_value_def get_setting_def set_setting_def on_fault_def find_upsert_same split: option.splits)
  next
    case False
    then show ?thesis by (simp add: get_setting_def set_setting_def on_fault_def find_upsert_other)
  qed
qed

interpretation topics: key_store "\<lambda>t rows. apns_expiry rows t" "\<lambda>t na rows. snd (upsert_apns_topic None now t na s u rows)" for now s u
  by unfold_locales (simp add: apns_expiry_upsert)

text \<open>
  A setting reads back as the last value written to its key, in every sequence of
  writes, and a key that was never written is reported as not found.
\<close>

theorem settings_last_write:
  "read_value (get_setting None k (fold (\<lambda>(k', v) rows. snd (set_setting None now k' v rows)) ws [])) = map_of (rev ws) k"
proof -
  have "read_value (get_setting None k []) = None" by (simp add: read_value_def get_setting_def)
  then show ?thesis
    unfolding settings.last_write_wins[of k now ws "[]"] by (cases "map_of (rev ws) k") simp_all
qed

subsection \<open>Certificate associations\<close>

type_synonym cert_auth = "(string \<times> string) list"

definition associate_cert_hash :: "fault \<Rightarrow> string \<Rightarrow> string \<Rightarrow> cert_auth \<Rightarrow> (sql_err + unit) \<times> cert_auth" where
  "associate_cert_hash ft i h rows = on_fault ft rows (if (i, h) \<in> set rows then rows else rows @ [(i, h)])"

definition is_cert_hash_associated :: "fault \<Rightarrow> string \<Rightarrow> string \<Rightarrow> cert_auth \<Rightarrow> sql_err + bool" where
  "is_cert_hash_associated ft i h rows = on_read ft ((i, h) \<in> set rows)"

definition enrollment_has_cert_hash :: "fault \<Rightarrow> string \<Rightarrow> string \<Rightarrow> cert_auth \<Rightarrow> sql_err + bool" where
  "enrollment_has_cert_hash ft i h rows = on_read ft (\<exists>r\<in>set rows. fst r = i)"

definition has_cert_hash :: "fault \<Rightarrow> string \<Rightarrow> cert_auth \<Rightarrow> sql_err + bool" where
  "has_cert_hash ft h rows = on_read ft (\<exists>r\<in>set rows. snd r = h)"

definition enrollment_from_hash :: "fault \<Rightarrow> string \<Rightarrow> cert_auth \<Rightarrow> sql_err + string" where
  "enrollment_from_hash ft h rows = on_read ft (case List.find (\<lambda>r. snd r = h) rows of None \<Rightarrow> [] | Some r \<Rightarrow> fst r)"

definition associate_all :: "(fault \<times> string \<times> string) list \<Rightarrow> cert_auth \<Rightarrow> cert_auth" where
  "associate_all cs rows = fold (\<lambda>(ft, i, h) rs. snd (associate_cert_hash ft i h rs)) cs rows"

lemma associate_step: "(j, g) \<in> set (snd (associate_cert_hash ft i h rs)) \<longleftrightarrow> (j, g) \<in> set rs \<or> (None, j, g) = (ft, i, h)"
  by (cases ft) (auto simp: associate_cert_hash_def on_fault_def)

lemma associate_all_set:
  "(j, g) \<in> set (associate_all cs rows) \<longleftrightarrow> (j, g) \<in> set rows \<or> (None, j, g) \<in> set cs"
proof (induction cs arbitrary: rows)
  case (Cons c cs)
  obtain ft i h where c: "c = (ft, i, h)" by (cases c rule: prod_cases3)
  have "associate_all (c # cs) rows = associate_all cs (snd (associate_cert_hash ft i h rows))"
    by (simp add: associate_all_def c)
  then show ?case by (simp only: Cons.IH associate_step c list.set insert_iff) blast
qed (simp add: associate_all_def)

text \<open>
  No certificate of a device is ever forgotten: after any sequence of associations a hash
  is accepted for an enrollment exactly if it was associated with it before or in the
  sequence, an enrollment and a hash are known exactly if some such pair exists, and the
  enrollment a hash is resolved to is one it is associated with.
\<close>

theorem cert_hashes_accumulate:
  "is_cert_hash_associated None i h (associate_all cs rows) = Inr ((i, h) \<in> set rows \<or> (None, i, h) \<in> set cs) \<and>
   enrollment_has_cert_hash None i g (associate_all cs rows) =
     Inr (\<exists>h'. is_cert_hash_associated None i h' (associate_all cs rows) = Inr True) \<and>
   has_cert_hash None h (associate_all cs rows) =
     Inr (\<exists>i'. is_cert_hash_associated None i' h (associate_all cs rows) = Inr True) \<and>
   (has_cert_hash None h (associate_all cs rows) = Inr True \<longrightarrow>
     (\<exists>i'. enrollment_from_hash None h (associate_all cs rows) = Inr i' \<and>
        is_cert_hash_associated None i' h (associate_all cs rows) = Inr True))"
proof -
  have f: "\<exists>i'. enrollment_from_hash None h rs = Inr i' \<and> (i', h) \<in> set rs" if "\<exists>r\<in>set rs. snd r = h" for rs :: cert_auth
    using that by (cases "List.find (\<lambda>r. snd r = h) rs")
      (auto simp: enrollment_from_hash_def on_read_def find_None_iff dest!: find_SomeD)
  have pairs: "(\<exists>r\<in>S. fst r = i) \<longleftrightarrow> (\<exists>h'. (i, h') \<in> S)" "(\<exists>r\<in>S. snd r = h) \<longleftrightarrow> (\<exists>i'. (i', h) \<in> S)"
    for S :: "(string \<times> string) set" by force+
  show ?thesis
    using f[of "associate_all cs rows"]
    by (simp add: is_cert_hash_associated_def enrollment_has_cert_hash_def has_cert_hash_def on_read_def pairs)
      (simp add: associate_all_set)
qed

theorem cert_hashes_accumulate_witness:
  "\<exists>i. enrollment_from_hash None ''h1'' (associate_all [(None, ''dev'', ''h1''), (None, ''dev'', ''h2'')] []) = Inr i
    \<and> is_cert_hash_associated None i ''h1'' (associate_all [(None, ''dev'', ''h1''), (None, ''dev'', ''h2'')] []) = Inr True"
proof -
  have "has_cert_hash None ''h1'' (associate_all [(None, ''dev'', ''h1''), (None, ''dev'', ''h2'')] []) = Inr True"
    by (simp add: has_cert_hash_def on_read_def associate_all_def associate_cert_hash_def on_fault_def)
  then show ?thesis
    using cert_hashes_accumulate[of "''dev''" "''h1''" "[(None, ''dev'', ''h1''), (None, ''dev'', ''h2'')]" "[]" "''h1''"] by blast
qed

subsection \<open>The audit log\<close>

record audit_entry =
  au_id :: int
  au_at :: secs
  au_username :: string
  au_provider :: string
  au_action :: string
  au_target :: string
  au_result :: string
  au_remote :: string

definition append_audit :: "fault \<Rightarrow> nanos \<Rightarrow> audit_entry \<Rightarrow> audit_entry list \<Rightarrow> (sql_err + unit) \<times> audit_entry list" where
  "append_audit ft now e rows = on_fault ft rows
     (rows @ [e\<lparr>au_id := next_rowid (map au_id rows), au_at := to_secs now\<rparr>])"

definition list_audit :: "fault \<Rightarrow> int \<Rightarrow> audit_entry list \<Rightarrow> sql_err + audit_entry list" where
  "list_audit ft lim rows = on_read ft (take (if lim \<le> 0 then 200 else nat lim) (sort_key (\<lambda>e. - au_id e) rows))"

definition audit_ok :: "audit_entry list \<Rightarrow> bool" where
  "audit_ok rows \<longleftrightarrow> sorted (map au_id rows) \<and> distinct (map au_id rows)"

lemma next_rowid_greater: "x \<in> set ids \<Longrightarrow> x < next_rowid ids"
proof -
  assume x: "x \<in> set ids"
  then have "ids \<noteq> []" by auto
  with x Max_ge[of "set ids" x] show ?thesis by (simp add: next_rowid_def)
qed

lemma append_audit_ok: "audit_ok rows \<Longrightarrow> audit_ok (snd (append_audit ft now e rows))"
  using next_rowid_greater[of _ "map au_id rows"] next_rowid_fresh[of "map au_id rows"]
  by (cases ft) (auto simp: audit_ok_def append_audit_def on_fault_def sorted_append intro: less_imp_le)

lemma insort_last: "(\<And>y. y \<in> set ys \<Longrightarrow> f y < f x) \<Longrightarrow> insort_key f x ys = ys @ [x]"
proof (induction ys)
  case (Cons a ys)
  have "\<not> f x \<le> f a" using Cons.prems[of a] by simp
  with Cons show ?case by simp
qed simp

lemma sort_desc: "audit_ok rows \<Longrightarrow> sort_key (\<lambda>e. - au_id e) rows = rev rows"
proof (induction rows)
  case (Cons e rows)
  then have "sort_key (\<lambda>e. - au_id e) rows = rev rows" by (simp add: audit_ok_def)
  moreover have "au_id e < au_id y" if "y \<in> set rows" for y
    using Cons.prems that by (auto simp: audit_ok_def order.strict_iff_order)
  ultimately show ?case using insort_last[of "rev rows" "\<lambda>e. - au_id e" e] by simp
qed simp

text \<open>
  The audit log only grows: after any number of appends the earlier rows are still there
  unchanged, and the list shows the newest entries first, the last append at its head.
\<close>

theorem audit_append_only:
  assumes "audit_ok rows" and "rows' = fold (\<lambda>(now, e) rs. snd (append_audit None now e rs)) es rows"
  shows "take (length rows) rows' = rows \<and> length rows' = length rows + length es \<and>
    list_audit None lim rows' = Inr (take (if lim \<le> 0 then 200 else nat lim) (rev rows'))"
proof -
  have a: "audit_ok (fold (\<lambda>(now, e) rs. snd (append_audit None now e rs)) es rows)"
    using assms(1) by (induction es rule: rev_induct) (auto simp: append_audit_ok)
  have "\<exists>more. fold (\<lambda>(now, e) rs. snd (append_audit None now e rs)) es rows = rows @ more \<and> length more = length es"
    by (induction es rule: rev_induct) (auto simp: append_audit_def on_fault_def)
  then obtain more where "rows' = rows @ more" "length more = length es" unfolding assms(2) by blast
  then show ?thesis using a sort_desc[OF a] by (simp add: list_audit_def on_read_def flip: assms(2))
qed

definition demo_audit :: audit_entry where
  "demo_audit = \<lparr>au_id = 0, au_at = 0, au_username = ''ann'', au_provider = ''local'', au_action = ''POST'',
     au_target = ''/admin/groups'', au_result = ''303'', au_remote = ''10.0.0.1''\<rparr>"

theorem audit_append_only_witness:
  "list_audit None 1 (fold (\<lambda>(now, e) rs. snd (append_audit None now e rs)) [(0, demo_audit), (second, demo_audit)] []) =
    Inr [demo_audit\<lparr>au_id := 2, au_at := 1\<rparr>]"
proof -
  have "audit_ok []" by (simp add: audit_ok_def)
  from audit_append_only[OF this refl, of "[(0, demo_audit), (second, demo_audit)]" 1] show ?thesis
    by (simp add: append_audit_def on_fault_def next_rowid_def to_secs_def second_def)
qed

end
