(* ===== verification/Console.thy ===== *)
theory Console
  imports Throttle Sessions KeyStores "HOL-Library.Word"
begin

section \<open>The admin console: requests, sessions, roles, audit\<close>

text \<open>
  \<open>internal/web/web.go\<close> (\<open>requireRole\<close>, \<open>currentSession\<close>), \<open>handlers.go\<close> (\<open>sameOrigin\<close>,
  \<open>checkCSRF\<close>, login, logout), \<open>proxy.go\<close>, \<open>audit.go\<close> and \<open>oidc.go\<close>.  A request is the record
  of what the handlers read of it.  A handler reads the clock, the random source and the
  database several times in one request: \<open>ev_at\<close>, \<open>ev_rnd\<close> and \<open>ev_fault\<close> give the instant, the
  bytes and the failure of each of these steps, which are named by strings.  URL, IP and
  host:port parsing are parameters of the application record.  A reply keeps its status, its
  target or template and the message it flashes; the cookies it sets are kept beside it, with the
  attributes that the four calls of \<open>http.SetCookie\<close> give them.
\<close>

datatype ip = V4 "32 word" | V6 "128 word"

type_synonym network = "ip \<times> nat"

record request =
  rq_method :: string
  rq_path :: string
  rq_cookies :: "(string \<times> string) list"
  rq_query :: "(string \<times> string) list"
  rq_form :: "(string \<times> string) list"
  rq_form_bad :: bool   \<comment> \<open>\<open>ParseForm\<close> fails\<close>
  rq_csrf_header :: string
  rq_origin :: string
  rq_referer :: string
  rq_remote :: string
  rq_xff :: string

record env =
  ev_at :: "string \<Rightarrow> nanos"
  ev_fault :: "string \<Rightarrow> fault"
  ev_rnd :: "string \<Rightarrow> string"

record app =
  ap_sha :: "string \<Rightarrow> string"
  ap_parse_url :: url_parser
  ap_split_host :: "string \<Rightarrow> string option"
  ap_parse_ip :: "string \<Rightarrow> ip option"
  ap_store :: session_store
  ap_public_url :: string
  ap_trusted :: "network list"
  ap_audit :: bool  \<comment> \<open>\<open>audit != nil\<close>\<close>

datatype reply =
    Redirect int string "(string \<times> string) option"
  | Page int string string  \<comment> \<open>status, template, the message or data shown\<close>
  | TextError int string
  | Download string string

fun reply_status :: "reply \<Rightarrow> int" where
  "reply_status (Redirect c u f) = c"
| "reply_status (Page c t m) = c"
| "reply_status (TextError c m) = c"
| "reply_status (Download n d) = 200"

definition field :: "(string \<times> string) list \<Rightarrow> string \<Rightarrow> string" where
  \<comment> \<open>\<open>PostFormValue\<close>, \<open>Query().Get\<close>: the first value, empty when there is none\<close>
  "field vs k = (case map_of vs k of Some v \<Rightarrow> v | None \<Rightarrow> [])"

subsection \<open>The client's address\<close>

fun contains :: "network \<Rightarrow> ip \<Rightarrow> bool" where
  "contains (V4 n, bits) (V4 a) = (drop_bit (32 - bits) n = drop_bit (32 - bits) a)"
| "contains (V6 n, bits) (V6 a) = (drop_bit (128 - bits) n = drop_bit (128 - bits) a)"
| "contains _ _ = False"

fun parse_trusted_proxies ::
  "(string \<Rightarrow> network option) \<Rightarrow> (string \<Rightarrow> ip option) \<Rightarrow> string list \<Rightarrow> string + network list" where
  "parse_trusted_proxies parse_cidr parse_ip [] = Inr []"
| "parse_trusted_proxies parse_cidr parse_ip (e0 # es) =
     (let e = trim_space e0 in
      if e = [] then parse_trusted_proxies parse_cidr parse_ip es
      else case parse_cidr e of
        Some n \<Rightarrow> and_then (parse_trusted_proxies parse_cidr parse_ip es) (\<lambda>ns. Inr (n # ns))
      | None \<Rightarrow> (case parse_ip e of
          None \<Rightarrow> Inl (''web: trusted_proxies: '' @ e @ '' is not an IP or CIDR'')
        | Some (V4 a) \<Rightarrow> and_then (parse_trusted_proxies parse_cidr parse_ip es) (\<lambda>ns. Inr ((V4 a, 32) # ns))
        | Some (V6 a) \<Rightarrow> and_then (parse_trusted_proxies parse_cidr parse_ip es) (\<lambda>ns. Inr ((V6 a, 128) # ns))))"

definition is_trusted_proxy :: "app \<Rightarrow> string \<Rightarrow> bool" where
  "is_trusted_proxy a s =
     (case ap_parse_ip a (trim_space s) of None \<Rightarrow> False | Some i \<Rightarrow> (\<exists>n\<in>set (ap_trusted a). contains n i))"

fun last_untrusted :: "app \<Rightarrow> string list \<Rightarrow> string option" where
  \<comment> \<open>the loop over the parts, given from the right\<close>
  "last_untrusted a [] = None"
| "last_untrusted a (p # ps) =
     (let i = trim_space p in if i = [] \<or> is_trusted_proxy a i then last_untrusted a ps else Some i)"

definition peer_host :: "app \<Rightarrow> request \<Rightarrow> string" where
  "peer_host a r = (case ap_split_host a (rq_remote r) of Some h \<Rightarrow> h | None \<Rightarrow> rq_remote r)"

definition client_ip :: "app \<Rightarrow> request \<Rightarrow> string" where
  "client_ip a r =
     (let host = peer_host a r in
      if ap_trusted a = [] \<or> \<not> is_trusted_proxy a host then host
      else if rq_xff r = [] then host
      else case last_untrusted a (rev (split_on (CHR '','') (rq_xff r))) of Some i \<Rightarrow> i | None \<Rightarrow> host)"

subsection \<open>Cookies\<close>

datatype same_site = SameSiteDefault | SameSiteLax | SameSiteStrict | SameSiteNone

definition session_cookie :: string where "session_cookie = ''__Host-cairn_session''"

definition state_cookie :: string where "state_cookie = ''__Host-cairn_oidc_state''"

definition nonce_cookie :: string where "nonce_cookie = ''__Host-cairn_oidc_nonce''"

record http_cookie =
  hc_name :: string
  hc_value :: string
  hc_path :: string
  hc_domain :: string
  hc_expires :: "nanos option"   \<comment> \<open>\<open>None\<close> for the zero time\<close>
  hc_max_age :: int              \<comment> \<open>seconds; 0 for no such attribute, negative for \<open>Max-Age=0\<close>\<close>
  hc_secure :: bool
  hc_http_only :: bool
  hc_same_site :: same_site

definition session_set_cookie :: "string \<Rightarrow> nanos \<Rightarrow> http_cookie" where
  "session_set_cookie token expires =
     \<lparr>hc_name = session_cookie, hc_value = token, hc_path = ''/'', hc_domain = [], hc_expires = Some expires,
      hc_max_age = 0, hc_secure = True, hc_http_only = True, hc_same_site = SameSiteLax\<rparr>"

definition session_clear_cookie :: http_cookie where
  "session_clear_cookie =
     \<lparr>hc_name = session_cookie, hc_value = [], hc_path = ''/'', hc_domain = [], hc_expires = None,
      hc_max_age = -1, hc_secure = True, hc_http_only = True, hc_same_site = SameSiteLax\<rparr>"

definition short_set_cookie :: "string \<Rightarrow> string \<Rightarrow> http_cookie" where
  "short_set_cookie name value =
     \<lparr>hc_name = name, hc_value = value, hc_path = ''/'', hc_domain = [], hc_expires = None,
      hc_max_age = 600, hc_secure = True, hc_http_only = True, hc_same_site = SameSiteLax\<rparr>"

definition short_clear_cookie :: "string \<Rightarrow> http_cookie" where
  "short_clear_cookie name =
     \<lparr>hc_name = name, hc_value = [], hc_path = ''/'', hc_domain = [], hc_expires = None,
      hc_max_age = -1, hc_secure = True, hc_http_only = True, hc_same_site = SameSiteLax\<rparr>"

type_synonym cookies = "http_cookie list"

lemma session_set_cookie_eq [simp]:
  "session_set_cookie t e = session_set_cookie u f \<longleftrightarrow> t = u \<and> e = f"
  "session_set_cookie t e \<noteq> short_clear_cookie n" "session_set_cookie t e \<noteq> session_clear_cookie"
  "session_set_cookie t e \<noteq> short_set_cookie n v"
  by (auto simp: session_set_cookie_def session_clear_cookie_def short_clear_cookie_def short_set_cookie_def)

subsection \<open>Sessions, origin, CSRF\<close>

definition current_session :: "app \<Rightarrow> env \<Rightarrow> string \<Rightarrow> request \<Rightarrow> session_row list \<Rightarrow> session option \<times> session_row list" where
  \<comment> \<open>\<open>k\<close> names the read\<close>
  "current_session a ev k r rows =
     (case map_of (rq_cookies r) session_cookie of
        None \<Rightarrow> (None, rows)
      | Some c \<Rightarrow> (case get_session (ap_sha a) (ap_store a) (ev_fault ev k) (ev_fault ev (k @ ''.delete''))
            (ev_fault ev (k @ ''.renew'')) (ev_at ev k) c rows of
          (Inl e, rows') \<Rightarrow> (None, rows') | (Inr s, rows') \<Rightarrow> (Some s, rows')))"

definition same_origin :: "url_parser \<Rightarrow> string \<Rightarrow> request \<Rightarrow> bool" where
  "same_origin parse_url pub r =
     (case parse_url pub of
        None \<Rightarrow> True
      | Some (_, want) \<Rightarrow>
          if want = [] then True
          else
            let src = (if rq_origin r = [] then rq_referer r else rq_origin r) in
            if src = [] then True
            else case parse_url src of None \<Rightarrow> False | Some (_, got) \<Rightarrow> got \<noteq> [] \<and> equal_fold got want)"

definition csrf_submitted :: "request \<Rightarrow> string" where
  "csrf_submitted r = (let got = field (rq_form r) ''csrf'' in if got = [] then rq_csrf_header r else got)"

definition check_csrf :: "app \<Rightarrow> env \<Rightarrow> request \<Rightarrow> session_row list \<Rightarrow> bool \<times> session_row list" where
  "check_csrf a ev r rows =
     (case current_session a ev ''csrf'' r rows of
        (None, rows') \<Rightarrow> (False, rows')
      | (Some s, rows') \<Rightarrow>
          (same_origin (ap_parse_url a) (ap_public_url a) r \<and> csrf_submitted r \<noteq> [] \<and> csrf_submitted r = ses_csrf s, rows'))"

subsection \<open>Sign-in and sign-out\<close>

record console =
  cn_sessions :: "session_row list"
  cn_throttle :: "throttle option"
  cn_audit :: "audit_entry list"

definition throttle_key :: "app \<Rightarrow> request \<Rightarrow> string \<Rightarrow> string" where
  "throttle_key a r username = username @ ''|'' @ client_ip a r"

definition note_failure :: "env \<Rightarrow> string \<Rightarrow> throttle option \<Rightarrow> throttle option" where
  "note_failure ev key t = map_option (\<lambda>t. record_failure t (ev_at ev ''failure'') key) t"

definition note_success :: "string \<Rightarrow> throttle option \<Rightarrow> throttle option" where
  "note_success key t = map_option (\<lambda>t. record_success t key) t"

definition throttled :: "env \<Rightarrow> string \<Rightarrow> throttle option \<Rightarrow> bool" where
  "throttled ev key t = (case t of None \<Rightarrow> False | Some t \<Rightarrow> \<not> fst (allowed t (ev_at ev ''allowed'') key))"

definition start_session :: "app \<Rightarrow> env \<Rightarrow> identity \<Rightarrow> ('a) console_scheme \<Rightarrow> reply \<times> cookies \<times> ('a) console_scheme" where
  \<comment> \<open>the end of both sign-in handlers\<close>
  "start_session a ev ident st =
     (case create_session (ap_sha a) (ap_store a) (ev_fault ev ''create'') (ev_at ev ''create'') (ev_rnd ev ''token'') (ev_rnd ev ''csrf'')
           ident (cn_sessions st) of
        (Inl e, rows) \<Rightarrow> (TextError 500 ''internal error'', [], st\<lparr>cn_sessions := rows\<rparr>)
      | (Inr s, rows) \<Rightarrow> (Redirect 302 ''/admin'' None, [session_set_cookie (ses_token s) (ses_expires s)], st\<lparr>cn_sessions := rows\<rparr>))"

definition handle_login_form :: "app \<Rightarrow> env \<Rightarrow> request \<Rightarrow> ('a) console_scheme \<Rightarrow> reply \<times> cookies \<times> ('a) console_scheme" where
  "handle_login_form a ev r st =
     (case current_session a ev ''session'' r (cn_sessions st) of
        (Some s, rows) \<Rightarrow> (Redirect 302 ''/admin'' None, [], st\<lparr>cn_sessions := rows\<rparr>)
      | (None, rows) \<Rightarrow> (Page 200 ''login.html'' [], [], st\<lparr>cn_sessions := rows\<rparr>))"

definition handle_login :: "app \<Rightarrow> authn \<Rightarrow> env \<Rightarrow> request \<Rightarrow> ('a) console_scheme \<Rightarrow> reply \<times> cookies \<times> ('a) console_scheme" where
  "handle_login a authenticate ev r st =
     (if rq_form_bad r then (TextError 400 ''bad request'', [], st)
      else
        let username = trim_space (field (rq_form r) ''username'');
            password = field (rq_form r) ''password'';
            key = throttle_key a r username
        in if throttled ev key (cn_throttle st)
           then (Page 429 ''login.html'' ''Too many attempts. Please try again later.'', [], st)
           else case authenticate username password of
               Inl e \<Rightarrow> (Page 401 ''login.html'' ''Incorrect username or password.'', [],
                         st\<lparr>cn_throttle := note_failure ev key (cn_throttle st)\<rparr>)
             | Inr ident \<Rightarrow> start_session a ev ident (st\<lparr>cn_throttle := note_success key (cn_throttle st)\<rparr>))"

definition handle_logout :: "app \<Rightarrow> env \<Rightarrow> request \<Rightarrow> ('a) console_scheme \<Rightarrow> reply \<times> cookies \<times> ('a) console_scheme" where
  "handle_logout a ev r st =
     (case map_of (rq_cookies r) session_cookie of
        None \<Rightarrow> (Redirect 302 ''/login'' None, [session_clear_cookie], st)
      | Some c \<Rightarrow>
          (case check_csrf a ev r (cn_sessions st) of
             (False, rows) \<Rightarrow> (TextError 403 ''invalid CSRF token'', [], st\<lparr>cn_sessions := rows\<rparr>)
           | (True, rows) \<Rightarrow> (Redirect 302 ''/login'' None, [session_clear_cookie],
               st\<lparr>cn_sessions := snd (delete_session (ap_sha a) (ev_fault ev ''logout'') c rows)\<rparr>)))"

subsection \<open>Single sign-on\<close>

record oidc_provider =
  op_auth_code_url :: "string \<Rightarrow> string \<Rightarrow> string"
  op_exchange :: "string \<Rightarrow> string \<Rightarrow> string + identity"

definition rand_token :: "env \<Rightarrow> string \<Rightarrow> string option" where
  "rand_token ev k = (case ev_fault ev k of Some e \<Rightarrow> None | None \<Rightarrow> Some (hex_encode (ev_rnd ev k)))"

definition handle_oidc_login ::
  "app \<Rightarrow> oidc_provider option \<Rightarrow> env \<Rightarrow> request \<Rightarrow> ('a) console_scheme \<Rightarrow> reply \<times> cookies \<times> ('a) console_scheme" where
  "handle_oidc_login a oidc ev r st =
     (case oidc of
        None \<Rightarrow> (Page 404 ''login.html'' ''Single sign-on is not enabled.'', [], st)
      | Some p \<Rightarrow>
         (case current_session a ev ''session'' r (cn_sessions st) of
            (Some s, rows) \<Rightarrow> (Redirect 302 ''/admin'' None, [], st\<lparr>cn_sessions := rows\<rparr>)
          | (None, rows) \<Rightarrow>
             (case (rand_token ev ''state'', rand_token ev ''nonce'') of
                (Some state, Some nonce) \<Rightarrow>
                   (Redirect 302 (op_auth_code_url p state nonce) None,
                    [short_set_cookie state_cookie state, short_set_cookie nonce_cookie nonce], st\<lparr>cn_sessions := rows\<rparr>)
              | _ \<Rightarrow> (TextError 500 ''internal error'', [], st\<lparr>cn_sessions := rows\<rparr>))))"

definition login_error :: "string \<Rightarrow> reply" where "login_error msg = Page 401 ''login.html'' msg"

definition handle_oidc_callback ::
  "app \<Rightarrow> oidc_provider option \<Rightarrow> env \<Rightarrow> request \<Rightarrow> ('a) console_scheme \<Rightarrow> reply \<times> cookies \<times> ('a) console_scheme" where
  "handle_oidc_callback a oidc ev r st =
     (case oidc of
        None \<Rightarrow> (Page 404 ''login.html'' ''Single sign-on is not enabled.'', [], st)
      | Some p \<Rightarrow>
         let cleared = [short_clear_cookie state_cookie, short_clear_cookie nonce_cookie];
             state = field (rq_query r) ''state'';
             code = field (rq_query r) ''code'';
             nonce = field (rq_cookies r) nonce_cookie
         in if field (rq_query r) ''error'' \<noteq> []
            then (login_error ''Single sign-on was declined by the identity provider.'', cleared, st)
            else if field (rq_cookies r) state_cookie = [] \<or> state = [] \<or> state \<noteq> field (rq_cookies r) state_cookie
            then (login_error ''Sign-on could not be verified. Please try again.'', cleared, st)
            else if code = [] then (login_error ''Sign-on returned no authorization code.'', cleared, st)
            else (case op_exchange p code nonce of
                Inl e \<Rightarrow> (login_error ''Single sign-on failed.'', cleared, st)
              | Inr ident \<Rightarrow> (case start_session a ev ident st of (rep, ck, st') \<Rightarrow> (rep, cleared @ ck, st'))))"

subsection \<open>Roles and the audit log\<close>

definition require_role ::
  "app \<Rightarrow> env \<Rightarrow> role \<Rightarrow> (session \<Rightarrow> ('a) console_scheme \<Rightarrow> reply \<times> ('a) console_scheme) \<Rightarrow> request \<Rightarrow> ('a) console_scheme \<Rightarrow>
   reply \<times> ('a) console_scheme" where
  "require_role a ev lo h r st =
     (case current_session a ev ''session'' r (cn_sessions st) of
        (None, rows) \<Rightarrow> (Redirect 302 ''/login'' None, st\<lparr>cn_sessions := rows\<rparr>)
      | (Some s, rows) \<Rightarrow>
          if \<not> at_least (id_role (ses_identity s)) lo
          then (Page 403 ''error.html'' ''Your account does not have access to this page.'', st\<lparr>cn_sessions := rows\<rparr>)
          else h s (st\<lparr>cn_sessions := rows\<rparr>))"

definition audit_row :: "app \<Rightarrow> request \<Rightarrow> reply \<Rightarrow> session option \<Rightarrow> audit_entry" where
  "audit_row a r rep sess =
     \<lparr>au_id = 0, au_at = 0,
      au_username = (let u = (case sess of None \<Rightarrow> [] | Some s \<Rightarrow> id_username (ses_identity s))
                     in if u = [] then field (rq_form r) ''username'' else u),
      au_provider = (case sess of None \<Rightarrow> [] | Some s \<Rightarrow> id_provider (ses_identity s)),
      au_action = rq_method r, au_target = rq_path r, au_result = int_str (reply_status rep), au_remote = client_ip a r\<rparr>"

definition audited ::
  "app \<Rightarrow> env \<Rightarrow> request \<Rightarrow> reply \<times> ('a) console_scheme \<Rightarrow> reply \<times> ('a) console_scheme" where
  \<comment> \<open>what follows the wrapped handler\<close>
  "audited a ev r res =
     (case res of (rep, st) \<Rightarrow>
        if \<not> ap_audit a then (rep, st)
        else case current_session a ev ''audit'' r (cn_sessions st) of (sess, rows) \<Rightarrow>
          (rep, st\<lparr>cn_sessions := rows,
             cn_audit := snd (append_audit (ev_fault ev ''append'') (ev_at ev ''append'') (audit_row a r rep sess) (cn_audit st))\<rparr>))"

definition csrf_guard ::
  "app \<Rightarrow> env \<Rightarrow> request \<Rightarrow> (('a) console_scheme \<Rightarrow> reply \<times> ('a) console_scheme) \<Rightarrow> ('a) console_scheme \<Rightarrow> reply \<times> ('a) console_scheme" where
  \<comment> \<open>\<open>if !a.checkCSRF(r) { 403; return }\<close>\<close>
  "csrf_guard a ev r h st =
     (case check_csrf a ev r (cn_sessions st) of
        (False, rows) \<Rightarrow> (TextError 403 ''invalid CSRF token'', st\<lparr>cn_sessions := rows\<rparr>)
      | (True, rows) \<Rightarrow> h (st\<lparr>cn_sessions := rows\<rparr>))"

subsection \<open>The client's address cannot be forged\<close>

text \<open>
  The address that throttling and the audit log attribute a request to cannot be forged
  from outside: it is the peer's own unless the peer is a configured proxy; and when it is,
  and that proxy set or appended the address of its peer \<open>p\<close> (one that is no configured
  proxy itself), it is \<open>p\<close>, whatever text the client had put in \<open>X-Forwarded-For\<close> before.
\<close>

theorem client_ip_unforgeable:
  assumes "is_trusted_proxy a (peer_host a r) \<Longrightarrow>
      (rq_xff r = p \<or> (\<exists>forged. rq_xff r = forged @ '','' @ p)) \<and> CHR '','' \<notin> set p \<and>
      trim_space p \<noteq> [] \<and> \<not> is_trusted_proxy a (trim_space p)"
  shows "client_ip a r = (if is_trusted_proxy a (peer_host a r) then trim_space p else peer_host a r)"
proof (cases "is_trusted_proxy a (peer_host a r)")
  case True
  note p = assms[OF True]
  from p have "rq_xff r \<noteq> []" by (auto simp: trim_space_def trim_both_def trim_left_def trim_right_def)
  moreover obtain ps where "rev (split_on (CHR '','') (rq_xff r)) = p # ps"
    using p by (fastforce simp: split_on_append split_on_none)
  moreover from True have "ap_trusted a \<noteq> []" by (auto simp: is_trusted_proxy_def split: option.splits)
  ultimately show ?thesis using True p by (simp add: client_ip_def Let_def)
qed (simp add: client_ip_def Let_def)

definition demo_app :: app where
  \<comment> \<open>behind a proxy at 10.0.0.1, whose text is the only one parsed\<close>
  "demo_app = \<lparr>ap_sha = (\<lambda>s. s), ap_parse_url = (\<lambda>u. if has_prefix u ''https://'' then Some (''https'', drop 8 u) else None),
     ap_split_host = (\<lambda>s. Some s), ap_parse_ip = (\<lambda>s. if s = ''10.0.0.1'' then Some (V4 0x0A000001) else None),
     ap_store = new_session_store 0, ap_public_url = ''https://mdm'', ap_trusted = [(V4 0x0A000000, 24)], ap_audit = True\<rparr>"

definition demo_request :: request where
  "demo_request = \<lparr>rq_method = ''POST'', rq_path = ''/login'', rq_cookies = [], rq_query = [],
     rq_form = [(''username'', ''ann''), (''password'', ''pw'')], rq_form_bad = False, rq_csrf_header = [], rq_origin = [],
     rq_referer = [], rq_remote = ''10.0.0.1'', rq_xff = ''1.2.3.4, 9.9.9.9''\<rparr>"

lemma client_ip_unforgeable_witness: "client_ip demo_app demo_request = ''9.9.9.9''"
proof -
  have t: "is_trusted_proxy demo_app (peer_host demo_app demo_request)" by code_simp
  have n: "trim_space '' 9.9.9.9'' = ''9.9.9.9''" by code_simp
  have u: "\<not> is_trusted_proxy demo_app ''9.9.9.9''" by code_simp
  have x: "rq_xff demo_request = ''1.2.3.4'' @ '','' @ '' 9.9.9.9''" by (simp add: demo_request_def)
  from client_ip_unforgeable[of demo_app demo_request "'' 9.9.9.9''"] t n u x show ?thesis by simp
qed

subsection \<open>Who gets a session\<close>

lemma start_session_cases:
  assumes "start_session a ev ident st = (rep, ck, st')"
  shows "(ck = [] \<and> st' = st \<and> rep = TextError 500 ''internal error'') \<or>
    (\<exists>token csrf. ck = [session_set_cookie token (ev_at ev ''create'' + ttl (ap_store a))] \<and> rep = Redirect 302 ''/admin'' None \<and>
       st' = st\<lparr>cn_sessions := cn_sessions st @ [\<lparr>s_token = hash_token (ap_sha a) token, s_username = id_username ident,
          s_role = id_role ident, s_display = id_display ident, s_provider = provider_or (id_provider ident), s_csrf = csrf,
          s_created = Some (to_secs (ev_at ev ''create'')), s_expires = to_secs (ev_at ev ''create'' + ttl (ap_store a))\<rparr>]\<rparr>)"
  using assms by (auto simp: start_session_def create_session_def Let_def split: option.splits if_splits)

text \<open>
  C32: The password form hands out a session only for the identity the authenticator returned
  for the submitted credentials, on a key that is not locked out, and stores it under the
  hash of the cookie's token with that identity's role.  A locked key is answered 429 without
  the credentials being tried; every refused password is counted against the key of the
  trimmed name and the client's address.
\<close>

theorem login_session_authenticated:
  assumes "handle_login a authenticate ev r st = (rep, ck, st')" and "\<not> rq_form_bad r"
    and "username = trim_space (field (rq_form r) ''username'')"
    and "key = username @ ''|'' @ client_ip a r"
  shows "if throttled ev key (cn_throttle st) then reply_status rep = 429 \<and> ck = [] \<and> st' = st
     else case authenticate username (field (rq_form r) ''password'') of
       Inl e \<Rightarrow> reply_status rep = 401 \<and> ck = [] \<and>
         st' = st\<lparr>cn_throttle := map_option (\<lambda>t. record_failure t (ev_at ev ''failure'') key) (cn_throttle st)\<rparr>
     | Inr ident \<Rightarrow>
         (ck = [] \<and> reply_status rep = 500 \<and> cn_sessions st' = cn_sessions st) \<or>
         (\<exists>token expires row. ck = [session_set_cookie token expires] \<and> reply_status rep = 302 \<and> cn_sessions st' = cn_sessions st @ [row] \<and>
            s_token row = hash_token (ap_sha a) token \<and> s_expires row = to_secs expires \<and> s_username row = id_username ident \<and> s_role row = id_role ident)"
proof (cases "throttled ev key (cn_throttle st)")
  case True
  with assms show ?thesis by (auto simp: handle_login_def throttle_key_def Let_def)
next
  case F: False
  show ?thesis
  proof (cases "authenticate username (field (rq_form r) ''password'')")
    case (Inl e)
    with F assms show ?thesis by (auto simp: handle_login_def throttle_key_def note_failure_def Let_def)
  next
    case (Inr ident)
    with F assms have "start_session a ev ident (st\<lparr>cn_throttle := note_success key (cn_throttle st)\<rparr>) = (rep, ck, st')"
      by (simp add: handle_login_def throttle_key_def Let_def)
    from start_session_cases[OF this] F Inr show ?thesis by auto
  qed
qed

definition demo_web_env :: env where
  "demo_web_env = \<lparr>ev_at = (\<lambda>k. 5 * second), ev_fault = (\<lambda>k. None), ev_rnd = (\<lambda>k. k)\<rparr>"

definition demo_auth :: authn where
  "demo_auth u p = (if u = ''ann'' \<and> p = ''pw''
     then Inr \<lparr>id_username = u, id_display = [], id_role = role_operator, id_provider = ''local''\<rparr>
     else Inl InvalidCredentials)"

definition demo_console :: console where
  "demo_console = \<lparr>cn_sessions = [], cn_throttle = None, cn_audit = []\<rparr>"

lemma login_session_authenticated_witness:
  "\<exists>rep ck st'. handle_login demo_app demo_auth demo_web_env demo_request demo_console = (rep, ck, st') \<and>
     map s_role (cn_sessions st') = [role_operator]"
proof -
  obtain rep ck st' where h: "handle_login demo_app demo_auth demo_web_env demo_request demo_console = (rep, ck, st')"
    by (cases "handle_login demo_app demo_auth demo_web_env demo_request demo_console") auto
  have ok: "reply_status (fst (handle_login demo_app demo_auth demo_web_env demo_request demo_console)) = 302"
    by code_simp
  have u: "trim_space (field (rq_form demo_request) ''username'') = ''ann''" by code_simp
  have f: "\<not> rq_form_bad demo_request" "cn_throttle demo_console = None" "field (rq_form demo_request) ''password'' = ''pw''"
    "cn_sessions demo_console = []"
    by (simp_all add: demo_request_def demo_console_def field_def)
  from login_session_authenticated[OF h f(1) u[symmetric] refl] f ok h
  have "map s_role (cn_sessions st') = [role_operator]" by (auto simp: throttled_def demo_auth_def)
  with h show ?thesis by (intro exI[of _ rep] exI[of _ ck] exI[of _ st'] conjI)
qed

text \<open>
  The single sign-on callback hands out a session only when the browser that returns
  holds the state the redirect set (the query's state is the non-empty one of the cookie),
  the provider reported no error, and the provider's exchange of the code, against the nonce
  of the browser's own cookie, returned an identity; the session is that identity's, and the
  state and nonce cookies are cleared on every path that read them.
\<close>

theorem sso_session_verified:
  assumes "handle_oidc_callback a oidc ev r st = (rep, ck, st')"
  shows "(oidc \<noteq> None \<longrightarrow> {short_clear_cookie state_cookie, short_clear_cookie nonce_cookie} \<subseteq> set ck) \<and>
    (cn_sessions st' \<noteq> cn_sessions st \<longrightarrow>
      (\<exists>p ident token row. oidc = Some p \<and> field (rq_query r) ''error'' = [] \<and>
         field (rq_query r) ''state'' \<noteq> [] \<and> field (rq_query r) ''state'' = field (rq_cookies r) state_cookie \<and>
         op_exchange p (field (rq_query r) ''code'') (field (rq_cookies r) nonce_cookie) = Inr ident \<and>
         cn_sessions st' = cn_sessions st @ [row] \<and> (\<exists>expires. session_set_cookie token expires \<in> set ck) \<and>
         s_token row = hash_token (ap_sha a) token \<and> s_username row = id_username ident \<and> s_role row = id_role ident))"
proof (cases oidc)
  case None
  with assms show ?thesis by (auto simp: handle_oidc_callback_def)
next
  case (Some p)
  let ?ex = "op_exchange p (field (rq_query r) ''code'') (field (rq_cookies r) nonce_cookie)"
  let ?ok = "field (rq_query r) ''error'' = [] \<and> field (rq_cookies r) state_cookie \<noteq> [] \<and> field (rq_query r) ''state'' \<noteq> [] \<and>
     field (rq_query r) ''state'' = field (rq_cookies r) state_cookie \<and> field (rq_query r) ''code'' \<noteq> []"
  show ?thesis
  proof (cases "?ok \<and> (\<exists>i. ?ex = Inr i)")
    case True
    then obtain ident where i: "?ex = Inr ident" by blast
    obtain rep1 ck1 st1 where s: "start_session a ev ident st = (rep1, ck1, st1)"
      by (cases "start_session a ev ident st") auto
    from assms Some True i s
    have e: "st' = st1" "ck = [short_clear_cookie state_cookie, short_clear_cookie nonce_cookie] @ ck1"
      by (auto simp: handle_oidc_callback_def Let_def)
    from start_session_cases[OF s] e Some True i show ?thesis by auto
  next
    case False
    with assms Some show ?thesis
      by (auto simp: handle_oidc_callback_def Let_def split: if_splits sum.splits)
  qed
qed

definition demo_provider :: oidc_provider where
  "demo_provider = \<lparr>op_auth_code_url = (\<lambda>s n. ''https://idp''),
     op_exchange = (\<lambda>c n. if c = ''c'' \<and> n = ''n''
        then Inr \<lparr>id_username = ''ann'', id_display = [], id_role = role_admin, id_provider = ''oidc''\<rparr> else Inl ''bad'')\<rparr>"

lemma sso_session_verified_witness:
  "\<exists>rep ck st'. handle_oidc_callback demo_app (Some demo_provider) demo_web_env
      (demo_request\<lparr>rq_cookies := [(state_cookie, ''s''), (nonce_cookie, ''n'')], rq_query := [(''state'', ''s''), (''code'', ''c'')]\<rparr>)
      demo_console = (rep, ck, st') \<and> map s_username (cn_sessions st') = [''ann'']"
proof -
  let ?r = "demo_request\<lparr>rq_cookies := [(state_cookie, ''s''), (nonce_cookie, ''n'')], rq_query := [(''state'', ''s''), (''code'', ''c'')]\<rparr>"
  obtain rep ck st' where h: "handle_oidc_callback demo_app (Some demo_provider) demo_web_env ?r demo_console = (rep, ck, st')"
    by (cases "handle_oidc_callback demo_app (Some demo_provider) demo_web_env ?r demo_console") auto
  have "length (cn_sessions (snd (snd (handle_oidc_callback demo_app (Some demo_provider) demo_web_env ?r demo_console)))) = 1"
    by code_simp
  with h have n: "cn_sessions st' \<noteq> cn_sessions demo_console" by (auto simp: demo_console_def)
  from sso_session_verified[OF h] n have "map s_username (cn_sessions st') = [''ann'']"
    by (auto simp: demo_provider_def field_def demo_console_def state_cookie_def nonce_cookie_def split: if_splits)
  with h show ?thesis by (intro exI[of _ rep] exI[of _ ck] exI[of _ st'] conjI)
qed

end
