(* ===== verification/Devices.thy ===== *)
theory Devices
  imports Prelude "HOL-Library.Option_ord"
begin

section \<open>The device inventory\<close>

text \<open>
  \<open>internal/storage/sqlite/devices.go\<close>: the table \<open>devices\<close> and its projections from check-in
  events, and the search of the device list.  \<open>like\<close> is SQLite's \<open>LIKE\<close> with an ESCAPE
  character (ASCII case is ignored, \<open>%\<close> is any text, \<open>_\<close> one character); \<open>rev\<close> of an ascending
  stable sort is the order of \<open>ORDER BY ... DESC\<close> (NULL, here \<open>None\<close>, last).
\<close>

record device_record =
  dr_id :: string
  dr_udid :: string
  dr_serial :: string
  dr_name :: string
  dr_model :: string
  dr_product :: string
  dr_os_version :: string
  dr_build_version :: string
  dr_topic :: string

record device_inventory =
  di_name :: string
  di_model :: string
  di_product :: string
  di_os_version :: string
  di_build_version :: string
  di_serial :: string
  di_capacity :: string
  di_battery :: string

record device =
  d_id :: string
  d_udid :: string
  d_serial :: string
  d_name :: string
  d_model :: string
  d_product :: string
  d_os_version :: string
  d_build_version :: string
  d_capacity :: string
  d_battery :: string
  d_enrolled_at :: "secs option"
  d_last_seen :: "secs option"
  d_token_updated_at :: "secs option"
  d_inventory_at :: "secs option"
  d_checked_out_at :: "secs option"

definition display_name :: "device \<Rightarrow> string" where
  "display_name d = (if d_name d \<noteq> [] then d_name d else if d_serial d \<noteq> [] then d_serial d else d_id d)"

definition enrolled :: "device \<Rightarrow> bool" where
  "enrolled d \<longleftrightarrow> d_checked_out_at d = None"

definition merge :: "string \<Rightarrow> string \<Rightarrow> string" where
  \<comment> \<open>\<open>CASE WHEN new <> '' THEN new ELSE old END\<close>\<close>
  "merge new old = (if new \<noteq> [] then new else old)"

definition enroll_new :: "secs \<Rightarrow> device_record \<Rightarrow> device" where
  "enroll_new now r = \<lparr>d_id = dr_id r, d_udid = dr_udid r, d_serial = dr_serial r, d_name = dr_name r,
     d_model = dr_model r, d_product = dr_product r, d_os_version = dr_os_version r,
     d_build_version = dr_build_version r, d_capacity = [], d_battery = [], d_enrolled_at = Some now,
     d_last_seen = Some now, d_token_updated_at = None, d_inventory_at = None, d_checked_out_at = None\<rparr>"

definition enroll_again :: "secs \<Rightarrow> device_record \<Rightarrow> device \<Rightarrow> device" where
  "enroll_again now r d = d\<lparr>d_udid := dr_udid r, d_serial := merge (dr_serial r) (d_serial d),
     d_name := merge (dr_name r) (d_name d), d_model := merge (dr_model r) (d_model d),
     d_product := merge (dr_product r) (d_product d), d_os_version := merge (dr_os_version r) (d_os_version d),
     d_build_version := merge (dr_build_version r) (d_build_version d),
     d_last_seen := Some now, d_checked_out_at := None\<rparr>"

definition device_enrolled :: "fault \<Rightarrow> nanos \<Rightarrow> device_record \<Rightarrow> device list \<Rightarrow> (sql_err + unit) \<times> device list" where
  "device_enrolled ft now r rows =
     on_fault ft rows (upsert (\<lambda>d. d_id d = dr_id r) (enroll_again (to_secs now) r) (enroll_new (to_secs now) r) rows)"

definition device_token_updated :: "fault \<Rightarrow> nanos \<Rightarrow> string \<Rightarrow> device list \<Rightarrow> (sql_err + unit) \<times> device list" where
  "device_token_updated ft now i rows =
     on_fault ft rows (update_where (\<lambda>d. d_id d = i)
       (\<lambda>d. d\<lparr>d_token_updated_at := Some (to_secs now), d_last_seen := Some (to_secs now), d_checked_out_at := None\<rparr>) rows)"

definition device_checked_out :: "fault \<Rightarrow> nanos \<Rightarrow> string \<Rightarrow> device list \<Rightarrow> (sql_err + unit) \<times> device list" where
  "device_checked_out ft now i rows =
     on_fault ft rows (update_where (\<lambda>d. d_id d = i)
       (\<lambda>d. d\<lparr>d_checked_out_at := Some (to_secs now), d_last_seen := Some (to_secs now)\<rparr>) rows)"

definition device_checked_in :: "fault \<Rightarrow> nanos \<Rightarrow> string \<Rightarrow> device list \<Rightarrow> (sql_err + unit) \<times> device list" where
  "device_checked_in ft now i rows =
     on_fault ft rows (update_where (\<lambda>d. d_id d = i) (\<lambda>d. d\<lparr>d_last_seen := Some (to_secs now)\<rparr>) rows)"

definition project_inventory :: "secs \<Rightarrow> device_inventory \<Rightarrow> device \<Rightarrow> device" where
  "project_inventory now v d = d\<lparr>d_name := merge (di_name v) (d_name d), d_model := merge (di_model v) (d_model d),
     d_product := merge (di_product v) (d_product d), d_os_version := merge (di_os_version v) (d_os_version d),
     d_build_version := merge (di_build_version v) (d_build_version d),
     d_serial := merge (di_serial v) (d_serial d), d_capacity := merge (di_capacity v) (d_capacity d),
     d_battery := merge (di_battery v) (d_battery d), d_inventory_at := Some now\<rparr>"

definition store_inventory ::
  "fault \<Rightarrow> nanos \<Rightarrow> string \<Rightarrow> device_inventory \<Rightarrow> device list \<Rightarrow> (sql_err + unit) \<times> device list" where
  "store_inventory ft now i v rows =
     on_fault ft rows (update_where (\<lambda>d. d_id d = i) (project_inventory (to_secs now) v) rows)"

definition get_device :: "fault \<Rightarrow> string \<Rightarrow> device list \<Rightarrow> sql_err + device" where
  "get_device ft i rows = (case ft of Some e \<Rightarrow> Inl (SqlErr e)
     | None \<Rightarrow> (case List.find (\<lambda>d. d_id d = i) rows of None \<Rightarrow> Inl NoRows | Some d \<Rightarrow> Inr d))"

definition device_counts :: "fault \<Rightarrow> nanos \<Rightarrow> device list \<Rightarrow> sql_err + (nat \<times> nat)" where
  "device_counts ft now rows = (case ft of Some e \<Rightarrow> Inl (SqlErr e)
     | None \<Rightarrow> Inr (length rows, length (filter (\<lambda>d. d_checked_out_at d = None \<and>
         (case d_last_seen d of None \<Rightarrow> False | Some t \<Rightarrow> to_secs now - 86400 \<le> t)) rows)))"

subsection \<open>Search\<close>

definition escape_like :: "string \<Rightarrow> string" where
  "escape_like s = concat (map (\<lambda>c.
     if c = CHR 0x5C then [CHR 0x5C, CHR 0x5C]
     else if c = CHR ''%'' then [CHR 0x5C, CHR ''%'']
     else if c = CHR ''_'' then [CHR 0x5C, CHR ''_''] else [c]) s)"

fun like :: "char \<Rightarrow> string \<Rightarrow> string \<Rightarrow> bool" where
  "like esc [] s = (s = [])"
| "like esc (p # ps) s =
     (if p = esc then
        (case (ps, s) of (q # qs, c # cs) \<Rightarrow> to_lower q = to_lower c \<and> like esc qs cs | _ \<Rightarrow> False)
      else if p = CHR ''%'' then like esc ps s \<or> (case s of [] \<Rightarrow> False | c # cs \<Rightarrow> like esc (p # ps) cs)
      else (case s of [] \<Rightarrow> False
            | c # cs \<Rightarrow> (p = CHR ''_'' \<or> to_lower p = to_lower c) \<and> like esc ps cs))"

definition matches_query :: "string \<Rightarrow> device \<Rightarrow> bool" where
  "matches_query q d \<longleftrightarrow>
     (let pat = ''%'' @ escape_like q @ ''%'' in
      \<exists>v\<in>set [d_name d, d_serial d, d_model d, d_udid d]. like (CHR 0x5C) (lower pat) (lower v))"

definition list_devices_filtered :: "fault \<Rightarrow> string \<Rightarrow> bool \<Rightarrow> device list \<Rightarrow> sql_err + device list" where
  "list_devices_filtered ft q enrolled_only rows = (case ft of Some e \<Rightarrow> Inl (SqlErr e)
     | None \<Rightarrow> Inr (rev (sort_key d_last_seen
         (filter (\<lambda>d. (q = [] \<or> matches_query q d) \<and> (enrolled_only \<longrightarrow> d_checked_out_at d = None)) rows))))"

definition list_devices :: "fault \<Rightarrow> device list \<Rightarrow> sql_err + device list" where
  "list_devices ft rows = list_devices_filtered ft [] False rows"

subsection \<open>The search box matches literally\<close>

lemma escape_like_Nil [simp]: "escape_like [] = []"
  by (simp add: escape_like_def)

lemma escape_like_Cons:
  "escape_like (c # s) = (if c = CHR 0x5C \<or> c = CHR ''%'' \<or> c = CHR ''_'' then [CHR 0x5C, c] else [c]) @ escape_like s"
  by (simp add: escape_like_def)

lemma like_literal:
  "like (CHR 0x5C) (escape_like q @ ps) s \<longleftrightarrow> (\<exists>a b. s = a @ b \<and> lower a = lower q \<and> like (CHR 0x5C) ps b)"
proof (induction q arbitrary: s)
  case Nil
  show ?case by (simp add: lower_def)
next
  case (Cons c q)
  show ?case
  proof (cases s)
    case Nil
    then show ?thesis by (auto simp: escape_like_Cons lower_def)
  next
    case (Cons x t)
    have "like (CHR 0x5C) (escape_like (c # q) @ ps) s \<longleftrightarrow>
        to_lower c = to_lower x \<and> like (CHR 0x5C) (escape_like q @ ps) t"
      by (auto simp: escape_like_Cons Cons)
    also have "\<dots> \<longleftrightarrow> (\<exists>a b. s = a @ b \<and> lower a = lower (c # q) \<and> like (CHR 0x5C) ps b)"
      unfolding Cons.IH Cons
      by (auto simp: lower_def Cons_eq_append_conv) (metis append_Cons list.simps(9))
    finally show ?thesis .
  qed
qed

lemma like_any: "like (CHR 0x5C) (CHR ''%'' # ps) s \<longleftrightarrow> (\<exists>a b. s = a @ b \<and> like (CHR 0x5C) ps b)"
proof (induction s)
  case Nil
  show ?case by simp
next
  case (Cons c s)
  have "like (CHR 0x5C) (CHR ''%'' # ps) (c # s) \<longleftrightarrow> like (CHR 0x5C) ps (c # s) \<or> like (CHR 0x5C) (CHR ''%'' # ps) s"
    by simp
  also have "\<dots> \<longleftrightarrow> (\<exists>a b. c # s = a @ b \<and> like (CHR 0x5C) ps b)"
    unfolding Cons.IH by (auto simp: Cons_eq_append_conv)
  finally show ?case .
qed

lemma to_lower_special:
  "to_lower c = CHR 0x5C \<longleftrightarrow> c = CHR 0x5C" "to_lower c = CHR ''%'' \<longleftrightarrow> c = CHR ''%''"
  "to_lower c = CHR ''_'' \<longleftrightarrow> c = CHR ''_''"
  by (simp_all add: to_lower_fixed)

lemma lower_escape: "lower (escape_like q) = escape_like (lower q)"
proof (induction q)
  case (Cons c q)
  have [simp]: "to_lower (CHR 0x5C) = CHR 0x5C" by (simp add: to_lower_special)
  from Cons show ?case by (simp add: escape_like_Cons to_lower_special)
qed simp

text \<open>
  The device search is a literal, case-insensitive substring search over name, serial,
  model and UDID: the characters that are wildcards of LIKE match only themselves, whatever
  the query.
\<close>

theorem search_literal:
  "matches_query q d \<longleftrightarrow>
     (\<exists>v\<in>set [d_name d, d_serial d, d_model d, d_udid d]. \<exists>a m b. v = a @ m @ b \<and> equal_fold m q)"
proof -
  have "like (CHR 0x5C) (lower (''%'' @ escape_like q @ ''%'')) (lower v) \<longleftrightarrow>
    (\<exists>a m b. v = a @ m @ b \<and> equal_fold m q)" for v
  proof -
    have "lower (''%'' @ escape_like q @ ''%'') = CHR ''%'' # escape_like (lower q) @ [CHR ''%'']"
      by (simp add: lower_escape to_lower_special)
    moreover have "like (CHR 0x5C) [CHR ''%''] s" for s
      by (subst like_any) simp
    ultimately have "like (CHR 0x5C) (lower (''%'' @ escape_like q @ ''%'')) (lower v) \<longleftrightarrow>
        (\<exists>a m b. lower v = a @ m @ b \<and> lower m = lower q)"
      by (simp add: like_any like_literal del: like.simps) blast
    also have "\<dots> \<longleftrightarrow> (\<exists>a m b. v = a @ m @ b \<and> equal_fold m q)"
    proof
      assume "\<exists>a m b. lower v = a @ m @ b \<and> lower m = lower q"
      then obtain a m b where l: "lower v = a @ (m @ b)" "lower m = lower q" by blast
      from l(1) obtain x y where x: "v = x @ y" "lower y = m @ b" unfolding lower_eq_append by blast
      from x(2) obtain y1 y2 where y: "y = y1 @ y2" "lower y1 = m" unfolding lower_eq_append by blast
      with l(2) x(1) have "v = x @ y1 @ y2 \<and> equal_fold y1 q" by (auto simp: equal_fold_def)
      then show "\<exists>a m b. v = a @ m @ b \<and> equal_fold m q" by (intro exI)
    next
      assume "\<exists>a m b. v = a @ m @ b \<and> equal_fold m q"
      then obtain a m b where "v = a @ m @ b" "lower m = lower q" by (auto simp: equal_fold_def)
      then have "lower v = lower a @ lower m @ lower b \<and> lower (lower m) = lower q" by simp
      then show "\<exists>a m b. lower v = a @ m @ b \<and> lower m = lower q" by blast
    qed
    finally show ?thesis .
  qed
  then show ?thesis by (simp add: matches_query_def Let_def del: like.simps)
qed

subsection \<open>The inventory after a run of check-ins\<close>

datatype device_call =
    DeviceEnrolled device_record
  | DeviceTokenUpdated string
  | DeviceCheckedOut string
  | DeviceCheckedIn string
  | DeviceInventory string device_inventory

type_synonym device_event = "nanos \<times> device_call"

fun device_step :: "device_event \<Rightarrow> device list \<Rightarrow> device list" where
  \<comment> \<open>a statement that succeeds\<close>
  "device_step (now, DeviceEnrolled r) rows = snd (device_enrolled None now r rows)"
| "device_step (now, DeviceTokenUpdated i) rows = snd (device_token_updated None now i rows)"
| "device_step (now, DeviceCheckedOut i) rows = snd (device_checked_out None now i rows)"
| "device_step (now, DeviceCheckedIn i) rows = snd (device_checked_in None now i rows)"
| "device_step (now, DeviceInventory i v) rows = snd (store_inventory None now i v rows)"

definition device_run :: "device_event list \<Rightarrow> device list \<Rightarrow> device list" where
  "device_run evs rows = fold device_step evs rows"

fun event_id :: "device_call \<Rightarrow> string" where
  "event_id (DeviceEnrolled r) = dr_id r"
| "event_id (DeviceTokenUpdated i) = i"
| "event_id (DeviceCheckedOut i) = i"
| "event_id (DeviceCheckedIn i) = i"
| "event_id (DeviceInventory i v) = i"

fun device_effect :: "device_event \<Rightarrow> device \<Rightarrow> device" where
  \<comment> \<open>what an event does to its device's row\<close>
  "device_effect (now, DeviceEnrolled r) d = enroll_again (to_secs now) r d"
| "device_effect (now, DeviceTokenUpdated i) d =
     d\<lparr>d_token_updated_at := Some (to_secs now), d_last_seen := Some (to_secs now), d_checked_out_at := None\<rparr>"
| "device_effect (now, DeviceCheckedOut i) d = d\<lparr>d_checked_out_at := Some (to_secs now), d_last_seen := Some (to_secs now)\<rparr>"
| "device_effect (now, DeviceCheckedIn i) d = d\<lparr>d_last_seen := Some (to_secs now)\<rparr>"
| "device_effect (now, DeviceInventory i v) d = project_inventory (to_secs now) v d"

definition find_device :: "string \<Rightarrow> device list \<Rightarrow> device option" where
  "find_device i rows = List.find (\<lambda>d. d_id d = i) rows"

lemma device_effect_id [simp]: "d_id (device_effect ev d) = d_id d"
  by (cases ev; cases "snd ev") (auto simp: enroll_again_def project_inventory_def)

lemma device_step_found:
  assumes "find_device i rows = Some d"
  shows "find_device i (device_step ev rows) = Some (if event_id (snd ev) = i then device_effect ev d else d)"
proof -
  obtain now c where ev: "ev = (now, c)" by (cases ev)
  have u: "find_device i (update_where (\<lambda>d. d_id d = j) f rows) = Some (if j = i then f d else d)"
    if "\<And>d. d_id (f d) = d_id d" for j f
  proof -
    have "d_id d = i" using assms by (auto simp: find_device_def dest: find_SomeD)
    then show ?thesis using assms that by (auto simp: find_device_def find_update_where)
  qed
  show ?thesis
  proof (cases c)
    case (DeviceEnrolled r)
    have "find_device i (upsert (\<lambda>d. d_id d = dr_id r) (enroll_again (to_secs now) r) (enroll_new (to_secs now) r) rows) =
      Some (if dr_id r = i then enroll_again (to_secs now) r d else d)"
    proof (cases "dr_id r = i")
      case True
      then show ?thesis using assms
        by (simp add: find_device_def find_upsert_same enroll_new_def enroll_again_def)
    next
      case False
      then show ?thesis using assms
        by (simp add: find_device_def find_upsert_other enroll_new_def enroll_again_def)
    qed
    with DeviceEnrolled show ?thesis by (simp add: ev device_enrolled_def on_fault_def)
  qed (simp_all add: ev device_token_updated_def device_checked_out_def device_checked_in_def store_inventory_def
      on_fault_def u project_inventory_def)
qed

lemma device_run_found:
  "find_device i rows = Some d \<Longrightarrow>
   find_device i (device_run evs rows) = Some (fold device_effect (filter (\<lambda>ev. event_id (snd ev) = i) evs) d)"
  unfolding device_run_def
  by (induction evs arbitrary: rows d) (simp_all add: device_step_found split: if_splits)

datatype device_col = ColSerial | ColName | ColModel | ColProduct | ColOS | ColBuild | ColCapacity | ColBattery

fun col :: "device_col \<Rightarrow> device \<Rightarrow> string" where
  "col ColSerial = d_serial" | "col ColName = d_name" | "col ColModel = d_model" | "col ColProduct = d_product"
| "col ColOS = d_os_version" | "col ColBuild = d_build_version" | "col ColCapacity = d_capacity"
| "col ColBattery = d_battery"

fun reported :: "device_col \<Rightarrow> device_call \<Rightarrow> string" where
  \<comment> \<open>the value an event carries for a column\<close>
  "reported k (DeviceEnrolled r) = (case k of ColSerial \<Rightarrow> dr_serial r | ColName \<Rightarrow> dr_name r | ColModel \<Rightarrow> dr_model r
     | ColProduct \<Rightarrow> dr_product r | ColOS \<Rightarrow> dr_os_version r | ColBuild \<Rightarrow> dr_build_version r | _ \<Rightarrow> [])"
| "reported k (DeviceInventory i v) = (case k of ColSerial \<Rightarrow> di_serial v | ColName \<Rightarrow> di_name v | ColModel \<Rightarrow> di_model v
     | ColProduct \<Rightarrow> di_product v | ColOS \<Rightarrow> di_os_version v | ColBuild \<Rightarrow> di_build_version v
     | ColCapacity \<Rightarrow> di_capacity v | ColBattery \<Rightarrow> di_battery v)"
| "reported k _ = []"

lemma col_effect: "col k (device_effect ev d) = merge (reported k (snd ev)) (col k d)"
  by (cases ev; cases "snd ev"; cases k) (auto simp: enroll_again_def project_inventory_def merge_def)

lemma col_fold: "col k (fold device_effect evs d) = fold (\<lambda>ev. merge (reported k (snd ev))) evs (col k d)"
  by (induction evs arbitrary: d) (simp_all add: col_effect)

lemma fold_merge:
  "fold (\<lambda>ev. merge (f ev)) evs x = last (x # filter (\<lambda>v. v \<noteq> []) (map f evs))"
  by (induction evs rule: rev_induct) (auto simp: merge_def)

text \<open>
  After any run of check-in events a known device's serial, name, model, product, OS,
  build, capacity and battery are each the last non-empty value that an event of that device
  reported, or the earlier value when none did: a partial answer never blanks a column, and
  events of other devices change nothing.
\<close>

theorem inventory_last_reported:
  assumes "find_device i rows = Some d"
  shows "\<exists>d'. find_device i (device_run evs rows) = Some d' \<and>
    (\<forall>k. col k d' = last (col k d # filter (\<lambda>v. v \<noteq> [])
        (map (\<lambda>ev. reported k (snd ev)) (filter (\<lambda>ev. event_id (snd ev) = i) evs))))"
  using device_run_found[OF assms, of evs] by (simp add: col_fold fold_merge)

definition demo_device :: device where
  "demo_device = enroll_new 0 \<lparr>dr_id = ''D1'', dr_udid = ''D1'', dr_serial = ''S1'', dr_name = ''old'', dr_model = [],
     dr_product = [], dr_os_version = [], dr_build_version = [], dr_topic = []\<rparr>"

definition blank_inventory :: device_inventory where
  "blank_inventory = \<lparr>di_name = [], di_model = [], di_product = [], di_os_version = [], di_build_version = [],
     di_serial = [], di_capacity = [], di_battery = []\<rparr>"

theorem inventory_last_reported_witness:
  "\<exists>d'. find_device ''D1'' (device_run [(0, DeviceInventory ''D1'' (blank_inventory\<lparr>di_name := ''new''\<rparr>)),
      (second, DeviceInventory ''D1'' blank_inventory)] [demo_device]) = Some d' \<and> d_name d' = ''new'' \<and> d_serial d' = ''S1''"
proof -
  let ?evs = "[(0, DeviceInventory ''D1'' (blank_inventory\<lparr>di_name := ''new''\<rparr>)), (second, DeviceInventory ''D1'' blank_inventory)]"
  have "find_device ''D1'' [demo_device] = Some demo_device"
    by (simp add: find_device_def demo_device_def enroll_new_def)
  from inventory_last_reported[OF this, of ?evs] obtain d' where
    d': "find_device ''D1'' (device_run ?evs [demo_device]) = Some d'"
    "\<forall>k. col k d' = last (col k demo_device # filter (\<lambda>v. v \<noteq> [])
       (map (\<lambda>ev. reported k (snd ev)) (filter (\<lambda>ev. event_id (snd ev) = ''D1'') ?evs)))" by blast
  from d'(2)[rule_format, of ColName] d'(2)[rule_format, of ColSerial] d'(1) show ?thesis
    by (simp add: blank_inventory_def demo_device_def enroll_new_def)
qed

fun moves_enrollment :: "device_call \<Rightarrow> bool option" where
  "moves_enrollment (DeviceEnrolled r) = Some True"
| "moves_enrollment (DeviceTokenUpdated i) = Some True"
| "moves_enrollment (DeviceCheckedOut i) = Some False"
| "moves_enrollment _ = None"

definition enrollment_moves :: "device_event list \<Rightarrow> bool list" where
  "enrollment_moves evs = concat (map (\<lambda>ev. case moves_enrollment (snd ev) of None \<Rightarrow> [] | Some b \<Rightarrow> [b]) evs)"

lemma enrolled_effect:
  "enrolled (device_effect ev d) = (case moves_enrollment (snd ev) of None \<Rightarrow> enrolled d | Some b \<Rightarrow> b)"
  by (cases ev; cases "snd ev") (auto simp: enrolled_def enroll_again_def project_inventory_def)

lemma enrolled_fold:
  "enrolled (fold device_effect evs d) =
    last (enrolled d # enrollment_moves evs)"
  by (induction evs rule: rev_induct) (auto simp: enrolled_effect enrollment_moves_def split: option.splits)

text \<open>
  A known device counts as enrolled exactly when the last of its enrollment, token-update
  and check-out events is not a check-out.
\<close>

theorem enrolled_last_event:
  assumes "find_device i rows = Some d"
  shows "\<exists>d'. find_device i (device_run evs rows) = Some d' \<and>
    enrolled d' = last (enrolled d # enrollment_moves (filter (\<lambda>ev. event_id (snd ev) = i) evs))"
  using device_run_found[OF assms, of evs] by (simp add: enrolled_fold)

theorem enrolled_last_event_witness:
  "\<exists>d'. find_device ''D1'' (device_run [(0, DeviceCheckedOut ''D1''), (second, DeviceCheckedIn ''D1'')] [demo_device]) = Some d'
     \<and> \<not> enrolled d'"
proof -
  have "find_device ''D1'' [demo_device] = Some demo_device"
    by (simp add: find_device_def demo_device_def enroll_new_def)
  from enrolled_last_event[OF this, of "[(0, DeviceCheckedOut ''D1''), (second, DeviceCheckedIn ''D1'')]"]
  show ?thesis by (simp add: enrollment_moves_def)
qed

end
