(* ===== verification/Fleet.thy ===== *)
theory Fleet
  imports Devices
begin

section \<open>Profiles, groups, deployments and command history\<close>

text \<open>
  \<open>profiles.go\<close>, \<open>groups.go\<close>, \<open>deploys.go\<close> and \<open>commands.go\<close> of \<open>internal/storage/sqlite\<close>,
  with the constraints of \<open>schema/007\<close> to \<open>014\<close>: unique keys, foreign keys (enforced, see
  \<open>Open\<close>) and their cascades.  A profile's version is \<open>updated_at\<close>, a number of milliseconds;
  every other timestamp is in seconds.  \<open>COLLATE NOCASE\<close> compares lower-cased ASCII.
\<close>

record profile =
  p_id :: int
  p_identifier :: string
  p_uuid :: string
  p_name :: string
  p_organization :: string
  p_payload_types :: string
  p_source :: string
  p_data :: string
  p_created_at :: secs
  p_updated_at :: int

record group_row =
  gr_id :: int
  gr_name :: string
  gr_description :: string
  gr_created_at :: secs

record group_info = group_row +
  gi_devices :: nat
  gi_profiles :: nat

record deploy =
  dp_device :: string
  dp_profile :: int
  dp_command :: string
  dp_version :: int
  dp_status :: string
  dp_updated_at :: secs

record command_entry =
  ce_uuid :: string
  ce_device :: string
  ce_type :: string
  ce_status :: string
  ce_error :: string
  ce_sent_at :: secs
  ce_result_at :: "secs option"

record fleet =
  f_devices :: "device list"
  f_groups :: "group_row list"
  f_members :: "(int \<times> string) list"
  f_assigned :: "(int \<times> int) list"
  f_profiles :: "profile list"
  f_deploys :: "deploy list"
  f_history :: "command_entry list"

definition to_millis :: "nanos \<Rightarrow> int" where "to_millis t = t div 1000000"

definition fk_error :: sql_err where "fk_error = SqlErr ''FOREIGN KEY constraint failed''"

definition nocase :: "('r \<Rightarrow> string) \<Rightarrow> 'r list \<Rightarrow> 'r list" where
  "nocase f rows = sort_key (\<lambda>r. lower (f r)) rows"

subsection \<open>The profile library\<close>

definition profile_types :: "profile \<Rightarrow> string list" where
  "profile_types p = (if p_payload_types p = [] then [] else split_on (CHR '','') (p_payload_types p))"

definition save_profile :: "fault \<Rightarrow> nanos \<Rightarrow> profile \<Rightarrow> fleet \<Rightarrow> (sql_err + int) \<times> fleet" where
  "save_profile ft now p st =
     (case ft of Some e \<Rightarrow> (Inl (SqlErr e), st)
      | None \<Rightarrow>
         let same = (\<lambda>q. p_identifier q = p_identifier p);
             i = (case List.find same (f_profiles st) of Some q \<Rightarrow> p_id q | None \<Rightarrow> next_rowid (map p_id (f_profiles st)));
             put = (\<lambda>q. q\<lparr>p_uuid := p_uuid p, p_name := p_name p, p_organization := p_organization p,
                p_payload_types := p_payload_types p, p_source := p_source p, p_data := p_data p,
                p_updated_at := to_millis now\<rparr>);
             fresh = p\<lparr>p_id := i, p_created_at := to_secs now, p_updated_at := to_millis now\<rparr>
         in (Inr i, st\<lparr>f_profiles := upsert same put fresh (f_profiles st)\<rparr>))"

definition list_profiles :: "fault \<Rightarrow> fleet \<Rightarrow> sql_err + profile list" where
  "list_profiles ft st = on_read ft (nocase p_name (f_profiles st))"

definition find_profile :: "int \<Rightarrow> fleet \<Rightarrow> profile option" where
  "find_profile i st = List.find (\<lambda>p. p_id p = i) (f_profiles st)"

definition get_profile :: "fault \<Rightarrow> int \<Rightarrow> fleet \<Rightarrow> sql_err + profile" where
  "get_profile ft i st = (case ft of Some e \<Rightarrow> Inl (SqlErr e)
     | None \<Rightarrow> (case find_profile i st of None \<Rightarrow> Inl NoRows | Some p \<Rightarrow> Inr p))"

definition delete_profile :: "fault \<Rightarrow> int \<Rightarrow> fleet \<Rightarrow> (sql_err + unit) \<times> fleet" where
  "delete_profile ft i st =
     (case ft of Some e \<Rightarrow> (Inl (SqlErr e), st)
      | None \<Rightarrow>
         (if affected (\<lambda>p. p_id p = i) (f_profiles st) = 0 then Inl NoRows else Inr (),
          st\<lparr>f_profiles := delete_where (\<lambda>p. p_id p = i) (f_profiles st),
             f_assigned := delete_where (\<lambda>a. snd a = i) (f_assigned st),
             f_deploys := delete_where (\<lambda>d. dp_profile d = i) (f_deploys st)\<rparr>))"

subsection \<open>Groups\<close>

definition create_group :: "fault \<Rightarrow> nanos \<Rightarrow> string \<Rightarrow> string \<Rightarrow> fleet \<Rightarrow> (sql_err + int) \<times> fleet" where
  "create_group ft now name desc st =
     (case ft of Some e \<Rightarrow> (Inl (SqlErr e), st)
      | None \<Rightarrow>
         if lower name \<in> set (map (lower \<circ> gr_name) (f_groups st))
         then (Inl (SqlErr ''UNIQUE constraint failed: groups.name''), st)
         else let i = next_rowid (map gr_id (f_groups st)) in
           (Inr i, st\<lparr>f_groups := f_groups st @ [\<lparr>gr_id = i, gr_name = name, gr_description = desc,
              gr_created_at = to_secs now\<rparr>]\<rparr>))"

definition group_info_of :: "fleet \<Rightarrow> group_row \<Rightarrow> group_info" where
  "group_info_of st g = group_row.extend g
     \<lparr>gi_devices = length (filter (\<lambda>m. fst m = gr_id g) (f_members st)),
      gi_profiles = length (filter (\<lambda>a. fst a = gr_id g) (f_assigned st))\<rparr>"

definition list_groups :: "fault \<Rightarrow> fleet \<Rightarrow> sql_err + group_info list" where
  "list_groups ft st = on_read ft (map (group_info_of st) (nocase gr_name (f_groups st)))"

definition get_group :: "fault \<Rightarrow> int \<Rightarrow> fleet \<Rightarrow> sql_err + group_info" where
  "get_group ft i st = (case ft of Some e \<Rightarrow> Inl (SqlErr e)
     | None \<Rightarrow> (case List.find (\<lambda>g. gr_id g = i) (f_groups st) of
          None \<Rightarrow> Inl NoRows | Some g \<Rightarrow> Inr (group_info_of st g)))"

definition delete_group :: "fault \<Rightarrow> int \<Rightarrow> fleet \<Rightarrow> (sql_err + unit) \<times> fleet" where
  "delete_group ft i st =
     (case ft of Some e \<Rightarrow> (Inl (SqlErr e), st)
      | None \<Rightarrow>
         (if affected (\<lambda>g. gr_id g = i) (f_groups st) = 0 then Inl NoRows else Inr (),
          st\<lparr>f_groups := delete_where (\<lambda>g. gr_id g = i) (f_groups st),
             f_members := delete_where (\<lambda>m. fst m = i) (f_members st),
             f_assigned := delete_where (\<lambda>a. fst a = i) (f_assigned st)\<rparr>))"

definition has_group :: "int \<Rightarrow> fleet \<Rightarrow> bool" where
  "has_group g st \<longleftrightarrow> g \<in> set (map gr_id (f_groups st))"

definition has_profile :: "int \<Rightarrow> fleet \<Rightarrow> bool" where
  "has_profile p st \<longleftrightarrow> p \<in> set (map p_id (f_profiles st))"

definition add_device_to_group :: "fault \<Rightarrow> int \<Rightarrow> string \<Rightarrow> fleet \<Rightarrow> (sql_err + unit) \<times> fleet" where
  "add_device_to_group ft g d st =
     (case ft of Some e \<Rightarrow> (Inl (SqlErr e), st)
      | None \<Rightarrow>
         if (g, d) \<in> set (f_members st) then (Inr (), st)
         else if \<not> has_group g st then (Inl fk_error, st)
         else (Inr (), st\<lparr>f_members := f_members st @ [(g, d)]\<rparr>))"

definition remove_device_from_group :: "fault \<Rightarrow> int \<Rightarrow> string \<Rightarrow> fleet \<Rightarrow> (sql_err + unit) \<times> fleet" where
  "remove_device_from_group ft g d st =
     (case ft of Some e \<Rightarrow> (Inl (SqlErr e), st)
      | None \<Rightarrow> (Inr (), st\<lparr>f_members := delete_where (\<lambda>m. m = (g, d)) (f_members st)\<rparr>))"

definition assign_profile :: "fault \<Rightarrow> int \<Rightarrow> int \<Rightarrow> fleet \<Rightarrow> (sql_err + unit) \<times> fleet" where
  "assign_profile ft g p st =
     (case ft of Some e \<Rightarrow> (Inl (SqlErr e), st)
      | None \<Rightarrow>
         if (g, p) \<in> set (f_assigned st) then (Inr (), st)
         else if \<not> has_group g st \<or> \<not> has_profile p st then (Inl fk_error, st)
         else (Inr (), st\<lparr>f_assigned := f_assigned st @ [(g, p)]\<rparr>))"

definition unassign_profile :: "fault \<Rightarrow> int \<Rightarrow> int \<Rightarrow> fleet \<Rightarrow> (sql_err + unit) \<times> fleet" where
  "unassign_profile ft g p st =
     (case ft of Some e \<Rightarrow> (Inl (SqlErr e), st)
      | None \<Rightarrow> (Inr (), st\<lparr>f_assigned := delete_where (\<lambda>a. a = (g, p)) (f_assigned st)\<rparr>))"

definition group_devices :: "fault \<Rightarrow> int \<Rightarrow> fleet \<Rightarrow> sql_err + device list" where
  "group_devices ft g st = on_read ft (nocase d_name
     (map (\<lambda>d. d\<lparr>d_capacity := [], d_battery := [], d_inventory_at := None\<rparr>)  \<comment> \<open>columns the query does not select\<close>
       (filter (\<lambda>d. (g, d_id d) \<in> set (f_members st)) (f_devices st))))"

definition group_profiles :: "fault \<Rightarrow> int \<Rightarrow> fleet \<Rightarrow> sql_err + profile list" where
  "group_profiles ft g st = on_read ft (nocase p_name (filter (\<lambda>p. (g, p_id p) \<in> set (f_assigned st)) (f_profiles st)))"

definition device_groups :: "fault \<Rightarrow> string \<Rightarrow> fleet \<Rightarrow> sql_err + group_info list" where
  "device_groups ft d st = on_read ft (map (group_info_of st)
     (nocase gr_name (filter (\<lambda>g. (gr_id g, d) \<in> set (f_members st)) (f_groups st))))"

definition group_device_ids :: "fault \<Rightarrow> int \<Rightarrow> fleet \<Rightarrow> sql_err + string list" where
  "group_device_ids ft g st = on_read ft (map d_id (filter (\<lambda>d. (g, d_id d) \<in> set (f_members st) \<and>
     d_checked_out_at d = None \<and> d_token_updated_at d \<noteq> None) (f_devices st)))"

subsection \<open>Deployments\<close>

definition find_deploy :: "string \<Rightarrow> int \<Rightarrow> fleet \<Rightarrow> deploy option" where
  "find_deploy d p st = List.find (\<lambda>x. (dp_device x, dp_profile x) = (d, p)) (f_deploys st)"

definition assigned_to :: "string \<Rightarrow> int \<Rightarrow> fleet \<Rightarrow> bool" where
  \<comment> \<open>the joins of \<open>group_profiles\<close> with \<open>group_devices\<close>\<close>
  "assigned_to d p st \<longleftrightarrow> (\<exists>(g, q)\<in>set (f_assigned st). q = p \<and> (g, d) \<in> set (f_members st))"

definition outdated :: "string \<Rightarrow> profile \<Rightarrow> fleet \<Rightarrow> bool" where
  "outdated d p st \<longleftrightarrow> (case find_deploy d (p_id p) st of None \<Rightarrow> True | Some x \<Rightarrow> dp_version x \<noteq> p_updated_at p)"

definition missing_profiles :: "string \<Rightarrow> fleet \<Rightarrow> profile list" where
  "missing_profiles d st = sort_key p_id (filter (\<lambda>p. assigned_to d (p_id p) st \<and> outdated d p st) (f_profiles st))"

definition profiles_to_deploy :: "fault \<Rightarrow> string \<Rightarrow> fleet \<Rightarrow> sql_err + profile list" where
  "profiles_to_deploy ft d st = on_read ft (missing_profiles d st)"

definition mark_deploy_sent ::
  "fault \<Rightarrow> nanos \<Rightarrow> string \<Rightarrow> int \<Rightarrow> string \<Rightarrow> int \<Rightarrow> fleet \<Rightarrow> (sql_err + unit) \<times> fleet" where
  "mark_deploy_sent ft now d p uuid version st =
     (case ft of Some e \<Rightarrow> (Inl (SqlErr e), st)
      | None \<Rightarrow>
         if \<not> has_profile p st then (Inl fk_error, st)
         else (Inr (), st\<lparr>f_deploys := upsert (\<lambda>x. (dp_device x, dp_profile x) = (d, p))
             (\<lambda>x. x\<lparr>dp_command := uuid, dp_version := version, dp_status := ''sent'', dp_updated_at := to_secs now\<rparr>)
             \<lparr>dp_device = d, dp_profile = p, dp_command = uuid, dp_version = version, dp_status = ''sent'',
              dp_updated_at = to_secs now\<rparr> (f_deploys st)\<rparr>))"

record device_deploy =
  dd_profile :: int
  dd_name :: string
  dd_identifier :: string
  dd_status :: string
  dd_updated_at :: secs

definition device_deploys :: "fault \<Rightarrow> string \<Rightarrow> fleet \<Rightarrow> sql_err + device_deploy list" where
  "device_deploys ft d st = on_read ft
     (sort_key (\<lambda>x. - dd_updated_at x) (sort_key (\<lambda>x. lower (dd_name x))
       (List.map_filter (\<lambda>x. if dp_device x = d then map_option (\<lambda>p. \<lparr>dd_profile = p_id p, dd_name = p_name p,
            dd_identifier = p_identifier p, dd_status = dp_status x, dd_updated_at = dp_updated_at x\<rparr>)
            (find_profile (dp_profile x) st) else None) (f_deploys st))))"

record profile_deploy =
  pd_device :: string
  pd_display :: string
  pd_status :: string
  pd_updated_at :: secs

definition deploy_display :: "fleet \<Rightarrow> string \<Rightarrow> string" where
  "deploy_display st d = (case List.find (\<lambda>x. d_id x = d) (f_devices st) of
     None \<Rightarrow> d | Some x \<Rightarrow> if d_name x \<noteq> [] then d_name x else if d_serial x \<noteq> [] then d_serial x else d)"

definition profile_deploys :: "fault \<Rightarrow> int \<Rightarrow> fleet \<Rightarrow> sql_err + profile_deploy list" where
  "profile_deploys ft p st = on_read ft (nocase pd_display (map (\<lambda>x. \<lparr>pd_device = dp_device x,
      pd_display = deploy_display st (dp_device x), pd_status = dp_status x, pd_updated_at = dp_updated_at x\<rparr>)
      (filter (\<lambda>x. dp_profile x = p) (f_deploys st))))"

record group_status =
  gs_profile :: int
  gs_name :: string
  gs_identifier :: string
  gs_installed :: nat
  gs_pending :: nat
  gs_failed :: nat

definition count_status :: "int \<Rightarrow> int \<Rightarrow> string \<Rightarrow> fleet \<Rightarrow> nat" where
  "count_status g p s st = length (filter (\<lambda>m. fst m = g \<and>
     (case find_deploy (snd m) p st of None \<Rightarrow> False | Some x \<Rightarrow> dp_status x = s)) (f_members st))"

definition group_deploy_status :: "fault \<Rightarrow> int \<Rightarrow> fleet \<Rightarrow> sql_err + group_status list" where
  "group_deploy_status ft g st = on_read ft (nocase gs_name (map (\<lambda>p. \<lparr>gs_profile = p_id p, gs_name = p_name p,
      gs_identifier = p_identifier p, gs_installed = count_status g (p_id p) ''installed'' st,
      gs_pending = count_status g (p_id p) ''sent'' st, gs_failed = count_status g (p_id p) ''failed'' st\<rparr>)
      (sort_key p_id (filter (\<lambda>p. (g, p_id p) \<in> set (f_assigned st)) (f_profiles st)))))"

subsection \<open>Command history\<close>

definition pending :: "command_entry \<Rightarrow> bool" where
  "pending c \<longleftrightarrow> ce_status c = ''Sent'' \<or> ce_status c = ''NotNow''"

definition command_sent :: "fault \<Rightarrow> nanos \<Rightarrow> string \<Rightarrow> string \<Rightarrow> string \<Rightarrow> fleet \<Rightarrow> (sql_err + unit) \<times> fleet" where
  "command_sent ft now d uuid rtype st =
     (case ft of Some e \<Rightarrow> (Inl (SqlErr e), st)
      | None \<Rightarrow> (Inr (), st\<lparr>f_history := upsert (\<lambda>c. (ce_uuid c, ce_device c) = (uuid, d)) (\<lambda>c. c)
            \<lparr>ce_uuid = uuid, ce_device = d, ce_type = rtype, ce_status = ''Sent'', ce_error = [],
             ce_sent_at = to_secs now, ce_result_at = None\<rparr> (f_history st)\<rparr>))"

definition deploy_outcome :: "string \<Rightarrow> string option" where
  "deploy_outcome status =
     (if status = ''Acknowledged'' then Some ''installed''
      else if status = ''Error'' \<or> status = ''CommandFormatError'' then Some ''failed''
      else None)"

definition command_result ::
  "fault \<Rightarrow> fault \<Rightarrow> nanos \<Rightarrow> string \<Rightarrow> string \<Rightarrow> string \<Rightarrow> string \<Rightarrow> fleet \<Rightarrow> (sql_err + unit) \<times> fleet" where
  "command_result ft ft2 now d uuid status err st =
     (case ft of Some e \<Rightarrow> (Inl (SqlErr e), st)
      | None \<Rightarrow>
         let st1 = st\<lparr>f_history := update_where (\<lambda>c. ce_uuid c = uuid \<and> ce_device c = d)
               (\<lambda>c. c\<lparr>ce_status := status, ce_error := err, ce_result_at := Some (to_secs now)\<rparr>) (f_history st)\<rparr>
         in (case deploy_outcome status of
               None \<Rightarrow> (Inr (), st1)
             | Some outcome \<Rightarrow>
                (case ft2 of Some e \<Rightarrow> (Inl (SqlErr e), st1)
                 | None \<Rightarrow> (Inr (), st1\<lparr>f_deploys := update_where (\<lambda>x. dp_command x = uuid \<and> dp_device x = d)
                      (\<lambda>x. x\<lparr>dp_status := outcome, dp_updated_at := to_secs now\<rparr>) (f_deploys st1)\<rparr>))))"

definition list_commands :: "fault \<Rightarrow> string \<Rightarrow> int \<Rightarrow> fleet \<Rightarrow> sql_err + command_entry list" where
  "list_commands ft d lim st = on_read ft (take (if lim \<le> 0 then 25 else nat lim)
     (sort_key (\<lambda>c. - ce_sent_at c) (sort_key ce_uuid (filter (\<lambda>c. ce_device c = d) (f_history st)))))"

subsection \<open>Runs and the integrity invariant\<close>

datatype fleet_call =
    SaveProfile profile
  | DeleteProfile int
  | CreateGroup string string
  | DeleteGroup int
  | AddDevice int string
  | RemoveDevice int string
  | AssignProfile int int
  | UnassignProfile int int
  | MarkDeploySent string int string int
  | CommandSent string string string
  | CommandResult string string string string fault
  | CheckIn device_call

type_synonym fleet_event = "nanos \<times> fault \<times> fleet_call"

fun fleet_step :: "fleet_event \<Rightarrow> fleet \<Rightarrow> fleet" where
  "fleet_step (now, ft, SaveProfile p) st = snd (save_profile ft now p st)"
| "fleet_step (now, ft, DeleteProfile i) st = snd (delete_profile ft i st)"
| "fleet_step (now, ft, CreateGroup n d) st = snd (create_group ft now n d st)"
| "fleet_step (now, ft, DeleteGroup i) st = snd (delete_group ft i st)"
| "fleet_step (now, ft, AddDevice g d) st = snd (add_device_to_group ft g d st)"
| "fleet_step (now, ft, RemoveDevice g d) st = snd (remove_device_from_group ft g d st)"
| "fleet_step (now, ft, AssignProfile g p) st = snd (assign_profile ft g p st)"
| "fleet_step (now, ft, UnassignProfile g p) st = snd (unassign_profile ft g p st)"
| "fleet_step (now, ft, MarkDeploySent d p u v) st = snd (mark_deploy_sent ft now d p u v st)"
| "fleet_step (now, ft, CommandSent d u r) st = snd (command_sent ft now d u r st)"
| "fleet_step (now, ft, CommandResult d u s e f2) st = snd (command_result ft f2 now d u s e st)"
| "fleet_step (now, ft, CheckIn c) st =
     (case ft of Some _ \<Rightarrow> st | None \<Rightarrow> st\<lparr>f_devices := device_step (now, c) (f_devices st)\<rparr>)"

definition fleet_run :: "fleet_event list \<Rightarrow> fleet \<Rightarrow> fleet" where
  "fleet_run evs st = fold fleet_step evs st"

definition keys_ok :: "fleet \<Rightarrow> bool" where
  "keys_ok st \<longleftrightarrow> distinct (map p_id (f_profiles st)) \<and> distinct (map p_identifier (f_profiles st)) \<and>
     distinct (map gr_id (f_groups st)) \<and> distinct (map (lower \<circ> gr_name) (f_groups st)) \<and>
     distinct (f_members st) \<and> distinct (f_assigned st) \<and>
     distinct (map (\<lambda>x. (dp_device x, dp_profile x)) (f_deploys st)) \<and>
     distinct (map (\<lambda>c. (ce_uuid c, ce_device c)) (f_history st))"

definition refs_ok :: "fleet \<Rightarrow> bool" where
  "refs_ok st \<longleftrightarrow> fst ` set (f_members st) \<subseteq> gr_id ` set (f_groups st) \<and>
     fst ` set (f_assigned st) \<subseteq> gr_id ` set (f_groups st) \<and>
     snd ` set (f_assigned st) \<subseteq> p_id ` set (f_profiles st) \<and>
     dp_profile ` set (f_deploys st) \<subseteq> p_id ` set (f_profiles st)"

definition fleet_ok :: "fleet \<Rightarrow> bool" where
  "fleet_ok st \<longleftrightarrow> keys_ok st \<and> refs_ok st"

lemma distinct_delete_where [simp]: "distinct rs \<Longrightarrow> distinct (delete_where p rs)"
  by (simp add: delete_where_def)

lemma map_upsert:
  "(\<And>r. g (f r) = g r) \<Longrightarrow>
   map g (upsert p f new rs) = (if List.find p rs = None then map g rs @ [g new] else map g rs)"
  by (simp add: upsert_def map_update_where)

lemma image_map: "f ` set xs = set (map f xs)"
  by simp

lemma save_profile_ids:
  assumes "fleet_ok st" and st'_def: "st' = snd (save_profile ft now p st)"
  shows "distinct (map p_id (f_profiles st')) \<and> distinct (map p_identifier (f_profiles st')) \<and>
    set (map p_id (f_profiles st)) \<subseteq> set (map p_id (f_profiles st'))"
proof (cases ft)
  case None
  let ?same = "\<lambda>q. p_identifier q = p_identifier p"
  let ?new = "p\<lparr>p_id := (case List.find ?same (f_profiles st) of Some q \<Rightarrow> p_id q
      | None \<Rightarrow> next_rowid (map p_id (f_profiles st))), p_created_at := to_secs now, p_updated_at := to_millis now\<rparr>"
  let ?put = "\<lambda>q. q\<lparr>p_uuid := p_uuid p, p_name := p_name p, p_organization := p_organization p,
      p_payload_types := p_payload_types p, p_source := p_source p, p_data := p_data p, p_updated_at := to_millis now\<rparr>"
  have st': "f_profiles st' = upsert ?same ?put ?new (f_profiles st)"
    by (simp add: st'_def save_profile_def None Let_def)
  have "map p_id (f_profiles st') = (if List.find ?same (f_profiles st) = None
      then map p_id (f_profiles st) @ [next_rowid (map p_id (f_profiles st))] else map p_id (f_profiles st))"
    unfolding st' by (subst map_upsert) auto
  moreover have "map p_identifier (f_profiles st') = (if List.find ?same (f_profiles st) = None
      then map p_identifier (f_profiles st) @ [p_identifier p] else map p_identifier (f_profiles st))"
    unfolding st' by (subst map_upsert) auto
  moreover have "distinct (map p_id (f_profiles st))" "distinct (map p_identifier (f_profiles st))"
    using assms(1) by (simp_all add: fleet_ok_def keys_ok_def)
  ultimately show ?thesis
    using next_rowid_fresh[of "map p_id (f_profiles st)"] by (auto simp: find_None_key)
qed (use assms(1) in \<open>simp add: st'_def save_profile_def fleet_ok_def keys_ok_def\<close>)

lemma save_profile_other:
  "f_groups (snd (save_profile ft now p st)) = f_groups st" "f_members (snd (save_profile ft now p st)) = f_members st"
  "f_assigned (snd (save_profile ft now p st)) = f_assigned st" "f_deploys (snd (save_profile ft now p st)) = f_deploys st"
  "f_history (snd (save_profile ft now p st)) = f_history st" "f_devices (snd (save_profile ft now p st)) = f_devices st"
  by (cases ft; simp add: save_profile_def Let_def)+

lemma save_profile_ok: "fleet_ok st \<Longrightarrow> fleet_ok (snd (save_profile ft now p st))"
proof -
  assume ok: "fleet_ok st"
  have m: "p_id ` set (f_profiles st) \<subseteq> p_id ` set (f_profiles (snd (save_profile ft now p st)))"
    using save_profile_ids[OF ok refl, of ft now p] by simp
  have "A \<subseteq> p_id ` set (f_profiles (snd (save_profile ft now p st)))" if "A \<subseteq> p_id ` set (f_profiles st)" for A
    using that m by (rule order_trans)
  then show ?thesis
    using ok save_profile_ids[OF ok refl, of ft now p]
    by (simp add: fleet_ok_def keys_ok_def refs_ok_def save_profile_other)
qed

lemma delete_profile_ok: "fleet_ok st \<Longrightarrow> fleet_ok (snd (delete_profile ft i st))"
  by (cases ft) (auto simp: fleet_ok_def keys_ok_def refs_ok_def delete_profile_def distinct_map_delete_where)

lemma create_group_ok: "fleet_ok st \<Longrightarrow> fleet_ok (snd (create_group ft now n d st))"
  using next_rowid_fresh[of "map gr_id (f_groups st)"]
  by (cases ft) (auto simp: fleet_ok_def keys_ok_def refs_ok_def create_group_def Let_def)

lemma delete_group_ok: "fleet_ok st \<Longrightarrow> fleet_ok (snd (delete_group ft i st))"
  by (cases ft) (auto simp: fleet_ok_def keys_ok_def refs_ok_def delete_group_def distinct_map_delete_where)

lemma add_device_ok: "fleet_ok st \<Longrightarrow> fleet_ok (snd (add_device_to_group ft g d st))"
  by (cases ft) (auto simp: fleet_ok_def keys_ok_def refs_ok_def add_device_to_group_def has_group_def)

lemma remove_device_ok: "fleet_ok st \<Longrightarrow> fleet_ok (snd (remove_device_from_group ft g d st))"
  by (cases ft) (auto simp: fleet_ok_def keys_ok_def refs_ok_def remove_device_from_group_def)

lemma assign_profile_ok: "fleet_ok st \<Longrightarrow> fleet_ok (snd (assign_profile ft g p st))"
  by (cases ft) (auto simp: fleet_ok_def keys_ok_def refs_ok_def assign_profile_def has_group_def has_profile_def)

lemma unassign_profile_ok: "fleet_ok st \<Longrightarrow> fleet_ok (snd (unassign_profile ft g p st))"
  by (cases ft) (auto simp: fleet_ok_def keys_ok_def refs_ok_def unassign_profile_def)

lemma mark_deploys_keys:
  "map (\<lambda>x. (dp_device x, dp_profile x)) (f_deploys (snd (mark_deploy_sent ft now d p u v st))) =
   (if ft = None \<and> has_profile p st \<and> find_deploy d p st = None
    then map (\<lambda>x. (dp_device x, dp_profile x)) (f_deploys st) @ [(d, p)]
    else map (\<lambda>x. (dp_device x, dp_profile x)) (f_deploys st))"
  by (cases ft) (auto simp: mark_deploy_sent_def map_upsert find_deploy_def)

lemma mark_other:
  "f_groups (snd (mark_deploy_sent ft now d p u v st)) = f_groups st"
  "f_members (snd (mark_deploy_sent ft now d p u v st)) = f_members st"
  "f_assigned (snd (mark_deploy_sent ft now d p u v st)) = f_assigned st"
  "f_profiles (snd (mark_deploy_sent ft now d p u v st)) = f_profiles st"
  "f_history (snd (mark_deploy_sent ft now d p u v st)) = f_history st"
  by (cases ft; simp add: mark_deploy_sent_def)+

lemma snd_image_keys: "dp_profile ` set xs = snd ` set (map (\<lambda>x. (dp_device x, dp_profile x)) xs)"
  by force

lemma mark_deploy_ok:
  assumes "fleet_ok st"
  shows "fleet_ok (snd (mark_deploy_sent ft now d p u v st))"
proof -
  let ?st = "snd (mark_deploy_sent ft now d p u v st)"
  have "(d, p) \<notin> set (map (\<lambda>x. (dp_device x, dp_profile x)) (f_deploys st))" if "find_deploy d p st = None"
    using that by (auto simp: find_deploy_def find_None_iff)
  then have "distinct (map (\<lambda>x. (dp_device x, dp_profile x)) (f_deploys ?st))"
    using assms by (simp add: mark_deploys_keys fleet_ok_def keys_ok_def del: set_map)
  moreover have "dp_profile ` set (f_deploys ?st) \<subseteq> p_id ` set (f_profiles st)"
  proof -
    have "dp_profile ` set (f_deploys st) \<subseteq> p_id ` set (f_profiles st)" using assms by (simp add: fleet_ok_def refs_ok_def)
    then show ?thesis
      unfolding snd_image_keys mark_deploys_keys by (auto simp: has_profile_def)
  qed
  ultimately show ?thesis using assms by (simp add: fleet_ok_def keys_ok_def refs_ok_def mark_other)
qed

lemma command_sent_ok: "fleet_ok st \<Longrightarrow> fleet_ok (snd (command_sent ft now d u r st))"
  by (cases ft)
    (auto simp: fleet_ok_def keys_ok_def refs_ok_def command_sent_def map_upsert find_None_iff)

lemma command_result_ok: "fleet_ok st \<Longrightarrow> fleet_ok (snd (command_result ft f2 now d u s e st))"
  by (cases ft; cases "deploy_outcome s"; cases f2)
    (auto simp: fleet_ok_def keys_ok_def refs_ok_def command_result_def map_update_where set_update_where Let_def)

lemmas fleet_ok_steps = save_profile_ok delete_profile_ok create_group_ok delete_group_ok add_device_ok
  remove_device_ok assign_profile_ok unassign_profile_ok mark_deploy_ok command_sent_ok command_result_ok

lemma fleet_step_ok: "fleet_ok st \<Longrightarrow> fleet_ok (fleet_step ev st)"
proof -
  assume ok: "fleet_ok st"
  obtain now ft c where ev: "ev = (now, ft, c)" by (cases ev rule: prod_cases3)
  show ?thesis
  proof (cases c)
    case (CheckIn dc)
    with ok ev show ?thesis by (cases ft) (simp_all add: fleet_ok_def keys_ok_def refs_ok_def)
  qed (simp_all add: ev fleet_ok_steps[OF ok])
qed

lemma fleet_run_ok: "fleet_ok st \<Longrightarrow> fleet_ok (fleet_run evs st)"
  unfolding fleet_run_def by (induction evs arbitrary: st) (simp_all add: fleet_step_ok)

text \<open>
  C13: The fleet's tables keep their integrity through every run: identifiers, group names
  (ignoring case), memberships, assignments, deployments and history entries stay unique, and
  no membership, assignment or deployment ever refers to a group or profile that is gone,
  whatever is deleted, saved again or fails.
\<close>

theorem fleet_integrity:
  assumes "fleet_ok st"
  shows "fleet_ok (fleet_run evs st)"
  using assms by (rule fleet_run_ok)

definition empty_fleet :: fleet where
  "empty_fleet = \<lparr>f_devices = [], f_groups = [], f_members = [], f_assigned = [], f_profiles = [], f_deploys = [], f_history = []\<rparr>"

lemma empty_fleet_ok: "fleet_ok empty_fleet"
  by (simp add: fleet_ok_def keys_ok_def refs_ok_def empty_fleet_def)

definition demo_profile :: profile where
  "demo_profile = \<lparr>p_id = 0, p_identifier = ''com.x.wifi'', p_uuid = ''U'', p_name = ''WiFi'', p_organization = [],
     p_payload_types = ''com.apple.wifi.managed'', p_source = ''upload'', p_data = ''<plist/>'', p_created_at = 0, p_updated_at = 0\<rparr>"

definition demo_setup :: "fleet_event list" where
  "demo_setup = [(0, None, SaveProfile demo_profile), (0, None, CreateGroup ''Staff'' []),
     (0, None, AddDevice 1 ''D1''), (0, None, AssignProfile 1 1)]"

theorem fleet_integrity_witness:
  "fleet_ok (fleet_run (demo_setup @ [(0, None, DeleteGroup 1), (0, None, DeleteProfile 1)]) empty_fleet)"
  by (rule fleet_integrity[OF empty_fleet_ok])

subsection \<open>Where a deployment's status comes from\<close>

lemma find_deploy_key: "find_deploy d p st = Some x \<Longrightarrow> x \<in> set (f_deploys st) \<and> dp_device x = d \<and> dp_profile x = p"
  unfolding find_deploy_def by (drule find_SomeD) simp

definition sent_as :: "deploy \<Rightarrow> fleet_event \<Rightarrow> bool" where
  "sent_as x ev \<longleftrightarrow> snd (snd ev) = MarkDeploySent (dp_device x) (dp_profile x) (dp_command x) (dp_version x)"

definition answered_as :: "deploy \<Rightarrow> fleet_event \<Rightarrow> bool" where
  "answered_as x ev \<longleftrightarrow> (case snd (snd ev) of
     CommandResult d u s e f2 \<Rightarrow> d = dp_device x \<and> u = dp_command x \<and> deploy_outcome s = Some (dp_status x)
   | _ \<Rightarrow> False)"

lemma deploys_step:
  assumes "x \<in> set (f_deploys (fleet_step ev st))"
  shows "x \<in> set (f_deploys st) \<or> sent_as x ev \<and> dp_status x = ''sent'' \<or>
    answered_as x ev \<and> (\<exists>y\<in>set (f_deploys st). dp_device y = dp_device x \<and> dp_profile y = dp_profile x \<and>
      dp_command y = dp_command x \<and> dp_version y = dp_version x)"
proof -
  obtain now ft c where ev: "ev = (now, ft, c)" by (cases ev rule: prod_cases3)
  show ?thesis
  proof (cases c)
    case (MarkDeploySent d p u v)
    with assms ev show ?thesis
      by (cases ft) (auto simp: mark_deploy_sent_def upsert_def set_update_where sent_as_def split: if_splits)
  next
    case (CommandResult d u s e f2)
    with assms ev show ?thesis
      by (cases ft; cases "deploy_outcome s"; cases f2)
        (auto simp: command_result_def set_update_where answered_as_def Let_def)
  next
    case (SaveProfile p)
    with assms ev show ?thesis by (simp add: save_profile_other)
  next
    case (DeleteProfile i)
    with assms ev show ?thesis by (cases ft) (auto simp: delete_profile_def)
  next
    case (CreateGroup n d)
    with assms ev show ?thesis by (cases ft) (auto simp: create_group_def Let_def split: if_splits)
  next
    case (DeleteGroup i)
    with assms ev show ?thesis by (cases ft) (auto simp: delete_group_def)
  next
    case (AddDevice g d)
    with assms ev show ?thesis by (cases ft) (auto simp: add_device_to_group_def split: if_splits)
  next
    case (RemoveDevice g d)
    with assms ev show ?thesis by (cases ft) (auto simp: remove_device_from_group_def)
  next
    case (AssignProfile g p)
    with assms ev show ?thesis by (cases ft) (auto simp: assign_profile_def split: if_splits)
  next
    case (UnassignProfile g p)
    with assms ev show ?thesis by (cases ft) (auto simp: unassign_profile_def)
  next
    case (CommandSent d u r)
    with assms ev show ?thesis by (cases ft) (auto simp: command_sent_def)
  next
    case (CheckIn dc)
    with assms ev show ?thesis by (cases ft) auto
  qed
qed

text \<open>
  C22: The status shown for a deployment is never made up: in every run from an empty fleet
  each deployment row comes from a send of exactly that profile version to that device, and
  if it says anything but \<open>sent\<close>, the device has answered the row's command with exactly that
  outcome (an acknowledgement for \<open>installed\<close>, an error for \<open>failed\<close>).
\<close>

theorem deploy_status_sound:
  assumes "x \<in> set (f_deploys (fleet_run evs empty_fleet))"
  shows "(\<exists>ev\<in>set evs. sent_as x ev) \<and> (dp_status x \<noteq> ''sent'' \<longrightarrow> (\<exists>ev\<in>set evs. answered_as x ev))"
  using assms
proof (induction evs arbitrary: x rule: rev_induct)
  case Nil
  then show ?case by (simp add: fleet_run_def empty_fleet_def)
next
  case (snoc ev evs)
  have "x \<in> set (f_deploys (fleet_step ev (fleet_run evs empty_fleet)))"
    using snoc.prems by (simp add: fleet_run_def)
  from deploys_step[OF this] show ?case
  proof (elim disjE conjE bexE)
    assume "x \<in> set (f_deploys (fleet_run evs empty_fleet))"
    from snoc.IH[OF this] show ?thesis by auto
  next
    fix y assume "answered_as x ev" "y \<in> set (f_deploys (fleet_run evs empty_fleet))"
      "dp_device y = dp_device x" "dp_profile y = dp_profile x" "dp_command y = dp_command x" "dp_version y = dp_version x"
    with snoc.IH[of y] show ?thesis by (auto simp: sent_as_def)
  qed simp
qed

definition demo_sent :: "fleet_event list" where
  "demo_sent = demo_setup @ [(second, None, MarkDeploySent ''D1'' 1 ''C1'' 0),
     (2 * second, None, CommandResult ''D1'' ''C1'' ''Acknowledged'' [] None)]"

definition demo_deploy :: deploy where
  "demo_deploy = \<lparr>dp_device = ''D1'', dp_profile = 1, dp_command = ''C1'', dp_version = 0, dp_status = ''installed'', dp_updated_at = 2\<rparr>"

lemma demo_sent_deploys: "f_deploys (fleet_run demo_sent empty_fleet) = [demo_deploy]"
  by (simp add: fleet_run_def demo_sent_def demo_setup_def empty_fleet_def demo_profile_def demo_deploy_def
      save_profile_def create_group_def add_device_to_group_def assign_profile_def mark_deploy_sent_def
      command_result_def deploy_outcome_def has_group_def has_profile_def upsert_def update_where_def next_rowid_def
      to_secs_def to_millis_def second_def Let_def)

theorem deploy_status_sound_witness:
  "\<exists>ev\<in>set demo_sent. answered_as demo_deploy ev"
proof -
  have "demo_deploy \<in> set (f_deploys (fleet_run demo_sent empty_fleet))" by (simp add: demo_sent_deploys)
  from deploy_status_sound[OF this] show ?thesis by (simp add: demo_deploy_def)
qed

subsection \<open>What remains to be deployed\<close>

lemma assigned_to_mark [simp]: "assigned_to d q (snd (mark_deploy_sent ft now e p u v st)) = assigned_to d q st"
  by (simp add: assigned_to_def mark_other)

lemma find_deploy_mark:
  assumes "has_profile p st"
  shows "find_deploy e q (snd (mark_deploy_sent None now d p u v st)) =
    (if (e, q) = (d, p) then Some \<lparr>dp_device = d, dp_profile = p, dp_command = u, dp_version = v, dp_status = ''sent'',
        dp_updated_at = to_secs now\<rparr>
     else find_deploy e q st)"
proof -
  let ?g = "\<lambda>x. (dp_device x, dp_profile x)"
  let ?f = "\<lambda>x. x\<lparr>dp_command := u, dp_version := v, dp_status := ''sent'', dp_updated_at := to_secs now\<rparr>"
  let ?new = "\<lparr>dp_device = d, dp_profile = p, dp_command = u, dp_version = v, dp_status = ''sent'', dp_updated_at = to_secs now\<rparr>"
  have s: "find_deploy e q (snd (mark_deploy_sent None now d p u v st)) =
      List.find (\<lambda>x. ?g x = (e, q)) (upsert (\<lambda>x. ?g x = (d, p)) ?f ?new (f_deploys st))"
    using assms by (simp add: find_deploy_def mark_deploy_sent_def)
  show ?thesis
  proof (cases "(e, q) = (d, p)")
    case True
    have "?f x = ?new" if "?g x = (d, p)" for x using that by (cases x) simp
    then have "(case List.find (\<lambda>x. ?g x = (d, p)) (f_deploys st) of None \<Rightarrow> ?new | Some r \<Rightarrow> ?f r) = ?new"
      by (auto split: option.splits dest!: find_SomeD)
    with True show ?thesis
      unfolding s by (simp only: True) (subst find_upsert_same, simp_all)
  next
    case False
    then show ?thesis unfolding s by (subst find_upsert_other) (auto simp: find_deploy_def)
  qed
qed

lemma missing_mark:
  assumes "fleet_ok st" and "p \<in> set (missing_profiles d st)"
  shows "missing_profiles d (snd (mark_deploy_sent None now d (p_id p) u (p_updated_at p) st)) =
    filter (\<lambda>q. p_id q \<noteq> p_id p) (missing_profiles d st)"
proof -
  have p: "p \<in> set (f_profiles st)" using assms(2) by (simp add: missing_profiles_def)
  then have h: "has_profile (p_id p) st" by (simp add: has_profile_def)
  have same: "q = p" if "q \<in> set (f_profiles st)" "p_id q = p_id p" for q
    using that p assms(1) by (auto simp: fleet_ok_def keys_ok_def distinct_map inj_on_def)
  have "outdated d q (snd (mark_deploy_sent None now d (p_id p) u (p_updated_at p) st)) \<longleftrightarrow> p_id q \<noteq> p_id p \<and> outdated d q st"
    if "q \<in> set (f_profiles st)" for q
    using same[OF that] by (auto simp: outdated_def find_deploy_mark[OF h])
  then have "filter (\<lambda>q. assigned_to d (p_id q) st \<and> outdated d q (snd (mark_deploy_sent None now d (p_id p) u (p_updated_at p) st))) (f_profiles st) =
      filter (\<lambda>q. p_id q \<noteq> p_id p) (filter (\<lambda>q. assigned_to d (p_id q) st \<and> outdated d q st) (f_profiles st))"
    by (simp, intro filter_cong) auto
  then show ?thesis by (simp add: missing_profiles_def mark_other filter_sort)
qed

lemma missing_mark_other:
  assumes "d' \<noteq> d"
  shows "missing_profiles d' (snd (mark_deploy_sent ft now d p u v st)) = missing_profiles d' st"
proof -
  have "find_deploy d' q (snd (mark_deploy_sent ft now d p u v st)) = find_deploy d' q st" for q
    using find_deploy_mark[of p st d' q now d u v] assms
    by (cases ft; cases "has_profile p st") (simp_all add: mark_deploy_sent_def)
  then show ?thesis by (simp add: missing_profiles_def outdated_def mark_other)
qed

lemma missing_mark_fault: "missing_profiles d (snd (mark_deploy_sent (Some e) now d' p u v st)) = missing_profiles d st"
  by (simp add: mark_deploy_sent_def)

lemma distinct_sort_key: "distinct (map f xs) \<Longrightarrow> distinct (map f (sort_key g xs))"
  by (simp add: distinct_map)

lemma missing_distinct: "fleet_ok st \<Longrightarrow> distinct (map p_id (missing_profiles d st))"
  unfolding missing_profiles_def
  by (rule distinct_sort_key) (simp add: fleet_ok_def keys_ok_def distinct_map_filter)

text \<open>
  Saving a profile again re-arms it: a device that the profile is assigned to and that
  holds any earlier version has it among its missing profiles afterwards.
\<close>

theorem save_rearms:
  assumes "fleet_ok st" and "q \<in> set (f_profiles st)" and "p_identifier p = p_identifier q"
    and "assigned_to d (p_id q) st"
    and "\<forall>x. find_deploy d (p_id q) st = Some x \<longrightarrow> dp_version x < to_millis now"
  shows "\<exists>p'\<in>set (missing_profiles d (snd (save_profile None now p st))).
    p_id p' = p_id q \<and> p_data p' = p_data p \<and> p_updated_at p' = to_millis now"
proof -
  let ?same = "\<lambda>r. p_identifier r = p_identifier p"
  let ?put = "\<lambda>r. r\<lparr>p_uuid := p_uuid p, p_name := p_name p, p_organization := p_organization p,
      p_payload_types := p_payload_types p, p_source := p_source p, p_data := p_data p, p_updated_at := to_millis now\<rparr>"
  let ?st = "snd (save_profile None now p st)"
  have f: "List.find ?same (f_profiles st) = Some q"
    using assms(1-3) by (simp add: find_Some_iff_unique fleet_ok_def keys_ok_def)
  have ps: "f_profiles ?st = update_where ?same ?put (f_profiles st)"
    by (simp add: save_profile_def Let_def upsert_def f)
  have "?put q \<in> set (f_profiles ?st)"
    unfolding ps set_update_where
    by (rule UnI1, rule image_eqI[OF refl]) (simp add: assms(2,3))
  moreover have "outdated d (?put q) ?st"
    using assms(5) by (auto simp: outdated_def find_deploy_def save_profile_other split: option.splits)
  moreover have "assigned_to d (p_id (?put q)) ?st"
    using assms(4) by (simp add: assigned_to_def save_profile_other)
  ultimately have "?put q \<in> set (missing_profiles d ?st)" by (simp add: missing_profiles_def)
  then show ?thesis by (rule rev_bexI) simp
qed

theorem save_rearms_witness:
  "\<exists>p'\<in>set (missing_profiles ''D1'' (snd (save_profile None (3 * second) demo_profile (fleet_run demo_sent empty_fleet)))).
     p_id p' = 1 \<and> p_data p' = ''<plist/>'' \<and> p_updated_at p' = 3000"
proof -
  let ?st = "fleet_run demo_sent empty_fleet"
  have ps: "f_profiles ?st = [demo_profile\<lparr>p_id := 1\<rparr>]" "f_assigned ?st = [(1, 1)]" "f_members ?st = [(1, ''D1'')]"
    by (simp_all add: fleet_run_def demo_sent_def demo_setup_def empty_fleet_def demo_profile_def
      save_profile_def create_group_def add_device_to_group_def assign_profile_def mark_deploy_sent_def
      command_result_def deploy_outcome_def has_group_def has_profile_def upsert_def update_where_def next_rowid_def
      to_secs_def to_millis_def second_def Let_def)
  have ok: "fleet_ok ?st" by (rule fleet_run_ok[OF empty_fleet_ok])
  have q: "demo_profile\<lparr>p_id := 1\<rparr> \<in> set (f_profiles ?st)" by (simp add: ps)
  from save_rearms[OF ok q, of demo_profile "''D1''" "3 * second"] show ?thesis
    by (simp add: ps assigned_to_def find_deploy_def demo_sent_deploys demo_deploy_def demo_profile_def to_millis_def second_def)
qed

subsection \<open>The interface\<close>

locale deploy_store =
  fixes missing :: "string \<Rightarrow> 'st \<Rightarrow> profile list"
    and mark :: "fault \<Rightarrow> nanos \<Rightarrow> string \<Rightarrow> int \<Rightarrow> string \<Rightarrow> int \<Rightarrow> 'st \<Rightarrow> 'st"
    and inv :: "'st \<Rightarrow> bool"
  assumes mark_keeps: "inv st \<Longrightarrow> inv (mark ft now d i u v st)"
    and mark_settles: "inv st \<Longrightarrow> p \<in> set (missing d st) \<Longrightarrow>
      missing d (mark None now d (p_id p) u (p_updated_at p) st) = filter (\<lambda>q. p_id q \<noteq> p_id p) (missing d st)"
    and mark_failed: "missing d (mark (Some e) now d' i u v st) = missing d st"
    and mark_elsewhere: "d' \<noteq> d \<Longrightarrow> missing d' (mark ft now d i u v st) = missing d' st"
    and missing_unique: "inv st \<Longrightarrow> distinct (map p_id (missing d st))"

interpretation fs: deploy_store missing_profiles "\<lambda>ft now d p u v st. snd (mark_deploy_sent ft now d p u v st)" fleet_ok
  by unfold_locales (simp_all add: mark_deploy_ok missing_mark missing_mark_fault missing_mark_other missing_distinct)

end
