(* ===== verification/Commands.thy ===== *)
theory Commands
  imports Fleet "HOL-Library.Word"
begin

section \<open>MDM commands and check-in events\<close>

text \<open>
  \<open>internal/mdmcore/commands.go\<close> and \<open>events.go\<close>.  NanoMDM is a library: of its queue the
  model keeps which command was accepted for which device (\<open>c_queue\<close>), and an inner service
  call is the error or value it returns.  The plist library is a parameter (\<open>decode\<close> gives the
  top-level dictionary).  A number of a plist is the text \<open>strconv\<close> prints for it when it is a
  real.  The hook that a token update starts in its own goroutine is an output.
\<close>

datatype command_body =
    InstallProfile string
  | RemoveProfile string
  | DeviceInformation "string list"

record mdm_command =
  cmd_uuid :: string
  cmd_body :: command_body

record core =
  c_fleet :: fleet
  c_queue :: "(string \<times> mdm_command) list"

fun request_type :: "command_body \<Rightarrow> string" where
  "request_type (InstallProfile b) = ''InstallProfile''"
| "request_type (RemoveProfile i) = ''RemoveProfile''"
| "request_type (DeviceInformation qs) = ''DeviceInformation''"

definition default_device_info_queries :: "string list" where
  "default_device_info_queries =
     [''DeviceName'', ''Model'', ''ModelName'', ''ProductName'', ''OSVersion'', ''BuildVersion'', ''SerialNumber'',
      ''DeviceCapacity'', ''AvailableDeviceCapacity'', ''IsSupervised'', ''BatteryLevel'', ''WiFiMAC'', ''BluetoothMAC'']"

definition device_information_command :: "string list \<Rightarrow> command_body" where
  "device_information_command qs = DeviceInformation (if qs = [] then default_device_info_queries else qs)"

subsection \<open>Command UUIDs\<close>

unbundle bit_operations_syntax

definition hex_byte :: "8 word \<Rightarrow> string" where
  "hex_byte b = [hex_digit (unat b div 16), hex_digit (unat b mod 16)]"

definition hex_bytes :: "8 word list \<Rightarrow> string" where
  "hex_bytes bs = concat (map hex_byte bs)"

definition new_command_uuid :: "8 word list \<Rightarrow> string" where
  \<comment> \<open>\<open>b\<close> are the 16 random bytes\<close>
  "new_command_uuid b0 =
     (let b = b0[6 := (b0 ! 6 AND 0x0f) OR 0x40, 8 := (b0 ! 8 AND 0x3f) OR 0x80]
      in join_with ''-'' [hex_bytes (take 4 b), hex_bytes (take 2 (drop 4 b)), hex_bytes (take 2 (drop 6 b)),
           hex_bytes (take 2 (drop 8 b)), hex_bytes (drop 10 b)])"

subsection \<open>The commander\<close>

record send_env =
  se_rnd :: "8 word list"
  se_marshal :: fault   \<comment> \<open>\<open>plist.Marshal\<close> or \<open>mdm.DecodeCommand\<close>\<close>
  se_enqueue :: fault   \<comment> \<open>\<open>EnqueueCommand\<close> of the NanoMDM store\<close>
  se_pusher :: bool     \<comment> \<open>a pusher is configured\<close>
  se_push :: fault      \<comment> \<open>APNs\<close>
  se_recorder :: bool
  se_record :: "string \<Rightarrow> fault"

definition build_command :: "send_env \<Rightarrow> command_body \<Rightarrow> string + mdm_command" where
  "build_command env body =
     (case se_marshal env of
        Some e \<Rightarrow> Inl (''mdmcore: marshal command: '' @ e)
      | None \<Rightarrow> Inr \<lparr>cmd_uuid = new_command_uuid (se_rnd env), cmd_body = body\<rparr>)"

definition enqueue_push :: "send_env \<Rightarrow> string list \<Rightarrow> mdm_command \<Rightarrow> core \<Rightarrow> (string + unit) \<times> core" where
  \<comment> \<open>\<open>Enqueue\<close>\<close>
  "enqueue_push env ids cmd st =
     (case se_enqueue env of
        Some e \<Rightarrow> (Inl (''mdmcore: enqueue: '' @ e), st)
      | None \<Rightarrow>
         let st1 = st\<lparr>c_queue := c_queue st @ map (\<lambda>i. (i, cmd)) ids\<rparr>
         in if se_pusher env
            then (case se_push env of Some e \<Rightarrow> (Inl (''mdmcore: push: '' @ e), st1) | None \<Rightarrow> (Inr (), st1))
            else (Inr (), st1))"

fun record_sent :: "send_env \<Rightarrow> nanos \<Rightarrow> string list \<Rightarrow> mdm_command \<Rightarrow> core \<Rightarrow> core" where
  "record_sent env now [] cmd st = st"
| "record_sent env now (i # ids) cmd st =
     record_sent env now ids cmd
       (st\<lparr>c_fleet := snd (command_sent (se_record env i) now i (cmd_uuid cmd) (request_type (cmd_body cmd)) (c_fleet st))\<rparr>)"

definition commander_enqueue :: "send_env \<Rightarrow> nanos \<Rightarrow> string list \<Rightarrow> mdm_command \<Rightarrow> core \<Rightarrow> (string + unit) \<times> core" where
  "commander_enqueue env now ids cmd st =
     (case enqueue_push env ids cmd st of
        (Inl e, st1) \<Rightarrow> (Inl e, st1)
      | (Inr _, st1) \<Rightarrow> (Inr (), if se_recorder env then record_sent env now ids cmd st1 else st1))"

definition send_command :: "send_env \<Rightarrow> nanos \<Rightarrow> string list \<Rightarrow> command_body \<Rightarrow> core \<Rightarrow> (string + string) \<times> core" where
  \<comment> \<open>build and enqueue; the value is the command's UUID\<close>
  "send_command env now ids body st =
     (case build_command env body of
        Inl e \<Rightarrow> (Inl e, st)
      | Inr cmd \<Rightarrow> (case commander_enqueue env now ids cmd st of
          (Inl e, st1) \<Rightarrow> (Inl e, st1)
        | (Inr _, st1) \<Rightarrow> (Inr (cmd_uuid cmd), st1)))"

definition send_device_information :: "send_env \<Rightarrow> nanos \<Rightarrow> string list \<Rightarrow> core \<Rightarrow> (string + string) \<times> core" where
  "send_device_information env now ids st = send_command env now ids (device_information_command []) st"

definition send_install_profile :: "send_env \<Rightarrow> nanos \<Rightarrow> string \<Rightarrow> string list \<Rightarrow> core \<Rightarrow> (string + string) \<times> core" where
  "send_install_profile env now data ids st = send_command env now ids (InstallProfile data) st"

definition send_install_profile_uuid :: "send_env \<Rightarrow> nanos \<Rightarrow> string \<Rightarrow> string \<Rightarrow> core \<Rightarrow> (string + string) \<times> core" where
  "send_install_profile_uuid env now data i st = send_command env now [i] (InstallProfile data) st"

definition send_remove_profile :: "send_env \<Rightarrow> nanos \<Rightarrow> string \<Rightarrow> string list \<Rightarrow> core \<Rightarrow> (string + string) \<times> core" where
  "send_remove_profile env now ident ids st = send_command env now ids (RemoveProfile ident) st"

subsection \<open>Inventory from results\<close>

datatype plist = PString string | PInt int | PReal string | PDict "(string \<times> plist) list" | POther

type_synonym dict = "(string \<times> plist) list"

definition dict_str :: "dict \<Rightarrow> string \<Rightarrow> string" where
  "dict_str m k = (case map_of m k of Some (PString s) \<Rightarrow> s | _ \<Rightarrow> [])"

fun num_str :: "plist option \<Rightarrow> string" where
  "num_str (Some (PReal t)) = t"
| "num_str (Some (PInt n)) = int_str n"
| "num_str (Some (PString s)) = s"
| "num_str _ = []"

definition inventory_from_raw :: "(string \<Rightarrow> dict option) \<Rightarrow> string \<Rightarrow> device_inventory option" where
  "inventory_from_raw decode raw =
     (if raw = [] then None
      else case decode raw of
        None \<Rightarrow> None
      | Some tl0 \<Rightarrow> (case map_of tl0 ''QueryResponses'' of
          Some (PDict qr) \<Rightarrow> Some \<lparr>di_name = dict_str qr ''DeviceName'', di_model = dict_str qr ''Model'',
             di_product = dict_str qr ''ProductName'', di_os_version = dict_str qr ''OSVersion'',
             di_build_version = dict_str qr ''BuildVersion'', di_serial = dict_str qr ''SerialNumber'',
             di_capacity = num_str (map_of qr ''AvailableDeviceCapacity''),
             di_battery = num_str (map_of qr ''BatteryLevel'')\<rparr>
        | _ \<Rightarrow> None))"

record error_item =
  ei_localized :: string
  ei_us_english :: string
  ei_domain :: string
  ei_code :: int

definition first_error :: "error_item list \<Rightarrow> string" where
  "first_error chain =
     (case chain of [] \<Rightarrow> []
      | e # _ \<Rightarrow> let desc = (if ei_localized e = [] then ei_us_english e else ei_localized e)
                in if desc = [] then ei_domain e @ '' error '' @ int_str (ei_code e) else desc)"

record authenticate_msg =
  am_udid :: string
  am_serial :: string
  am_topic :: string
  am_raw :: string

definition enrich_from_raw :: "(string \<Rightarrow> dict option) \<Rightarrow> string \<Rightarrow> device_record \<Rightarrow> device_record" where
  "enrich_from_raw decode raw rec =
     (if raw = [] then rec
      else case decode raw of
        None \<Rightarrow> rec
      | Some m \<Rightarrow> rec\<lparr>dr_name := dict_str m ''DeviceName'', dr_model := dict_str m ''Model'',
          dr_product := dict_str m ''ProductName'', dr_os_version := dict_str m ''OSVersion'',
          dr_build_version := dict_str m ''BuildVersion'',
          dr_serial := (if dr_serial rec = [] then dict_str m ''SerialNumber'' else dr_serial rec)\<rparr>)"

definition record_from_authenticate :: "(string \<Rightarrow> dict option) \<Rightarrow> string \<Rightarrow> authenticate_msg \<Rightarrow> device_record" where
  "record_from_authenticate decode i m = enrich_from_raw decode (am_raw m)
     \<lparr>dr_id = i, dr_udid = am_udid m, dr_serial = am_serial m, dr_name = [], dr_model = [], dr_product = [],
      dr_os_version = [], dr_build_version = [], dr_topic = am_topic m\<rparr>"

subsection \<open>The event service\<close>

record command_results =
  cr_uuid :: string
  cr_status :: string
  cr_errors :: "error_item list"
  cr_raw :: string

record projection =
  pj_on :: bool       \<comment> \<open>\<open>proj != nil\<close>\<close>
  pj_recorder :: bool \<comment> \<open>\<open>rec != nil\<close>\<close>
  pj_hook :: bool     \<comment> \<open>\<open>onPushable != nil\<close>\<close>
  pj_device :: fault  \<comment> \<open>the failure of the (first) device statement\<close>
  pj_inventory :: fault
  pj_result :: fault
  pj_result2 :: fault

definition with_devices :: "bool \<Rightarrow> (device list \<Rightarrow> (sql_err + unit) \<times> device list) \<Rightarrow> core \<Rightarrow> core" where
  \<comment> \<open>a projection whose error is only logged\<close>
  "with_devices on f st =
     (if on then st\<lparr>c_fleet := (c_fleet st)\<lparr>f_devices := snd (f (f_devices (c_fleet st)))\<rparr>\<rparr> else st)"

definition on_authenticate ::
  "(string \<Rightarrow> dict option) \<Rightarrow> projection \<Rightarrow> fault \<Rightarrow> nanos \<Rightarrow> string \<Rightarrow> authenticate_msg \<Rightarrow> core \<Rightarrow> (string + unit) \<times> core" where
  "on_authenticate decode pj inner now i m st =
     (case inner of
        Some e \<Rightarrow> (Inl e, st)
      | None \<Rightarrow> (Inr (), with_devices (pj_on pj) (device_enrolled (pj_device pj) now (record_from_authenticate decode i m)) st))"

definition on_token_update ::
  "projection \<Rightarrow> fault \<Rightarrow> nanos \<Rightarrow> string \<Rightarrow> core \<Rightarrow> (string + unit) \<times> core \<times> string option" where
  "on_token_update pj inner now i st =
     (case inner of
        Some e \<Rightarrow> (Inl e, st, None)
      | None \<Rightarrow> (Inr (), with_devices (pj_on pj) (device_token_updated (pj_device pj) now i) st,
                 if pj_hook pj then Some i else None))"

definition on_check_out :: "projection \<Rightarrow> fault \<Rightarrow> nanos \<Rightarrow> string \<Rightarrow> core \<Rightarrow> (string + unit) \<times> core" where
  "on_check_out pj inner now i st =
     (case inner of
        Some e \<Rightarrow> (Inl e, st)
      | None \<Rightarrow> (Inr (), with_devices (pj_on pj) (device_checked_out (pj_device pj) now i) st))"

definition on_command_results ::
  "(string \<Rightarrow> dict option) \<Rightarrow> projection \<Rightarrow> string + 'c \<Rightarrow> nanos \<Rightarrow> string \<Rightarrow> command_results \<Rightarrow> core \<Rightarrow> (string + 'c) \<times> core" where
  \<comment> \<open>\<open>inner\<close> is the next command for the device, or the error\<close>
  "on_command_results decode pj inner now i m st =
     (case inner of
        Inl e \<Rightarrow> (Inl e, st)
      | Inr cmd \<Rightarrow>
         let st1 = with_devices (pj_on pj) (device_checked_in (pj_device pj) now i) st;
             st2 = (if pj_recorder pj \<and> cr_status m \<noteq> ''Idle'' \<and> cr_uuid m \<noteq> []
                    then st1\<lparr>c_fleet := snd (command_result (pj_result pj) (pj_result2 pj) now i (cr_uuid m) (cr_status m)
                           (first_error (cr_errors m)) (c_fleet st1))\<rparr>
                    else st1);
             st3 = (case inventory_from_raw decode (cr_raw m) of
                      None \<Rightarrow> st2
                    | Some v \<Rightarrow> with_devices (pj_on pj) (store_inventory (pj_inventory pj) now i v) st2)
         in (Inr cmd, st3))"

end
