(* ===== verification/Reconcile.thy ===== *)
theory Reconcile
  imports Commands
begin

section \<open>The assignment reconciler\<close>

text \<open>
  \<open>internal/assign/assign.go\<close>.  The reconciler is defined over its two interfaces, as in the
  code: \<open>to_deploy\<close> and \<open>mark\<close> are \<open>assign.Store\<close>, \<open>send\<close> is \<open>assign.Commander\<close>.  \<open>env\<close>
  gives, for each profile it sends, the time, the commander's environment and the failure of
  the mark.  A run's log is what was sent, with the command UUID or the error.  The locale
  \<open>reconciler\<close> extends \<open>deploy_store\<close> by what the run needs of the commander, \<open>delivering\<close>
  by what a send puts into the command queue and a mark into the deployment rows; they are
  interpreted on the database and the commander of the model.
\<close>

type_synonym send_log = "(profile \<times> (string + string)) list"

fun reconcile_loop ::
  "(fault \<Rightarrow> nanos \<Rightarrow> string \<Rightarrow> int \<Rightarrow> string \<Rightarrow> int \<Rightarrow> 'st \<Rightarrow> 'st) \<Rightarrow> ('e \<Rightarrow> nanos \<Rightarrow> string \<Rightarrow> string \<Rightarrow> 'st \<Rightarrow> (string + string) \<times> 'st) \<Rightarrow>
   (profile \<Rightarrow> nanos \<times> 'e \<times> fault) \<Rightarrow> string \<Rightarrow> profile list \<Rightarrow> 'st \<Rightarrow> send_log \<times> 'st" where
  "reconcile_loop mark send env d [] st = ([], st)"
| "reconcile_loop mark send env d (p # ps) st =
     (case env p of (now, e, ft) \<Rightarrow>
        (case send e now (p_data p) d st of
           (Inl err, st1) \<Rightarrow>
             (case reconcile_loop mark send env d ps st1 of (l, st2) \<Rightarrow> ((p, Inl err) # l, st2))
         | (Inr uuid, st1) \<Rightarrow>
             (case reconcile_loop mark send env d ps (mark ft now d (p_id p) uuid (p_updated_at p) st1) of
                (l, st2) \<Rightarrow> ((p, Inr uuid) # l, st2))))"

definition reconcile_device ::
  "(fault \<Rightarrow> string \<Rightarrow> 'st \<Rightarrow> sql_err + profile list) \<Rightarrow>
   (fault \<Rightarrow> nanos \<Rightarrow> string \<Rightarrow> int \<Rightarrow> string \<Rightarrow> int \<Rightarrow> 'st \<Rightarrow> 'st) \<Rightarrow> ('e \<Rightarrow> nanos \<Rightarrow> string \<Rightarrow> string \<Rightarrow> 'st \<Rightarrow> (string + string) \<times> 'st) \<Rightarrow>
   fault \<Rightarrow> (profile \<Rightarrow> nanos \<times> 'e \<times> fault) \<Rightarrow> string \<Rightarrow> 'st \<Rightarrow> (sql_err + send_log) \<times> 'st" where
  "reconcile_device to_deploy mark send ft env d st =
     (case to_deploy ft d st of
        Inl e \<Rightarrow> (Inl e, st)
      | Inr ps \<Rightarrow> (case reconcile_loop mark send env d ps st of (l, st') \<Rightarrow> (Inr l, st')))"

fun reconcile_devices ::
  "(fault \<Rightarrow> string \<Rightarrow> 'st \<Rightarrow> sql_err + profile list) \<Rightarrow>
   (fault \<Rightarrow> nanos \<Rightarrow> string \<Rightarrow> int \<Rightarrow> string \<Rightarrow> int \<Rightarrow> 'st \<Rightarrow> 'st) \<Rightarrow> ('e \<Rightarrow> nanos \<Rightarrow> string \<Rightarrow> string \<Rightarrow> 'st \<Rightarrow> (string + string) \<times> 'st) \<Rightarrow>
   (string \<Rightarrow> fault) \<Rightarrow> (string \<Rightarrow> profile \<Rightarrow> nanos \<times> 'e \<times> fault) \<Rightarrow> string list \<Rightarrow> 'st \<Rightarrow> 'st" where
  \<comment> \<open>a device that fails is logged and skipped\<close>
  "reconcile_devices to_deploy mark send ft env [] st = st"
| "reconcile_devices to_deploy mark send ft env (d # ds) st =
     reconcile_devices to_deploy mark send ft env ds (snd (reconcile_device to_deploy mark send (ft d) (env d) d st))"

definition reconcile_group ::
  "(fault \<Rightarrow> int \<Rightarrow> 'st \<Rightarrow> sql_err + string list) \<Rightarrow> (fault \<Rightarrow> string \<Rightarrow> 'st \<Rightarrow> sql_err + profile list) \<Rightarrow>
   (fault \<Rightarrow> nanos \<Rightarrow> string \<Rightarrow> int \<Rightarrow> string \<Rightarrow> int \<Rightarrow> 'st \<Rightarrow> 'st) \<Rightarrow> ('e \<Rightarrow> nanos \<Rightarrow> string \<Rightarrow> string \<Rightarrow> 'st \<Rightarrow> (string + string) \<times> 'st) \<Rightarrow>
   fault \<Rightarrow> (string \<Rightarrow> fault) \<Rightarrow> (string \<Rightarrow> profile \<Rightarrow> nanos \<times> 'e \<times> fault) \<Rightarrow> int \<Rightarrow> 'st \<Rightarrow> (sql_err + unit) \<times> 'st" where
  "reconcile_group device_ids to_deploy mark send ft fts env g st =
     (case device_ids ft g st of
        Inl e \<Rightarrow> (Inl e, st)
      | Inr ds \<Rightarrow> (Inr (), reconcile_devices to_deploy mark send fts env ds st))"

subsection \<open>On the database and the commander\<close>

definition core_to_deploy :: "fault \<Rightarrow> string \<Rightarrow> core \<Rightarrow> sql_err + profile list" where
  "core_to_deploy ft d st = profiles_to_deploy ft d (c_fleet st)"

definition core_mark :: "fault \<Rightarrow> nanos \<Rightarrow> string \<Rightarrow> int \<Rightarrow> string \<Rightarrow> int \<Rightarrow> core \<Rightarrow> core" where
  "core_mark ft now d p u v st = st\<lparr>c_fleet := snd (mark_deploy_sent ft now d p u v (c_fleet st))\<rparr>"

definition core_device_ids :: "fault \<Rightarrow> int \<Rightarrow> core \<Rightarrow> sql_err + string list" where
  "core_device_ids ft g st = group_device_ids ft g (c_fleet st)"

definition core_reconcile :: "fault \<Rightarrow> (profile \<Rightarrow> nanos \<times> send_env \<times> fault) \<Rightarrow> string \<Rightarrow> core \<Rightarrow> (sql_err + send_log) \<times> core" where
  "core_reconcile = reconcile_device core_to_deploy core_mark send_install_profile_uuid"

definition core_reconcile_group ::
  "fault \<Rightarrow> (string \<Rightarrow> fault) \<Rightarrow> (string \<Rightarrow> profile \<Rightarrow> nanos \<times> send_env \<times> fault) \<Rightarrow> int \<Rightarrow> core \<Rightarrow> (sql_err + unit) \<times> core" where
  "core_reconcile_group = reconcile_group core_device_ids core_to_deploy core_mark send_install_profile_uuid"

definition device_now_pushable :: "fault \<Rightarrow> (profile \<Rightarrow> nanos \<times> send_env \<times> fault) \<Rightarrow> string \<Rightarrow> core \<Rightarrow> core" where
  "device_now_pushable ft env d st = snd (core_reconcile ft env d st)"

subsection \<open>What one reconciliation achieves\<close>

definition settled :: "(profile \<Rightarrow> nanos \<times> 'e \<times> fault) \<Rightarrow> send_log \<Rightarrow> profile \<Rightarrow> bool" where
  \<comment> \<open>the send and the mark of this profile both went through\<close>
  "settled env l q \<longleftrightarrow> (\<exists>(p, r)\<in>set l. p_id p = p_id q \<and> (\<exists>u. r = Inr u) \<and> snd (snd (env p)) = None)"

lemma settled_simps [simp]:
  "\<not> settled env [] q"
  "settled env ((p, r) # l) q \<longleftrightarrow> p_id p = p_id q \<and> (\<exists>u. r = Inr u) \<and> snd (snd (env p)) = None \<or> settled env l q"
  by (auto simp: settled_def)

locale reconciler = deploy_store +
  fixes send :: "'e \<Rightarrow> nanos \<Rightarrow> string \<Rightarrow> string \<Rightarrow> 'st \<Rightarrow> (string + string) \<times> 'st"
    and to_deploy :: "fault \<Rightarrow> string \<Rightarrow> 'st \<Rightarrow> sql_err + profile list"
  assumes send_keeps: "inv st \<Longrightarrow> inv (snd (send e now data d st))"
    and send_neutral: "missing d' (snd (send e now data d st)) = missing d' st"
    and to_deploy_reads: "to_deploy ft d st = on_read ft (missing d st)"
begin

lemma mark_missing:
  assumes "inv st" and "p \<in> set (missing d st)"
  shows "missing d (mark ft now d (p_id p) u (p_updated_at p) st) =
    filter (\<lambda>q. \<not> (p_id p = p_id q \<and> ft = None)) (missing d st)"
proof (cases ft)
  case None
  then show ?thesis using mark_settles[OF assms, of now u] by (simp add: eq_commute)
next
  case (Some e)
  then show ?thesis by (simp add: mark_failed)
qed

lemma loop_spec:
  "inv st \<Longrightarrow> distinct (map p_id ps) \<Longrightarrow> set ps \<subseteq> set (missing d st) \<Longrightarrow>
   reconcile_loop mark send env d ps st = (l, st') \<Longrightarrow>
   inv st' \<and> map fst l = ps \<and> missing d st' = filter (\<lambda>q. \<not> settled env l q) (missing d st) \<and>
   (\<forall>d'. d' \<noteq> d \<longrightarrow> missing d' st' = missing d' st)"
proof (induction ps arbitrary: st l st')
  case Nil
  then show ?case by simp
next
  case (Cons p ps)
  obtain now e ft where env: "env p = (now, e, ft)" by (cases "env p" rule: prod_cases3)
  obtain r st1 where s: "send e now (p_data p) d st = (r, st1)" by fastforce
  have st1: "inv st1" "\<And>d'. missing d' st1 = missing d' st"
    using send_keeps[OF Cons.prems(1), of e now "p_data p" d] send_neutral[of _ e now "p_data p" d st] s by simp_all
  have ps: "distinct (map p_id ps)" "p \<in> set (missing d st)" using Cons.prems(2,3) by auto
  show ?case
  proof (cases r)
    case (Inl err)
    obtain l' where l': "reconcile_loop mark send env d ps st1 = (l', st')" "l = (p, Inl err) # l'"
      using Cons.prems(4) env s Inl by (auto split: prod.splits)
    have "set ps \<subseteq> set (missing d st1)" using Cons.prems(3) st1(2) by simp
    from Cons.IH[OF st1(1) ps(1) this l'(1)] l'(2) st1(2) show ?thesis by simp
  next
    case (Inr uuid)
    let ?st2 = "mark ft now d (p_id p) uuid (p_updated_at p) st1"
    obtain l' where l': "reconcile_loop mark send env d ps ?st2 = (l', st')" "l = (p, Inr uuid) # l'"
      using Cons.prems(4) env s Inr by (auto split: prod.splits)
    have m: "missing d ?st2 = filter (\<lambda>q. \<not> (p_id p = p_id q \<and> ft = None)) (missing d st)"
      using mark_missing[OF st1(1), of p d ft now uuid] ps(2) st1(2) by simp
    have "set ps \<subseteq> set (missing d ?st2)"
      unfolding m using Cons.prems(2,3) by (auto simp: image_iff)
    from Cons.IH[OF mark_keeps[OF st1(1)] ps(1) this l'(1)] l'(2) m st1(2) env show ?thesis
      by (auto simp: mark_elsewhere intro!: filter_cong)
  qed
qed

lemma device_spec:
  assumes "inv st" and "reconcile_device to_deploy mark send ft env d st = (Inr l, st')"
  shows "inv st' \<and> map fst l = missing d st \<and> missing d st' = filter (\<lambda>q. \<not> settled env l q) (missing d st) \<and>
    (\<forall>d'. d' \<noteq> d \<longrightarrow> missing d' st' = missing d' st)"
proof -
  have "reconcile_loop mark send env d (missing d st) st = (l, st')"
    using assms(2) by (auto simp: reconcile_device_def to_deploy_reads on_read_def split: option.splits prod.splits)
  from loop_spec[OF assms(1) missing_unique[OF assms(1)] subset_refl this] show ?thesis .
qed

lemma all_settled:
  assumes "inv st" and "reconcile_device to_deploy mark send ft env d st = (Inr l, st')"
    and "\<forall>(p, r)\<in>set l. (\<exists>u. r = Inr u) \<and> snd (snd (env p)) = None"
  shows "missing d st' = []"
proof -
  note s = device_spec[OF assms(1,2)]
  have "settled env l q" if "q \<in> set (missing d st)" for q
  proof -
    have "q \<in> fst ` set l" using that s by (metis list.set_map)
    then obtain r where "(q, r) \<in> set l" by auto
    with assms(3) show ?thesis by (auto simp: settled_def intro!: bexI[of _ "(q, r)"])
  qed
  with s show ?thesis by simp
qed

lemma nothing_missing: "missing d st = [] \<Longrightarrow> reconcile_device to_deploy mark send None env d st = (Inr [], st)"
  by (simp add: reconcile_device_def to_deploy_reads on_read_def)

definition works :: "(profile \<Rightarrow> nanos \<times> 'e \<times> fault) \<Rightarrow> bool" where
  \<comment> \<open>no send and no mark fails\<close>
  "works env \<longleftrightarrow> (\<forall>p. snd (snd (env p)) = None \<and>
     (\<forall>data d st. \<exists>u. fst (send (fst (snd (env p))) (fst (env p)) data d st) = Inr u))"

lemma loop_works:
  "works env \<Longrightarrow> reconcile_loop mark send env d ps st = (l, st') \<Longrightarrow>
   \<forall>(p, r)\<in>set l. (\<exists>u. r = Inr u) \<and> snd (snd (env p)) = None"
proof (induction ps arbitrary: st l)
  case (Cons p ps)
  obtain now e ft where env: "env p = (now, e, ft)" by (cases "env p" rule: prod_cases3)
  with Cons.prems(1) have "ft = None" "\<exists>u. fst (send e now (p_data p) d st) = Inr u"
    unfolding works_def by (metis fst_conv snd_conv)+
  then obtain u st1 where "send e now (p_data p) d st = (Inr u, st1)" "ft = None" by (metis prod.collapse)
  with Cons env show ?case by (fastforce split: prod.splits)
qed simp

lemma device_delivers:
  assumes "inv st" and "works env" and "st' = snd (reconcile_device to_deploy mark send None env d st)"
  shows "inv st' \<and> missing d st' = [] \<and> (\<forall>d'. d' \<noteq> d \<longrightarrow> missing d' st' = missing d' st)"
proof -
  obtain l where l: "reconcile_loop mark send env d (missing d st) st = (l, st')"
    "reconcile_device to_deploy mark send None env d st = (Inr l, st')"
    using assms(3) by (auto simp: reconcile_device_def to_deploy_reads on_read_def split: prod.splits)
  from device_spec[OF assms(1) l(2)] all_settled[OF assms(1) l(2) loop_works[OF assms(2) l(1)]] show ?thesis by blast
qed

lemma devices_deliver:
  assumes "\<And>d. works (envs d)" and "inv st"
  shows "inv (reconcile_devices to_deploy mark send (\<lambda>_. None) envs ds st) \<and>
    missing d (reconcile_devices to_deploy mark send (\<lambda>_. None) envs ds st) = (if d \<in> set ds then [] else missing d st)"
  using assms(2)
proof (induction ds arbitrary: st)
  case (Cons i ds)
  from device_delivers[OF Cons.prems assms(1) refl, of i i] Cons.IH show ?case by auto
qed simp

end

subsection \<open>What one reconciliation delivers\<close>

definition sent_as :: "(string \<Rightarrow> string \<Rightarrow> string \<Rightarrow> 'c) \<Rightarrow> string \<Rightarrow> profile \<times> (string + string) \<Rightarrow> 'c list \<Rightarrow> bool" where
  \<comment> \<open>what an entry of the log has put into the queue: a failed push leaves its command there\<close>
  "sent_as install d e cs \<longleftrightarrow>
     (case snd e of Inr u \<Rightarrow> cs = [install d u (p_data (fst e))]
      | Inl err \<Rightarrow> cs = [] \<or> (\<exists>u. cs = [install d u (p_data (fst e))]))"

lemma list_all2_sets:
  "list_all2 P xs ys \<Longrightarrow> (\<forall>x\<in>set xs. \<exists>y\<in>set ys. P x y) \<and> (\<forall>y\<in>set ys. \<exists>x\<in>set xs. P x y)"
  by (induction rule: list_all2_induct) auto

lemma sent_as_payload: "sent_as install d e cs \<Longrightarrow> c \<in> set cs \<Longrightarrow> \<exists>u. c = install d u (p_data (fst e))"
  by (auto simp: sent_as_def split: sum.splits)

locale delivering = reconciler missing mark inv send to_deploy
  for missing :: "string \<Rightarrow> 'st \<Rightarrow> profile list" and mark inv
    and send :: "'e \<Rightarrow> nanos \<Rightarrow> string \<Rightarrow> string \<Rightarrow> 'st \<Rightarrow> (string + string) \<times> 'st" and to_deploy +
  fixes queue :: "'st \<Rightarrow> 'c list"
    and install :: "string \<Rightarrow> string \<Rightarrow> string \<Rightarrow> 'c"
    and deployed :: "string \<Rightarrow> int \<Rightarrow> 'st \<Rightarrow> (string \<times> int) option"
  assumes send_queues: "send e now data d st = (Inr u, st1) \<Longrightarrow> queue st1 = queue st @ [install d u data]"
    and send_fails: "send e now data d st = (Inl err, st1) \<Longrightarrow>
      queue st1 = queue st \<or> (\<exists>u. queue st1 = queue st @ [install d u data])"
    and mark_queue: "queue (mark ft now d i u v st) = queue st"
    and send_deployed: "deployed d' i (snd (send e now data d st)) = deployed d' i st"
    and mark_deployed: "inv st \<Longrightarrow> p \<in> set (missing d st) \<Longrightarrow> deployed d (p_id p) (mark None now d (p_id p) u v st) = Some (u, v)"
    and mark_deployed_other: "i' \<noteq> i \<Longrightarrow> deployed d i' (mark ft now d i u v st) = deployed d i' st"
begin

lemma loop_queue:
  "reconcile_loop mark send env d ps st = (l, st') \<Longrightarrow>
   \<exists>css. list_all2 (sent_as install d) l css \<and> queue st' = queue st @ concat css"
proof (induction ps arbitrary: st l)
  case Nil
  then show ?case by simp
next
  case (Cons p ps)
  obtain now e ft where env: "env p = (now, e, ft)" by (cases "env p" rule: prod_cases3)
  obtain r st1 where s: "send e now (p_data p) d st = (r, st1)" by fastforce
  define st2 where "st2 = (case r of Inl err \<Rightarrow> st1 | Inr u \<Rightarrow> mark ft now d (p_id p) u (p_updated_at p) st1)"
  obtain l' where l': "reconcile_loop mark send env d ps st2 = (l', st')" "l = (p, r) # l'"
    using Cons.prems env s by (cases r) (auto simp: st2_def split: prod.splits)
  obtain cs where cs: "sent_as install d (p, r) cs" "queue st2 = queue st @ cs"
    using send_queues[of e now "p_data p" d st] send_fails[of e now "p_data p" d st] s
    by (cases r) (auto simp: sent_as_def st2_def mark_queue)
  from Cons.IH[OF l'(1)] obtain css where "list_all2 (sent_as install d) l' css" "queue st' = queue st2 @ concat css" by blast
  with cs l'(2) show ?case by (intro exI[of _ "cs # css"]) simp
qed

lemma loop_deployed_other:
  "reconcile_loop mark send env d ps st = (l, st') \<Longrightarrow> i \<notin> p_id ` set ps \<Longrightarrow> deployed d i st' = deployed d i st"
proof (induction ps arbitrary: st l)
  case (Cons p ps)
  obtain now e ft where env: "env p = (now, e, ft)" by (cases "env p" rule: prod_cases3)
  obtain r st1 where s: "send e now (p_data p) d st = (r, st1)" by fastforce
  have "deployed d i st1 = deployed d i st" using send_deployed[of d i e now "p_data p" d st] s by simp
  with Cons env s show ?case by (cases r) (auto simp: mark_deployed_other split: prod.splits)
qed simp

lemma loop_deployed:
  "inv st \<Longrightarrow> distinct (map p_id ps) \<Longrightarrow> set ps \<subseteq> set (missing d st) \<Longrightarrow> reconcile_loop mark send env d ps st = (l, st') \<Longrightarrow>
   (p, Inr u) \<in> set l \<Longrightarrow> snd (snd (env p)) = None \<Longrightarrow> deployed d (p_id p) st' = Some (u, p_updated_at p)"
proof (induction ps arbitrary: st l)
  case (Cons q qs)
  obtain now e ft where env: "env q = (now, e, ft)" by (cases "env q" rule: prod_cases3)
  obtain r st1 where s: "send e now (p_data q) d st = (r, st1)" by fastforce
  have st1: "inv st1" "\<And>d'. missing d' st1 = missing d' st"
    using send_keeps[OF Cons.prems(1), of e now "p_data q" d] send_neutral[of _ e now "p_data q" d st] s by simp_all
  have q: "q \<in> set (missing d st1)" and d: "distinct (map p_id qs)" "p_id q \<notin> p_id ` set qs"
    using Cons.prems(2,3) st1(2) by auto
  define st2 where "st2 = (case r of Inl err \<Rightarrow> st1 | Inr u \<Rightarrow> mark ft now d (p_id q) u (p_updated_at q) st1)"
  obtain l' where l': "reconcile_loop mark send env d qs st2 = (l', st')" "l = (q, r) # l'"
    using Cons.prems(4) env s by (cases r) (auto simp: st2_def split: prod.splits)
  have inv2: "inv st2" using st1(1) by (auto simp: st2_def mark_keeps split: sum.splits)
  have sub: "set qs \<subseteq> set (missing d st2)"
    using Cons.prems(3) d(2) mark_missing[OF st1(1) q, of ft now]
    by (cases r) (auto simp: st2_def st1(2) image_iff)
  show ?case
  proof (cases "(p, Inr u) \<in> set l'")
    case True
    from Cons.IH[OF inv2 d(1) sub l'(1) this Cons.prems(6)] show ?thesis .
  next
    case False
    with Cons.prems(5) l'(2) have e: "p = q" "r = Inr u" by auto
    with Cons.prems(6) env have "deployed d (p_id q) st2 = Some (u, p_updated_at q)"
      using mark_deployed[OF st1(1) q, of now u "p_updated_at q"] by (simp add: st2_def)
    with loop_deployed_other[OF l'(1) d(2)] e(1) show ?thesis by simp
  qed
qed simp

lemma device_queue:
  assumes "inv st" and "reconcile_device to_deploy mark send ft env d st = (Inr l, st')"
  shows "\<exists>css. list_all2 (sent_as install d) l css \<and> queue st' = queue st @ concat css"
    and "(p, Inr u) \<in> set l \<Longrightarrow> snd (snd (env p)) = None \<Longrightarrow> deployed d (p_id p) st' = Some (u, p_updated_at p)"
proof -
  have r: "reconcile_loop mark send env d (missing d st) st = (l, st')"
    using assms(2) by (auto simp: reconcile_device_def to_deploy_reads on_read_def split: option.splits prod.splits)
  show "\<exists>css. list_all2 (sent_as install d) l css \<and> queue st' = queue st @ concat css" by (rule loop_queue[OF r])
  show "(p, Inr u) \<in> set l \<Longrightarrow> snd (snd (env p)) = None \<Longrightarrow> deployed d (p_id p) st' = Some (u, p_updated_at p)"
    by (rule loop_deployed[OF assms(1) missing_unique[OF assms(1)] subset_refl r])
qed

lemma device_installs:
  assumes "inv st" and "works env" and "st' = snd (reconcile_device to_deploy mark send None env d st)"
  shows "\<exists>cs. queue st' = queue st @ cs \<and> (\<forall>c\<in>set cs. \<exists>p\<in>set (missing d st). \<exists>u. c = install d u (p_data p)) \<and>
    (\<forall>p\<in>set (missing d st). \<exists>u. install d u (p_data p) \<in> set cs)"
proof -
  obtain l where l: "reconcile_loop mark send env d (missing d st) st = (l, st')"
    "reconcile_device to_deploy mark send None env d st = (Inr l, st')"
    using assms(3) by (auto simp: reconcile_device_def to_deploy_reads on_read_def split: prod.splits)
  from device_spec[OF assms(1) l(2)] have m: "map fst l = missing d st" by blast
  from device_queue(1)[OF assms(1) l(2)] obtain css where
    css: "list_all2 (sent_as install d) l css" "queue st' = queue st @ concat css" by blast
  have "\<exists>p\<in>set (missing d st). \<exists>u. c = install d u (p_data p)" if "c \<in> set (concat css)" for c
  proof -
    from that obtain cs where cs: "cs \<in> set css" "c \<in> set cs" by auto
    from cs(1) list_all2_sets[OF css(1)] obtain e where e: "e \<in> set l" "sent_as install d e cs" by blast
    from e(1) have "fst e \<in> set (missing d st)" by (simp flip: m)
    with sent_as_payload[OF e(2) cs(2)] show ?thesis by blast
  qed
  moreover have "\<exists>u. install d u (p_data p) \<in> set (concat css)" if "p \<in> set (missing d st)" for p
  proof -
    from that m[symmetric] have "p \<in> fst ` set l" by simp
    then obtain r where pr: "(p, r) \<in> set l" by auto
    with loop_works[OF assms(2) l(1)] obtain u where u: "r = Inr u" by auto
    from pr list_all2_sets[OF css(1)] obtain cs where "cs \<in> set css" "sent_as install d (p, r) cs" by blast
    with u have "install d u (p_data p) \<in> set cs" "cs \<in> set css" by (simp_all add: sent_as_def)
    then show ?thesis by auto
  qed
  ultimately show ?thesis using css(2) by blast
qed

lemma devices_install:
  assumes "\<And>d. works (envs d)" and "inv st"
  shows "\<exists>cs. queue (reconcile_devices to_deploy mark send (\<lambda>_. None) envs ds st) = queue st @ cs \<and>
    (\<forall>c\<in>set cs. \<exists>d\<in>set ds. \<exists>p\<in>set (missing d st). \<exists>u. c = install d u (p_data p)) \<and>
    (\<forall>d\<in>set ds. \<forall>p\<in>set (missing d st). \<exists>u. install d u (p_data p) \<in> set cs)"
  using assms(2)
proof (induction ds arbitrary: st)
  case (Cons d ds)
  define st1 where "st1 = snd (reconcile_device to_deploy mark send None (envs d) d st)"
  note dv = device_delivers[OF Cons.prems assms(1) st1_def]
  from device_installs[OF Cons.prems assms(1) st1_def] obtain cs1 where cs1: "queue st1 = queue st @ cs1"
    "\<forall>c\<in>set cs1. \<exists>p\<in>set (missing d st). \<exists>u. c = install d u (p_data p)"
    "\<forall>p\<in>set (missing d st). \<exists>u. install d u (p_data p) \<in> set cs1" by blast
  from Cons.IH[of st1] dv obtain cs2 where cs2: "queue (reconcile_devices to_deploy mark send (\<lambda>_. None) envs ds st1) = queue st1 @ cs2"
    "\<forall>c\<in>set cs2. \<exists>i\<in>set ds. \<exists>p\<in>set (missing i st1). \<exists>u. c = install i u (p_data p)"
    "\<forall>i\<in>set ds. \<forall>p\<in>set (missing i st1). \<exists>u. install i u (p_data p) \<in> set cs2" by blast
  have m: "missing i st1 = (if i = d then [] else missing i st)" for i using dv by simp
  have "\<exists>i\<in>set (d # ds). \<exists>p\<in>set (missing i st). \<exists>u. c = install i u (p_data p)" if "c \<in> set (cs1 @ cs2)" for c
    using that cs1(2) cs2(2) m by (fastforce split: if_splits)
  moreover have "\<exists>u. install i u (p_data p) \<in> set (cs1 @ cs2)" if "i \<in> set (d # ds)" "p \<in> set (missing i st)" for i p
  proof (cases "i = d")
    case True
    with that(2) cs1(3) show ?thesis by auto
  next
    case False
    with that m[of i] have "i \<in> set ds" "p \<in> set (missing i st1)" by auto
    with cs2(3) show ?thesis by fastforce
  qed
  ultimately show ?case using cs1(1) cs2(1) by (intro exI[of _ "cs1 @ cs2"]) (simp add: st1_def)
qed simp

end

lemma command_sent_missing [simp]: "missing_profiles d (snd (command_sent ft now i u r st)) = missing_profiles d st"
  by (cases ft) (simp_all add: command_sent_def missing_profiles_def assigned_to_def outdated_def find_deploy_def)

lemma record_sent_keeps:
  "fleet_ok (c_fleet st) \<Longrightarrow> fleet_ok (c_fleet (record_sent env now ids cmd st))"
  "missing_profiles d (c_fleet (record_sent env now ids cmd st)) = missing_profiles d (c_fleet st)"
  by (induction ids arbitrary: st) (simp_all add: command_sent_ok)

lemma send_command_keeps:
  "fleet_ok (c_fleet st) \<Longrightarrow> fleet_ok (c_fleet (snd (send_command env now ids body st)))"
  "missing_profiles d (c_fleet (snd (send_command env now ids body st))) = missing_profiles d (c_fleet st)"
  by (auto simp: send_command_def build_command_def commander_enqueue_def enqueue_push_def Let_def record_sent_keeps
      split: option.splits)

definition install_command :: "string \<Rightarrow> string \<Rightarrow> string \<Rightarrow> string \<times> mdm_command" where
  \<comment> \<open>the device, and the command with its UUID and its payload\<close>
  "install_command d u data = (d, \<lparr>cmd_uuid = u, cmd_body = InstallProfile data\<rparr>)"

definition deploy_mark :: "string \<Rightarrow> int \<Rightarrow> core \<Rightarrow> (string \<times> int) option" where
  "deploy_mark d i st = map_option (\<lambda>x. (dp_command x, dp_version x)) (find_deploy d i (c_fleet st))"

lemma command_sent_deploys [simp]: "find_deploy d i (snd (command_sent ft now e u r st)) = find_deploy d i st"
  by (cases ft) (simp_all add: command_sent_def find_deploy_def)

lemma record_sent_queue:
  "c_queue (record_sent env now ids cmd st) = c_queue st"
  "find_deploy d i (c_fleet (record_sent env now ids cmd st)) = find_deploy d i (c_fleet st)"
  by (induction ids arbitrary: st) simp_all

lemma send_install_queue:
  "send_install_profile_uuid e now data d st = (Inr u, st1) \<Longrightarrow> c_queue st1 = c_queue st @ [install_command d u data]"
  "send_install_profile_uuid e now data d st = (Inl err, st1) \<Longrightarrow>
   c_queue st1 = c_queue st \<or> (\<exists>u. c_queue st1 = c_queue st @ [install_command d u data])"
  "deploy_mark d' i (snd (send_install_profile_uuid e now data d st)) = deploy_mark d' i st"
  by (auto simp: send_install_profile_uuid_def send_command_def build_command_def commander_enqueue_def enqueue_push_def
      install_command_def deploy_mark_def record_sent_queue Let_def split: option.splits if_splits)

lemma mark_deploy_mark:
  "p \<in> set (missing_profiles d (c_fleet st)) \<Longrightarrow> deploy_mark d (p_id p) (core_mark None now d (p_id p) u v st) = Some (u, v)"
  "i' \<noteq> i \<Longrightarrow> deploy_mark d i' (core_mark ft now d i u v st) = deploy_mark d i' st"
  "c_queue (core_mark ft now d i u v st) = c_queue st"
proof -
  assume "p \<in> set (missing_profiles d (c_fleet st))"
  then have "has_profile (p_id p) (c_fleet st)" by (simp add: missing_profiles_def has_profile_def)
  then show "deploy_mark d (p_id p) (core_mark None now d (p_id p) u v st) = Some (u, v)"
    by (simp add: deploy_mark_def core_mark_def find_deploy_mark)
next
  show "i' \<noteq> i \<Longrightarrow> deploy_mark d i' (core_mark ft now d i u v st) = deploy_mark d i' st"
    using find_deploy_mark[of i "c_fleet st" d i' now d u v]
    by (cases ft; cases "has_profile i (c_fleet st)") (simp_all add: deploy_mark_def core_mark_def mark_deploy_sent_def)
qed (simp add: core_mark_def)

lemma core_mark_laws:
  "fleet_ok (c_fleet st) \<Longrightarrow> fleet_ok (c_fleet (core_mark ft now d i u v st))"
  "fleet_ok (c_fleet st) \<Longrightarrow> p \<in> set (missing_profiles d (c_fleet st)) \<Longrightarrow>
   missing_profiles d (c_fleet (core_mark None now d (p_id p) u (p_updated_at p) st)) =
   filter (\<lambda>q. p_id q \<noteq> p_id p) (missing_profiles d (c_fleet st))"
  "missing_profiles d (c_fleet (core_mark (Some e) now d' i u v st)) = missing_profiles d (c_fleet st)"
  "d' \<noteq> d \<Longrightarrow> missing_profiles d' (c_fleet (core_mark ft now d i u v st)) = missing_profiles d' (c_fleet st)"
  "fleet_ok (c_fleet st) \<Longrightarrow> distinct (map p_id (missing_profiles d (c_fleet st)))"
  by (simp_all add: core_mark_def fs.mark_keeps fs.mark_settles fs.mark_failed fs.mark_elsewhere fs.missing_unique)

lemma send_install_keeps:
  "fleet_ok (c_fleet st) \<Longrightarrow> fleet_ok (c_fleet (snd (send_install_profile_uuid e now data d st)))"
  "missing_profiles d' (c_fleet (snd (send_install_profile_uuid e now data d st))) = missing_profiles d' (c_fleet st)"
  by (simp_all add: send_install_profile_uuid_def send_command_keeps)

interpretation rc: delivering "\<lambda>d st. missing_profiles d (c_fleet st)" core_mark "\<lambda>st. fleet_ok (c_fleet st)"
  send_install_profile_uuid core_to_deploy c_queue install_command deploy_mark
  by unfold_locales
    (simp_all add: core_mark_laws core_to_deploy_def profiles_to_deploy_def send_install_keeps send_install_queue mark_deploy_mark)

lemma sent_as_install:
  "sent_as install_command d = (\<lambda>(p, r) cs. case r of
       Inr u \<Rightarrow> cs = [(d, \<lparr>cmd_uuid = u, cmd_body = InstallProfile (p_data p)\<rparr>)]
     | Inl e \<Rightarrow> cs = [] \<or> (\<exists>u. cs = [(d, \<lparr>cmd_uuid = u, cmd_body = InstallProfile (p_data p)\<rparr>)]))"
  by (simp add: fun_eq_iff sent_as_def install_command_def split: sum.split)

text \<open>
  C9: One reconciliation of a device sends each profile the device is missing exactly once, in
  order, and nothing else: a send that went through has put one command into the queue, for this
  device, with the UUID it returned and the profile's own bytes as payload, and its mark records
  that UUID and the version sent; a failed one at most that command and no mark.  Afterwards
  exactly those profiles are still missing whose send or mark failed (so the next run retries
  them), and no other device is affected.
\<close>

theorem reconcile_exact:
  assumes "fleet_ok (c_fleet st)" and "core_reconcile ft env d st = (Inr l, st')"
  shows "map fst l = missing_profiles d (c_fleet st) \<and>
    (\<exists>css. c_queue st' = c_queue st @ concat css \<and>
       list_all2 (\<lambda>(p, r) cs. case r of
           Inr u \<Rightarrow> cs = [(d, \<lparr>cmd_uuid = u, cmd_body = InstallProfile (p_data p)\<rparr>)]
         | Inl e \<Rightarrow> cs = [] \<or> (\<exists>u. cs = [(d, \<lparr>cmd_uuid = u, cmd_body = InstallProfile (p_data p)\<rparr>)])) l css) \<and>
    (\<forall>p u. (p, Inr u) \<in> set l \<and> snd (snd (env p)) = None \<longrightarrow>
       (\<exists>x. find_deploy d (p_id p) (c_fleet st') = Some x \<and> dp_command x = u \<and> dp_version x = p_updated_at p)) \<and>
    missing_profiles d (c_fleet st') = filter (\<lambda>q. \<not> settled env l q) (missing_profiles d (c_fleet st)) \<and>
    (\<forall>d'. d' \<noteq> d \<longrightarrow> missing_profiles d' (c_fleet st') = missing_profiles d' (c_fleet st))"
proof (intro conjI allI impI)
  note r = assms(1) assms(2)[unfolded core_reconcile_def]
  note s = rc.device_spec[OF r]
  from s show "map fst l = missing_profiles d (c_fleet st)"
    "missing_profiles d (c_fleet st') = filter (\<lambda>q. \<not> settled env l q) (missing_profiles d (c_fleet st))" by blast+
  from s show "missing_profiles d' (c_fleet st') = missing_profiles d' (c_fleet st)" if "d' \<noteq> d" for d' using that by blast
  from rc.device_queue(1)[OF r] show "\<exists>css. c_queue st' = c_queue st @ concat css \<and>
       list_all2 (\<lambda>(p, r) cs. case r of
           Inr u \<Rightarrow> cs = [(d, \<lparr>cmd_uuid = u, cmd_body = InstallProfile (p_data p)\<rparr>)]
         | Inl e \<Rightarrow> cs = [] \<or> (\<exists>u. cs = [(d, \<lparr>cmd_uuid = u, cmd_body = InstallProfile (p_data p)\<rparr>)])) l css"
    unfolding sent_as_install by blast
  fix p u
  assume "(p, Inr u) \<in> set l \<and> snd (snd (env p)) = None"
  with rc.device_queue(2)[OF r] show "\<exists>x. find_deploy d (p_id p) (c_fleet st') = Some x \<and> dp_command x = u \<and> dp_version x = p_updated_at p"
    by (auto simp: deploy_mark_def)
qed

definition ok_env :: send_env where
  "ok_env = \<lparr>se_rnd = replicate 16 0, se_marshal = None, se_enqueue = None, se_pusher = True, se_push = None,
     se_recorder = True, se_record = (\<lambda>_. None)\<rparr>"

definition demo_env_of :: "profile \<Rightarrow> nanos \<times> send_env \<times> fault" where
  "demo_env_of p = (5 * second, ok_env, None)"

definition demo_fleet :: core where
  "demo_fleet = \<lparr>c_fleet = fleet_run demo_setup empty_fleet, c_queue = []\<rparr>"

lemma demo_fleet_ok: "fleet_ok (c_fleet demo_fleet)"
  by (simp add: demo_fleet_def fleet_run_ok empty_fleet_ok)

lemma demo_fleet_eq:
  "c_fleet demo_fleet = empty_fleet\<lparr>f_groups := [\<lparr>gr_id = 1, gr_name = ''Staff'', gr_description = [], gr_created_at = 0\<rparr>],
     f_members := [(1, ''D1'')], f_assigned := [(1, 1)], f_profiles := [demo_profile\<lparr>p_id := 1\<rparr>]\<rparr>"
  by (simp add: demo_fleet_def fleet_run_def demo_setup_def empty_fleet_def demo_profile_def save_profile_def
      create_group_def add_device_to_group_def assign_profile_def has_group_def has_profile_def upsert_def
      next_rowid_def to_secs_def to_millis_def second_def Let_def)

lemma demo_missing: "missing_profiles ''D1'' (c_fleet demo_fleet) = [demo_profile\<lparr>p_id := 1\<rparr>]"
  by (simp add: demo_fleet_eq missing_profiles_def assigned_to_def outdated_def find_deploy_def empty_fleet_def)

lemma demo_reconcile:
  "\<exists>u st'. core_reconcile None demo_env_of ''D1'' demo_fleet = (Inr [(demo_profile\<lparr>p_id := 1\<rparr>, Inr u)], st')"
  by (simp add: core_reconcile_def reconcile_device_def core_to_deploy_def profiles_to_deploy_def on_read_def demo_missing
      demo_env_of_def send_install_profile_uuid_def send_command_def build_command_def commander_enqueue_def
      enqueue_push_def ok_env_def Let_def)

theorem reconcile_exact_witness:
  "\<exists>u st'. core_reconcile None demo_env_of ''D1'' demo_fleet = (Inr [(demo_profile\<lparr>p_id := 1\<rparr>, Inr u)], st') \<and>
     c_queue st' = [(''D1'', \<lparr>cmd_uuid = u, cmd_body = InstallProfile ''<plist/>''\<rparr>)]"
proof -
  obtain u st' where r: "core_reconcile None demo_env_of ''D1'' demo_fleet = (Inr [(demo_profile\<lparr>p_id := 1\<rparr>, Inr u)], st')"
    using demo_reconcile by blast
  have "c_queue st' = [(''D1'', \<lparr>cmd_uuid = u, cmd_body = InstallProfile (p_data demo_profile)\<rparr>)]"
    using reconcile_exact[OF demo_fleet_ok r] by (auto simp: list_all2_Cons1 demo_fleet_def)
  with r show ?thesis by (simp add: demo_profile_def)
qed

text \<open>
  C34: Reconciling is idempotent: when every send and mark of a run went through, the next run
  sends nothing and changes nothing.
\<close>

theorem reconcile_idempotent:
  assumes "fleet_ok (c_fleet st)" and "core_reconcile ft env d st = (Inr l, st')"
    and "\<forall>(p, r)\<in>set l. (\<exists>u. r = Inr u) \<and> snd (snd (env p)) = None"
  shows "core_reconcile None env' d st' = (Inr [], st')"
proof -
  have "missing_profiles d (c_fleet st') = []"
    using rc.all_settled[OF assms(1), of ft env d l st'] assms(2,3) by (simp add: core_reconcile_def)
  from rc.nothing_missing[OF this] show ?thesis by (simp add: core_reconcile_def)
qed

theorem reconcile_idempotent_witness:
  "\<exists>st'. core_reconcile None demo_env_of ''D1'' (snd (core_reconcile None demo_env_of ''D1'' demo_fleet)) = (Inr [], st')"
proof -
  obtain u st' where r: "core_reconcile None demo_env_of ''D1'' demo_fleet = (Inr [(demo_profile\<lparr>p_id := 1\<rparr>, Inr u)], st')"
    using demo_reconcile by blast
  from reconcile_idempotent[OF demo_fleet_ok r, of demo_env_of] r show ?thesis by (simp add: demo_env_of_def)
qed

subsection \<open>Reconciling a group\<close>

definition channel_up :: "(string \<Rightarrow> profile \<Rightarrow> nanos \<times> send_env \<times> fault) \<Rightarrow> bool" where
  \<comment> \<open>storage and APNs take every command and every mark\<close>
  "channel_up envs \<longleftrightarrow> (\<forall>i p. case envs i p of (now, e, ft) \<Rightarrow> ft = None \<and> se_marshal e = None \<and> se_enqueue e = None \<and> se_push e = None)"

lemma send_goes_out:
  "se_marshal e = None \<Longrightarrow> se_enqueue e = None \<Longrightarrow> se_push e = None \<Longrightarrow> \<exists>u. fst (send_install_profile_uuid e now data i c) = Inr u"
  by (simp add: send_install_profile_uuid_def send_command_def build_command_def commander_enqueue_def enqueue_push_def Let_def)

lemma channel_works:
  assumes "channel_up envs"
  shows "rc.works (envs i)"
proof -
  have "snd (snd (envs i p)) = None \<and> se_marshal (fst (snd (envs i p))) = None \<and> se_enqueue (fst (snd (envs i p))) = None \<and>
    se_push (fst (snd (envs i p))) = None" for p
    using assms unfolding channel_up_def by (metis (mono_tags, lifting) case_prod_unfold)
  then show ?thesis unfolding rc.works_def by (simp add: send_goes_out)
qed

lemma group_job_delivers:
  fixes c :: core
  assumes "fleet_ok (c_fleet c)" and "channel_up envs" and "group_device_ids None g (c_fleet c) = Inr ds"
  shows "missing_profiles i (c_fleet (snd (core_reconcile_group None (\<lambda>_. None) envs g c))) = (if i \<in> set ds then [] else missing_profiles i (c_fleet c))"
  using rc.devices_deliver[of envs c ds i] channel_works[OF assms(2)] assms
  by (simp add: core_reconcile_group_def reconcile_group_def core_device_ids_def)

subsection \<open>What a reconciliation leaves alone\<close>

definition catalog :: "fleet \<Rightarrow> device list \<times> group_row list \<times> (int \<times> string) list \<times> (int \<times> int) list \<times> profile list" where
  \<comment> \<open>the inventory, the groups with their members and assignments, the profile library\<close>
  "catalog fl = (f_devices fl, f_groups fl, f_members fl, f_assigned fl, f_profiles fl)"

lemma catalog_sent [simp]: "catalog (snd (command_sent ft now i u r fl)) = catalog fl"
  by (cases ft) (simp_all add: command_sent_def catalog_def)

lemma catalog_send_command [simp]: "catalog (c_fleet (snd (send_command env now ids body c))) = catalog (c_fleet c)"
proof -
  have "catalog (c_fleet (record_sent env now ids cmd c)) = catalog (c_fleet c)" for cmd c
    by (induction ids arbitrary: c) simp_all
  then show ?thesis
    by (simp add: send_command_def build_command_def commander_enqueue_def enqueue_push_def Let_def split: option.split)
qed

lemma catalog_install [simp]: "catalog (c_fleet (snd (send_install_profile_uuid e now data d c))) = catalog (c_fleet c)"
  by (simp add: send_install_profile_uuid_def)

lemma catalog_mark [simp]: "catalog (c_fleet (core_mark ft now d i u v c)) = catalog (c_fleet c)"
  by (cases ft) (simp_all add: core_mark_def catalog_def mark_deploy_sent_def)

lemma reconcile_keeps:
  "catalog (c_fleet (snd (core_reconcile ft env d c))) = catalog (c_fleet c)"
  "catalog (c_fleet (snd (core_reconcile_group ft fts envs g c))) = catalog (c_fleet c)"
proof -
  have loop: "catalog (c_fleet (snd (reconcile_loop core_mark send_install_profile_uuid env d ps c))) = catalog (c_fleet c)" for env d ps c
  proof (induction ps arbitrary: c)
    case (Cons p ps)
    obtain now e ft where env: "env p = (now, e, ft)" by (cases "env p" rule: prod_cases3)
    obtain r c1 where s: "send_install_profile_uuid e now (p_data p) d c = (r, c1)" by fastforce
    have "catalog (c_fleet c1) = catalog (c_fleet c)" using catalog_install[of e now "p_data p" d c] s by simp
    with Cons env s show ?case by (cases r) (simp_all add: split_beta)
  qed simp
  then show device: "catalog (c_fleet (snd (core_reconcile ft env d c))) = catalog (c_fleet c)" for ft env d c
    by (simp add: core_reconcile_def reconcile_device_def split_beta split: sum.split)
  have "catalog (c_fleet (reconcile_devices core_to_deploy core_mark send_install_profile_uuid fts envs ds c)) = catalog (c_fleet c)" for ds
    using device[unfolded core_reconcile_def] by (induction ds arbitrary: c) simp_all
  then show "catalog (c_fleet (snd (core_reconcile_group ft fts envs g c))) = catalog (c_fleet c)"
    by (simp add: core_reconcile_group_def reconcile_group_def split: sum.split)
qed

lemma group_job_installs:
  fixes c :: core
  assumes "fleet_ok (c_fleet c)" and "channel_up envs" and "group_device_ids None g (c_fleet c) = Inr ds"
  shows "\<exists>cs. c_queue (snd (core_reconcile_group None (\<lambda>_. None) envs g c)) = c_queue c @ cs \<and>
    (\<forall>x\<in>set cs. \<exists>d\<in>set ds. \<exists>p\<in>set (missing_profiles d (c_fleet c)). \<exists>u. x = install_command d u (p_data p)) \<and>
    (\<forall>d\<in>set ds. \<forall>p\<in>set (missing_profiles d (c_fleet c)). \<exists>u. install_command d u (p_data p) \<in> set cs)"
  using rc.devices_install[of envs c ds] channel_works[OF assms(2)] assms
  by (simp add: core_reconcile_group_def reconcile_group_def core_device_ids_def)

subsection \<open>What reconciliation does not achieve\<close>

text \<open>
  The send is marked only after the push: an answer that the device gives in between is
  lost.  The deployment then stays \<open>sent\<close> although the profile is installed, and the profile
  is no longer among the missing ones, so no later reconciliation corrects it.
\<close>

theorem early_answer_lost:
  assumes "fleet_ok st" and "p \<in> set (missing_profiles d st)"
    and "st1 = snd (command_result None None t d u ''Acknowledged'' [] st)"
    and "st2 = snd (mark_deploy_sent None t' d (p_id p) u (p_updated_at p) st1)"
  shows "(\<exists>x. find_deploy d (p_id p) st2 = Some x \<and> dp_status x = ''sent'' \<and> dp_command x = u) \<and>
    p \<notin> set (missing_profiles d st2)"
proof -
  have f: "find_deploy d (p_id q) st1 = map_option (\<lambda>x. if dp_command x = u \<and> dp_device x = d
      then x\<lparr>dp_status := ''installed'', dp_updated_at := to_secs t\<rparr> else x) (find_deploy d (p_id q) st)" for q
    by (simp add: assms(3) find_deploy_def command_result_def deploy_outcome_def Let_def find_update_where)
  have "outdated d q st1 \<longleftrightarrow> outdated d q st" for q
    by (simp add: outdated_def f split: option.splits)
  moreover have "f_profiles st1 = f_profiles st" "assigned_to d i st1 = assigned_to d i st" for i
    by (simp_all add: assms(3) command_result_def deploy_outcome_def Let_def assigned_to_def)
  ultimately have m: "missing_profiles d st1 = missing_profiles d st"
    by (simp add: missing_profiles_def)
  have ok: "fleet_ok st1" unfolding assms(3) by (rule command_result_ok[OF assms(1)])
  have p1: "p \<in> set (missing_profiles d st1)" using assms(2) m by simp
  then have "has_profile (p_id p) st1" by (simp add: missing_profiles_def has_profile_def)
  then show ?thesis
    unfolding assms(4) using missing_mark[OF ok p1, of t' u] by (simp add: find_deploy_mark)
qed

theorem early_answer_lost_witness:
  "\<exists>x. find_deploy ''D1'' 1 (snd (mark_deploy_sent None second ''D1'' 1 ''C1'' 0
      (snd (command_result None None 0 ''D1'' ''C1'' ''Acknowledged'' [] (c_fleet demo_fleet))))) = Some x \<and> dp_status x = ''sent''"
proof -
  have "demo_profile\<lparr>p_id := 1\<rparr> \<in> set (missing_profiles ''D1'' (c_fleet demo_fleet))" by (simp add: demo_missing)
  from early_answer_lost[OF demo_fleet_ok this refl refl, of second "''C1''" 0] show ?thesis
    by (simp add: demo_profile_def) blast
qed

definition push_fails :: "string \<Rightarrow> (profile \<Rightarrow> nanos \<times> send_env \<times> fault) \<Rightarrow> bool" where
  "push_fails e env \<longleftrightarrow> (\<forall>p. let s = fst (snd (env p)) in
     se_marshal s = None \<and> se_enqueue s = None \<and> se_pusher s \<and> se_push s = Some e)"

definition queued_installs :: "string \<Rightarrow> string \<Rightarrow> core \<Rightarrow> nat" where
  "queued_installs d data st = length (filter (\<lambda>(i, c). i = d \<and> cmd_body c = InstallProfile data) (c_queue st))"

fun reconcile_times :: "nat \<Rightarrow> (profile \<Rightarrow> nanos \<times> send_env \<times> fault) \<Rightarrow> string \<Rightarrow> core \<Rightarrow> core" where
  "reconcile_times 0 env d st = st"
| "reconcile_times (Suc n) env d st = reconcile_times n env d (snd (core_reconcile None env d st))"

lemma send_push_fails:
  assumes "push_fails e env" and "env p = (now, s, ft)"
  shows "\<exists>u. send_install_profile_uuid s now data d st =
    (Inl (''mdmcore: push: '' @ e), st\<lparr>c_queue := c_queue st @ [(d, \<lparr>cmd_uuid = u, cmd_body = InstallProfile data\<rparr>)]\<rparr>)"
proof -
  have "let s = fst (snd (env p)) in se_marshal s = None \<and> se_enqueue s = None \<and> se_pusher s \<and> se_push s = Some e"
    using assms(1) unfolding push_fails_def by blast
  with assms(2) show ?thesis
    by (intro exI[of _ "new_command_uuid (se_rnd s)"])
      (simp add: send_install_profile_uuid_def send_command_def build_command_def commander_enqueue_def
        enqueue_push_def Let_def)
qed

lemma reconcile_push_fails:
  assumes "push_fails e env" and "missing_profiles d (c_fleet st) = [p]"
  shows "c_fleet (snd (core_reconcile None env d st)) = c_fleet st \<and>
    queued_installs d (p_data p) (snd (core_reconcile None env d st)) = Suc (queued_installs d (p_data p) st)"
proof -
  obtain now s ft where env: "env p = (now, s, ft)" by (cases "env p" rule: prod_cases3)
  from send_push_fails[OF assms(1) env, of "p_data p" d st] obtain u where
    "send_install_profile_uuid s now (p_data p) d st =
    (Inl (''mdmcore: push: '' @ e), st\<lparr>c_queue := c_queue st @ [(d, \<lparr>cmd_uuid = u, cmd_body = InstallProfile (p_data p)\<rparr>)]\<rparr>)"
    by blast
  with env assms(2) show ?thesis
    by (simp add: core_reconcile_def reconcile_device_def core_to_deploy_def profiles_to_deploy_def on_read_def
        queued_installs_def)
qed

text \<open>
  While APNs pushes fail, every reconciliation enqueues the same profile again: the
  command is already in the device's queue when the push fails, but the deployment stays
  unmarked, so \<open>n\<close> runs leave \<open>n\<close> more copies that the device will install one after another.
\<close>

theorem failed_push_piles_up:
  assumes "push_fails e env" and "missing_profiles d (c_fleet st) = [p]"
  shows "queued_installs d (p_data p) (reconcile_times n env d st) = queued_installs d (p_data p) st + n"
  using assms(2)
proof (induction n arbitrary: st)
  case (Suc n)
  note r = reconcile_push_fails[OF assms(1) Suc.prems]
  from r Suc.prems have "missing_profiles d (c_fleet (snd (core_reconcile None env d st))) = [p]" by simp
  from Suc.IH[OF this] r show ?case by simp
qed simp

theorem failed_push_piles_up_witness:
  "queued_installs ''D1'' ''<plist/>'' (reconcile_times 3 (\<lambda>_. (0, ok_env\<lparr>se_push := Some ''410''\<rparr>, None)) ''D1'' demo_fleet) = 3"
proof -
  have "push_fails ''410'' (\<lambda>_. (0, ok_env\<lparr>se_push := Some ''410''\<rparr>, None))"
    by (simp add: push_fails_def ok_env_def Let_def)
  from failed_push_piles_up[OF this demo_missing, of 3] show ?thesis
    by (simp add: demo_profile_def queued_installs_def demo_fleet_def)
qed

text \<open>
  A device that is wiped and enrolls again gets none of its profiles back: no sequence
  of check-in events (a check-out, a new enrollment, a token update) changes what the
  reconciler regards as missing, because the deployment rows of the earlier enrollment stay.
\<close>

theorem reenrolled_not_redeployed:
  "missing_profiles d (fleet_run (map (\<lambda>(t, c). (t, None, CheckIn c)) evs) st) = missing_profiles d st"
proof -
  have "missing_profiles d (fleet_step (t, None, CheckIn c) st) = missing_profiles d st" for t c st
    by (simp add: missing_profiles_def assigned_to_def outdated_def find_deploy_def)
  then show ?thesis
    unfolding fleet_run_def by (induction evs arbitrary: st) auto
qed

end
