(* ===== verification/Grants.thy ===== *)
theory Grants
  imports Prelude
begin

section \<open>Enrollment grants\<close>

text \<open>
  \<open>internal/storage/sqlite/grants.go\<close>: the table \<open>enrollment_grants\<close> is the list of its
  rows.  \<open>sha\<close> stands for SHA-256: every operation takes it as an argument, and no theorem
  relies on more than that it is a function.  The expiry is the number of seconds its stored
  text denotes.  The locale \<open>redeemer\<close> is the interface \<open>enroll.Redeemer\<close> with the law the
  enrollment endpoint relies on (a redemption costs one use); it is interpreted here.
\<close>

record grant =
  g_id :: int
  g_label :: string
  g_platform :: string
  g_owner :: string
  g_created_by :: string
  g_created_at :: secs
  g_expires_at :: secs
  g_max_uses :: int
  g_use_count :: int
  g_revoked_at :: "secs option"
  g_expected_serial :: string
  g_last_used_at :: "secs option"

record grant_row = grant +
  g_token_hash :: string

record redemption =
  red_id :: int
  red_platform :: string
  red_owner :: string
  red_expected_serial :: string

datatype grant_err = GrantInvalid | GrantDb sql_err

definition grant_status :: "nanos \<Rightarrow> ('a) grant_scheme \<Rightarrow> string" where
  "grant_status now g =
     (if g_revoked_at g \<noteq> None then ''revoked''
      else if g_max_uses g \<le> g_use_count g then ''used''
      else if of_secs (g_expires_at g) < now then ''expired''
      else ''active'')"

definition hash_grant_token :: "(string \<Rightarrow> string) \<Rightarrow> string \<Rightarrow> string" where
  "hash_grant_token sha raw = hex_encode (sha raw)"

definition new_grant_token :: "(string \<Rightarrow> string) \<Rightarrow> string \<Rightarrow> string \<times> string" where
  \<comment> \<open>\<open>rnd\<close> are the 32 bytes read from the system's generator\<close>
  "new_grant_token sha rnd = (let raw = hex_encode rnd in (raw, hash_grant_token sha raw))"

definition normal_uses :: "int \<Rightarrow> int" where
  "normal_uses n = (if n \<le> 0 then 1 else n)"

definition create_grant ::
  "fault \<Rightarrow> nanos \<Rightarrow> ('a) grant_scheme \<Rightarrow> string \<Rightarrow> grant_row list \<Rightarrow> (sql_err + int) \<times> grant_row list" where
  "create_grant ft now g token_hash rows =
     (let mx = normal_uses (g_max_uses g);
          plat = (if g_platform g = [] then ''any'' else g_platform g);
          i = next_rowid (map g_id rows)
      in case ft of
           Some e \<Rightarrow> (Inl (SqlErr e), rows)
         | None \<Rightarrow>
             if token_hash \<in> set (map g_token_hash rows)
             then (Inl (SqlErr ''UNIQUE constraint failed: enrollment_grants.token_hash''), rows)
             else (Inr i, rows @ [\<lparr>g_id = i, g_label = g_label g, g_platform = plat, g_owner = g_owner g,
                g_created_by = g_created_by g, g_created_at = to_secs now,
                g_expires_at = g_expires_at g, g_max_uses = mx, g_use_count = 0,
                g_revoked_at = None, g_expected_serial = g_expected_serial g,
                g_last_used_at = None, g_token_hash = token_hash\<rparr>]))"

definition redeemable :: "secs \<Rightarrow> ('a) grant_scheme \<Rightarrow> bool" where
  "redeemable now g \<longleftrightarrow>
     g_revoked_at g = None \<and> g_use_count g < g_max_uses g \<and> now < g_expires_at g"

definition consume :: "secs \<Rightarrow> grant_row \<Rightarrow> grant_row" where
  "consume now g = g\<lparr>g_use_count := g_use_count g + 1, g_last_used_at := Some now\<rparr>"

definition redeem_grant ::
  "(string \<Rightarrow> string) \<Rightarrow> fault \<Rightarrow> nanos \<Rightarrow> string \<Rightarrow> grant_row list \<Rightarrow> (grant_err + redemption) \<times> grant_row list" where
  "redeem_grant sha ft now raw rows =
     (let h = hash_grant_token sha raw;
          p = (\<lambda>g. g_token_hash g = h \<and> redeemable (to_secs now) g)
      in case ft of
           Some e \<Rightarrow> (Inl (GrantDb (SqlErr e)), rows)
         | None \<Rightarrow> (case List.find p rows of
               None \<Rightarrow> (Inl GrantInvalid, rows)
             | Some g \<Rightarrow> (Inr \<lparr>red_id = g_id g, red_platform = g_platform g, red_owner = g_owner g,
                  red_expected_serial = g_expected_serial g\<rparr>,
                 update_where p (consume (to_secs now)) rows)))"

definition list_grants :: "fault \<Rightarrow> grant_row list \<Rightarrow> sql_err + grant list" where
  "list_grants ft rows = (case ft of Some e \<Rightarrow> Inl (SqlErr e)
     | None \<Rightarrow> Inr (map grant.truncate (sort_key (\<lambda>g. - g_created_at g) (sort_key (\<lambda>g. - g_id g) rows))))"

definition get_grant :: "fault \<Rightarrow> int \<Rightarrow> grant_row list \<Rightarrow> sql_err + grant" where
  "get_grant ft i rows = (case ft of Some e \<Rightarrow> Inl (SqlErr e)
     | None \<Rightarrow> (case List.find (\<lambda>g. g_id g = i) rows of
          None \<Rightarrow> Inl NoRows | Some g \<Rightarrow> Inr (grant.truncate g)))"

definition live_id :: "int \<Rightarrow> grant_row \<Rightarrow> bool" where
  "live_id i g \<longleftrightarrow> g_id g = i \<and> g_revoked_at g = None"

definition revoke_grant :: "fault \<Rightarrow> fault \<Rightarrow> nanos \<Rightarrow> int \<Rightarrow> grant_row list \<Rightarrow> (sql_err + unit) \<times> grant_row list" where
  \<comment> \<open>\<open>ft2\<close> is the fault of the lookup that tells a missing grant from a revoked one\<close>
  "revoke_grant ft ft2 now i rows =
     (case ft of
        Some e \<Rightarrow> (Inl (SqlErr e), rows)
      | None \<Rightarrow>
          (if affected (live_id i) rows = 0 \<and> get_grant ft2 i rows = Inl NoRows then Inl NoRows else Inr (),
           update_where (live_id i) (\<lambda>g. g\<lparr>g_revoked_at := Some (to_secs now)\<rparr>) rows))"

definition delete_expired_grants :: "fault \<Rightarrow> nanos \<Rightarrow> int \<Rightarrow> grant_row list \<Rightarrow> (sql_err + nat) \<times> grant_row list" where
  "delete_expired_grants ft now older rows =
     (let old = (\<lambda>g. g_expires_at g < to_secs (now + wrap64 (- older)))
      in case ft of Some e \<Rightarrow> (Inl (SqlErr e), rows)
         | None \<Rightarrow> (Inr (affected old rows), delete_where old rows))"

datatype grant_call =
    CreateGrant grant string
  | RedeemGrant string
  | RevokeGrant int fault
  | DeleteExpiredGrants int

type_synonym grant_event = "nanos \<times> fault \<times> grant_call"

fun grant_step :: "(string \<Rightarrow> string) \<Rightarrow> grant_event \<Rightarrow> grant_row list \<Rightarrow> grant_row list" where
  "grant_step sha (now, ft, CreateGrant g h) rows = snd (create_grant ft now g h rows)"
| "grant_step sha (now, ft, RedeemGrant raw) rows = snd (redeem_grant sha ft now raw rows)"
| "grant_step sha (now, ft, RevokeGrant i ft2) rows = snd (revoke_grant ft ft2 now i rows)"
| "grant_step sha (now, ft, DeleteExpiredGrants d) rows = snd (delete_expired_grants ft now d rows)"

definition grant_run :: "(string \<Rightarrow> string) \<Rightarrow> grant_event list \<Rightarrow> grant_row list \<Rightarrow> grant_row list" where
  "grant_run sha evs rows = fold (grant_step sha) evs rows"

subsection \<open>Well-formed tables\<close>

definition grants_ok :: "grant_row list \<Rightarrow> bool" where
  "grants_ok rows \<longleftrightarrow> distinct (map g_id rows) \<and> distinct (map g_token_hash rows) \<and>
     (\<forall>g\<in>set rows. 0 \<le> g_use_count g \<and> g_use_count g \<le> g_max_uses g \<and> 1 \<le> g_max_uses g)"

lemma consume_keeps [simp]:
  "g_id (consume now g) = g_id g" "g_token_hash (consume now g) = g_token_hash g"
  "g_max_uses (consume now g) = g_max_uses g" "g_use_count (consume now g) = g_use_count g + 1"
  "g_revoked_at (consume now g) = g_revoked_at g" "g_expires_at (consume now g) = g_expires_at g"
  by (simp_all add: consume_def)

lemma normal_uses_pos: "1 \<le> normal_uses n"
  by (simp add: normal_uses_def)

lemma create_grants_ok: "grants_ok rows \<Longrightarrow> grants_ok (snd (create_grant ft now g h rows))"
  using next_rowid_fresh[of "map g_id rows"] normal_uses_pos[of "g_max_uses g"]
  by (auto simp: grants_ok_def create_grant_def Let_def split: option.splits)

lemma consume_grants_ok:
  "grants_ok rows \<Longrightarrow> (\<And>g. p g \<Longrightarrow> redeemable now g) \<Longrightarrow> grants_ok (update_where p (consume now) rows)"
  by (force simp: grants_ok_def map_update_where set_update_where redeemable_def)

lemma redeem_grants_ok: "grants_ok rows \<Longrightarrow> grants_ok (snd (redeem_grant sha ft now raw rows))"
  by (auto simp: redeem_grant_def Let_def intro!: consume_grants_ok split: option.splits)

lemma revoke_grants_ok: "grants_ok rows \<Longrightarrow> grants_ok (snd (revoke_grant ft ft2 now i rows))"
  by (auto simp: grants_ok_def revoke_grant_def map_update_where set_update_where split: option.splits)

lemma delete_grants_ok: "grants_ok rows \<Longrightarrow> grants_ok (snd (delete_expired_grants ft now d rows))"
  by (auto simp: grants_ok_def delete_expired_grants_def Let_def distinct_map_delete_where
      split: option.splits)

lemmas grants_ok_steps = create_grants_ok redeem_grants_ok revoke_grants_ok delete_grants_ok

lemma grant_step_ok: "grants_ok rows \<Longrightarrow> grants_ok (grant_step sha ev rows)"
  by (cases ev rule: prod_cases3; cases "snd (snd ev)") (simp_all add: grants_ok_steps)

lemma grant_run_ok: "grants_ok rows \<Longrightarrow> grants_ok (grant_run sha evs rows)"
  unfolding grant_run_def by (induction evs arbitrary: rows) (simp_all add: grant_step_ok)

subsection \<open>Redemption, exactly\<close>

definition find_grant :: "string \<Rightarrow> grant_row list \<Rightarrow> grant_row option" where
  "find_grant h rows = List.find (\<lambda>g. g_token_hash g = h) rows"

lemma find_redeemable:
  assumes "distinct (map g_token_hash rows)"
  shows "List.find (\<lambda>g. g_token_hash g = h \<and> P g) rows =
    (case find_grant h rows of None \<Rightarrow> None | Some g \<Rightarrow> if P g then Some g else None)"
  using assms
proof (induction rows)
  case (Cons r rows)
  show ?case
  proof (cases "g_token_hash r = h")
    case True
    with Cons.prems have "List.find (\<lambda>g. g_token_hash g = h \<and> P g) rows = None"
      by (auto simp: find_None_iff image_iff)
    with True show ?thesis by (simp add: find_grant_def)
  next
    case False
    with Cons show ?thesis by (simp add: find_grant_def)
  qed
qed (simp add: find_grant_def)

text \<open>
  On a table with unique tokens and working storage, redeeming a token succeeds exactly
  when its grant exists, is not revoked, has a use left and expires later than the current
  second; then it returns that grant's fields, adds one use and the time to that row and
  leaves every other row alone.  In every other case the answer is the one indistinct error
  and the table is unchanged.
\<close>

theorem redeem_grant_exact:
  assumes "grants_ok rows"
  shows "redeem_grant sha None now raw rows =
    (case find_grant (hash_grant_token sha raw) rows of
       None \<Rightarrow> (Inl GrantInvalid, rows)
     | Some g \<Rightarrow>
         if g_revoked_at g = None \<and> g_use_count g < g_max_uses g \<and> to_secs now < g_expires_at g
         then (Inr \<lparr>red_id = g_id g, red_platform = g_platform g, red_owner = g_owner g,
                 red_expected_serial = g_expected_serial g\<rparr>,
               update_where (\<lambda>r. g_id r = g_id g)
                 (\<lambda>r. r\<lparr>g_use_count := g_use_count r + 1, g_last_used_at := Some (to_secs now)\<rparr>) rows)
         else (Inl GrantInvalid, rows))"
proof -
  let ?h = "hash_grant_token sha raw" and ?p = "\<lambda>g. g_token_hash g = hash_grant_token sha raw \<and> redeemable (to_secs now) g"
  have d: "distinct (map g_token_hash rows)" "distinct (map g_id rows)"
    using assms by (auto simp: grants_ok_def)
  note f = find_redeemable[OF d(1), of ?h "redeemable (to_secs now)"]
  show ?thesis
  proof (cases "find_grant ?h rows")
    case None
    then show ?thesis by (simp add: redeem_grant_def f)
  next
    case (Some g)
    then have g: "g \<in> set rows" "g_token_hash g = ?h" by (auto simp: find_grant_def find_Some_iff)
    have "update_where ?p (consume (to_secs now)) rows =
        update_where (\<lambda>r. g_id r = g_id g) (consume (to_secs now)) rows" if "redeemable (to_secs now) g"
    proof -
      have "?p x \<longleftrightarrow> g_id x = g_id g" if "x \<in> set rows" for x
        using that g d \<open>redeemable (to_secs now) g\<close> by (metis distinct_map inj_on_def)
      then show ?thesis by (simp add: update_where_def)
    qed
    moreover have "consume (to_secs now) =
        (\<lambda>r. r\<lparr>g_use_count := g_use_count r + 1, g_last_used_at := Some (to_secs now)\<rparr>)"
      by (rule ext) (simp add: consume_def)
    ultimately show ?thesis using Some
      by (cases "redeemable (to_secs now) g") (simp_all add: redeem_grant_def f redeemable_def[of _ g] Let_def)
  qed
qed

definition demo_grant :: grant_row where
  "demo_grant = \<lparr>g_id = 1, g_label = ''lab'', g_platform = ''ios'', g_owner = ''a@b'', g_created_by = ''root'',
     g_created_at = 0, g_expires_at = 100, g_max_uses = 1, g_use_count = 0, g_revoked_at = None,
     g_expected_serial = [], g_last_used_at = None, g_token_hash = ''6869''\<rparr>"

theorem redeem_grant_exact_witness:
  "redeem_grant (\<lambda>s. s) None (99 * second) ''hi'' [demo_grant] =
     (Inr \<lparr>red_id = 1, red_platform = ''ios'', red_owner = ''a@b'', red_expected_serial = []\<rparr>,
      [demo_grant\<lparr>g_use_count := 1, g_last_used_at := Some 99\<rparr>])"
proof -
  have "grants_ok [demo_grant]" by (simp add: grants_ok_def demo_grant_def)
  from redeem_grant_exact[OF this, of "\<lambda>s. s" "99 * second" "''hi''"] show ?thesis
    by (simp add: find_grant_def hash_grant_token_def hex_encode_def hex_digit_def Let_def demo_grant_def
        update_where_def to_secs_def second_def)
qed

subsection \<open>Uses are never spent twice\<close>

definition remaining :: "string \<Rightarrow> grant_row list \<Rightarrow> int" where
  "remaining h rows = (case find_grant h rows of None \<Rightarrow> 0 | Some g \<Rightarrow> g_max_uses g - g_use_count g)"

fun granted :: "string \<Rightarrow> grant_event list \<Rightarrow> int" where
  \<comment> \<open>the uses that the run's creations of a grant for the token would allow\<close>
  "granted h [] = 0"
| "granted h ((now, ft, CreateGrant g k) # evs) = (if k = h then normal_uses (g_max_uses g) else 0) + granted h evs"
| "granted h (ev # evs) = granted h evs"

fun redeemed :: "(string \<Rightarrow> string) \<Rightarrow> string \<Rightarrow> grant_event list \<Rightarrow> grant_row list \<Rightarrow> int" where
  \<comment> \<open>the run's successful redemptions of tokens with this hash\<close>
  "redeemed sha h [] rows = 0"
| "redeemed sha h ((now, ft, c) # evs) rows =
     (case c of
        RedeemGrant raw \<Rightarrow>
          (if hash_grant_token sha raw = h \<and> (\<exists>r. fst (redeem_grant sha ft now raw rows) = Inr r) then 1 else 0)
      | _ \<Rightarrow> 0) + redeemed sha h evs (grant_step sha (now, ft, c) rows)"

lemma remaining_nonneg: "grants_ok rows \<Longrightarrow> 0 \<le> remaining h rows"
  by (auto simp: remaining_def find_grant_def grants_ok_def find_Some_iff split: option.splits)

lemma find_grant_update:
  "(\<And>r. g_token_hash (f r) = g_token_hash r) \<Longrightarrow>
   find_grant h (update_where p f rows) = map_option (\<lambda>r. if p r then f r else r) (find_grant h rows)"
  unfolding find_grant_def by (rule find_update_where) simp

lemma find_grant_hash: "find_grant h rows = Some g \<Longrightarrow> g_token_hash g = h"
  by (auto simp: find_grant_def find_Some_iff)

lemma redeem_success:
  assumes "grants_ok rows" and "redeem_grant sha ft now raw rows = (Inr r, rows')"
  shows "ft = None \<and> (\<exists>g. find_grant (hash_grant_token sha raw) rows = Some g \<and> redeemable (to_secs now) g \<and>
    rows' = update_where (\<lambda>x. g_token_hash x = hash_grant_token sha raw \<and> redeemable (to_secs now) x)
      (consume (to_secs now)) rows)"
  using assms find_redeemable[of rows "hash_grant_token sha raw" "redeemable (to_secs now)"]
  by (auto simp: redeem_grant_def grants_ok_def Let_def split: option.splits if_splits)

lemma redeem_failure: "redeem_grant sha ft now raw rows = (Inl e, rows') \<Longrightarrow> rows' = rows"
  by (auto simp: redeem_grant_def Let_def split: option.splits)

lemma remaining_redeem:
  assumes "grants_ok rows" and "redeem_grant sha ft now raw rows = (Inr r, rows')"
  shows "remaining h rows' = remaining h rows - (if h = hash_grant_token sha raw then 1 else 0)"
proof -
  from redeem_success[OF assms] obtain g where g: "find_grant (hash_grant_token sha raw) rows = Some g"
    "redeemable (to_secs now) g" "rows' = update_where (\<lambda>x. g_token_hash x = hash_grant_token sha raw
      \<and> redeemable (to_secs now) x) (consume (to_secs now)) rows" by blast
  show ?thesis
    using g find_grant_hash[of h rows]
    by (auto simp: remaining_def find_grant_update split: option.splits)
qed

lemma create_grant_rows:
  "snd (create_grant ft now g k rows) = rows \<or>
   k \<notin> g_token_hash ` set rows \<and> (\<exists>new. snd (create_grant ft now g k rows) = rows @ [new] \<and>
     g_token_hash new = k \<and> g_use_count new = 0 \<and> g_max_uses new = normal_uses (g_max_uses g))"
  by (cases ft) (simp_all add: create_grant_def Let_def)

lemma find_grant_absent: "k \<notin> g_token_hash ` set rows \<Longrightarrow> find_grant k rows = None"
  by (simp add: find_grant_def find_None_key)

lemma find_grant_snoc:
  assumes "k \<notin> g_token_hash ` set rows" and "g_token_hash new = k"
  shows "find_grant h (rows @ [new]) = (if h = k then Some new else find_grant h rows)"
proof (cases "h = k")
  case True
  with assms show ?thesis
    using find_grant_absent[of k rows] by (simp add: find_grant_def find_append)
next
  case False
  with assms show ?thesis by (simp add: find_grant_def find_append split: option.splits)
qed

lemma remaining_create:
  "remaining h (snd (create_grant ft now g k rows)) \<le> remaining h rows + (if k = h then normal_uses (g_max_uses g) else 0)"
proof -
  from create_grant_rows[of ft now g k rows] show ?thesis
  proof (elim disjE conjE exE)
    assume "snd (create_grant ft now g k rows) = rows"
    then show ?thesis using normal_uses_pos[of "g_max_uses g"] by simp
  next
    fix new
    assume new: "k \<notin> g_token_hash ` set rows" "g_token_hash new = k" "g_use_count new = 0"
      "snd (create_grant ft now g k rows) = rows @ [new]" "g_max_uses new = normal_uses (g_max_uses g)"
    show ?thesis
      using new find_grant_absent[OF new(1)] by (cases "k = h") (simp_all add: remaining_def find_grant_snoc)
  qed
qed

lemma remaining_revoke: "remaining h (snd (revoke_grant ft ft2 now i rows)) = remaining h rows"
  by (auto simp: remaining_def revoke_grant_def find_grant_update split: option.splits)

lemma find_grant_delete:
  "grants_ok rows \<Longrightarrow> find_grant h (delete_where p rows) =
    (case find_grant h rows of None \<Rightarrow> None | Some r \<Rightarrow> if p r then None else Some r)"
  unfolding find_grant_def grants_ok_def by (rule find_delete_unique) simp

lemma remaining_delete:
  "grants_ok rows \<Longrightarrow> remaining h (snd (delete_expired_grants ft now d rows)) \<le> remaining h rows"
  using remaining_nonneg[of rows h]
  by (auto simp: remaining_def delete_expired_grants_def find_grant_delete Let_def split: option.splits)

lemma redeemed_step:
  assumes "grants_ok rows"
  shows "redeemed sha h [ev] rows + remaining h (grant_step sha ev rows) \<le> remaining h rows + granted h [ev]"
proof -
  obtain now ft c where ev: "ev = (now, ft, c)" by (cases ev rule: prod_cases3)
  show ?thesis
  proof (cases c)
    case (CreateGrant g k)
    then show ?thesis using remaining_create[of h ft now g k rows] by (simp add: ev)
  next
    case (RedeemGrant raw)
    obtain res rows' where r: "redeem_grant sha ft now raw rows = (res, rows')" by fastforce
    show ?thesis
    proof (cases res)
      case (Inl e)
      with r redeem_failure[of sha ft now raw rows e rows'] RedeemGrant show ?thesis by (simp add: ev)
    next
      case (Inr x)
      with r remaining_redeem[OF assms, of sha ft now raw x rows' h] RedeemGrant show ?thesis
        by (auto simp: ev)
    qed
  next
    case (RevokeGrant i ft2)
    then show ?thesis by (simp add: ev remaining_revoke)
  next
    case (DeleteExpiredGrants d)
    then show ?thesis using remaining_delete[OF assms] by (simp add: ev)
  qed
qed

lemma granted_Cons: "granted h (ev # evs) = granted h [ev] + granted h evs"
  by (cases ev rule: prod_cases3; cases "snd (snd ev)") simp_all

lemma redeemed_Cons:
  "redeemed sha h (ev # evs) rows = redeemed sha h [ev] rows + redeemed sha h evs (grant_step sha ev rows)"
  by (cases ev rule: prod_cases3) simp

text \<open>
  C2: Over every run of creations, redemptions, revocations and purges, at any times and with
  any storage failures, the successful redemptions of one token are at most the uses its
  grant had left at the start plus those granted to it during the run: no interleaving spends
  a use twice.
\<close>

theorem no_double_spend:
  assumes "grants_ok rows"
  shows "redeemed sha h evs rows \<le> remaining h rows + granted h evs"
  using assms
proof (induction evs arbitrary: rows)
  case Nil
  then show ?case by (simp add: remaining_nonneg)
next
  case (Cons ev evs)
  from Cons.IH[OF grant_step_ok[OF Cons.prems, of sha ev]] redeemed_step[OF Cons.prems, of sha h ev]
  show ?case by (subst granted_Cons, subst redeemed_Cons) linarith
qed

definition demo_redeems :: "grant_event list" where
  "demo_redeems = [(0, None, RedeemGrant ''hi''), (second, None, RedeemGrant ''hi'')]"

theorem no_double_spend_witness:
  "redeemed (\<lambda>s. s) ''6869'' demo_redeems [demo_grant] \<le> 1"
proof -
  have "grants_ok [demo_grant]" by (simp add: grants_ok_def demo_grant_def)
  from no_double_spend[OF this, of "\<lambda>s. s" "''6869''" demo_redeems] show ?thesis
    by (simp add: remaining_def find_grant_def demo_grant_def demo_redeems_def)
qed

subsection \<open>Revocation is final\<close>

definition unusable :: "string \<Rightarrow> grant_row list \<Rightarrow> bool" where
  "unusable h rows \<longleftrightarrow> (\<forall>g. find_grant h rows = Some g \<longrightarrow> g_revoked_at g \<noteq> None)"

definition creates :: "string \<Rightarrow> grant_event \<Rightarrow> bool" where
  "creates h ev \<longleftrightarrow> (case snd (snd ev) of CreateGrant g k \<Rightarrow> k = h | _ \<Rightarrow> False)"

lemma unusable_redeem:
  assumes "grants_ok rows" and "unusable (hash_grant_token sha raw) rows"
  shows "\<exists>e. redeem_grant sha ft now raw rows = (Inl e, rows)"
proof (cases "redeem_grant sha ft now raw rows")
  case (Pair res rows')
  show ?thesis
  proof (cases res)
    case (Inl e)
    with Pair redeem_failure[of sha ft now raw rows e rows'] show ?thesis by simp
  next
    case (Inr r)
    with redeem_success[OF assms(1), of sha ft now raw r rows'] Pair assms(2) show ?thesis
      by (auto simp: unusable_def redeemable_def)
  qed
qed

lemma unusable_update:
  "unusable h rows \<Longrightarrow> (\<And>r. g_token_hash (f r) = g_token_hash r) \<Longrightarrow>
   (\<And>r. g_revoked_at r \<noteq> None \<Longrightarrow> g_revoked_at (f r) \<noteq> None) \<Longrightarrow> unusable h (update_where p f rows)"
  by (auto simp: unusable_def find_grant_update)

lemma unusable_step:
  assumes "grants_ok rows" and "unusable h rows" and "\<not> creates h ev"
  shows "unusable h (grant_step sha ev rows)"
proof -
  obtain now ft c where ev: "ev = (now, ft, c)" by (cases ev rule: prod_cases3)
  show ?thesis
  proof (cases c)
    case (CreateGrant g k)
    with assms ev show ?thesis
      by (auto simp: unusable_def create_grant_def creates_def find_grant_def find_append Let_def split: option.splits)
  next
    case (RedeemGrant raw)
    with assms(2) ev show ?thesis
      by (auto simp: redeem_grant_def Let_def intro!: unusable_update split: option.splits)
  next
    case (RevokeGrant i ft2)
    with assms(2) ev show ?thesis
      by (auto simp: revoke_grant_def intro!: unusable_update split: option.splits)
  next
    case (DeleteExpiredGrants d)
    with assms ev show ?thesis
      by (auto simp: unusable_def delete_expired_grants_def find_grant_delete Let_def split: option.splits if_splits)
  qed
qed

lemma unusable_run:
  "grants_ok rows \<Longrightarrow> unusable h rows \<Longrightarrow> (\<And>ev. ev \<in> set evs \<Longrightarrow> \<not> creates h ev) \<Longrightarrow>
   unusable h (grant_run sha evs rows)"
  unfolding grant_run_def
  by (induction evs arbitrary: rows) (simp_all add: grant_step_ok unusable_step)

lemma revoke_unusable:
  assumes "grants_ok rows" and "g \<in> set rows"
  shows "unusable (g_token_hash g) (snd (revoke_grant None ft2 now (g_id g) rows))"
proof -
  have "find_grant (g_token_hash g) rows = Some g"
    using assms find_Some_iff_unique[of g_token_hash rows "g_token_hash g" g]
    by (simp add: grants_ok_def find_grant_def)
  then show ?thesis
    by (cases "g_revoked_at g") (simp_all add: unusable_def revoke_grant_def find_grant_update live_id_def)
qed

text \<open>
  Once a grant has been revoked, no later redemption of its token succeeds, whatever is
  done to the table in between short of issuing the same token again, and the failed
  redemption changes nothing.
\<close>

theorem revoked_never_redeemed:
  assumes "grants_ok rows" and "g \<in> set rows" and "hash_grant_token sha raw = g_token_hash g"
    and "\<forall>ev\<in>set evs. \<not> creates (g_token_hash g) ev"
    and "later = grant_run sha evs (snd (revoke_grant None ft2 now (g_id g) rows))"
  shows "\<exists>e. redeem_grant sha ft now' raw later = (Inl e, later)"
  unfolding assms(5)
  using assms by (intro unusable_redeem grant_run_ok revoke_grants_ok) (simp_all add: unusable_run revoke_unusable revoke_grants_ok)

theorem revoked_never_redeemed_witness:
  "\<exists>e. redeem_grant (\<lambda>s. s) None second ''hi''
      (grant_run (\<lambda>s. s) demo_redeems (snd (revoke_grant None None 0 1 [demo_grant]))) =
    (Inl e, grant_run (\<lambda>s. s) demo_redeems (snd (revoke_grant None None 0 1 [demo_grant])))"
proof -
  have "grants_ok [demo_grant]" "demo_grant \<in> set [demo_grant]"
    "hash_grant_token (\<lambda>s. s) ''hi'' = g_token_hash demo_grant"
    "\<forall>ev\<in>set demo_redeems. \<not> creates (g_token_hash demo_grant) ev"
    by (simp_all add: grants_ok_def demo_grant_def hash_grant_token_def hex_encode_def hex_digit_def
        demo_redeems_def creates_def)
  from revoked_never_redeemed[OF this refl, of None second None 0] show ?thesis
    by (simp add: demo_grant_def)
qed

subsection \<open>What the console shows\<close>

text \<open>
  The console's status of a grant is \<open>active\<close> exactly when the grant can be redeemed at
  that time, except at the very instant of its expiry, where it is still shown active and is
  no longer redeemable.
\<close>

theorem status_active_iff:
  "grant_status now g = ''active'' \<longleftrightarrow>
     redeemable (to_secs now) g \<or>
     g_revoked_at g = None \<and> g_use_count g < g_max_uses g \<and> now = of_secs (g_expires_at g)"
proof -
  have "of_secs (g_expires_at g) < now \<longleftrightarrow> \<not> (to_secs now < g_expires_at g) \<and> now \<noteq> of_secs (g_expires_at g)"
  proof -
    have m: "now = second * to_secs now + now mod second" by (simp add: to_secs_def)
    have b: "0 \<le> now mod second" "now mod second < second" by (simp_all add: second_def)
    show ?thesis
    proof (cases "to_secs now < g_expires_at g")
      case True
      then have "second * (to_secs now + 1) \<le> of_secs (g_expires_at g)"
        by (simp add: of_secs_def second_def)
      then have "now < of_secs (g_expires_at g)" using m b by (simp add: ring_distribs)
      with True show ?thesis by simp
    next
      case False
      then have "of_secs (g_expires_at g) \<le> second * to_secs now" by (simp add: of_secs_def second_def)
      with False m b show ?thesis by linarith
    qed
  qed
  then show ?thesis by (auto simp: grant_status_def redeemable_def)
qed

subsection \<open>The interface\<close>

locale redeemer =
  fixes redeem :: "fault \<Rightarrow> nanos \<Rightarrow> string \<Rightarrow> 'st \<Rightarrow> (grant_err + redemption) \<times> 'st"
    and inv :: "'st \<Rightarrow> bool"
    and budget :: "string \<Rightarrow> 'st \<Rightarrow> int"
  assumes keeps: "inv st \<Longrightarrow> inv (snd (redeem ft now raw st))"
    and costs_one: "inv st \<Longrightarrow> redeem ft now raw st = (Inr r, st') \<Longrightarrow> budget raw st' = budget raw st - 1"
    and never_gains: "inv st \<Longrightarrow> budget k (snd (redeem ft now raw st)) \<le> budget k st"
    and refusal_free: "redeem ft now raw st = (Inl e, st') \<Longrightarrow> st' = st"
    and in_budget: "inv st \<Longrightarrow> 0 \<le> budget k st"

interpretation gr: redeemer "redeem_grant sha" grants_ok "\<lambda>raw. remaining (hash_grant_token sha raw)" for sha
proof unfold_locales
  fix st :: "grant_row list" and ft now raw k
  assume ok: "grants_ok st"
  show "remaining (hash_grant_token sha k) (snd (redeem_grant sha ft now raw st)) \<le> remaining (hash_grant_token sha k) st"
  proof (cases "redeem_grant sha ft now raw st")
    case (Pair res st')
    then show ?thesis
      using remaining_redeem[OF ok, of sha ft now raw _ st' "hash_grant_token sha k"]
        redeem_failure[of sha ft now raw st _ st'] by (cases res) auto
  qed
qed (simp_all add: redeem_grants_ok remaining_redeem redeem_failure remaining_nonneg)

end
