(* ===== verification/ProfileBuild.thy ===== *)
theory ProfileBuild
  imports Prelude "HOL-Library.Word"
begin

section \<open>Configuration profiles\<close>

text \<open>
  \<open>internal/profile/profile.go\<close>, \<open>payloads.go\<close> and \<open>parse.go\<close>.  A profile is a property list,
  a Go map rendered with its keys sorted: here an association list with each key once.  The
  random bytes of the \<open>n\<close>-th UUID that a builder draws are \<open>rnd n\<close>.  The plist codec and the
  PKCS7 parser are parameters; text is its UTF-8 bytes.
\<close>

datatype pval = VStr string | VNum int | VBool bool | VData string | VArr "pval list" | VDict "(string \<times> pval) list"

type_synonym payload = "(string \<times> pval) list"

unbundle bit_operations_syntax

definition hex_run :: "8 word list \<Rightarrow> string" where
  "hex_run bs = concat (map (\<lambda>b. [hex_digit (unat b div 16), hex_digit (unat b mod 16)]) bs)"

definition new_uuid :: "8 word list \<Rightarrow> string" where
  "new_uuid b0 =
     (let b = b0[6 := (b0 ! 6 AND 0x0f) OR 0x40, 8 := (b0 ! 8 AND 0x3f) OR 0x80]
      in join_with ''-'' [hex_run (take 4 b), hex_run (take 2 (drop 4 b)), hex_run (take 2 (drop 6 b)),
           hex_run (take 2 (drop 8 b)), hex_run (drop 10 b)])"

subsection \<open>The enrollment profile\<close>

record enrollment_params =
  ep_organization :: string
  ep_display :: string
  ep_anchors :: "string list"
  ep_scep_url :: string
  ep_scep_name :: string
  ep_subject_cn :: string
  ep_challenge :: string
  ep_key_size :: int
  ep_owner :: string
  ep_server_url :: string
  ep_checkin_url :: string
  ep_topic :: string

definition subject_of :: "string \<Rightarrow> pval" where
  "subject_of cn = VArr [VArr [VArr [VStr ''CN'', VStr cn]]]"

definition scep_content :: "enrollment_params \<Rightarrow> payload" where
  "scep_content p =
     [(''URL'', VStr (ep_scep_url p)), (''Name'', VStr (ep_scep_name p)), (''Subject'', subject_of (ep_subject_cn p)),
      (''Key Type'', VStr ''RSA''), (''Key Usage'', VNum 5), (''Keysize'', VNum (ep_key_size p)),
      (''Challenge'', VStr (ep_challenge p)), (''Retries'', VNum 3), (''RetryDelay'', VNum 10)] @
     (if ep_owner p \<noteq> [] then [(''SubjectAltName'', VDict [(''rfc822Name'', VStr (ep_owner p))])] else [])"

definition root_payload :: "string \<Rightarrow> string \<Rightarrow> string \<Rightarrow> string \<Rightarrow> payload" where
  "root_payload ident uuid display der =
     [(''PayloadType'', VStr ''com.apple.security.root''), (''PayloadVersion'', VNum 1), (''PayloadIdentifier'', VStr ident),
      (''PayloadUUID'', VStr uuid), (''PayloadDisplayName'', VStr display), (''PayloadContent'', VData der)]"

definition roots_of :: "(nat \<Rightarrow> string) \<Rightarrow> (nat \<Rightarrow> string) \<Rightarrow> string \<Rightarrow> string list \<Rightarrow> payload list" where
  \<comment> \<open>one certificate payload for each anchor\<close>
  "roots_of ident uuid display ders = map (\<lambda>(i, der). root_payload (ident i) (uuid i) display der) (enumerate 0 ders)"

definition configuration :: "string \<Rightarrow> string \<Rightarrow> string \<Rightarrow> string \<Rightarrow> payload list \<Rightarrow> payload" where
  "configuration ident uuid display org content =
     [(''PayloadType'', VStr ''Configuration''), (''PayloadVersion'', VNum 1), (''PayloadIdentifier'', VStr ident),
      (''PayloadUUID'', VStr uuid), (''PayloadDisplayName'', VStr display), (''PayloadOrganization'', VStr org),
      (''PayloadContent'', VArr (map VDict content))]"

definition scep_payload :: "string \<Rightarrow> string \<Rightarrow> string \<Rightarrow> payload \<Rightarrow> payload" where
  "scep_payload ident uuid display content =
     [(''PayloadType'', VStr ''com.apple.security.scep''), (''PayloadVersion'', VNum 1), (''PayloadIdentifier'', VStr ident),
      (''PayloadUUID'', VStr uuid), (''PayloadDisplayName'', VStr display), (''PayloadContent'', VDict content)]"

definition mdm_payload :: "enrollment_params \<Rightarrow> string \<Rightarrow> string \<Rightarrow> payload" where
  "mdm_payload p uuid scep_uuid =
     [(''PayloadType'', VStr ''com.apple.mdm''), (''PayloadVersion'', VNum 1),
      (''PayloadIdentifier'', VStr (ep_organization p @ ''.mdm'')), (''PayloadUUID'', VStr uuid),
      (''PayloadDisplayName'', VStr ''Device Management''), (''IdentityCertificateUUID'', VStr scep_uuid),
      (''ServerURL'', VStr (ep_server_url p)), (''CheckInURL'', VStr (ep_checkin_url p)), (''Topic'', VStr (ep_topic p)),
      (''ServerCapabilities'', VArr [VStr ''com.apple.mdm.per-user-connections'']), (''SignMessage'', VBool True),
      (''AccessRights'', VNum 8191)]"

definition build_enrollment :: "(nat \<Rightarrow> 8 word list) \<Rightarrow> enrollment_params \<Rightarrow> string + payload" where
  "build_enrollment rnd p0 =
     (if ep_organization p0 = [] then Inl ''profile: organization is required''
      else if ep_topic p0 = [] then Inl ''profile: MDM Topic is required (load an APNs push certificate first)''
      else
        let p = (if ep_key_size p0 = 0 then p0\<lparr>ep_key_size := 2048\<rparr> else p0);
            org = ep_organization p;
            scep_uuid = new_uuid (rnd 0);
            mdm_uuid = new_uuid (rnd 1);
            roots = roots_of (\<lambda>i. org @ ''.ca.'' @ nat_str i) (\<lambda>i. new_uuid (rnd (2 + i))) ''Certificate Authority'' (ep_anchors p);
            scep = scep_payload (org @ ''.scep'') scep_uuid ''Device Identity (SCEP)'' (scep_content p);
            display = (if ep_display p = [] then ''Cairn Enrollment'' else ep_display p)
        in Inr (configuration (org @ ''.enroll'') (new_uuid (rnd (2 + length (ep_anchors p)))) display org
             (roots @ [scep, mdm_payload p mdm_uuid scep_uuid])))"

subsection \<open>Wi-Fi\<close>

record wifi_params =
  wf_organization :: string
  wf_display :: string
  wf_ssid :: string
  wf_hidden :: bool
  wf_autojoin :: bool
  wf_password :: string
  wf_enterprise :: bool
  wf_scep_url :: string
  wf_challenge :: string
  wf_subject_cn :: string
  wf_key_size :: int
  wf_anchors :: "string list"
  wf_server_names :: "string list"

definition slug_char :: "char \<Rightarrow> string" where
  "slug_char c =
     (if in_range (CHR ''a'') (CHR ''z'') c \<or> in_range (CHR ''0'') (CHR ''9'') c then [c]
      else if in_range (CHR ''A'') (CHR ''Z'') c then [to_lower c]
      else if c \<in> {CHR '' '', CHR ''-'', CHR ''_'', CHR ''.''} then ''-''
      else [])"

definition slugify :: "string \<Rightarrow> string" where
  "slugify s =
     (let out = trim_both (\<lambda>c. c = CHR ''-'') (concat (map slug_char s))
      in if out = [] then ''network'' else out)"

definition wifi_network :: "wifi_params \<Rightarrow> string \<Rightarrow> string \<Rightarrow> payload" where
  "wifi_network p ident uuid =
     [(''PayloadType'', VStr ''com.apple.wifi.managed''), (''PayloadVersion'', VNum 1), (''PayloadIdentifier'', VStr ident),
      (''PayloadUUID'', VStr uuid), (''PayloadDisplayName'', VStr (''Wi-Fi ('' @ wf_ssid p @ '')'')),
      (''SSID_STR'', VStr (wf_ssid p)), (''HIDDEN_NETWORK'', VBool (wf_hidden p)), (''AutoJoin'', VBool (wf_autojoin p))]"

definition wifi_scep_content :: "wifi_params \<Rightarrow> payload" where
  "wifi_scep_content p =
     [(''URL'', VStr (wf_scep_url p)), (''Subject'', subject_of (wf_subject_cn p)), (''Key Type'', VStr ''RSA''),
      (''Key Usage'', VNum 5), (''Keysize'', VNum (if wf_key_size p = 0 then 2048 else wf_key_size p)),
      (''Challenge'', VStr (wf_challenge p)), (''Retries'', VNum 3), (''RetryDelay'', VNum 10)]"

definition wifi_base :: "wifi_params \<Rightarrow> string" where
  \<comment> \<open>what the builder's \<open>id\<close> puts before the suffix\<close>
  "wifi_base p = wf_organization p @ ''.wifi.'' @ slugify (wf_ssid p) @ ''.''"

definition wifi_payloads :: "(nat \<Rightarrow> 8 word list) \<Rightarrow> wifi_params \<Rightarrow> string + payload list \<times> nat" where
  \<comment> \<open>the payloads and the number of UUIDs drawn for them\<close>
  "wifi_payloads rnd p =
     (let base = wifi_base p;
          wifi = wifi_network p (base @ ''network'') (new_uuid (rnd 0))
      in if \<not> wf_enterprise p then
           (if wf_password p = [] then Inl ''profile: PSK Wi-Fi needs a password''
            else Inr ([wifi @ [(''EncryptionType'', VStr ''WPA''), (''Password'', VStr (wf_password p))]], 1))
         else if wf_scep_url p = [] \<or> wf_subject_cn p = [] then
           Inl ''profile: EAP-TLS Wi-Fi needs a SCEP URL and subject CN''
         else if wf_anchors p = [] then Inl ''profile: EAP-TLS Wi-Fi needs at least one RADIUS CA anchor''
         else
           let n = length (wf_anchors p);
               uuids = map (\<lambda>i. new_uuid (rnd (1 + i))) [0..<n];
               roots = roots_of (\<lambda>i. base @ ''ca.'' @ nat_str i) (\<lambda>i. new_uuid (rnd (1 + i)))
                   ''RADIUS Certificate Authority'' (wf_anchors p);
               scep_uuid = new_uuid (rnd (1 + n));
               scep = scep_payload (base @ ''identity'') scep_uuid ''Wi-Fi Identity (SCEP)'' (wifi_scep_content p);
               eap = [(''AcceptEAPTypes'', VArr [VNum 13]), (''PayloadCertificateAnchorUUID'', VArr (map VStr uuids))] @
                 (if wf_server_names p \<noteq> [] then [(''TLSTrustedServerNames'', VArr (map VStr (wf_server_names p)))] else [])
           in Inr (roots @ [scep, wifi @ [(''EncryptionType'', VStr ''WPA2''), (''EAPClientConfiguration'', VDict eap),
                (''PayloadCertificateUUID'', VStr scep_uuid)]], 2 + n))"

definition build_wifi :: "(nat \<Rightarrow> 8 word list) \<Rightarrow> wifi_params \<Rightarrow> string + payload" where
  "build_wifi rnd p =
     (if wf_organization p = [] \<or> wf_ssid p = [] then Inl ''profile: organization and SSID are required''
      else case wifi_payloads rnd p of
        Inl e \<Rightarrow> Inl e
      | Inr (payloads, drawn) \<Rightarrow>
          Inr (configuration (wf_organization p @ ''.wifi.'' @ slugify (wf_ssid p)) (new_uuid (rnd drawn))
            (if wf_display p = [] then ''Wi-Fi: '' @ wf_ssid p else wf_display p) (wf_organization p) payloads))"

subsection \<open>Kerberos single sign-on\<close>

record sso_params =
  ss_organization :: string
  ss_display :: string
  ss_realm :: string
  ss_hosts :: "string list"
  ss_default :: bool
  ss_sync :: bool
  ss_auto_login :: bool
  ss_discovery :: bool

definition build_kerberos_sso :: "(nat \<Rightarrow> 8 word list) \<Rightarrow> sso_params \<Rightarrow> string + payload" where
  "build_kerberos_sso rnd p =
     (if ss_organization p = [] \<or> ss_realm p = [] then Inl ''profile: organization and realm are required''
      else if ss_hosts p = [] then Inl ''profile: at least one host suffix is required''
      else
        let realm = upper (trim_space (ss_realm p));
            sso = [(''PayloadType'', VStr ''com.apple.extensiblesso''), (''PayloadVersion'', VNum 1),
               (''PayloadIdentifier'', VStr (ss_organization p @ ''.sso.kerberos'')), (''PayloadUUID'', VStr (new_uuid (rnd 0))),
               (''PayloadDisplayName'', VStr ''Kerberos Single Sign-On''),
               (''ExtensionIdentifier'', VStr ''com.apple.AppSSOKerberos.KerberosExtension''),
               (''TeamIdentifier'', VStr ''apple''), (''Type'', VStr ''Credential''), (''Realm'', VStr realm),
               (''Hosts'', VArr (map (\<lambda>h. VStr (trim_space h)) (ss_hosts p))),
               (''ExtensionData'', VDict [(''isDefaultRealm'', VBool (ss_default p)), (''syncLocalPassword'', VBool (ss_sync p)),
                  (''allowAutomaticLogin'', VBool (ss_auto_login p)), (''useSiteAutoDiscovery'', VBool (ss_discovery p))])];
            display = (if ss_display p = [] then ''Kerberos SSO ('' @ realm @ '')'' else ss_display p)
        in Inr (configuration (ss_organization p @ ''.sso.'' @ lower realm) (new_uuid (rnd 1)) display (ss_organization p) [sso]))"

subsection \<open>Reading the metadata back\<close>

record profile_info =
  pi_identifier :: string
  pi_uuid :: string
  pi_name :: string
  pi_organization :: string
  pi_types :: "string list"

record profile_top =
  pt_type :: string
  pt_identifier :: string
  pt_uuid :: string
  pt_display :: string
  pt_organization :: string
  pt_content :: "payload list"

function skip_blank :: "string \<Rightarrow> string" where
  \<comment> \<open>\<open>strings.TrimLeft\<close> of spaces and of the byte-order mark EF BB BF\<close>
  "skip_blank s =
     (if s \<noteq> [] \<and> hd s \<in> {CHR '' '', CHR 0x09, CHR 0x0D, CHR 0x0A} then skip_blank (tl s)
      else if has_prefix s [CHR 0xEF, CHR 0xBB, CHR 0xBF] then skip_blank (drop 3 s)
      else s)"
  by pat_completeness auto

termination
  by (relation "measure length") (auto simp: has_prefix_iff)

declare skip_blank.simps [simp del]

definition looks_like_xml :: "string \<Rightarrow> bool" where
  "looks_like_xml b =
     (let s = skip_blank (take 64 b) in has_prefix s ''<?xml'' \<or> has_prefix s ''<!DOCTYPE'' \<or> has_prefix s ''<plist'')"

definition body_of :: "(string \<Rightarrow> string + string) \<Rightarrow> string \<Rightarrow> string + string" where
  "body_of pkcs7 data =
     (if looks_like_xml data then Inr data
      else case pkcs7 data of
        Inl e \<Rightarrow> Inl (''profile: not an XML plist and not a signed (CMS) profile: '' @ e)
      | Inr content \<Rightarrow> if looks_like_xml content then Inr content
                      else Inl ''profile: signed content is not an XML plist'')"

definition payload_type :: "payload \<Rightarrow> string" where
  "payload_type p = (case map_of p ''PayloadType'' of Some (VStr t) \<Rightarrow> t | _ \<Rightarrow> [])"

definition inner_types :: "payload list \<Rightarrow> string list" where
  "inner_types ps = sort (remdups (filter (\<lambda>t. t \<noteq> []) (map payload_type ps)))"

definition parse_info :: "(string \<Rightarrow> string + string) \<Rightarrow> (string \<Rightarrow> string + profile_top) \<Rightarrow> string \<Rightarrow> string + profile_info" where
  "parse_info pkcs7 unmarshal data =
     and_then (body_of pkcs7 data) (\<lambda>body.
       case unmarshal body of
         Inl e \<Rightarrow> Inl (''profile: parse plist: '' @ e)
       | Inr t \<Rightarrow>
           if pt_type t \<noteq> ''Configuration'' then Inl ''profile: top-level PayloadType is not Configuration''
           else if pt_identifier t = [] then Inl ''profile: missing PayloadIdentifier''
           else Inr \<lparr>pi_identifier = pt_identifier t, pi_uuid = pt_uuid t,
                  pi_name = (if pt_display t = [] then pt_identifier t else pt_display t),
                  pi_organization = pt_organization t, pi_types = inner_types (pt_content t)\<rparr>)"

subsection \<open>The payloads of a profile belong together\<close>

definition holds_cert :: "string \<Rightarrow> payload \<Rightarrow> bool" where
  "holds_cert der ca \<longleftrightarrow> payload_type ca = ''com.apple.security.root'' \<and> map_of ca ''PayloadContent'' = Some (VData der)"

lemma roots_certs:
  "(\<exists>ca\<in>set (map (\<lambda>(i, der). root_payload (ident i) (uuid i) display der) (enumerate n ders)). holds_cert der ca) \<longleftrightarrow> der \<in> set ders"
  by (induction ders arbitrary: n) (auto simp: holds_cert_def root_payload_def payload_type_def)

lemmas payload_defs = root_payload_def scep_payload_def mdm_payload_def configuration_def

lemma roots_of_certs [simp]: "(\<exists>ca\<in>set (roots_of ident uuid display ders). holds_cert der ca) \<longleftrightarrow> der \<in> set ders"
  unfolding roots_of_def by (rule roots_certs)

lemma length_roots_of [simp]: "length (roots_of ident uuid display ders) = length ders"
  by (simp add: roots_of_def)

definition identity_bound :: "payload list \<Rightarrow> payload \<Rightarrow> payload \<Rightarrow> string \<Rightarrow> bool" where
  \<comment> \<open>\<open>user\<close>'s certificate reference \<open>k\<close> names the UUID of the SCEP payload \<open>scep\<close> beside it\<close>
  "identity_bound content user scep k \<longleftrightarrow> user \<in> set content \<and> scep \<in> set content \<and>
     payload_type scep = ''com.apple.security.scep'' \<and> map_of user k \<noteq> None \<and> map_of user k = map_of scep ''PayloadUUID''"

lemma enrollment_request:
  assumes "build_enrollment rnd p = Inr prof"
  shows "ep_topic p \<noteq> [] \<and> (\<exists>content scep q. map_of prof ''PayloadContent'' = Some (VArr (map VDict content)) \<and>
    scep \<in> set content \<and> payload_type scep = ''com.apple.security.scep'' \<and>
    map_of scep ''PayloadContent'' = Some (VDict (scep_content q)) \<and>
    ep_owner q = ep_owner p \<and> ep_subject_cn q = ep_subject_cn p \<and> ep_scep_url q = ep_scep_url p)"
proof -
  define q where "q = (if ep_key_size p = 0 then p\<lparr>ep_key_size := 2048\<rparr> else p)"
  from assms obtain i u d org roots mdm su where "ep_topic p \<noteq> []"
    and b: "prof = configuration i u d org (roots @ [scep_payload (ep_organization q @ ''.scep'') su ''Device Identity (SCEP)'' (scep_content q), mdm])"
    by (auto simp: build_enrollment_def Let_def q_def[symmetric] split: if_splits)
  moreover have "payload_type (scep_payload a b c (scep_content q)) = ''com.apple.security.scep''"
    "map_of (scep_payload a b c (scep_content q)) ''PayloadContent'' = Some (VDict (scep_content q))" for a b c
    by (simp_all add: scep_payload_def payload_type_def)
  moreover have "ep_owner q = ep_owner p" "ep_subject_cn q = ep_subject_cn p" "ep_scep_url q = ep_scep_url p" by (simp_all add: q_def)
  moreover have "map_of (configuration i u d org content) ''PayloadContent'' = Some (VArr (map VDict content))" for content
    by (simp add: configuration_def)
  ultimately show ?thesis
    by (intro conjI exI[of _ "roots @ [scep_payload (ep_organization q @ ''.scep'') su ''Device Identity (SCEP)'' (scep_content q), mdm]"]
        exI[of _ "scep_payload (ep_organization q @ ''.scep'') su ''Device Identity (SCEP)'' (scep_content q)"] exI[of _ q]) simp_all
qed

lemma enrollment_profile_complete:
  "case build_enrollment rnd p of
     Inl e \<Rightarrow> ep_organization p = [] \<or> ep_topic p = []
   | Inr prof \<Rightarrow> ep_organization p \<noteq> [] \<and> ep_topic p \<noteq> [] \<and>
       (\<exists>content scep mdm req. map_of prof ''PayloadContent'' = Some (VArr (map VDict content)) \<and>
          identity_bound content mdm scep ''IdentityCertificateUUID'' \<and> payload_type mdm = ''com.apple.mdm'' \<and>
          map_of mdm ''Topic'' = Some (VStr (ep_topic p)) \<and> map_of mdm ''ServerURL'' = Some (VStr (ep_server_url p)) \<and>
          map_of scep ''PayloadContent'' = Some (VDict req) \<and> map_of req ''Subject'' = Some (subject_of (ep_subject_cn p)) \<and>
          map_of req ''URL'' = Some (VStr (ep_scep_url p)) \<and> map_of req ''Challenge'' = Some (VStr (ep_challenge p)) \<and>
          map_of req ''SubjectAltName'' =
            (if ep_owner p = [] then None else Some (VDict [(''rfc822Name'', VStr (ep_owner p))])) \<and>
          (\<forall>der. (\<exists>ca\<in>set content. holds_cert der ca) = (der \<in> set (ep_anchors p))))"
proof (cases "ep_organization p = [] \<or> ep_topic p = []")
  case True
  then show ?thesis by (auto simp: build_enrollment_def)
next
  case False
  define q where "q = (if ep_key_size p = 0 then p\<lparr>ep_key_size := 2048\<rparr> else p)"
  define scep where "scep = scep_payload (ep_organization q @ ''.scep'') (new_uuid (rnd 0)) ''Device Identity (SCEP)'' (scep_content q)"
  define mdm where "mdm = mdm_payload q (new_uuid (rnd 1)) (new_uuid (rnd 0))"
  define content where "content = roots_of (\<lambda>i. ep_organization q @ ''.ca.'' @ nat_str i) (\<lambda>i. new_uuid (rnd (2 + i)))
     ''Certificate Authority'' (ep_anchors q) @ [scep, mdm]"
  have q: "ep_anchors q = ep_anchors p" "ep_topic q = ep_topic p" "ep_server_url q = ep_server_url p"
    "ep_owner q = ep_owner p" "ep_subject_cn q = ep_subject_cn p" "ep_scep_url q = ep_scep_url p" "ep_challenge q = ep_challenge p"
    by (simp_all add: q_def)
  obtain i u d org where b: "build_enrollment rnd p = Inr (configuration i u d org content)"
    using False by (simp add: build_enrollment_def Let_def q_def[symmetric] content_def scep_def mdm_def)
  have c: "map_of (configuration i u d org content) ''PayloadContent'' = Some (VArr (map VDict content))"
    by (simp add: configuration_def)
  have bound: "identity_bound content mdm scep ''IdentityCertificateUUID''"
    by (simp add: identity_bound_def content_def) (simp add: scep_def mdm_def payload_defs payload_type_def)
  have m: "payload_type mdm = ''com.apple.mdm''" "map_of mdm ''Topic'' = Some (VStr (ep_topic p))"
    "map_of mdm ''ServerURL'' = Some (VStr (ep_server_url p))"
    by (simp_all add: mdm_def mdm_payload_def payload_type_def q)
  have s: "map_of scep ''PayloadContent'' = Some (VDict (scep_content q))" by (simp add: scep_def scep_payload_def)
  have r: "map_of (scep_content q) ''Subject'' = Some (subject_of (ep_subject_cn p))"
    "map_of (scep_content q) ''URL'' = Some (VStr (ep_scep_url p))" "map_of (scep_content q) ''Challenge'' = Some (VStr (ep_challenge p))"
    "map_of (scep_content q) ''SubjectAltName'' =
       (if ep_owner p = [] then None else Some (VDict [(''rfc822Name'', VStr (ep_owner p))]))"
    by (simp_all add: scep_content_def q)
  have "\<not> holds_cert der scep \<and> \<not> holds_cert der mdm" for der
    by (simp add: holds_cert_def scep_def mdm_def payload_defs payload_type_def)
  then have certs: "\<forall>der. (\<exists>ca\<in>set content. holds_cert der ca) = (der \<in> set (ep_anchors p))"
    by (simp add: content_def bex_Un q)
  show ?thesis
    unfolding b sum.case
    using False c bound m s r certs by blast
qed

text \<open>
  An enrollment profile is built exactly when there is an organization and an APNs topic,
  and it is then complete: its MDM payload carries the topic and the server's URL and is
  bound to the identity of the SCEP payload of the same profile; the certificates it installs
  are exactly the trust anchors; and the identity request goes to the SCEP server with the challenge and names the owner exactly when there
  is one.
\<close>

theorem enrollment_profile_wired:
  "case build_enrollment rnd p of
     Inl e \<Rightarrow> ep_organization p = [] \<or> ep_topic p = []
   | Inr prof \<Rightarrow> ep_organization p \<noteq> [] \<and> ep_topic p \<noteq> [] \<and>
       (\<exists>content scep mdm req. map_of prof ''PayloadContent'' = Some (VArr (map VDict content)) \<and>
          identity_bound content mdm scep ''IdentityCertificateUUID'' \<and> payload_type mdm = ''com.apple.mdm'' \<and>
          map_of mdm ''Topic'' = Some (VStr (ep_topic p)) \<and> map_of mdm ''ServerURL'' = Some (VStr (ep_server_url p)) \<and>
          map_of scep ''PayloadContent'' = Some (VDict req) \<and> map_of req ''Subject'' = Some (subject_of (ep_subject_cn p)) \<and>
          map_of req ''URL'' = Some (VStr (ep_scep_url p)) \<and> map_of req ''Challenge'' = Some (VStr (ep_challenge p)) \<and>
          map_of req ''SubjectAltName'' =
            (if ep_owner p = [] then None else Some (VDict [(''rfc822Name'', VStr (ep_owner p))])) \<and>
          (\<forall>der. (\<exists>ca\<in>set content. holds_cert der ca) = (der \<in> set (ep_anchors p))))"
  by (rule enrollment_profile_complete)

lemma roots_of_uuid:
  "i < length ders \<Longrightarrow> \<exists>ca\<in>set (roots_of ident uuid display ders). payload_type ca = ''com.apple.security.root'' \<and>
     map_of ca ''PayloadUUID'' = Some (VStr (uuid i))"
proof -
  assume "i < length ders"
  then have "(i, ders ! i) \<in> set (enumerate 0 ders)"
    using nth_enumerate_eq[of i ders 0] nth_mem[of i "enumerate 0 ders"] by simp
  then have "root_payload (ident i) (uuid i) display (ders ! i) \<in> set (roots_of ident uuid display ders)"
    unfolding roots_of_def by (auto intro: rev_image_eqI)
  then show ?thesis by (rule rev_bexI) (simp add: root_payload_def payload_type_def)
qed

definition wifi_rejected :: "wifi_params \<Rightarrow> bool" where
  "wifi_rejected p \<longleftrightarrow> wf_organization p = [] \<or> wf_ssid p = [] \<or> (\<not> wf_enterprise p \<and> wf_password p = []) \<or>
     (wf_enterprise p \<and> (wf_scep_url p = [] \<or> wf_subject_cn p = [] \<or> wf_anchors p = []))"

text \<open>
  A Wi-Fi profile is refused exactly when its parameters are incomplete, and it is
  otherwise self-contained: a personal network carries its password and nothing else; an
  enterprise network is bound to the SCEP identity of the same profile, anchors its trust in
  a non-empty list of certificate payloads that are all in the same profile, which installs
  exactly the configured RADIUS anchors, and carries no password.
\<close>

theorem wifi_profile_wired:
  "case build_wifi rnd p of
     Inl e \<Rightarrow> wifi_rejected p
   | Inr prof \<Rightarrow> \<not> wifi_rejected p \<and>
       (\<exists>content wifi. map_of prof ''PayloadContent'' = Some (VArr (map VDict content)) \<and>
          payload_type wifi = ''com.apple.wifi.managed'' \<and> map_of wifi ''SSID_STR'' = Some (VStr (wf_ssid p)) \<and>
          (if \<not> wf_enterprise p then content = [wifi] \<and> map_of wifi ''Password'' = Some (VStr (wf_password p))
           else \<exists>scep eap uuids. identity_bound content wifi scep ''PayloadCertificateUUID'' \<and>
             map_of wifi ''Password'' = None \<and> map_of wifi ''EAPClientConfiguration'' = Some (VDict eap) \<and>
             map_of eap ''PayloadCertificateAnchorUUID'' = Some (VArr (map VStr uuids)) \<and> uuids \<noteq> [] \<and>
             (\<forall>u\<in>set uuids. \<exists>ca\<in>set content. payload_type ca = ''com.apple.security.root'' \<and> map_of ca ''PayloadUUID'' = Some (VStr u)) \<and>
             (\<forall>der. (\<exists>ca\<in>set content. holds_cert der ca) = (der \<in> set (wf_anchors p)))))"
proof (cases "wifi_rejected p")
  case True
  then have "\<exists>e. build_wifi rnd p = Inl e"
    by (cases "wf_enterprise p") (auto simp: wifi_rejected_def build_wifi_def wifi_payloads_def Let_def)
  with True show ?thesis by auto
next
  case ok: False
  define base where "base = wifi_base p"
  define net where "net = wifi_network p (base @ ''network'') (new_uuid (rnd 0))"
  show ?thesis
  proof (cases "wf_enterprise p")
    case False
    define wifi where "wifi = net @ [(''EncryptionType'', VStr ''WPA''), (''Password'', VStr (wf_password p))]"
    obtain i u d org where b: "build_wifi rnd p = Inr (configuration i u d org [wifi])"
      using ok False by (simp add: wifi_rejected_def build_wifi_def wifi_payloads_def Let_def base_def[symmetric] net_def wifi_def)
    have "map_of (configuration i u d org [wifi]) ''PayloadContent'' = Some (VArr (map VDict [wifi]))"
      by (simp add: configuration_def)
    moreover have "payload_type wifi = ''com.apple.wifi.managed'' \<and> map_of wifi ''SSID_STR'' = Some (VStr (wf_ssid p)) \<and>
       map_of wifi ''Password'' = Some (VStr (wf_password p))"
      by (simp add: wifi_def net_def wifi_network_def payload_type_def)
    ultimately show ?thesis unfolding b sum.case
      by (intro conjI ok exI[of _ "[wifi]"] exI[of _ wifi]) (simp_all add: False)
  next
    case True
    define n where "n = length (wf_anchors p)"
    define uuids where "uuids = map (\<lambda>i. new_uuid (rnd (1 + i))) [0..<n]"
    define eap where "eap = [(''AcceptEAPTypes'', VArr [VNum 13]), (''PayloadCertificateAnchorUUID'', VArr (map VStr uuids))] @
      (if wf_server_names p \<noteq> [] then [(''TLSTrustedServerNames'', VArr (map VStr (wf_server_names p)))] else [])"
    define scep where "scep = scep_payload (base @ ''identity'') (new_uuid (rnd (1 + n))) ''Wi-Fi Identity (SCEP)'' (wifi_scep_content p)"
    define wifi where "wifi = net @ [(''EncryptionType'', VStr ''WPA2''), (''EAPClientConfiguration'', VDict eap),
      (''PayloadCertificateUUID'', VStr (new_uuid (rnd (1 + n))))]"
    define content where "content = roots_of (\<lambda>i. base @ ''ca.'' @ nat_str i) (\<lambda>i. new_uuid (rnd (1 + i)))
       ''RADIUS Certificate Authority'' (wf_anchors p) @ [scep, wifi]"
    obtain i u d org where b: "build_wifi rnd p = Inr (configuration i u d org content)"
      using ok True
      by (simp add: wifi_rejected_def build_wifi_def wifi_payloads_def Let_def base_def net_def
          n_def uuids_def eap_def scep_def wifi_def content_def)
    have c: "map_of (configuration i u d org content) ''PayloadContent'' = Some (VArr (map VDict content))"
      by (simp add: configuration_def)
    have w: "payload_type wifi = ''com.apple.wifi.managed''" "map_of wifi ''SSID_STR'' = Some (VStr (wf_ssid p))"
      "map_of wifi ''Password'' = None" "map_of wifi ''EAPClientConfiguration'' = Some (VDict eap)"
      by (simp_all add: wifi_def net_def wifi_network_def payload_type_def)
    have bound: "identity_bound content wifi scep ''PayloadCertificateUUID''"
      by (simp add: identity_bound_def content_def) (simp add: scep_def wifi_def net_def wifi_network_def scep_payload_def payload_type_def)
    have e: "map_of eap ''PayloadCertificateAnchorUUID'' = Some (VArr (map VStr uuids))" by (simp add: eap_def)
    have ne: "uuids \<noteq> []" using ok True by (simp add: uuids_def n_def wifi_rejected_def)
    have res: "\<forall>u\<in>set uuids. \<exists>ca\<in>set content. payload_type ca = ''com.apple.security.root'' \<and> map_of ca ''PayloadUUID'' = Some (VStr u)"
    proof
      fix u assume "u \<in> set uuids"
      then obtain k where k: "k < length (wf_anchors p)" "u = new_uuid (rnd (1 + k))" by (auto simp: uuids_def n_def)
      from roots_of_uuid[OF k(1), of "\<lambda>i. base @ ''ca.'' @ nat_str i" "\<lambda>i. new_uuid (rnd (1 + i))" "''RADIUS Certificate Authority''"] k(2)
      show "\<exists>ca\<in>set content. payload_type ca = ''com.apple.security.root'' \<and> map_of ca ''PayloadUUID'' = Some (VStr u)"
        unfolding content_def set_append bex_Un by blast
    qed
    have "\<not> holds_cert der scep \<and> \<not> holds_cert der wifi" for der
      by (simp add: holds_cert_def scep_def wifi_def net_def wifi_network_def scep_payload_def payload_type_def)
    then have certs: "\<forall>der. (\<exists>ca\<in>set content. holds_cert der ca) = (der \<in> set (wf_anchors p))"
      by (simp add: content_def bex_Un)
    have "\<exists>scep eap uuids. identity_bound content wifi scep ''PayloadCertificateUUID'' \<and>
             map_of wifi ''Password'' = None \<and> map_of wifi ''EAPClientConfiguration'' = Some (VDict eap) \<and>
             map_of eap ''PayloadCertificateAnchorUUID'' = Some (VArr (map VStr uuids)) \<and> uuids \<noteq> [] \<and>
             (\<forall>u\<in>set uuids. \<exists>ca\<in>set content. payload_type ca = ''com.apple.security.root'' \<and> map_of ca ''PayloadUUID'' = Some (VStr u)) \<and>
             (\<forall>der. (\<exists>ca\<in>set content. holds_cert der ca) = (der \<in> set (wf_anchors p)))"
      by (intro exI conjI) (fact bound w(3) w(4) e ne res certs)+
    with True have "if \<not> wf_enterprise p then content = [wifi] \<and> map_of wifi ''Password'' = Some (VStr (wf_password p))
           else \<exists>scep eap uuids. identity_bound content wifi scep ''PayloadCertificateUUID'' \<and>
             map_of wifi ''Password'' = None \<and> map_of wifi ''EAPClientConfiguration'' = Some (VDict eap) \<and>
             map_of eap ''PayloadCertificateAnchorUUID'' = Some (VArr (map VStr uuids)) \<and> uuids \<noteq> [] \<and>
             (\<forall>u\<in>set uuids. \<exists>ca\<in>set content. payload_type ca = ''com.apple.security.root'' \<and> map_of ca ''PayloadUUID'' = Some (VStr u)) \<and>
             (\<forall>der. (\<exists>ca\<in>set content. holds_cert der ca) = (der \<in> set (wf_anchors p)))"
      by simp
    then show ?thesis unfolding b sum.case using ok c w(1,2) by blast
  qed
qed

subsection \<open>Built profiles are read back\<close>

definition str_at :: "payload \<Rightarrow> string \<Rightarrow> string" where
  "str_at p k = (case map_of p k of Some (VStr s) \<Rightarrow> s | _ \<Rightarrow> [])"

fun as_dict :: "pval \<Rightarrow> payload option" where
  "as_dict (VDict d) = Some d"
| "as_dict _ = None"

definition top_of :: "payload \<Rightarrow> profile_top" where
  \<comment> \<open>what decoding a profile into \<open>ParseInfo\<close>'s struct yields\<close>
  "top_of p = \<lparr>pt_type = str_at p ''PayloadType'', pt_identifier = str_at p ''PayloadIdentifier'', pt_uuid = str_at p ''PayloadUUID'',
     pt_display = str_at p ''PayloadDisplayName'', pt_organization = str_at p ''PayloadOrganization'',
     pt_content = (case map_of p ''PayloadContent'' of Some (VArr vs) \<Rightarrow> List.map_filter as_dict vs | _ \<Rightarrow> [])\<rparr>"

definition reads_back :: "(payload \<Rightarrow> string) \<Rightarrow> (string \<Rightarrow> string + profile_top) \<Rightarrow> payload \<Rightarrow> bool" where
  \<comment> \<open>what the plist library does on a profile: XML with its declaration, read back as it was written\<close>
  "reads_back marshal unmarshal p \<longleftrightarrow> has_prefix (marshal p) ''<?xml'' \<and> unmarshal (marshal p) = Inr (top_of p)"

lemma xml_detected: "has_prefix s ''<?xml'' \<Longrightarrow> looks_like_xml s"
proof -
  assume "has_prefix s ''<?xml''"
  then obtain r where r: "s = ''<?xml'' @ r" by (auto simp: has_prefix_iff)
  have "skip_blank (take 64 s) = take 64 s" unfolding r by (subst skip_blank.simps) simp
  then show ?thesis by (simp add: looks_like_xml_def r)
qed

lemma parse_configuration:
  assumes "reads_back marshal unmarshal (configuration i u d org content)" and "i \<noteq> []"
  shows "parse_info pkcs7 unmarshal (marshal (configuration i u d org content)) =
    Inr \<lparr>pi_identifier = i, pi_uuid = u, pi_name = (if d = [] then i else d), pi_organization = org, pi_types = inner_types content\<rparr>"
proof -
  have "List.map_filter as_dict (map VDict content) = content" by (induction content) (simp_all add: List.map_filter_def)
  then have "top_of (configuration i u d org content) = \<lparr>pt_type = ''Configuration'', pt_identifier = i, pt_uuid = u,
     pt_display = d, pt_organization = org, pt_content = content\<rparr>"
    by (simp add: configuration_def top_of_def str_at_def)
  with assms show ?thesis by (simp add: parse_info_def body_of_def reads_back_def xml_detected)
qed

lemma roots_types: "payload_type ` set (roots_of f g d ders) \<subseteq> {''com.apple.security.root''}"
  by (auto simp: roots_of_def root_payload_def payload_type_def)

lemma sort_remdups_cong:
  fixes xs ys :: "string list"
  assumes "set xs = set ys"
  shows "sort (remdups xs) = sort (remdups ys)"
  by (rule sorted_distinct_set_unique) (simp_all add: assms)

lemma inner_types_roots:
  assumes "ders \<noteq> []"
  shows "inner_types (roots_of f g d ders @ ps) = sort (remdups (''com.apple.security.root'' #
    filter (\<lambda>t. t \<noteq> ''com.apple.security.root'') (filter (\<lambda>t. t \<noteq> []) (map payload_type ps))))"
proof -
  let ?r = "''com.apple.security.root''"
  have ty: "map payload_type (roots_of f g d ders) = replicate (length ders) ?r"
    using roots_types[of f g d ders] by (intro replicate_eqI) auto
  have "set (map payload_type (roots_of f g d ders)) = {?r}" using assms by (simp add: ty del: set_map)
  then have s: "set (filter (\<lambda>t. t \<noteq> []) (map payload_type (roots_of f g d ders @ ps))) =
    set (?r # filter (\<lambda>t. t \<noteq> ?r) (filter (\<lambda>t. t \<noteq> []) (map payload_type ps)))" by auto
  show ?thesis unfolding inner_types_def by (rule sort_remdups_cong[OF s])
qed

text \<open>
  A profile built in the console passes its own validation: rendered and read back by the
  parser that uploads go through it is accepted, under the identifier derived from the
  organization and the network (or realm), with its display name and with its payload types
  in order and without repetition.
\<close>

theorem built_profiles_accepted:
  assumes "reads_back marshal unmarshal prof"
  shows "(\<forall>rnd p. build_wifi rnd p = Inr prof \<longrightarrow>
      (\<exists>info. parse_info pkcs7 unmarshal (marshal prof) = Inr info \<and>
        pi_identifier info = wf_organization p @ ''.wifi.'' @ slugify (wf_ssid p) \<and> pi_organization info = wf_organization p \<and>
        pi_name info = (if wf_display p = [] then ''Wi-Fi: '' @ wf_ssid p else wf_display p) \<and>
        pi_types info = (if wf_enterprise p
          then [''com.apple.security.root'', ''com.apple.security.scep'', ''com.apple.wifi.managed'']
          else [''com.apple.wifi.managed''])))
    \<and> (\<forall>rnd q. build_kerberos_sso rnd q = Inr prof \<longrightarrow>
      (\<exists>info. parse_info pkcs7 unmarshal (marshal prof) = Inr info \<and>
        pi_identifier info = ss_organization q @ ''.sso.'' @ lower (upper (trim_space (ss_realm q))) \<and>
        pi_types info = [''com.apple.extensiblesso'']))"
proof (intro conjI allI impI)
  fix rnd p
  assume "build_wifi rnd p = Inr prof"
  then obtain payloads drawn where w: "wifi_payloads rnd p = Inr (payloads, drawn)"
    and prof: "prof = configuration (wf_organization p @ ''.wifi.'' @ slugify (wf_ssid p)) (new_uuid (rnd drawn))
            (if wf_display p = [] then ''Wi-Fi: '' @ wf_ssid p else wf_display p) (wf_organization p) payloads"
    by (auto simp: build_wifi_def split: if_splits sum.splits)
  have ty: "inner_types payloads = (if wf_enterprise p
          then [''com.apple.security.root'', ''com.apple.security.scep'', ''com.apple.wifi.managed'']
          else [''com.apple.wifi.managed''])"
  proof (cases "wf_enterprise p")
    case True
    with w obtain f g d scep wifi where "payloads = roots_of f g d (wf_anchors p) @ [scep, wifi]" "wf_anchors p \<noteq> []"
      "payload_type scep = ''com.apple.security.scep''" "payload_type wifi = ''com.apple.wifi.managed''"
      by (auto simp: wifi_payloads_def Let_def payload_type_def scep_payload_def wifi_network_def split: if_splits)
    moreover have "sort [''com.apple.security.root'', ''com.apple.security.scep'', ''com.apple.wifi.managed''] =
      [''com.apple.security.root'', ''com.apple.security.scep'', ''com.apple.wifi.managed'']" by code_simp
    ultimately show ?thesis using True by (simp add: inner_types_roots)
  next
    case False
    with w show ?thesis
      by (auto simp: wifi_payloads_def Let_def inner_types_def payload_type_def wifi_network_def split: if_splits)
  qed
  have "wf_organization p @ ''.wifi.'' @ slugify (wf_ssid p) \<noteq> []" by simp
  from parse_configuration[OF assms[unfolded prof] this] ty
  show "\<exists>info. parse_info pkcs7 unmarshal (marshal prof) = Inr info \<and>
        pi_identifier info = wf_organization p @ ''.wifi.'' @ slugify (wf_ssid p) \<and> pi_organization info = wf_organization p \<and>
        pi_name info = (if wf_display p = [] then ''Wi-Fi: '' @ wf_ssid p else wf_display p) \<and>
        pi_types info = (if wf_enterprise p
          then [''com.apple.security.root'', ''com.apple.security.scep'', ''com.apple.wifi.managed'']
          else [''com.apple.wifi.managed''])"
    unfolding prof by simp
next
  fix rnd q
  assume "build_kerberos_sso rnd q = Inr prof"
  then obtain u d sso where prof: "prof = configuration (ss_organization q @ ''.sso.'' @ lower (upper (trim_space (ss_realm q)))) u d
      (ss_organization q) [sso]" and t: "payload_type sso = ''com.apple.extensiblesso''"
    by (auto simp: build_kerberos_sso_def Let_def payload_type_def split: if_splits)
  have "ss_organization q @ ''.sso.'' @ lower (upper (trim_space (ss_realm q))) \<noteq> []" by simp
  from parse_configuration[OF assms[unfolded prof] this] t
  show "\<exists>info. parse_info pkcs7 unmarshal (marshal prof) = Inr info \<and>
        pi_identifier info = ss_organization q @ ''.sso.'' @ lower (upper (trim_space (ss_realm q))) \<and>
        pi_types info = [''com.apple.extensiblesso'']"
    unfolding prof by (simp add: inner_types_def)
qed

definition demo_wifi :: wifi_params where
  "demo_wifi = \<lparr>wf_organization = ''org'', wf_display = [], wf_ssid = ''Lab A'', wf_hidden = False, wf_autojoin = True,
     wf_password = ''secret'', wf_enterprise = False, wf_scep_url = [], wf_challenge = [], wf_subject_cn = [],
     wf_key_size = 0, wf_anchors = [], wf_server_names = []\<rparr>"

lemma wifi_profile_wired_witness:
  "\<exists>prof content wifi. build_wifi (\<lambda>n. replicate 16 0) demo_wifi = Inr prof \<and>
     map_of prof ''PayloadContent'' = Some (VArr (map VDict content)) \<and> content = [wifi] \<and>
     map_of wifi ''Password'' = Some (VStr ''secret'')"
proof -
  obtain prof where p: "build_wifi (\<lambda>n. replicate 16 0) demo_wifi = Inr prof"
    by (simp add: build_wifi_def wifi_payloads_def demo_wifi_def Let_def)
  have "\<not> wf_enterprise demo_wifi" "wf_password demo_wifi = ''secret''" by (simp_all add: demo_wifi_def)
  with wifi_profile_wired[where rnd = "\<lambda>n. replicate 16 0" and p = demo_wifi, unfolded p sum.case]
  show ?thesis by (auto simp: p)
qed

lemma built_profiles_accepted_witness:
  "\<exists>prof info. build_wifi (\<lambda>n. replicate 16 0) demo_wifi = Inr prof \<and>
     parse_info Inr (\<lambda>s. Inr (top_of prof)) ''<?xml version=1?>'' = Inr info \<and> pi_identifier info = ''org.wifi.lab-a''"
proof -
  obtain prof where p: "build_wifi (\<lambda>n. replicate 16 0) demo_wifi = Inr prof"
    by (simp add: build_wifi_def wifi_payloads_def demo_wifi_def Let_def)
  have "reads_back (\<lambda>_. ''<?xml version=1?>'') (\<lambda>s. Inr (top_of prof)) prof" by (simp add: reads_back_def)
  note w = conjunct1[OF built_profiles_accepted[OF this, of Inr], rule_format, OF p]
  have "slugify (wf_ssid demo_wifi) = ''lab-a''" by code_simp
  with w p show ?thesis by (auto simp: demo_wifi_def)
qed

end
