(* ===== verification/Handlers.thy ===== *)
theory Handlers
  imports Console Reconcile Grants ProfileBuild
begin

section \<open>The admin console: routes and actions\<close>

text \<open>
  The routes of \<open>internal/web/web.go\<close> and the handlers that change the fleet, the profile
  library or the enrollment grants: \<open>handlers.go\<close> (device actions), \<open>profiles.go\<close>,
  \<open>builders.go\<close>, \<open>groups.go\<close> and \<open>enrollment.go\<close>.  A reconciliation that a handler starts runs
  beside the request, after it: the handler records it in \<open>fc_jobs\<close>, and \<open>run_job\<close> is its later
  execution.  Handlers that only show a page keep the template's name.
\<close>

datatype job = ReconcileDevice string | ReconcileGroup int

record fleet_console = console +
  fc_core :: core
  fc_grants :: "grant_row list"
  fc_jobs :: "job list"

datatype upload = TooLarge | NoFile | Unreadable | Uploaded string

record tools =
  tl_send :: send_env
  tl_rec :: bool  \<comment> \<open>\<open>rec != nil\<close>\<close>
  tl_organization :: string
  tl_cairn_anchors :: "string list"
  tl_anchors :: "string \<Rightarrow> string + string list"  \<comment> \<open>\<open>ca.TrustAnchorsDER\<close>\<close>
  tl_pkcs7 :: "string \<Rightarrow> string + string"
  tl_unmarshal :: "string \<Rightarrow> string + profile_top"
  tl_marshal :: "payload \<Rightarrow> string + string"
  tl_uuid :: "nat \<Rightarrow> 8 word list"
  tl_upload :: upload

subsection \<open>Numbers in forms and paths\<close>

datatype parsed = ParsedInt int | NotInt | OutOfRange int

fun uint_digits :: "string \<Rightarrow> int \<Rightarrow> parsed" where
  "uint_digits [] n = ParsedInt n"
| "uint_digits (c # s) n =
     (if \<not> in_range (CHR ''0'') (CHR ''9'') c then NotInt
      else let m = 10 * n + (of_char c - 48) in if 2 ^ 64 \<le> m then OutOfRange (2 ^ 64 - 1) else uint_digits s m)"

definition parse_int :: "string \<Rightarrow> parsed" where
  \<comment> \<open>\<open>strconv.ParseInt(s, 10, 64)\<close>\<close>
  "parse_int s =
     (let neg = (s \<noteq> [] \<and> hd s = CHR ''-'');
          ds = (if s \<noteq> [] \<and> hd s \<in> {CHR ''+'', CHR ''-''} then tl s else s)
      in if ds = [] then NotInt
         else case uint_digits ds 0 of
             NotInt \<Rightarrow> NotInt
           | OutOfRange m \<Rightarrow> OutOfRange (if neg then - (2 ^ 63) else 2 ^ 63 - 1)
           | ParsedInt n \<Rightarrow>
               if \<not> neg \<and> 2 ^ 63 \<le> n then OutOfRange (2 ^ 63 - 1)
               else if neg \<and> 2 ^ 63 < n then OutOfRange (- (2 ^ 63))
               else ParsedInt (if neg then - n else n))"

definition atoi :: "string \<Rightarrow> int" where
  \<comment> \<open>the value of \<open>strconv.Atoi\<close> when its error is dropped\<close>
  "atoi s = (case parse_int s of ParsedInt n \<Rightarrow> n | NotInt \<Rightarrow> 0 | OutOfRange m \<Rightarrow> m)"

subsection \<open>Reaching the stores\<close>

definition on_core :: "(core \<Rightarrow> 'r \<times> core) \<Rightarrow> fleet_console \<Rightarrow> 'r \<times> fleet_console" where
  "on_core f st = (case f (fc_core st) of (x, c) \<Rightarrow> (x, st\<lparr>fc_core := c\<rparr>))"

definition on_fleet :: "(fleet \<Rightarrow> 'r \<times> fleet) \<Rightarrow> fleet_console \<Rightarrow> 'r \<times> fleet_console" where
  "on_fleet f st = on_core (\<lambda>c. case f (c_fleet c) of (x, fl) \<Rightarrow> (x, c\<lparr>c_fleet := fl\<rparr>)) st"

definition on_grants :: "(grant_row list \<Rightarrow> 'r \<times> grant_row list) \<Rightarrow> fleet_console \<Rightarrow> 'r \<times> fleet_console" where
  "on_grants f st = (case f (fc_grants st) of (x, g) \<Rightarrow> (x, st\<lparr>fc_grants := g\<rparr>))"

definition start_job :: "tools \<Rightarrow> job \<Rightarrow> fleet_console \<Rightarrow> fleet_console" where
  "start_job t j st = (if tl_rec t then st\<lparr>fc_jobs := fc_jobs st @ [j]\<rparr> else st)"

definition see_other :: "string \<Rightarrow> string \<Rightarrow> string \<Rightarrow> reply" where
  "see_other path k msg = Redirect 303 path (Some (k, msg))"

definition post :: "request \<Rightarrow> string \<Rightarrow> string" where "post r k = field (rq_form r) k"

subsection \<open>Device actions\<close>

definition handle_device_install :: "app \<Rightarrow> tools \<Rightarrow> env \<Rightarrow> request \<Rightarrow> string \<Rightarrow> fleet_console \<Rightarrow> reply \<times> fleet_console" where
  "handle_device_install a t ev r i st = csrf_guard a ev r (\<lambda>st.
     let back = ''/admin/devices/'' @ i in
     case parse_int (post r ''profile_id'') of
       ParsedInt pid \<Rightarrow>
         (case get_profile (ev_fault ev ''get-profile'') pid (c_fleet (fc_core st)) of
            Inl e \<Rightarrow> (see_other back ''flash'' ''No such profile.'', st)
          | Inr prof \<Rightarrow>
              (case on_core (send_install_profile (tl_send t) (ev_at ev ''send'') (p_data prof) [i]) st of
                 (Inl e, st1) \<Rightarrow> (see_other back ''flash'' ''Failed to queue install.'', st1)
               | (Inr u, st1) \<Rightarrow> (see_other back ''flash'' ''Install queued.'', st1)))
     | _ \<Rightarrow> (see_other back ''flash'' ''Choose a profile to install.'', st)) st"

definition handle_device_remove :: "app \<Rightarrow> tools \<Rightarrow> env \<Rightarrow> request \<Rightarrow> string \<Rightarrow> fleet_console \<Rightarrow> reply \<times> fleet_console" where
  "handle_device_remove a t ev r i st = csrf_guard a ev r (\<lambda>st.
     let back = ''/admin/devices/'' @ i; identifier = trim_space (post r ''identifier'') in
     if identifier = [] then (see_other back ''flash'' ''No profile identifier given.'', st)
     else case on_core (send_remove_profile (tl_send t) (ev_at ev ''send'') identifier [i]) st of
         (Inl e, st1) \<Rightarrow> (see_other back ''flash'' ''Failed to queue removal.'', st1)
       | (Inr u, st1) \<Rightarrow> (see_other back ''flash'' ''Remove queued.'', st1)) st"

definition handle_device_refresh :: "app \<Rightarrow> tools \<Rightarrow> env \<Rightarrow> request \<Rightarrow> string \<Rightarrow> fleet_console \<Rightarrow> reply \<times> fleet_console" where
  "handle_device_refresh a t ev r i st = csrf_guard a ev r (\<lambda>st.
     case on_core (send_device_information (tl_send t) (ev_at ev ''send'') [i]) st of
       (Inl e, st1) \<Rightarrow> (see_other (''/admin/devices/'' @ i) ''flash'' ''Failed to queue refresh'', st1)
     | (Inr u, st1) \<Rightarrow> (see_other (''/admin/devices/'' @ i) ''flash'' ''Refresh queued'', st1)) st"

subsection \<open>The profile library\<close>

definition library_entry :: "profile_info \<Rightarrow> string \<Rightarrow> string \<Rightarrow> profile" where
  "library_entry info source data = \<lparr>p_id = 0, p_identifier = pi_identifier info, p_uuid = pi_uuid info, p_name = pi_name info,
     p_organization = pi_organization info, p_payload_types = join_with '','' (pi_types info), p_source = source,
     p_data = data, p_created_at = 0, p_updated_at = 0\<rparr>"

definition handle_profile_upload :: "app \<Rightarrow> tools \<Rightarrow> env \<Rightarrow> request \<Rightarrow> fleet_console \<Rightarrow> reply \<times> fleet_console" where
  "handle_profile_upload a t ev r st =
     (if tl_upload t = TooLarge then (see_other ''/admin/profiles'' ''error'' ''Upload too large or malformed.'', st)
      else csrf_guard a ev r (\<lambda>st.
        case tl_upload t of
          Uploaded data \<Rightarrow>
            (case parse_info (tl_pkcs7 t) (tl_unmarshal t) data of
               Inl e \<Rightarrow> (see_other ''/admin/profiles'' ''error'' (''Not a valid configuration profile: '' @ e), st)
             | Inr info \<Rightarrow>
                 (case on_fleet (save_profile (ev_fault ev ''save'') (ev_at ev ''save'') (library_entry info ''upload'' data)) st of
                    (Inl e, st1) \<Rightarrow> (see_other ''/admin/profiles'' ''error'' ''Saving the profile failed.'', st1)
                  | (Inr i, st1) \<Rightarrow> (see_other (''/admin/profiles/'' @ int_str i) ''flash'' ''Profile saved.'', st1)))
        | Unreadable \<Rightarrow> (see_other ''/admin/profiles'' ''error'' ''Reading the upload failed.'', st)
        | _ \<Rightarrow> (see_other ''/admin/profiles'' ''error'' ''Choose a .mobileconfig file to upload.'', st)) st)"

definition profile_from_path :: "env \<Rightarrow> string \<Rightarrow> fleet_console \<Rightarrow> profile option" where
  "profile_from_path ev i st =
     (case parse_int i of
        ParsedInt n \<Rightarrow> (case get_profile (ev_fault ev ''get-profile'') n (c_fleet (fc_core st)) of Inr p \<Rightarrow> Some p | Inl _ \<Rightarrow> None)
      | _ \<Rightarrow> None)"

definition no_such :: "string \<Rightarrow> reply" where "no_such what = Page 404 ''error.html'' (''No such '' @ what @ ''.'')"

definition handle_profile_delete :: "app \<Rightarrow> env \<Rightarrow> request \<Rightarrow> string \<Rightarrow> fleet_console \<Rightarrow> reply \<times> fleet_console" where
  "handle_profile_delete a ev r i st = csrf_guard a ev r (\<lambda>st.
     case profile_from_path ev i st of
       None \<Rightarrow> (no_such ''profile'', st)
     | Some p \<Rightarrow> (case on_fleet (delete_profile (ev_fault ev ''delete'') (p_id p)) st of
         (Inl e, st1) \<Rightarrow> (see_other ''/admin/profiles'' ''error'' ''Deleting the profile failed.'', st1)
       | (Inr _, st1) \<Rightarrow> (see_other ''/admin/profiles'' ''flash''
            ''Profile removed from the library. Devices that have it keep it until a RemoveProfile command is sent.'', st1))) st"

definition save_built_profile :: "tools \<Rightarrow> env \<Rightarrow> payload \<Rightarrow> string \<Rightarrow> string \<Rightarrow> fleet_console \<Rightarrow> reply \<times> fleet_console" where
  "save_built_profile t ev prof source back st =
     (case tl_marshal t prof of
        Inl e \<Rightarrow> (see_other back ''error'' ''Building the profile failed.'', st)
      | Inr data \<Rightarrow> (case parse_info (tl_pkcs7 t) (tl_unmarshal t) data of
          Inl e \<Rightarrow> (see_other back ''error'' (''Built profile failed validation: '' @ e), st)
        | Inr info \<Rightarrow>
            (case on_fleet (save_profile (ev_fault ev ''save'') (ev_at ev ''save'') (library_entry info source data)) st of
               (Inl e, st1) \<Rightarrow> (see_other back ''error'' ''Saving the profile failed.'', st1)
             | (Inr i, st1) \<Rightarrow> (see_other (''/admin/profiles/'' @ int_str i) ''flash'' ''Profile created.'', st1))))"

fun split_any :: "(char \<Rightarrow> bool) \<Rightarrow> string \<Rightarrow> string list" where
  "split_any p [] = [[]]"
| "split_any p (c # s) =
     (if p c then [] # split_any p s else (case split_any p s of w # ws \<Rightarrow> (c # w) # ws | [] \<Rightarrow> [[c]]))"

definition trimmed_fields :: "(char \<Rightarrow> bool) \<Rightarrow> string \<Rightarrow> string list" where
  "trimmed_fields p s = filter (\<lambda>w. w \<noteq> []) (map trim_space (split_any p s))"

definition wifi_form :: "tools \<Rightarrow> request \<Rightarrow> string + wifi_params" where
  \<comment> \<open>the parameters the form asks for\<close>
  "wifi_form t r =
     (let base = \<lparr>wf_organization = tl_organization t, wf_display = trim_space (post r ''display_name''),
            wf_ssid = trim_space (post r ''ssid''), wf_hidden = (post r ''hidden'' = ''on''),
            wf_autojoin = (post r ''autojoin'' = ''on''), wf_password = [], wf_enterprise = False, wf_scep_url = [],
            wf_challenge = [], wf_subject_cn = [], wf_key_size = 0, wf_anchors = [], wf_server_names = []\<rparr>
      in if post r ''security'' \<noteq> ''eap-tls'' then Inr (base\<lparr>wf_password := post r ''password''\<rparr>)
         else
           let ks = parse_int (post r ''key_size'');
               own = (if post r ''use_cairn_anchors'' = ''on'' then tl_cairn_anchors t else []);
               pem = trim_space (post r ''anchors_pem'');
               eap = base\<lparr>wf_enterprise := True, wf_scep_url := trim_space (post r ''scep_url''),
                  wf_challenge := post r ''scep_challenge'', wf_subject_cn := trim_space (post r ''subject_cn''),
                  wf_key_size := (case ks of ParsedInt n \<Rightarrow> if 0 < n then n else 0 | _ \<Rightarrow> 0),
                  wf_server_names := trimmed_fields (\<lambda>c. c = CHR '','') (post r ''trusted_server_names''), wf_anchors := own\<rparr>
           in if pem = [] then Inr eap
              else case tl_anchors t pem of
                  Inl e \<Rightarrow> Inl (''RADIUS CA chain is not valid PEM: '' @ e)
                | Inr pasted \<Rightarrow> Inr (eap\<lparr>wf_anchors := own @ pasted\<rparr>))"

definition handle_builder_wifi :: "app \<Rightarrow> tools \<Rightarrow> env \<Rightarrow> request \<Rightarrow> fleet_console \<Rightarrow> reply \<times> fleet_console" where
  "handle_builder_wifi a t ev r st =
     (if rq_form_bad r then (TextError 400 ''bad request'', st)
      else csrf_guard a ev r (\<lambda>st.
        let back = ''/admin/profiles/new/wifi'' in
        case and_then (wifi_form t r) (build_wifi (tl_uuid t)) of
          Inl e \<Rightarrow> (see_other back ''error'' e, st)
        | Inr prof \<Rightarrow> save_built_profile t ev prof ''builder:wifi'' back st) st)"

definition sso_form :: "tools \<Rightarrow> request \<Rightarrow> sso_params" where
  "sso_form t r = \<lparr>ss_organization = tl_organization t, ss_display = trim_space (post r ''display_name''),
     ss_realm = post r ''realm'', ss_hosts = trimmed_fields (\<lambda>c. c \<in> {CHR '','', CHR 0x0A, CHR 0x0D}) (post r ''hosts''),
     ss_default = (post r ''default_realm'' = ''on''), ss_sync = (post r ''sync_local_password'' = ''on''),
     ss_auto_login = (post r ''allow_automatic_login'' = ''on''), ss_discovery = (post r ''use_site_auto_discovery'' = ''on'')\<rparr>"

definition handle_builder_sso :: "app \<Rightarrow> tools \<Rightarrow> env \<Rightarrow> request \<Rightarrow> fleet_console \<Rightarrow> reply \<times> fleet_console" where
  "handle_builder_sso a t ev r st =
     (if rq_form_bad r then (TextError 400 ''bad request'', st)
      else csrf_guard a ev r (\<lambda>st.
        let back = ''/admin/profiles/new/sso'' in
        case build_kerberos_sso (tl_uuid t) (sso_form t r) of
          Inl e \<Rightarrow> (see_other back ''error'' e, st)
        | Inr prof \<Rightarrow> save_built_profile t ev prof ''builder:kerberos-sso'' back st) st)"

subsection \<open>Groups\<close>

definition group_from_path :: "env \<Rightarrow> string \<Rightarrow> fleet_console \<Rightarrow> group_info option" where
  "group_from_path ev i st =
     (case parse_int i of
        ParsedInt n \<Rightarrow> (case get_group (ev_fault ev ''get-group'') n (c_fleet (fc_core st)) of Inr g \<Rightarrow> Some g | Inl _ \<Rightarrow> None)
      | _ \<Rightarrow> None)"

definition handle_group_create :: "app \<Rightarrow> env \<Rightarrow> request \<Rightarrow> fleet_console \<Rightarrow> reply \<times> fleet_console" where
  "handle_group_create a ev r st = csrf_guard a ev r (\<lambda>st.
     let name = trim_space (post r ''name'') in
     if name = [] then (see_other ''/admin/groups'' ''error'' ''Group name is required.'', st)
     else case on_fleet (create_group (ev_fault ev ''create-group'') (ev_at ev ''create-group'') name
                (trim_space (post r ''description''))) st of
         (Inl e, st1) \<Rightarrow> (see_other ''/admin/groups'' ''error'' ''Creating the group failed (duplicate name?).'', st1)
       | (Inr i, st1) \<Rightarrow> (Redirect 303 (''/admin/groups/'' @ int_str i) None, st1)) st"

definition handle_group_delete :: "app \<Rightarrow> env \<Rightarrow> request \<Rightarrow> string \<Rightarrow> fleet_console \<Rightarrow> reply \<times> fleet_console" where
  "handle_group_delete a ev r i st = csrf_guard a ev r (\<lambda>st.
     case group_from_path ev i st of
       None \<Rightarrow> (no_such ''group'', st)
     | Some g \<Rightarrow> (case on_fleet (delete_group (ev_fault ev ''delete'') (gr_id g)) st of
         (Inl e, st1) \<Rightarrow> (see_other ''/admin/groups'' ''error'' ''Deleting the group failed.'', st1)
       | (Inr _, st1) \<Rightarrow> (see_other ''/admin/groups'' ''flash'' ''Group deleted. Installed profiles stay on devices.'', st1))) st"

definition handle_group_device_change :: "app \<Rightarrow> tools \<Rightarrow> env \<Rightarrow> request \<Rightarrow> string \<Rightarrow> fleet_console \<Rightarrow> reply \<times> fleet_console" where
  "handle_group_device_change a t ev r i st = csrf_guard a ev r (\<lambda>st.
     case group_from_path ev i st of
       None \<Rightarrow> (no_such ''group'', st)
     | Some g \<Rightarrow>
         let dev = post r ''device_id''; back = ''/admin/groups/'' @ int_str (gr_id g) in
         if dev = [] then (see_other back ''error'' ''Choose a device.'', st)
         else if post r ''action'' = ''remove'' then
           (case on_fleet (remove_device_from_group (ev_fault ev ''change'') (gr_id g) dev) st of
              (Inl e, st1) \<Rightarrow> (see_other back ''error'' ''Removing the device failed.'', st1)
            | (Inr _, st1) \<Rightarrow> (see_other back ''flash'' ''Device removed. Installed profiles stay until explicitly removed.'', st1))
         else
           (case on_fleet (add_device_to_group (ev_fault ev ''change'') (gr_id g) dev) st of
              (Inl e, st1) \<Rightarrow> (see_other back ''error'' ''Adding the device failed.'', st1)
            | (Inr _, st1) \<Rightarrow> (see_other back ''flash'' ''Device added - assigned profiles are being pushed.'',
                start_job t (ReconcileDevice dev) st1))) st"

definition handle_group_profile_change :: "app \<Rightarrow> tools \<Rightarrow> env \<Rightarrow> request \<Rightarrow> string \<Rightarrow> fleet_console \<Rightarrow> reply \<times> fleet_console" where
  "handle_group_profile_change a t ev r i st = csrf_guard a ev r (\<lambda>st.
     case group_from_path ev i st of
       None \<Rightarrow> (no_such ''group'', st)
     | Some g \<Rightarrow>
         let back = ''/admin/groups/'' @ int_str (gr_id g) in
         (case parse_int (post r ''profile_id'') of
            ParsedInt pid \<Rightarrow>
              if post r ''action'' = ''unassign'' then
                (case on_fleet (unassign_profile (ev_fault ev ''change'') (gr_id g) pid) st of
                   (Inl e, st1) \<Rightarrow> (see_other back ''error'' ''Unassigning failed.'', st1)
                 | (Inr _, st1) \<Rightarrow> (see_other back ''flash'' ''Profile unassigned. Installed copies stay on devices.'', st1))
              else
                (case on_fleet (assign_profile (ev_fault ev ''change'') (gr_id g) pid) st of
                   (Inl e, st1) \<Rightarrow> (see_other back ''error'' ''Assigning failed.'', st1)
                 | (Inr _, st1) \<Rightarrow> (see_other back ''flash'' ''Profile assigned - pushing to enrolled devices.'',
                     start_job t (ReconcileGroup (gr_id g)) st1))
          | _ \<Rightarrow> (see_other back ''error'' ''Choose a profile.'', st))) st"

subsection \<open>Enrollment grants\<close>

definition grant_form :: "env \<Rightarrow> request \<Rightarrow> session \<Rightarrow> grant" where
  "grant_form ev r s =
     (let platform = post r ''platform''; mx = atoi (post r ''max_uses''); hs = atoi (post r ''expires_hours'');
          hours = (if hs \<le> 0 then 24 else hs)
      in \<lparr>g_id = 0, g_label = trim_space (post r ''label''),
          g_platform = (if platform = ''macos'' \<or> platform = ''ios'' \<or> platform = ''any'' then platform else ''any''),
          g_owner = trim_space (post r ''owner''), g_created_by = id_username (ses_identity s), g_created_at = 0,
          g_expires_at = to_secs (ev_at ev ''expiry'' + wrap64 (hours * hour)), g_max_uses = (if mx \<le> 0 then 1 else mx),
          g_use_count = 0, g_revoked_at = None, g_expected_serial = trim_space (post r ''expected_serial''),
          g_last_used_at = None\<rparr>)"

definition handle_grant_create :: "app \<Rightarrow> env \<Rightarrow> request \<Rightarrow> session \<Rightarrow> fleet_console \<Rightarrow> reply \<times> fleet_console" where
  "handle_grant_create a ev r s st =
     (if rq_form_bad r then (TextError 400 ''bad request'', st)
      else csrf_guard a ev r (\<lambda>st.
        case new_grant_token (ap_sha a) (ev_rnd ev ''grant'') of (raw, h) \<Rightarrow>
          (case on_grants (create_grant (ev_fault ev ''create-grant'') (ev_at ev ''create-grant'') (grant_form ev r s) h) st of
             (Inl e, st1) \<Rightarrow> (see_other ''/admin/enrollment'' ''error'' ''Creating the grant failed.'', st1)
           | (Inr i, st1) \<Rightarrow>
               (Page 200 ''enrollment.html'' (trim_right (\<lambda>c. c = CHR ''/'') (ap_public_url a) @ ''/e/'' @ raw), st1))) st)"

definition handle_grant_revoke :: "app \<Rightarrow> env \<Rightarrow> request \<Rightarrow> string \<Rightarrow> fleet_console \<Rightarrow> reply \<times> fleet_console" where
  "handle_grant_revoke a ev r i st = csrf_guard a ev r (\<lambda>st.
     case parse_int i of
       ParsedInt n \<Rightarrow>
         (case on_grants (revoke_grant (ev_fault ev ''revoke'') (ev_fault ev ''revoke.lookup'') (ev_at ev ''revoke'') n) st of
            (Inl e, st1) \<Rightarrow> (see_other ''/admin/enrollment'' ''error'' ''Revoke failed.'', st1)
          | (Inr _, st1) \<Rightarrow> (see_other ''/admin/enrollment'' ''flash'' ''Grant revoked.'', st1))
     | _ \<Rightarrow> (TextError 404 ''404 page not found'', st)) st"

subsection \<open>Routes\<close>

datatype route =
    Dashboard | Activity | DevicesPage | DeviceDetail string
  | DeviceRefresh string | DeviceInstall string | DeviceRemove string
  | ProfilesPage | ProfileUpload | ProfileDetail string | ProfileDownload string | ProfileDelete string
  | WifiForm | WifiBuild | SsoForm | SsoBuild
  | EnrollmentPage | GrantCreate | GrantRevoke string
  | GroupsPage | GroupCreate | GroupDetail string | GroupDelete string | GroupDeviceChange string | GroupProfileChange string

definition get_route :: "string list \<Rightarrow> route option" where
  "get_route segs =
     (case segs of
        [a] \<Rightarrow> if a = ''admin'' then Some Dashboard else None
      | [a, b] \<Rightarrow>
          if a \<noteq> ''admin'' then None
          else if b = ''activity'' then Some Activity
          else if b = ''devices'' then Some DevicesPage
          else if b = ''profiles'' then Some ProfilesPage
          else if b = ''enrollment'' then Some EnrollmentPage
          else if b = ''groups'' then Some GroupsPage else None
      | [a, b, i] \<Rightarrow>
          if a \<noteq> ''admin'' \<or> i = [] then None
          else if b = ''devices'' then Some (DeviceDetail i)
          else if b = ''profiles'' then Some (ProfileDetail i)
          else if b = ''groups'' then Some (GroupDetail i) else None
      | [a, b, i, c] \<Rightarrow>
          if a \<noteq> ''admin'' \<or> b \<noteq> ''profiles'' \<or> i = [] then None
          else if i = ''new'' \<and> c = ''wifi'' then Some WifiForm
          else if i = ''new'' \<and> c = ''sso'' then Some SsoForm
          else if c = ''download'' then Some (ProfileDownload i) else None
      | _ \<Rightarrow> None)"

definition post_route :: "string list \<Rightarrow> route option" where
  "post_route segs =
     (case segs of
        [a, b] \<Rightarrow>
          if a \<noteq> ''admin'' then None
          else if b = ''enrollment'' then Some GrantCreate
          else if b = ''groups'' then Some GroupCreate else None
      | [a, b, i] \<Rightarrow> if a = ''admin'' \<and> b = ''profiles'' \<and> i = ''upload'' then Some ProfileUpload else None
      | [a, b, i, c] \<Rightarrow>
          if a \<noteq> ''admin'' \<or> i = [] then None
          else if b = ''devices'' then
            (if c = ''refresh'' then Some (DeviceRefresh i) else if c = ''install'' then Some (DeviceInstall i)
             else if c = ''remove'' then Some (DeviceRemove i) else None)
          else if b = ''profiles'' then
            (if i = ''new'' \<and> c = ''wifi'' then Some WifiBuild else if i = ''new'' \<and> c = ''sso'' then Some SsoBuild
             else if c = ''delete'' then Some (ProfileDelete i) else None)
          else if b = ''enrollment'' then (if c = ''revoke'' then Some (GrantRevoke i) else None)
          else if b = ''groups'' then
            (if c = ''delete'' then Some (GroupDelete i) else if c = ''devices'' then Some (GroupDeviceChange i)
             else if c = ''profiles'' then Some (GroupProfileChange i) else None)
          else None
      | _ \<Rightarrow> None)"

definition route_of :: "string \<Rightarrow> string list \<Rightarrow> route option" where
  \<comment> \<open>a GET pattern also serves HEAD\<close>
  "route_of verb segs =
     (if verb = ''GET'' \<or> verb = ''HEAD'' then get_route segs else if verb = ''POST'' then post_route segs else None)"

fun mutating :: "route \<Rightarrow> bool" where
  "mutating (DeviceRefresh i) = True" | "mutating (DeviceInstall i) = True" | "mutating (DeviceRemove i) = True"
| "mutating ProfileUpload = True" | "mutating (ProfileDelete i) = True" | "mutating WifiBuild = True"
| "mutating SsoBuild = True" | "mutating GrantCreate = True" | "mutating (GrantRevoke i) = True"
| "mutating GroupCreate = True" | "mutating (GroupDelete i) = True" | "mutating (GroupDeviceChange i) = True"
| "mutating (GroupProfileChange i) = True" | "mutating _ = False"

fun min_role :: "route \<Rightarrow> role" where
  "min_role ProfileUpload = role_admin" | "min_role (ProfileDelete i) = role_admin" | "min_role WifiForm = role_admin"
| "min_role WifiBuild = role_admin" | "min_role SsoForm = role_admin" | "min_role SsoBuild = role_admin"
| "min_role GroupCreate = role_admin" | "min_role (GroupDelete i) = role_admin"
| "min_role (GroupDeviceChange i) = role_admin" | "min_role (GroupProfileChange i) = role_admin"
| "min_role _ = role_operator"

definition safe_char :: "char \<Rightarrow> string" where
  "safe_char c =
     (if in_range (CHR ''a'') (CHR ''z'') c \<or> in_range (CHR ''A'') (CHR ''Z'') c \<or> in_range (CHR ''0'') (CHR ''9'') c \<or>
         c \<in> {CHR ''-'', CHR ''_'', CHR ''.''} then [c]
      else if c = CHR '' '' then ''_'' else [])"

definition sanitize_filename :: "string \<Rightarrow> string" where
  "sanitize_filename s = concat (map safe_char s)"

definition handle_profile_download :: "env \<Rightarrow> string \<Rightarrow> fleet_console \<Rightarrow> reply \<times> fleet_console" where
  "handle_profile_download ev i st =
     (case profile_from_path ev i st of
        None \<Rightarrow> (no_such ''profile'', st)
      | Some p \<Rightarrow> (Download (sanitize_filename (p_name p) @ ''.mobileconfig'') (p_data p), st))"

fun show_page :: "env \<Rightarrow> route \<Rightarrow> fleet_console \<Rightarrow> reply" where
  "show_page ev Dashboard st = Page 200 ''dashboard.html'' ''Dashboard''"
| "show_page ev Activity st = Page 200 ''activity.html'' ''Activity''"
| "show_page ev DevicesPage st = Page 200 ''devices.html'' ''Devices''"
| "show_page ev (DeviceDetail i) st =
     (case get_device (ev_fault ev ''get-device'') i (f_devices (c_fleet (fc_core st))) of
        Inl e \<Rightarrow> no_such ''device'' | Inr d \<Rightarrow> Page 200 ''device.html'' (display_name d))"
| "show_page ev ProfilesPage st = Page 200 ''profiles.html'' ''Profiles''"
| "show_page ev (ProfileDetail i) st =
     (case profile_from_path ev i st of None \<Rightarrow> no_such ''profile'' | Some p \<Rightarrow> Page 200 ''profile.html'' (p_name p))"
| "show_page ev WifiForm st = Page 200 ''builder_wifi.html'' ''New Wi-Fi profile''"
| "show_page ev SsoForm st = Page 200 ''builder_sso.html'' ''New Kerberos SSO profile''"
| "show_page ev EnrollmentPage st = Page 200 ''enrollment.html'' ''Enrollment''"
| "show_page ev GroupsPage st = Page 200 ''groups.html'' ''Groups''"
| "show_page ev (GroupDetail i) st =
     (case group_from_path ev i st of None \<Rightarrow> no_such ''group'' | Some g \<Rightarrow> Page 200 ''group.html'' (gr_name g))"
| "show_page ev _ st = Page 404 [] []"

fun handler :: "app \<Rightarrow> tools \<Rightarrow> env \<Rightarrow> request \<Rightarrow> route \<Rightarrow> session \<Rightarrow> fleet_console \<Rightarrow> reply \<times> fleet_console" where
  "handler a t ev r (DeviceRefresh i) s st = handle_device_refresh a t ev r i st"
| "handler a t ev r (DeviceInstall i) s st = handle_device_install a t ev r i st"
| "handler a t ev r (DeviceRemove i) s st = handle_device_remove a t ev r i st"
| "handler a t ev r ProfileUpload s st = handle_profile_upload a t ev r st"
| "handler a t ev r (ProfileDelete i) s st = handle_profile_delete a ev r i st"
| "handler a t ev r WifiBuild s st = handle_builder_wifi a t ev r st"
| "handler a t ev r SsoBuild s st = handle_builder_sso a t ev r st"
| "handler a t ev r GrantCreate s st = handle_grant_create a ev r s st"
| "handler a t ev r (GrantRevoke i) s st = handle_grant_revoke a ev r i st"
| "handler a t ev r GroupCreate s st = handle_group_create a ev r st"
| "handler a t ev r (GroupDelete i) s st = handle_group_delete a ev r i st"
| "handler a t ev r (GroupDeviceChange i) s st = handle_group_device_change a t ev r i st"
| "handler a t ev r (GroupProfileChange i) s st = handle_group_profile_change a t ev r i st"
| "handler a t ev r (ProfileDownload i) s st = handle_profile_download ev i st"
| "handler a t ev r rt s st = (show_page ev rt st, st)"

definition serve_route :: "app \<Rightarrow> tools \<Rightarrow> env \<Rightarrow> request \<Rightarrow> route \<Rightarrow> fleet_console \<Rightarrow> reply \<times> fleet_console" where
  "serve_route a t ev r rt st =
     (let res = require_role a ev (min_role rt) (handler a t ev r rt) r st
      in if mutating rt then audited a ev r res else res)"

definition mux_miss :: "string list \<Rightarrow> reply" where
  \<comment> \<open>no pattern matches: 405 when one of another method would\<close>
  "mux_miss segs =
     (if get_route segs \<noteq> None \<or> post_route segs \<noteq> None \<or>
         segs \<in> {[''login''], [''logout''], [''auth'', ''oidc'', ''login''], [''auth'', ''oidc'', ''callback''], [[]]}
      then TextError 405 ''Method Not Allowed'' else TextError 404 ''404 page not found'')"

lemma mux_miss_status [simp]: "reply_status (mux_miss segs) \<noteq> 200"
  by (simp add: mux_miss_def)

definition serve ::
  "app \<Rightarrow> tools \<Rightarrow> authn \<Rightarrow> oidc_provider option \<Rightarrow> env \<Rightarrow> request \<Rightarrow> string list \<Rightarrow> fleet_console \<Rightarrow>
   reply \<times> cookies \<times> fleet_console" where
  \<comment> \<open>\<open>segs\<close> are the segments of the request's path; assets are left out\<close>
  "serve a t authenticate oidc ev r segs st =
     (let post_only = (\<lambda>res. case res of (rep, ck, st1) \<Rightarrow> (case audited a ev r (rep, st1) of (rep, st2) \<Rightarrow> (rep, ck, st2)));
          getting = (rq_method r = ''GET'' \<or> rq_method r = ''HEAD'')
      in case route_of (rq_method r) segs of
           Some rt \<Rightarrow> (case serve_route a t ev r rt st of (rep, st1) \<Rightarrow> (rep, [], st1))
         | None \<Rightarrow>
             if segs = [''login''] \<and> getting then handle_login_form a ev r st
             else if segs = [''login''] \<and> rq_method r = ''POST'' then post_only (handle_login a authenticate ev r st)
             else if segs = [''logout''] \<and> rq_method r = ''POST'' then post_only (handle_logout a ev r st)
             else if segs = [''auth'', ''oidc'', ''login''] \<and> getting then handle_oidc_login a oidc ev r st
             else if segs = [''auth'', ''oidc'', ''callback''] \<and> getting then handle_oidc_callback a oidc ev r st
             else if segs = [[]] \<and> getting then (Redirect 302 ''/admin'' None, [], st)
             else (mux_miss segs, [], st))"

fun run_job :: "fault \<Rightarrow> (string \<Rightarrow> fault) \<Rightarrow> (string \<Rightarrow> profile \<Rightarrow> nanos \<times> send_env \<times> fault) \<Rightarrow> job \<Rightarrow> core \<Rightarrow> core" where
  "run_job ft fts envs (ReconcileDevice d) c = snd (core_reconcile ft (envs d) d c)"
| "run_job ft fts envs (ReconcileGroup g) c = snd (core_reconcile_group ft fts envs g c)"

subsection \<open>What guards a change\<close>

lemma current_session_find:
  assumes "current_session a ev k r rows = (Some s, rows')"
  shows "\<exists>c row. map_of (rq_cookies r) session_cookie = Some c \<and>
    List.find (\<lambda>x. s_token x = hash_token (ap_sha a) c) rows = Some row \<and> ev_at ev k \<le> of_secs (s_expires row) \<and>
    \<not> past_cap (ap_store a) (ev_at ev k) row \<and> ses_identity s = row_identity row \<and> ses_csrf s = s_csrf row"
  using assms
  by (auto simp: current_session_def get_session_def Let_def split: option.splits if_splits prod.splits sum.splits)

lemma current_session_keeps:
  assumes "current_session a ev k r rows = (x, rows')" and "map_of (rq_cookies r) session_cookie = Some c"
    and "List.find (\<lambda>x. s_token x = hash_token (ap_sha a) c) rows' = Some row'"
  shows "\<exists>row. List.find (\<lambda>x. s_token x = hash_token (ap_sha a) c) rows = Some row \<and> row_identity row = row_identity row' \<and>
    s_csrf row = s_csrf row'"
proof -
  let ?p = "\<lambda>x. s_token x = hash_token (ap_sha a) c"
  have "rows' = rows \<or> rows' = delete_where ?p rows \<or> (\<exists>e. rows' = update_where ?p (\<lambda>r. r\<lparr>s_expires := e\<rparr>) rows)"
    using assms(1,2)
    by (auto simp: current_session_def get_session_def delete_session_def Let_def split: option.splits if_splits prod.splits sum.splits)
  then consider "rows' = rows" | "rows' = delete_where ?p rows" | e where "rows' = update_where ?p (\<lambda>r. r\<lparr>s_expires := e\<rparr>) rows"
    by blast
  then show ?thesis
  proof cases
    case 2
    with assms(3) show ?thesis by (auto simp: find_delete_where find_Some_iff)
  next
    case 3
    with assms(3) show ?thesis by (auto simp: find_update_where row_identity_def)
  qed (use assms(3) in auto)
qed

lemma check_csrf_true:
  assumes "fst (check_csrf a ev r rows)"
  shows "\<exists>c row. map_of (rq_cookies r) session_cookie = Some c \<and>
    List.find (\<lambda>x. s_token x = hash_token (ap_sha a) c) rows = Some row \<and> csrf_submitted r = s_csrf row \<and>
    csrf_submitted r \<noteq> [] \<and> same_origin (ap_parse_url a) (ap_public_url a) r"
proof -
  obtain x rows' where c: "current_session a ev ''csrf'' r rows = (x, rows')" by (cases "current_session a ev ''csrf'' r rows")
  with assms obtain s where s: "x = Some s" by (cases x) (simp_all add: check_csrf_def)
  from current_session_find[OF c[unfolded s]] assms c s show ?thesis by (auto simp: check_csrf_def)
qed

definition protected_state :: "fleet_console \<Rightarrow> core \<times> grant_row list \<times> job list" where
  "protected_state st = (fc_core st, fc_grants st, fc_jobs st)"

lemma protected_sessions [simp]: "protected_state (st\<lparr>cn_sessions := rows\<rparr>) = protected_state st"
  by (simp add: protected_state_def)

lemma protected_audit [simp]: "protected_state (st\<lparr>cn_audit := rows\<rparr>) = protected_state st"
  by (simp add: protected_state_def)

lemma csrf_guard_cases:
  assumes "csrf_guard a ev r h st = (rep, st')"
  shows "fst (check_csrf a ev r (cn_sessions st)) \<or> (rep = TextError 403 ''invalid CSRF token'' \<and> protected_state st' = protected_state st)"
  using assms by (auto simp: csrf_guard_def split: prod.splits bool.splits)

lemma csrf_guard_audit:
  "(\<And>st. cn_audit (snd (h st)) = cn_audit st) \<Longrightarrow> cn_audit (snd (csrf_guard a ev r h st)) = cn_audit st"
  by (simp add: csrf_guard_def split: prod.splits bool.splits)

lemma on_store_audit:
  "on_core f st = (x, st1) \<Longrightarrow> cn_audit st1 = cn_audit st"
  "on_fleet g st = (y, st1) \<Longrightarrow> cn_audit st1 = cn_audit st"
  "on_grants h st = (z, st1) \<Longrightarrow> cn_audit st1 = cn_audit st"
  by (auto simp: on_core_def on_fleet_def on_grants_def split: prod.splits)

lemma start_job_audit [simp]: "cn_audit (start_job t j st) = cn_audit st"
  by (simp add: start_job_def)

lemma save_built_audit: "cn_audit (snd (save_built_profile t ev prof source back st)) = cn_audit st"
  by (auto simp: save_built_profile_def dest: on_store_audit split: sum.splits prod.splits)

lemma mutating_handler_audit:
  "cn_audit (snd (handle_device_refresh a t ev r i st)) = cn_audit st"
  "cn_audit (snd (handle_device_install a t ev r i st)) = cn_audit st"
  "cn_audit (snd (handle_device_remove a t ev r i st)) = cn_audit st"
  "cn_audit (snd (handle_profile_upload a t ev r st)) = cn_audit st"
  "cn_audit (snd (handle_profile_delete a ev r i st)) = cn_audit st"
  "cn_audit (snd (handle_builder_wifi a t ev r st)) = cn_audit st"
  "cn_audit (snd (handle_builder_sso a t ev r st)) = cn_audit st"
  "cn_audit (snd (handle_grant_create a ev r s st)) = cn_audit st"
  "cn_audit (snd (handle_grant_revoke a ev r i st)) = cn_audit st"
  "cn_audit (snd (handle_group_create a ev r st)) = cn_audit st"
  "cn_audit (snd (handle_group_delete a ev r i st)) = cn_audit st"
  "cn_audit (snd (handle_group_device_change a t ev r i st)) = cn_audit st"
  "cn_audit (snd (handle_group_profile_change a t ev r i st)) = cn_audit st"
  by (auto simp: handle_device_refresh_def handle_device_install_def handle_device_remove_def handle_profile_upload_def
      handle_profile_delete_def handle_builder_wifi_def handle_builder_sso_def handle_grant_create_def handle_grant_revoke_def
      handle_group_create_def handle_group_delete_def handle_group_device_change_def handle_group_profile_change_def
      Let_def save_built_audit intro!: csrf_guard_audit dest: on_store_audit
      split: sum.splits prod.splits option.splits parsed.splits upload.splits)

lemma download_keeps: "snd (handle_profile_download ev i st) = st"
  by (simp add: handle_profile_download_def split: option.splits)

lemma handler_audit: "cn_audit (snd (handler a t ev r rt s st)) = cn_audit st"
  by (cases rt) (simp_all add: mutating_handler_audit download_keeps)

lemma page_handler: "\<not> mutating rt \<Longrightarrow> snd (handler a t ev r rt s st) = st"
  by (cases rt) (simp_all add: download_keeps)

lemma mutating_handler_guarded:
  assumes "mutating rt" and "handler a t ev r rt s st = (rep, st')"
  shows "fst (check_csrf a ev r (cn_sessions st)) \<or> (reply_status rep \<noteq> 200 \<and> protected_state st' = protected_state st)"
  using assms
  by (cases rt)
    (auto simp: handle_device_refresh_def handle_device_install_def handle_device_remove_def handle_profile_upload_def
      handle_profile_delete_def handle_builder_wifi_def handle_builder_sso_def handle_grant_create_def handle_grant_revoke_def
      handle_group_create_def handle_group_delete_def handle_group_device_change_def handle_group_profile_change_def see_other_def
      dest!: csrf_guard_cases split: if_splits)

lemma require_role_cases:
  assumes "require_role a ev lo h r st = (rep, st')"
  shows "(\<exists>rows. st' = st\<lparr>cn_sessions := rows\<rparr> \<and> (rep = Redirect 302 ''/login'' None \<or> reply_status rep = 403)) \<or>
    (\<exists>s rows. current_session a ev ''session'' r (cn_sessions st) = (Some s, rows) \<and> at_least (id_role (ses_identity s)) lo \<and>
       h s (st\<lparr>cn_sessions := rows\<rparr>) = (rep, st'))"
proof -
  obtain x rows where c: "current_session a ev ''session'' r (cn_sessions st) = (x, rows)"
    by (cases "current_session a ev ''session'' r (cn_sessions st)")
  with assms show ?thesis by (cases x) (auto simp: require_role_def split: if_splits)
qed

lemma audited_keeps:
  assumes "audited a ev r (rep0, st0) = (rep, st')"
  shows "rep = rep0" and "protected_state st' = protected_state st0"
  using assms by (auto simp: audited_def split: if_splits prod.splits)

definition live_session :: "app \<Rightarrow> env \<Rightarrow> request \<Rightarrow> fleet_console \<Rightarrow> role \<Rightarrow> string \<Rightarrow> session_row \<Rightarrow> bool" where
  \<comment> \<open>the request's cookie \<open>c\<close> names the stored session \<open>row\<close>, live, of a role at least \<open>lo\<close>\<close>
  "live_session a ev r st lo c row \<longleftrightarrow> map_of (rq_cookies r) session_cookie = Some c \<and>
     List.find (\<lambda>x. s_token x = hash_token (ap_sha a) c) (cn_sessions st) = Some row \<and>
     ev_at ev ''session'' \<le> of_secs (s_expires row) \<and> \<not> past_cap (ap_store a) (ev_at ev ''session'') row \<and>
     at_least (s_role row) lo"

lemma serve_route_guarded:
  assumes "serve_route a t ev r rt st = (rep, st')"
    and "reply_status rep = 200 \<or> protected_state st' \<noteq> protected_state st"
  shows "\<exists>c row. live_session a ev r st (min_role rt) c row \<and>
    (mutating rt \<longrightarrow> csrf_submitted r = s_csrf row \<and> csrf_submitted r \<noteq> [] \<and> same_origin (ap_parse_url a) (ap_public_url a) r) \<and>
    (\<not> mutating rt \<longrightarrow> protected_state st' = protected_state st)"
proof -
  obtain st1 where r: "require_role a ev (min_role rt) (handler a t ev r rt) r st = (rep, st1)"
    and p: "protected_state st' = protected_state st1"
    using assms(1)
    by (cases "require_role a ev (min_role rt) (handler a t ev r rt) r st")
      (auto simp: serve_route_def Let_def dest: audited_keeps split: if_splits)
  from require_role_cases[OF r] assms(2) p obtain s rows where
    c: "current_session a ev ''session'' r (cn_sessions st) = (Some s, rows)" and al: "at_least (id_role (ses_identity s)) (min_role rt)"
    and h: "handler a t ev r rt s (st\<lparr>cn_sessions := rows\<rparr>) = (rep, st1)"
    by auto
  from current_session_find[OF c] obtain tok row where f: "map_of (rq_cookies r) session_cookie = Some tok"
    "List.find (\<lambda>x. s_token x = hash_token (ap_sha a) tok) (cn_sessions st) = Some row" "ev_at ev ''session'' \<le> of_secs (s_expires row)"
    "\<not> past_cap (ap_store a) (ev_at ev ''session'') row" "ses_identity s = row_identity row" by blast
  have live: "live_session a ev r st (min_role rt) tok row"
    using f al by (simp add: live_session_def row_identity_def)
  show ?thesis
  proof (cases "mutating rt")
    case True
    from mutating_handler_guarded[OF True h] assms(2) p
    have "fst (check_csrf a ev r rows)" by auto
    from check_csrf_true[OF this] f(1) obtain row1 where r1: "List.find (\<lambda>x. s_token x = hash_token (ap_sha a) tok) rows = Some row1"
      "csrf_submitted r = s_csrf row1" "csrf_submitted r \<noteq> []" "same_origin (ap_parse_url a) (ap_public_url a) r" by auto
    from current_session_keeps[OF c f(1) r1(1)] f(2) r1 have "csrf_submitted r = s_csrf row" by auto
    with live r1 True show ?thesis by blast
  next
    case False
    from page_handler[OF this, of a t ev r s "st\<lparr>cn_sessions := rows\<rparr>"] h p have "protected_state st' = protected_state st" by simp
    with live False show ?thesis by blast
  qed
qed

lemma public_handlers_protected:
  "protected_state (snd (snd (handle_login_form a ev r st))) = protected_state st"
  "protected_state (snd (snd (handle_login a authenticate ev r st))) = protected_state st"
  "protected_state (snd (snd (handle_logout a ev r st))) = protected_state st"
  "protected_state (snd (snd (handle_oidc_login a oidc ev r st))) = protected_state st"
  "protected_state (snd (snd (handle_oidc_callback a oidc ev r st))) = protected_state st"
  by (simp_all add: handle_login_form_def handle_login_def handle_logout_def handle_oidc_login_def handle_oidc_callback_def
      start_session_def protected_state_def Let_def split: option.splits prod.splits sum.splits bool.splits)

lemma get_route_reads: "get_route segs = Some rt \<Longrightarrow> \<not> mutating rt"
  by (auto simp: get_route_def split: list.splits if_splits)

lemma post_route_writes: "post_route segs = Some rt \<Longrightarrow> mutating rt"
  by (auto simp: post_route_def split: list.splits if_splits)

lemma serve_public_protected:
  assumes "serve a t authenticate oidc ev r segs st = (rep, ck, st')" and "route_of (rq_method r) segs = None"
  shows "protected_state st' = protected_state st"
proof -
  have post: "protected_state (snd (snd (case res of (rep, ck, st1) \<Rightarrow> (case audited a ev r (rep, st1) of (rep, st2) \<Rightarrow> (rep, ck, st2)))))
      = protected_state (snd (snd res))" for res :: "reply \<times> cookies \<times> fleet_console"
    by (auto dest: audited_keeps split: prod.splits)
  have "protected_state (snd (snd (serve a t authenticate oidc ev r segs st))) = protected_state st"
    using assms(2) by (simp add: serve_def Let_def post public_handlers_protected del: split_paired_All)
  with assms(1) show ?thesis by simp
qed

lemma console_guarded:
  assumes "serve a t authenticate oidc ev r segs st = (rep, ck, st')" and "protected_state st' \<noteq> protected_state st"
  shows "\<exists>rt c row. rq_method r = ''POST'' \<and> post_route segs = Some rt \<and> live_session a ev r st (min_role rt) c row \<and>
    csrf_submitted r = s_csrf row \<and> csrf_submitted r \<noteq> [] \<and> same_origin (ap_parse_url a) (ap_public_url a) r"
proof -
  from assms serve_public_protected obtain rt where rt: "route_of (rq_method r) segs = Some rt" by fastforce
  with assms(1) have s: "serve_route a t ev r rt st = (rep, st')" by (auto simp: serve_def Let_def split: prod.splits)
  from serve_route_guarded[OF this] assms(2) obtain c row where g: "live_session a ev r st (min_role rt) c row" "mutating rt"
    "csrf_submitted r = s_csrf row" "csrf_submitted r \<noteq> []" "same_origin (ap_parse_url a) (ap_public_url a) r" by blast
  from rt g(2) have "rq_method r = ''POST'' \<and> post_route segs = Some rt"
    by (auto simp: route_of_def dest: get_route_reads split: if_splits)
  with g show ?thesis by blast
qed

definition demo_tools :: tools where
  "demo_tools = \<lparr>tl_send = ok_env, tl_rec = True, tl_organization = ''org'', tl_cairn_anchors = [], tl_anchors = (\<lambda>s. Inl s),
     tl_pkcs7 = Inl, tl_unmarshal = Inl, tl_marshal = (\<lambda>p. Inl []), tl_uuid = (\<lambda>n. replicate 16 0), tl_upload = NoFile\<rparr>"

definition demo_session :: "role \<Rightarrow> session_row" where
  "demo_session role = \<lparr>s_token = hex_encode ''tok'', s_username = ''ann'', s_role = role, s_display = [], s_provider = ''local'',
     s_csrf = ''k'', s_created = Some 0, s_expires = 100\<rparr>"

definition demo_state :: fleet_console where
  "demo_state = \<lparr>cn_sessions = [demo_session role_admin], cn_throttle = None, cn_audit = [],
     fc_core = \<lparr>c_fleet = empty_fleet, c_queue = []\<rparr>, fc_grants = [], fc_jobs = []\<rparr>"

definition demo_post :: "(string \<times> string) list \<Rightarrow> request" where
  "demo_post form = demo_request\<lparr>rq_cookies := [(session_cookie, ''tok'')], rq_form := form\<rparr>"

subsection \<open>Pages\<close>

text \<open>
  No page of the console is shown, and no profile is downloaded, without a live session
  of an operator or better (and of the route's own role); only the sign-in form is public.
\<close>

theorem console_pages_need_operator:
  assumes "serve a t authenticate oidc ev r segs st = (rep, ck, st')" and "reply_status rep = 200" and "segs \<noteq> [''login'']"
  shows "\<exists>rt c row. route_of (rq_method r) segs = Some rt \<and> live_session a ev r st (min_role rt) c row \<and>
    at_least (s_role row) role_operator"
proof -
  have "\<exists>rt. route_of (rq_method r) segs = Some rt"
  proof (rule ccontr)
    assume "\<nexists>rt. route_of (rq_method r) segs = Some rt"
    then have n: "route_of (rq_method r) segs = None" by auto
    have aud: "reply_status (fst (case res of (rep, ck, st1) \<Rightarrow> (case audited a ev r (rep, st1) of (rep, st2) \<Rightarrow> (rep, ck, st2))))
        = reply_status (fst res)" for res :: "reply \<times> cookies \<times> fleet_console"
      by (auto dest: audited_keeps split: prod.splits)
    have s: "reply_status rep1 \<noteq> 200" if "start_session a ev i x = (rep1, ck1, x1)" for i rep1 ck1 and x x1 :: fleet_console
      using start_session_cases[OF that] by auto
    have lo: "reply_status (fst (handle_logout a ev r st)) \<noteq> 200"
      by (simp add: handle_logout_def split: option.splits prod.splits bool.splits)
    have ol: "reply_status (fst (handle_oidc_login a oidc ev r st)) \<noteq> 200"
      by (simp add: handle_oidc_login_def split: option.splits prod.splits)
    have oc: "reply_status (fst (handle_oidc_callback a oidc ev r st)) \<noteq> 200"
      by (auto simp: handle_oidc_callback_def Let_def login_error_def dest: s split: option.splits prod.splits sum.splits)
    have "reply_status (fst (serve a t authenticate oidc ev r segs st)) \<noteq> 200"
      using n assms(3) lo ol oc by (simp add: serve_def Let_def aud del: split_paired_All)
    with assms(1,2) show False by simp
  qed
  then obtain rt where rt: "route_of (rq_method r) segs = Some rt" by blast
  with assms(1) have s: "serve_route a t ev r rt st = (rep, st')" by (auto simp: serve_def Let_def split: prod.splits)
  from serve_route_guarded[OF this] assms(2) obtain c row where g: "live_session a ev r st (min_role rt) c row" by blast
  then have "at_least (s_role row) (min_role rt)" by (simp add: live_session_def)
  moreover have "min_role rt \<in> {role_admin, role_operator}" by (cases rt) simp_all
  ultimately have "at_least (s_role row) role_operator" by (auto simp: at_least_def rank_def role_admin_def role_operator_def role_user_def split: if_splits)
  with rt g show ?thesis by blast
qed

lemma console_pages_need_operator_witness:
  "\<exists>rep ck st'. serve demo_app demo_tools demo_auth None demo_web_env ((demo_post [])\<lparr>rq_method := ''GET''\<rparr>)
      [''admin'', ''devices''] demo_state = (rep, ck, st') \<and>
      (\<exists>c row. live_session demo_app demo_web_env ((demo_post [])\<lparr>rq_method := ''GET''\<rparr>) demo_state role_operator c row)"
proof -
  let ?r = "(demo_post [])\<lparr>rq_method := ''GET''\<rparr>"
  obtain rep ck st' where h: "serve demo_app demo_tools demo_auth None demo_web_env ?r [''admin'', ''devices''] demo_state = (rep, ck, st')"
    by (cases "serve demo_app demo_tools demo_auth None demo_web_env ?r [''admin'', ''devices''] demo_state") auto
  have "reply_status (fst (serve demo_app demo_tools demo_auth None demo_web_env ?r [''admin'', ''devices''] demo_state)) = 200"
    by code_simp
  with h have ok: "reply_status rep = 200" by simp
  from console_pages_need_operator[OF h ok] have "\<exists>c row. live_session demo_app demo_web_env ?r demo_state role_operator c row"
    by (auto simp: route_of_def get_route_def)
  with h show ?thesis by (intro exI[of _ rep] exI[of _ ck] exI[of _ st'] conjI)
qed

subsection \<open>The audit trail of the console\<close>

lemma require_role_audit: "cn_audit (snd (require_role a ev lo (handler a t ev r rt) r st)) = cn_audit st"
  by (simp add: require_role_def handler_audit split: prod.splits option.splits)

lemma audited_row:
  assumes "audited a ev r (rep0, st0) = (rep, st')" and "ap_audit a" and "ev_fault ev ''append'' = None"
  shows "\<exists>row. cn_audit st' = cn_audit st0 @ [row] \<and> au_action row = rq_method r \<and> au_target row = rq_path r \<and>
    au_result row = int_str (reply_status rep) \<and> au_remote row = client_ip a r \<and> au_at row = to_secs (ev_at ev ''append'') \<and>
    au_username row = au_username (audit_row a r rep (fst (current_session a ev ''audit'' r (cn_sessions st0))))"
  using assms by (auto simp: audited_def append_audit_def on_fault_def audit_row_def split: prod.splits)

lemma audited_no_row:
  assumes "audited a ev r (rep0, st0) = (rep, st')" and "\<not> (ap_audit a \<and> ev_fault ev ''append'' = None)"
  shows "cn_audit st' = cn_audit st0"
  using assms by (auto simp: audited_def append_audit_def on_fault_def split: if_splits prod.splits)

lemma login_logout_audit:
  "cn_audit (snd (snd (handle_login a authenticate ev r st))) = cn_audit st"
  "cn_audit (snd (snd (handle_logout a ev r st))) = cn_audit st"
  by (simp_all add: handle_login_def handle_logout_def start_session_def Let_def split: option.splits prod.splits sum.splits bool.splits)

lemma serve_route_audit:
  assumes "serve_route a t ev r rt st = (rep, st')" and "mutating rt"
  obtains st0 where "audited a ev r (rep, st0) = (rep, st')" and "cn_audit st0 = cn_audit st"
proof -
  obtain rep0 st0 where r: "require_role a ev (min_role rt) (handler a t ev r rt) r st = (rep0, st0)"
    by (cases "require_role a ev (min_role rt) (handler a t ev r rt) r st")
  with assms have d: "audited a ev r (rep0, st0) = (rep, st')" by (simp add: serve_route_def)
  from audited_keeps(1)[OF d] d have "audited a ev r (rep, st0) = (rep, st')" by simp
  moreover have "cn_audit st0 = cn_audit st"
    using require_role_audit[of a ev "min_role rt" t r rt st] r by simp
  ultimately show ?thesis by (rule that)
qed

definition audited_path :: "string list \<Rightarrow> bool" where
  "audited_path segs \<longleftrightarrow> post_route segs \<noteq> None \<or> segs = [''login''] \<or> segs = [''logout'']"

lemma serve_post_audit:
  assumes "serve a t authenticate oidc ev r segs st = (rep, ck, st')" and "rq_method r = ''POST''" and "audited_path segs"
  obtains st0 where "audited a ev r (rep, st0) = (rep, st')" and "cn_audit st0 = cn_audit st"
proof (cases "post_route segs")
  case (Some rt)
  with assms have "serve_route a t ev r rt st = (rep, st')" by (auto simp: serve_def route_of_def Let_def split: prod.splits)
  from serve_route_audit[OF this post_route_writes[OF Some]] that show ?thesis by blast
next
  case None
  define res where "res = (if segs = [''login''] then handle_login a authenticate ev r st else handle_logout a ev r st)"
  obtain rep0 ck0 st0 where res0: "res = (rep0, ck0, st0)" by (cases res)
  have "serve a t authenticate oidc ev r segs st = (case res of (rep, ck, st1) \<Rightarrow> (case audited a ev r (rep, st1) of (rep, st2) \<Rightarrow> (rep, ck, st2)))"
    using None assms(2,3) by (auto simp: serve_def route_of_def Let_def audited_path_def res_def)
  with assms(1) res0 have d: "audited a ev r (rep0, st0) = (rep, st')" by (auto split: prod.splits)
  have "cn_audit st0 = cn_audit st" using login_logout_audit[where st = st and r = r and a = a and ev = ev] res0
    by (auto simp: res_def split: if_splits) (metis snd_conv)+
  with d audited_keeps(1)[OF d] that show ?thesis by blast
qed

text \<open>
  The acting user the audit log records is not always the acting user: a POST without a
  session, which every action route refuses with a redirect to the sign-in page, is recorded
  under whatever \<open>username\<close> its own form claims.
\<close>

theorem audit_name_forgeable:
  assumes "serve a t authenticate oidc ev r segs st = (rep, ck, st')" and "rq_method r = ''POST''" and "post_route segs \<noteq> None"
    and "map_of (rq_cookies r) session_cookie = None" and "ap_audit a" and "ev_fault ev ''append'' = None"
  shows "rep = Redirect 302 ''/login'' None \<and>
    (\<exists>row. cn_audit st' = cn_audit st @ [row] \<and> au_username row = field (rq_form r) ''username'')"
proof -
  from assms(3) obtain rt where rt: "post_route segs = Some rt" by auto
  have c: "current_session a ev k r rows = (None, rows)" for k rows using assms(4) by (simp add: current_session_def)
  have rep: "rep = Redirect 302 ''/login'' None"
    using assms(1,2) rt post_route_writes[OF rt]
    by (auto simp: serve_def route_of_def serve_route_def require_role_def c Let_def dest: audited_keeps split: prod.splits)
  have p: "audited_path segs" using assms(3) by (simp add: audited_path_def)
  obtain st0 where d: "audited a ev r (rep, st0) = (rep, st')" and e: "cn_audit st0 = cn_audit st"
    by (rule serve_post_audit[OF assms(1,2) p])
  from audited_row[OF d assms(5,6)] e rep show ?thesis by (auto simp: c audit_row_def)
qed

lemma audit_name_forgeable_witness:
  "\<exists>rep ck st' row. serve demo_app demo_tools demo_auth None demo_web_env demo_request [''admin'', ''groups''] demo_state = (rep, ck, st') \<and>
     rep = Redirect 302 ''/login'' None \<and> cn_audit st' = [row] \<and> au_username row = ''ann''"
proof -
  obtain rep ck st' where h: "serve demo_app demo_tools demo_auth None demo_web_env demo_request [''admin'', ''groups''] demo_state = (rep, ck, st')"
    by (cases "serve demo_app demo_tools demo_auth None demo_web_env demo_request [''admin'', ''groups''] demo_state") auto
  have "rep = Redirect 302 ''/login'' None \<and>
    (\<exists>row. cn_audit st' = cn_audit demo_state @ [row] \<and> au_username row = field (rq_form demo_request) ''username'')"
    by (rule audit_name_forgeable[OF h])
      (simp_all add: demo_request_def demo_app_def demo_web_env_def post_route_def session_cookie_def)
  with h show ?thesis by (auto simp: demo_state_def demo_request_def field_def)
qed

text \<open>
  A sign-in through single sign-on leaves no trace in the audit log: no GET request is
  recorded, and the callback that creates the session is one.
\<close>

theorem sso_sign_in_not_audited:
  assumes "serve a t authenticate oidc ev r segs st = (rep, ck, st')" and "rq_method r = ''GET''"
  shows "cn_audit st' = cn_audit st"
proof (cases "get_route segs")
  case (Some rt)
  with assms have "serve_route a t ev r rt st = (rep, st')" by (auto simp: serve_def route_of_def Let_def split: prod.splits)
  with get_route_reads[OF Some] have "require_role a ev (min_role rt) (handler a t ev r rt) r st = (rep, st')"
    by (simp add: serve_route_def)
  with require_role_audit[of a ev "min_role rt" t r rt st] show ?thesis by simp
next
  case None
  have "cn_audit (snd (snd (handle_login_form a ev r st))) = cn_audit st"
    "cn_audit (snd (snd (handle_oidc_login a oidc ev r st))) = cn_audit st"
    "cn_audit (snd (snd (handle_oidc_callback a oidc ev r st))) = cn_audit st"
    by (simp_all add: handle_login_form_def handle_oidc_login_def handle_oidc_callback_def start_session_def Let_def
        split: option.splits prod.splits sum.splits)
  then have "cn_audit (snd (snd (serve a t authenticate oidc ev r segs st))) = cn_audit st"
    using None assms(2) by (simp add: serve_def route_of_def Let_def)
  with assms(1) show ?thesis by simp
qed

lemma sso_sign_in_not_audited_witness:
  "\<exists>rep ck st'. serve demo_app demo_tools demo_auth (Some demo_provider) demo_web_env
      (demo_request\<lparr>rq_method := ''GET'', rq_cookies := [(state_cookie, ''s''), (nonce_cookie, ''n'')],
         rq_query := [(''state'', ''s''), (''code'', ''c'')]\<rparr>) [''auth'', ''oidc'', ''callback''] demo_state = (rep, ck, st') \<and>
     map s_username (cn_sessions st') = [''ann'', ''ann''] \<and> cn_audit st' = []"
proof -
  let ?r = "demo_request\<lparr>rq_method := ''GET'', rq_cookies := [(state_cookie, ''s''), (nonce_cookie, ''n'')],
         rq_query := [(''state'', ''s''), (''code'', ''c'')]\<rparr>"
  let ?x = "serve demo_app demo_tools demo_auth (Some demo_provider) demo_web_env ?r [''auth'', ''oidc'', ''callback''] demo_state"
  obtain rep ck st' where h: "?x = (rep, ck, st')" by (cases ?x) auto
  have "map s_username (cn_sessions (snd (snd ?x))) = [''ann'', ''ann'']" by code_simp
  with h have "map s_username (cn_sessions st') = [''ann'', ''ann'']" by simp
  moreover have "cn_audit st' = []" using sso_sign_in_not_audited[OF h] by (simp add: demo_state_def)
  ultimately show ?thesis using h by (intro exI[of _ rep] exI[of _ ck] exI[of _ st'] conjI)
qed

subsection \<open>Grants and library entries as the forms ask for them\<close>

lemma serve_action:
  assumes "serve a t authenticate oidc ev r segs st = (rep, ck, st')" and "rq_method r = ''POST''" and "post_route segs = Some rt"
    and "reply_status rep = 200"
  shows "\<exists>s rows rows2 st1. current_session a ev ''session'' r (cn_sessions st) = (Some s, rows) \<and>
    handler a t ev r rt s (st\<lparr>cn_sessions := rows\<rparr>) = (rep, st1) \<and> protected_state st' = protected_state st1"
proof -
  have s: "serve_route a t ev r rt st = (rep, st')" using assms(1-3) by (auto simp: serve_def route_of_def Let_def split: prod.splits)
  obtain rep0 st1 where r: "require_role a ev (min_role rt) (handler a t ev r rt) r st = (rep0, st1)"
    by (cases "require_role a ev (min_role rt) (handler a t ev r rt) r st")
  with s have d: "audited a ev r (rep0, st1) = (rep, st')"
    using post_route_writes[OF assms(3)] by (simp add: serve_route_def)
  from require_role_cases[OF r] audited_keeps[OF d] assms(4) show ?thesis by auto
qed

text \<open>
  The link the console shows is for the grant it stored and no other: one new grant,
  unused and unrevoked, stored under the hash of the token in the link, for at least one use,
  created by the signed-in user, expiring the requested number of hours after the request
  (for up to 2562047 hours; 24 when none is given).
\<close>

theorem grant_created_as_asked:
  assumes "serve a t authenticate oidc ev r [''admin'', ''enrollment''] st = (rep, ck, st')" and "rq_method r = ''POST''"
    and "reply_status rep = 200"
    and "hours = (if atoi (field (rq_form r) ''expires_hours'') \<le> 0 then 24 else atoi (field (rq_form r) ''expires_hours''))"
    and "hours \<le> 2562047"
  shows "\<exists>raw g c row. fc_grants st' = fc_grants st @ [g] \<and>
    rep = Page 200 ''enrollment.html'' (trim_right (\<lambda>c. c = CHR ''/'') (ap_public_url a) @ ''/e/'' @ raw) \<and>
    g_token_hash g = hash_grant_token (ap_sha a) raw \<and> g_token_hash g \<notin> g_token_hash ` set (fc_grants st) \<and>
    g_use_count g = 0 \<and> g_revoked_at g = None \<and> 1 \<le> g_max_uses g \<and>
    g_expires_at g = to_secs (ev_at ev ''expiry'' + hours * hour) \<and>
    live_session a ev r st role_operator c row \<and> g_created_by g = s_username row"
proof -
  have rt: "post_route [''admin'', ''enrollment''] = Some GrantCreate" by (simp add: post_route_def)
  from serve_action[OF assms(1,2) rt assms(3)] obtain s rows st1 where
    cs: "current_session a ev ''session'' r (cn_sessions st) = (Some s, rows)"
    and h: "handle_grant_create a ev r s (st\<lparr>cn_sessions := rows\<rparr>) = (rep, st1)" and p: "protected_state st' = protected_state st1"
    by auto
  define raw where "raw = hex_encode (ev_rnd ev ''grant'')"
  from h assms(3) obtain rows2 i st2 where
    g: "on_grants (create_grant (ev_fault ev ''create-grant'') (ev_at ev ''create-grant'') (grant_form ev r s) (hash_grant_token (ap_sha a) raw))
         (st\<lparr>cn_sessions := rows2\<rparr>) = (Inr i, st1)"
    and rep: "rep = Page 200 ''enrollment.html'' (trim_right (\<lambda>c. c = CHR ''/'') (ap_public_url a) @ ''/e/'' @ raw)"
    by (auto simp: handle_grant_create_def csrf_guard_def new_grant_token_def Let_def raw_def see_other_def
        split: if_splits prod.splits bool.splits sum.splits)
  from g obtain gr where gr: "fc_grants st1 = fc_grants st @ [gr]" "g_token_hash gr = hash_grant_token (ap_sha a) raw"
    "g_token_hash gr \<notin> g_token_hash ` set (fc_grants st)" "g_use_count gr = 0" "g_revoked_at gr = None"
    "g_max_uses gr = normal_uses (g_max_uses (grant_form ev r s))" "g_expires_at gr = g_expires_at (grant_form ev r s)"
    "g_created_by gr = g_created_by (grant_form ev r s)"
    by (auto simp: on_grants_def create_grant_def Let_def split: option.splits if_splits prod.splits)
  have "wrap64 (hours * hour) = hours * hour"
    using assms(4,5) by (intro wrap64_id) (auto simp: hour_def second_def)
  then have e: "g_expires_at (grant_form ev r s) = to_secs (ev_at ev ''expiry'' + hours * hour)"
    using assms(4) by (auto simp: grant_form_def Let_def post_def)
  have u: "g_created_by (grant_form ev r s) = id_username (ses_identity s)" by (simp add: grant_form_def Let_def)
  have ok: "reply_status rep = 200 \<or> protected_state st' \<noteq> protected_state st" using assms(3) by simp
  have s: "serve_route a t ev r GrantCreate st = (rep, st')"
    using assms(1,2) rt by (auto simp: serve_def route_of_def Let_def split: prod.splits)
  from serve_route_guarded[OF s ok] obtain c row where live: "live_session a ev r st role_operator c row" by auto
  from current_session_find[OF cs] live have "id_username (ses_identity s) = s_username row"
    by (auto simp: live_session_def row_identity_def)
  with gr e u live rep p have "fc_grants st' = fc_grants st @ [gr] \<and>
    rep = Page 200 ''enrollment.html'' (trim_right (\<lambda>c. c = CHR ''/'') (ap_public_url a) @ ''/e/'' @ raw) \<and>
    g_token_hash gr = hash_grant_token (ap_sha a) raw \<and> g_token_hash gr \<notin> g_token_hash ` set (fc_grants st) \<and>
    g_use_count gr = 0 \<and> g_revoked_at gr = None \<and> 1 \<le> g_max_uses gr \<and>
    g_expires_at gr = to_secs (ev_at ev ''expiry'' + hours * hour) \<and>
    live_session a ev r st role_operator c row \<and> g_created_by gr = s_username row"
    by (simp add: protected_state_def normal_uses_def)
  then show ?thesis by (intro exI)
qed

lemma grant_created_as_asked_witness:
  "\<exists>rep ck st' g. serve demo_app demo_tools demo_auth None demo_web_env (demo_post [(''csrf'', ''k''), (''max_uses'', ''3''), (''expires_hours'', ''2'')])
      [''admin'', ''enrollment''] demo_state = (rep, ck, st') \<and> fc_grants st' = [g] \<and> g_expires_at g = 7205"
proof -
  let ?r = "demo_post [(''csrf'', ''k''), (''max_uses'', ''3''), (''expires_hours'', ''2'')]"
  let ?x = "serve demo_app demo_tools demo_auth None demo_web_env ?r [''admin'', ''enrollment''] demo_state"
  obtain rep ck st' where h: "?x = (rep, ck, st')" by (cases ?x) auto
  have "reply_status (fst ?x) = 200" by code_simp
  with h have ok: "reply_status rep = 200" by simp
  have m: "rq_method ?r = ''POST''" by (simp add: demo_post_def demo_request_def)
  have n: "atoi (field (rq_form ?r) ''expires_hours'') = 2" by code_simp
  then have hr: "(2::int) = (if atoi (field (rq_form ?r) ''expires_hours'') \<le> 0 then 24 else atoi (field (rq_form ?r) ''expires_hours''))"
    by simp
  from grant_created_as_asked[OF h m ok hr] have "\<exists>g. fc_grants st' = [g] \<and> g_expires_at g = 7205"
    by (auto simp: demo_state_def demo_web_env_def to_secs_def second_def hour_def)
  with h show ?thesis by blast
qed

text \<open>
  The hours of a grant are multiplied as a 64-bit duration without a bound: 5124095
  requested hours wrap around to a grant that had expired 34 minutes before it was created.
\<close>

theorem grant_hours_overflow:
  assumes "field (rq_form r) ''expires_hours'' = ''5124095''"
  shows "g_expires_at (grant_form ev r s) = to_secs (ev_at ev ''expiry'' - 2073709551616)"
proof -
  have "atoi ''5124095'' = 5124095" by code_simp
  moreover have "wrap64 (5124095 * hour) = - 2073709551616" by (simp add: wrap64_def hour_def second_def)
  ultimately show ?thesis using assms by (simp add: grant_form_def post_def Let_def)
qed

lemma grant_hours_overflow_witness:
  "g_expires_at (grant_form demo_web_env (demo_post [(''expires_hours'', ''5124095'')])
     \<lparr>ses_token = [], ses_identity = row_identity (demo_session role_admin), ses_csrf = [], ses_expires = 0\<rparr>) = - 2069"
  using grant_hours_overflow[of "demo_post [(''expires_hours'', ''5124095'')]" demo_web_env]
  by (simp add: demo_post_def field_def demo_web_env_def to_secs_def second_def)

lemma save_profile_keeps:
  assumes "save_profile None now p st = (Inr i, st1)"
  shows "f_assigned st1 = f_assigned st" and "\<exists>q. List.find (\<lambda>q. p_identifier q = p_identifier p) (f_profiles st1) = Some q \<and> p_id q = i"
    and "\<forall>q\<in>set (f_profiles st1). p_identifier q = p_identifier p \<longrightarrow> p_data q = p_data p"
proof -
  have "f_assigned st1 = f_assigned st \<and> (\<exists>q. List.find (\<lambda>q. p_identifier q = p_identifier p) (f_profiles st1) = Some q \<and> p_id q = i) \<and>
     (\<forall>q\<in>set (f_profiles st1). p_identifier q = p_identifier p \<longrightarrow> p_data q = p_data p)"
  proof (cases "List.find (\<lambda>q. p_identifier q = p_identifier p) (f_profiles st)")
    case None
    moreover from None have "\<forall>q\<in>set (f_profiles st). p_identifier q \<noteq> p_identifier p" by (auto simp: find_None_iff)
    ultimately show ?thesis using assms by (auto simp: save_profile_def upsert_def find_append Let_def)
  next
    case (Some q)
    with find_SomeD[OF Some] assms show ?thesis
      by (auto simp: save_profile_def upsert_def find_update_where set_update_where Let_def)
  qed
  then show "f_assigned st1 = f_assigned st" and "\<exists>q. List.find (\<lambda>q. p_identifier q = p_identifier p) (f_profiles st1) = Some q \<and> p_id q = i"
    and "\<forall>q\<in>set (f_profiles st1). p_identifier q = p_identifier p \<longrightarrow> p_data q = p_data p" by blast+
qed

lemma save_profile_again:
  assumes "List.find (\<lambda>q. p_identifier q = p_identifier p) (f_profiles st) = Some q"
  shows "fst (save_profile None now p st) = Inr (p_id q)" and "length (f_profiles (snd (save_profile None now p st))) = length (f_profiles st)"
  using assms by (simp_all add: save_profile_def upsert_def update_where_def Let_def)

text \<open>
  Networks whose names differ only in what \<open>slugify\<close> drops share one library entry:
  building a profile for the second one, for the same organization, replaces the first one's
  data under the same id, so the groups the first network was assigned to now carry the
  second.
\<close>

theorem wifi_library_collision:
  assumes "build_wifi u1 p1 = Inr prof1" and "build_wifi u2 p2 = Inr prof2"
    and "wf_organization p1 = wf_organization p2" and "slugify (wf_ssid p1) = slugify (wf_ssid p2)"
    and "reads_back marshal unmarshal prof1" and "reads_back marshal unmarshal prof2"
    and "parse_info pkcs7 unmarshal (marshal prof1) = Inr info1" and "parse_info pkcs7 unmarshal (marshal prof2) = Inr info2"
    and "save_profile None now1 (library_entry info1 ''builder:wifi'' (marshal prof1)) st = (Inr i1, st1)"
    and "save_profile None now2 (library_entry info2 ''builder:wifi'' (marshal prof2)) st1 = (Inr i2, st2)"
  shows "i2 = i1 \<and> length (f_profiles st2) = length (f_profiles st1) \<and> f_assigned st2 = f_assigned st1 \<and>
    (\<forall>q\<in>set (f_profiles st2). p_identifier q = pi_identifier info1 \<longrightarrow> p_data q = marshal prof2)"
proof -
  obtain d1 pl1 n1 where c1: "prof1 = configuration (wf_organization p1 @ ''.wifi.'' @ slugify (wf_ssid p1)) (new_uuid (u1 n1)) d1
      (wf_organization p1) pl1"
    using assms(1) by (auto simp: build_wifi_def split: if_splits sum.splits)
  obtain d2 pl2 n2 where c2: "prof2 = configuration (wf_organization p2 @ ''.wifi.'' @ slugify (wf_ssid p2)) (new_uuid (u2 n2)) d2
      (wf_organization p2) pl2"
    using assms(2) by (auto simp: build_wifi_def split: if_splits sum.splits)
  have same: "pi_identifier info2 = pi_identifier info1"
    using parse_configuration[OF assms(5)[unfolded c1], of pkcs7] parse_configuration[OF assms(6)[unfolded c2], of pkcs7]
      assms(3,4,7,8) c1 c2 by auto
  let ?e1 = "library_entry info1 ''builder:wifi'' (marshal prof1)"
  let ?e2 = "library_entry info2 ''builder:wifi'' (marshal prof2)"
  have id: "p_identifier ?e1 = pi_identifier info1" "p_identifier ?e2 = pi_identifier info1" "p_data ?e2 = marshal prof2"
    by (simp_all add: library_entry_def same)
  from save_profile_keeps(2)[OF assms(9)] obtain q where
    q: "List.find (\<lambda>q. p_identifier q = p_identifier ?e2) (f_profiles st1) = Some q" "p_id q = i1" by (auto simp: id)
  from save_profile_again[OF q(1), of now2] save_profile_keeps(1,3)[OF assms(10)] assms(10) q(2) show ?thesis
    by (simp add: id)
qed

lemma wifi_library_collision_witness:
  "slugify ''Lab A'' = slugify ''lab.a'' \<and>
   (\<exists>i st1 st2 x1 x2. save_profile None 0 (library_entry x1 ''builder:wifi'' ''<?xml Lab A'') empty_fleet = (Inr i, st1) \<and>
     save_profile None second (library_entry x2 ''builder:wifi'' ''<?xml lab.a'') st1 = (Inr i, st2) \<and> length (f_profiles st2) = 1)"
proof -
  define p2 where "p2 = demo_wifi\<lparr>wf_ssid := ''lab.a''\<rparr>"
  obtain prof1 where b1: "build_wifi (\<lambda>n. replicate 16 0) demo_wifi = Inr prof1"
    by (simp add: build_wifi_def wifi_payloads_def demo_wifi_def Let_def)
  obtain prof2 where b2: "build_wifi (\<lambda>n. replicate 16 0) p2 = Inr prof2"
    by (simp add: build_wifi_def wifi_payloads_def demo_wifi_def p2_def Let_def)
  have s: "slugify ''Lab A'' = slugify ''lab.a''" by code_simp
  have ss: "slugify (wf_ssid demo_wifi) = slugify (wf_ssid p2)" using s by (simp add: demo_wifi_def p2_def)
  have d: "str_at prof1 ''PayloadDisplayName'' = ''Wi-Fi: Lab A''" "str_at prof2 ''PayloadDisplayName'' = ''Wi-Fi: lab.a''"
    using b1 b2 by (auto simp: build_wifi_def wifi_payloads_def demo_wifi_def p2_def configuration_def str_at_def Let_def)
  define m where "m = (\<lambda>p. if str_at p ''PayloadDisplayName'' = ''Wi-Fi: Lab A'' then ''<?xml Lab A'' else ''<?xml lab.a'')"
  define um where "um = (\<lambda>s. if s = ''<?xml Lab A'' then Inr (top_of prof1) else (Inr (top_of prof2) :: string + profile_top))"
  have m: "m prof1 = ''<?xml Lab A''" "m prof2 = ''<?xml lab.a''" by (simp_all add: m_def d)
  have r: "reads_back m um prof1" "reads_back m um prof2" by (simp_all add: reads_back_def m um_def)
  obtain i u dd og c where c1: "prof1 = configuration i u dd og c" "i \<noteq> []"
    using b1 by (auto simp: build_wifi_def split: if_splits sum.splits)
  obtain i' u' dd' og' c' where c2: "prof2 = configuration i' u' dd' og' c'" "i' \<noteq> []"
    using b2 by (auto simp: build_wifi_def split: if_splits sum.splits)
  obtain x1 where x1: "parse_info Inl um (m prof1) = Inr x1" using parse_configuration[OF r(1)[unfolded c1(1)] c1(2)] c1(1) by auto
  obtain x2 where x2: "parse_info Inl um (m prof2) = Inr x2" using parse_configuration[OF r(2)[unfolded c2(1)] c2(2)] c2(1) by auto
  obtain i1 st1 where s1: "save_profile None 0 (library_entry x1 ''builder:wifi'' (m prof1)) empty_fleet = (Inr i1, st1)"
    by (simp add: save_profile_def Let_def)
  obtain i2 st2 where s2: "save_profile None second (library_entry x2 ''builder:wifi'' (m prof2)) st1 = (Inr i2, st2)"
    by (simp add: save_profile_def Let_def)
  from wifi_library_collision[OF b1 b2 _ ss r x1 x2 s1 s2] have "i2 = i1 \<and> length (f_profiles st2) = length (f_profiles st1)"
    by (simp add: demo_wifi_def p2_def)
  moreover have "length (f_profiles st1) = 1" using s1 by (auto simp: save_profile_def empty_fleet_def upsert_def Let_def)
  ultimately have fin: "save_profile None 0 (library_entry x1 ''builder:wifi'' ''<?xml Lab A'') empty_fleet = (Inr i1, st1) \<and>
     save_profile None second (library_entry x2 ''builder:wifi'' ''<?xml lab.a'') st1 = (Inr i1, st2) \<and> length (f_profiles st2) = 1"
    using s1 s2 m by simp
  show ?thesis by (rule conjI[OF s], (rule exI)+, rule fin)
qed

end
