(* ===== verification/Enroll.thy ===== *)
theory Enroll
  imports Grants ProfileBuild
begin

section \<open>The enrollment endpoint\<close>

text \<open>
  \<open>internal/enroll/enroll.go\<close>, and its adapter to the grants table in \<open>cmd/cairn/serve.go\<close>.
  The redeemer is the interface of the locale \<open>redeemer\<close>: what a client of it is worth is
  proved inside the locale and holds of the grants table by its interpretation.  The current
  APNs topic, the plist encoder and the CMS signer are parameters.
\<close>

record enroll_cfg =
  ec_organization :: string
  ec_anchors :: "string list"
  ec_scep_url :: string
  ec_challenge :: string
  ec_server_url :: string
  ec_subject_prefix :: string
  ec_allow_open :: bool

record enroll_env =
  ee_topic :: "string + string"
  ee_rnd :: "nat \<Rightarrow> 8 word list"
  ee_marshal :: "payload \<Rightarrow> string + string"
  ee_sign :: "(string \<Rightarrow> string + string) option"

datatype enroll_reply = Served payload string | Refused int string
  \<comment> \<open>the profile and the bytes sent\<close>

definition subject_cn :: "enroll_cfg \<Rightarrow> string" where
  "subject_cn cfg = ''%SerialNumber%'' @ (if ec_subject_prefix cfg = [] then [] else ''.'' @ ec_subject_prefix cfg)"

definition params_for :: "enroll_cfg \<Rightarrow> string \<Rightarrow> string \<Rightarrow> enrollment_params" where
  "params_for cfg topic owner = \<lparr>ep_organization = ec_organization cfg, ep_display = [], ep_anchors = ec_anchors cfg,
     ep_scep_url = ec_scep_url cfg, ep_scep_name = [], ep_subject_cn = subject_cn cfg, ep_challenge = ec_challenge cfg,
     ep_key_size = 0, ep_owner = owner, ep_server_url = ec_server_url cfg, ep_checkin_url = ec_server_url cfg, ep_topic = topic\<rparr>"

definition serve_profile :: "enroll_cfg \<Rightarrow> enroll_env \<Rightarrow> redemption \<Rightarrow> enroll_reply" where
  "serve_profile cfg ev red =
     (case ee_topic ev of
        Inl e \<Rightarrow> Refused 503 ''server not ready: no APNs push certificate loaded''
      | Inr topic \<Rightarrow>
          if topic = [] then Refused 503 ''server not ready: no APNs push certificate loaded''
          else case build_enrollment (ee_rnd ev) (params_for cfg topic (red_owner red)) of
            Inl e \<Rightarrow> Refused 500 ''failed to build profile''
          | Inr prof \<Rightarrow> (case ee_marshal ev prof of
              Inl e \<Rightarrow> Refused 500 ''failed to render profile''
            | Inr xml \<Rightarrow> (case ee_sign ev of
                None \<Rightarrow> Served prof xml
              | Some sign \<Rightarrow> (case sign xml of Inl e \<Rightarrow> Refused 500 ''failed to sign profile'' | Inr body \<Rightarrow> Served prof body))))"

definition serve_open :: "enroll_cfg \<Rightarrow> enroll_env \<Rightarrow> enroll_reply" where
  "serve_open cfg ev =
     (if \<not> ec_allow_open cfg then Refused 404 ''404 page not found''
      else serve_profile cfg ev \<lparr>red_id = 0, red_platform = [], red_owner = [], red_expected_serial = []\<rparr>)"

definition serve_grant ::
  "(fault \<Rightarrow> nanos \<Rightarrow> string \<Rightarrow> 'st \<Rightarrow> (grant_err + redemption) \<times> 'st) option \<Rightarrow> enroll_cfg \<Rightarrow> enroll_env \<Rightarrow>
   fault \<Rightarrow> nanos \<Rightarrow> string \<Rightarrow> 'st \<Rightarrow> enroll_reply \<times> 'st" where
  "serve_grant red_opt cfg ev ft now token st =
     (case red_opt of
        None \<Rightarrow> (Refused 404 ''404 page not found'', st)
      | Some redeem \<Rightarrow> (case redeem ft now (trim_space token) st of
          (Inl e, st1) \<Rightarrow> (Refused 410 ''This enrollment link is invalid, expired, or already used.'', st1)
        | (Inr red, st1) \<Rightarrow> (serve_profile cfg ev red, st1)))"

type_synonym enroll_request = "enroll_env \<times> fault \<times> nanos \<times> string"

fun profiles_served ::
  "(fault \<Rightarrow> nanos \<Rightarrow> string \<Rightarrow> 'st \<Rightarrow> (grant_err + redemption) \<times> 'st) \<Rightarrow> enroll_cfg \<Rightarrow> string \<Rightarrow> enroll_request list \<Rightarrow> 'st \<Rightarrow> nat" where
  \<comment> \<open>the profiles that the requests with this token obtain\<close>
  "profiles_served redeem cfg raw [] st = 0"
| "profiles_served redeem cfg raw ((ev, ft, now, token) # rs) st =
     (case serve_grant (Some redeem) cfg ev ft now token st of
        (rep, st1) \<Rightarrow> (case rep of Served p b \<Rightarrow> if trim_space token = raw then 1 else 0 | Refused c m \<Rightarrow> 0)
          + profiles_served redeem cfg raw rs st1)"

subsection \<open>What a client of a redeemer gets\<close>

context redeemer
begin

lemma serve_keeps: "inv st \<Longrightarrow> inv (snd (serve_grant (Some redeem) cfg ev ft now token st))"
  using keeps[of st ft now "trim_space token"] by (auto simp: serve_grant_def split: prod.splits sum.splits)

lemma served_costs_one:
  assumes "inv st" and "serve_grant (Some redeem) cfg ev ft now token st = (Served p b, st1)"
  shows "budget (trim_space token) st1 = budget (trim_space token) st - 1"
  using assms costs_one[of st ft now "trim_space token"]
  by (auto simp: serve_grant_def split: prod.splits sum.splits)

lemma serve_never_gains: "inv st \<Longrightarrow> budget k (snd (serve_grant (Some redeem) cfg ev ft now token st)) \<le> budget k st"
  using never_gains[of st k ft now "trim_space token"] by (auto simp: serve_grant_def split: prod.splits sum.splits)

lemma served_in_budget: "inv st \<Longrightarrow> int (profiles_served redeem cfg raw rs st) \<le> budget raw st"
proof (induction rs arbitrary: st)
  case Nil
  then show ?case by (simp add: in_budget)
next
  case (Cons r rs)
  obtain ev ft now token where r: "r = (ev, ft, now, token)" by (cases r rule: prod_cases4)
  obtain rep st1 where s: "serve_grant (Some redeem) cfg ev ft now token st = (rep, st1)"
    by (cases "serve_grant (Some redeem) cfg ev ft now token st")
  have "inv st1" using serve_keeps[OF Cons.prems, of cfg ev ft now token] s by simp
  note ih = Cons.IH[OF this]
  have le: "budget raw st1 \<le> budget raw st" using serve_never_gains[OF Cons.prems, of raw cfg ev ft now token] s by simp
  show ?case
  proof (cases rep)
    case (Served p b)
    with served_costs_one[OF Cons.prems] s have "budget (trim_space token) st1 = budget (trim_space token) st - 1" by blast
    with ih le r s Served show ?thesis by auto
  next
    case (Refused c m)
    with ih le r s show ?thesis by simp
  qed
qed

end

subsection \<open>On the grants table\<close>

definition enroll_grants ::
  "(string \<Rightarrow> string) \<Rightarrow> enroll_cfg \<Rightarrow> enroll_env \<Rightarrow> fault \<Rightarrow> nanos \<Rightarrow> string \<Rightarrow> grant_row list \<Rightarrow> enroll_reply \<times> grant_row list" where
  \<comment> \<open>\<open>ServeGrant\<close> with the \<open>grantRedeemer\<close> of \<open>serve.go\<close>\<close>
  "enroll_grants sha cfg ev ft now token rows = serve_grant (Some (redeem_grant sha)) cfg ev ft now token rows"

text \<open>
  C18: However many requests with a grant's token reach the enrollment endpoint, with whatever
  failures and with requests for other grants between them, they obtain at most as many
  enrollment profiles as the grant has uses left.
\<close>

theorem enrollments_within_grant:
  assumes "grants_ok rows"
  shows "int (profiles_served (redeem_grant sha) cfg raw rs rows) \<le> remaining (hash_grant_token sha raw) rows"
  using gr.served_in_budget[OF assms] .

definition demo_enroll :: enroll_cfg where
  "demo_enroll = \<lparr>ec_organization = ''org'', ec_anchors = [''der''], ec_scep_url = ''https://mdm/scep'', ec_challenge = [],
     ec_server_url = ''https://mdm/mdm'', ec_subject_prefix = ''dev'', ec_allow_open = False\<rparr>"

definition demo_enroll_env :: "string \<Rightarrow> enroll_env" where
  "demo_enroll_env topic = \<lparr>ee_topic = Inr topic, ee_rnd = (\<lambda>n. replicate 16 0), ee_marshal = (\<lambda>p. Inr ''xml''), ee_sign = None\<rparr>"

definition demo_grant_row :: grant_row where
  "demo_grant_row = \<lparr>g_id = 1, g_label = [], g_platform = ''any'', g_owner = ''ann@x'', g_created_by = ''op'', g_created_at = 0,
     g_expires_at = 100, g_max_uses = 1, g_use_count = 0, g_revoked_at = None, g_expected_serial = [], g_last_used_at = None,
     g_token_hash = hash_grant_token (\<lambda>s. s) ''t''\<rparr>"

lemma demo_grant_row_ok: "grants_ok [demo_grant_row]"
  by (simp add: grants_ok_def demo_grant_row_def)

lemma enrollments_within_grant_witness:
  "profiles_served (redeem_grant (\<lambda>s. s)) demo_enroll ''t''
      (replicate 3 (demo_enroll_env ''topic'', None, 5 * second, '' t '')) [demo_grant_row] \<le> 1"
proof -
  have "remaining (hash_grant_token (\<lambda>s. s) ''t'') [demo_grant_row] = 1"
    by (simp add: remaining_def find_grant_def demo_grant_row_def)
  with enrollments_within_grant[OF demo_grant_row_ok, of "\<lambda>s. s" demo_enroll "''t''"
      "replicate 3 (demo_enroll_env ''topic'', None, 5 * second, '' t '')"]
  show ?thesis by simp
qed

definition identity_request :: "payload \<Rightarrow> payload \<Rightarrow> bool" where
  \<comment> \<open>\<open>req\<close> is what the profile's SCEP payload asks for\<close>
  "identity_request prof req \<longleftrightarrow> (\<exists>content scep. map_of prof ''PayloadContent'' = Some (VArr (map VDict content)) \<and>
     scep \<in> set content \<and> payload_type scep = ''com.apple.security.scep'' \<and> map_of scep ''PayloadContent'' = Some (VDict req))"

lemma serve_profile_served:
  assumes "serve_profile cfg ev red = Served prof body"
  shows "\<exists>topic. ee_topic ev = Inr topic \<and> topic \<noteq> [] \<and> build_enrollment (ee_rnd ev) (params_for cfg topic (red_owner red)) = Inr prof"
  using assms by (auto simp: serve_profile_def split: sum.splits option.splits if_splits)

lemma serve_profile_ready:
  assumes "ee_topic ev = Inr topic" and "topic \<noteq> []" and "ec_organization cfg \<noteq> []" and "ee_marshal ev = (\<lambda>p. Inr xml)" and "ee_sign ev = None"
  shows "\<exists>prof. serve_profile cfg ev red = Served prof xml"
proof -
  have "\<exists>prof. build_enrollment (ee_rnd ev) (params_for cfg topic (red_owner red)) = Inr prof"
    using assms(2,3) by (simp add: build_enrollment_def params_for_def Let_def)
  with assms show ?thesis by (auto simp: serve_profile_def)
qed

lemma demo_redeemed:
  "\<exists>red rows. redeem_grant (\<lambda>s. s) None (5 * second) (trim_space ''t'') [demo_grant_row] = (Inr red, rows)"
proof -
  have "trim_space ''t'' = ''t''" by code_simp
  then show ?thesis by (simp add: redeem_grant_def demo_grant_row_def redeemable_def to_secs_def second_def Let_def)
qed

text \<open>
  A profile handed out for a grant link is bound to that grant: the presented token is
  that of one stored grant, not revoked, not expired and not used up, which the request uses
  once more and no other grant is touched; and the device identity the profile asks for
  carries the grant's owner as its subject alternative name (none when the grant has no
  owner) and the device's own serial number as its subject.
\<close>

theorem enrollment_bound_to_grant:
  assumes "grants_ok rows" and "enroll_grants sha cfg ev ft now token rows = (Served prof body, rows')"
  shows "\<exists>g req. find_grant (hash_grant_token sha (trim_space token)) rows = Some g \<and> redeemable (to_secs now) g \<and>
    find_grant (hash_grant_token sha (trim_space token)) rows' = Some (consume (to_secs now) g) \<and>
    (\<forall>h. h \<noteq> hash_grant_token sha (trim_space token) \<longrightarrow> find_grant h rows' = find_grant h rows) \<and>
    identity_request prof req \<and> map_of req ''Subject'' = Some (subject_of (subject_cn cfg)) \<and>
    map_of req ''SubjectAltName'' = (if g_owner g = [] then None else Some (VDict [(''rfc822Name'', VStr (g_owner g))]))"
proof -
  let ?h = "hash_grant_token sha (trim_space token)"
  from assms(2) obtain red where red: "redeem_grant sha ft now (trim_space token) rows = (Inr red, rows')"
    and s: "serve_profile cfg ev red = Served prof body"
    by (auto simp: enroll_grants_def serve_grant_def split: prod.splits sum.splits)
  from redeem_success[OF assms(1) red] obtain g where g: "find_grant ?h rows = Some g" "redeemable (to_secs now) g"
    "rows' = update_where (\<lambda>x. g_token_hash x = ?h \<and> redeemable (to_secs now) x) (consume (to_secs now)) rows" by blast
  have "g \<in> set rows" "g_token_hash g = ?h" using g(1) by (auto simp: find_grant_def find_Some_iff)
  have keep: "g_token_hash (consume (to_secs now) x) = g_token_hash x" for x by (simp add: consume_def)
  have f: "find_grant ?h rows' = Some (consume (to_secs now) g)"
    unfolding g(3) by (subst find_grant_update[OF keep]) (simp add: g \<open>g_token_hash g = ?h\<close>)
  have others: "\<forall>h. h \<noteq> ?h \<longrightarrow> find_grant h rows' = find_grant h rows"
  proof (intro allI impI)
    fix h assume "h \<noteq> ?h"
    then show "find_grant h rows' = find_grant h rows"
      unfolding g(3) find_grant_update[OF keep] using find_grant_hash[of h rows]
      by (cases "find_grant h rows") auto
  qed
  have owner: "red_owner red = g_owner g"
    using red g(1,2) find_redeemable[of rows ?h "redeemable (to_secs now)"] assms(1)
    by (auto simp: redeem_grant_def grants_ok_def Let_def split: option.splits if_splits)
  from serve_profile_served[OF s] obtain topic where "build_enrollment (ee_rnd ev) (params_for cfg topic (red_owner red)) = Inr prof" by blast
  from enrollment_request[OF this] obtain content scep q where
    r: "map_of prof ''PayloadContent'' = Some (VArr (map VDict content))" "scep \<in> set content"
      "payload_type scep = ''com.apple.security.scep''" "map_of scep ''PayloadContent'' = Some (VDict (scep_content q))"
      "ep_owner q = g_owner g" "ep_subject_cn q = subject_cn cfg"
    by (auto simp: params_for_def owner)
  have "identity_request prof (scep_content q)" using r(1-4) unfolding identity_request_def by blast
  moreover have "map_of (scep_content q) ''Subject'' = Some (subject_of (subject_cn cfg))"
    "map_of (scep_content q) ''SubjectAltName'' = (if g_owner g = [] then None else Some (VDict [(''rfc822Name'', VStr (g_owner g))]))"
    using r(5,6) by (simp_all add: scep_content_def)
  ultimately show ?thesis using g(1,2) f others by blast
qed

lemma demo_served:
  "\<exists>prof rows'. enroll_grants (\<lambda>s. s) demo_enroll (demo_enroll_env ''topic'') None (5 * second) ''t'' [demo_grant_row] = (Served prof ''xml'', rows')"
proof -
  have "trim_space ''t'' = ''t''" by code_simp
  then show ?thesis
    by (simp add: enroll_grants_def serve_grant_def redeem_grant_def demo_grant_row_def redeemable_def to_secs_def second_def
        serve_profile_def demo_enroll_env_def build_enrollment_def params_for_def demo_enroll_def Let_def)
qed

lemma enrollment_bound_to_grant_witness:
  "\<exists>prof rows' req. enroll_grants (\<lambda>s. s) demo_enroll (demo_enroll_env ''topic'') None (5 * second) ''t'' [demo_grant_row] = (Served prof ''xml'', rows') \<and>
     identity_request prof req \<and> map_of req ''SubjectAltName'' = Some (VDict [(''rfc822Name'', VStr ''ann@x'')])"
proof -
  obtain prof rows' where h: "enroll_grants (\<lambda>s. s) demo_enroll (demo_enroll_env ''topic'') None (5 * second) ''t'' [demo_grant_row]
     = (Served prof ''xml'', rows')" using demo_served by blast
  have t: "trim_space ''t'' = ''t''" by code_simp
  have "find_grant (hash_grant_token (\<lambda>s. s) ''t'') [demo_grant_row] = Some demo_grant_row"
    by (simp add: find_grant_def demo_grant_row_def)
  moreover have "g_owner demo_grant_row = ''ann@x''" by (simp add: demo_grant_row_def)
  ultimately obtain req where "identity_request prof req" "map_of req ''SubjectAltName'' = Some (VDict [(''rfc822Name'', VStr ''ann@x'')])"
    using enrollment_bound_to_grant[OF demo_grant_row_ok h] t by auto
  with h show ?thesis by blast
qed

text \<open>
  A use of a grant is spent even when no profile comes of it: with no APNs certificate
  loaded, a valid link is answered 503 and its grant has one use less, so a single-use link
  tried too early is dead.
\<close>

theorem grant_burned_when_not_ready:
  assumes "grants_ok rows" and "find_grant (hash_grant_token sha (trim_space token)) rows = Some g" and "redeemable (to_secs now) g"
    and "ee_topic ev = Inl e \<or> ee_topic ev = Inr []"
  shows "\<exists>rows'. enroll_grants sha cfg ev None now token rows =
      (Refused 503 ''server not ready: no APNs push certificate loaded'', rows') \<and>
    remaining (hash_grant_token sha (trim_space token)) rows' = remaining (hash_grant_token sha (trim_space token)) rows - 1"
proof -
  let ?h = "hash_grant_token sha (trim_space token)"
  have "\<exists>red rows'. redeem_grant sha None now (trim_space token) rows = (Inr red, rows')"
    using find_redeemable[of rows ?h "redeemable (to_secs now)"] assms(1-3)
    by (auto simp: redeem_grant_def grants_ok_def Let_def split: option.splits)
  then obtain red rows' where red: "redeem_grant sha None now (trim_space token) rows = (Inr red, rows')" by blast
  from remaining_redeem[OF assms(1) red, of ?h] assms(4) red show ?thesis
    by (auto simp: enroll_grants_def serve_grant_def serve_profile_def)
qed

lemma grant_burned_when_not_ready_witness:
  "\<exists>rows'. enroll_grants (\<lambda>s. s) demo_enroll (demo_enroll_env []) None (5 * second) ''t'' [demo_grant_row] =
      (Refused 503 ''server not ready: no APNs push certificate loaded'', rows') \<and>
    remaining (hash_grant_token (\<lambda>s. s) ''t'') rows' = 0"
proof -
  have t: "trim_space ''t'' = ''t''" by code_simp
  have f: "find_grant (hash_grant_token (\<lambda>s. s) (trim_space ''t'')) [demo_grant_row] = Some demo_grant_row"
    "redeemable (to_secs (5 * second)) demo_grant_row" "remaining (hash_grant_token (\<lambda>s. s) ''t'') [demo_grant_row] = 1"
    by (simp_all add: t remaining_def find_grant_def demo_grant_row_def redeemable_def to_secs_def second_def)
  from grant_burned_when_not_ready[OF demo_grant_row_ok f(1,2), of "demo_enroll_env []" "[]" demo_enroll] f(3) show ?thesis
    by (simp add: t demo_enroll_env_def)
qed

end
