(* ===== verification/Calendar.thy ===== *)
theory Calendar
  imports Prelude
begin

section \<open>Dates of the Gregorian calendar\<close>

text \<open>
  The calendar of Go's \<open>time\<close> and of SQLite's \<open>datetime\<close>: the proleptic Gregorian calendar
  in UTC, without leap seconds.  \<open>civil_of\<close> takes a number of seconds since the Unix epoch
  apart and \<open>secs_of\<close> puts it together; they are inverse to each other on the valid dates,
  and the order of the seconds is the lexicographic order of the six fields.
\<close>

record civil =
  cv_year :: int
  cv_month :: int
  cv_day :: int
  cv_hour :: int
  cv_minute :: int
  cv_second :: int

definition leap_year :: "int \<Rightarrow> bool" where
  "leap_year y \<longleftrightarrow> y mod 4 = 0 \<and> (y mod 100 \<noteq> 0 \<or> y mod 400 = 0)"

definition month_lengths :: "int \<Rightarrow> int list" where
  "month_lengths y = [31, if leap_year y then 29 else 28, 31, 30, 31, 30, 31, 31, 30, 31, 30, 31]"

definition year_start :: "int \<Rightarrow> int" where
  \<comment> \<open>the days from 1 January 1970 to 1 January of the year\<close>
  "year_start y = 365 * (y - 1) + (y - 1) div 4 - (y - 1) div 100 + (y - 1) div 400 - 719162"

definition year_of :: "int \<Rightarrow> int" where
  \<comment> \<open>the mean year has 146097 / 400 days, and the estimate is at most one year off\<close>
  "year_of d =
     (let y = 400 * (d + 719162) div 146097 + 1
      in if d < year_start y then y - 1 else if year_start (y + 1) \<le> d then y + 1 else y)"

fun split_days :: "int list \<Rightarrow> int \<Rightarrow> int \<times> int" where
  \<comment> \<open>the index of the month a day falls into, and the days of that month before it\<close>
  "split_days [] n = (0, n)"
| "split_days (l # ls) n = (if n < l then (0, n) else let (m, d) = split_days ls (n - l) in (m + 1, d))"

definition civil_of :: "secs \<Rightarrow> civil" where
  "civil_of s =
     (let days = s div 86400; sod = s mod 86400; y = year_of days;
          (m, d) = split_days (month_lengths y) (days - year_start y)
      in \<lparr>cv_year = y, cv_month = m + 1, cv_day = d + 1,
          cv_hour = sod div 3600, cv_minute = sod div 60 mod 60, cv_second = sod mod 60\<rparr>)"

definition month_start :: "int \<Rightarrow> int \<Rightarrow> int" where
  "month_start y m = sum_list (take (nat (m - 1)) (month_lengths y))"

definition days_of :: "civil \<Rightarrow> int" where
  "days_of c = year_start (cv_year c) + month_start (cv_year c) (cv_month c) + (cv_day c - 1)"

definition secs_of :: "civil \<Rightarrow> secs" where
  "secs_of c = days_of c * 86400 + (cv_hour c * 3600 + cv_minute c * 60 + cv_second c)"

definition valid_date :: "int \<Rightarrow> int \<Rightarrow> int \<Rightarrow> bool" where
  "valid_date y m d \<longleftrightarrow> 1 \<le> m \<and> m \<le> 12 \<and> 1 \<le> d \<and> d \<le> month_lengths y ! nat (m - 1)"

definition valid_civil :: "civil \<Rightarrow> bool" where
  "valid_civil c \<longleftrightarrow> valid_date (cv_year c) (cv_month c) (cv_day c) \<and>
     0 \<le> cv_hour c \<and> cv_hour c < 24 \<and> 0 \<le> cv_minute c \<and> cv_minute c < 60 \<and>
     0 \<le> cv_second c \<and> cv_second c < 60"

subsection \<open>Years\<close>

lemma div_succ:
  fixes y n :: int
  assumes "0 < n"
  shows "(y + 1) div n = y div n + (if (y + 1) mod n = 0 then 1 else 0)"
proof (cases "(y + 1) mod n = 0")
  case True
  then obtain k where k: "y + 1 = n * k" by (auto elim: dvdE simp: mod_eq_0_iff_dvd)
  have "y div n = k - 1"
    using assms by (intro int_div_pos_eq[of _ _ _ "n - 1"]) (use k in \<open>auto simp: algebra_simps\<close>)
  then show ?thesis using True k assms by simp
next
  case False
  have "y + 1 = n * (y div n) + (y mod n + 1)" by simp
  moreover have "y mod n + 1 < n"
  proof (rule ccontr)
    assume "\<not> y mod n + 1 < n"
    with pos_mod_bound[OF assms, of y] have "y mod n + 1 = n" by linarith
    with \<open>y + 1 = _\<close> have "y + 1 = n * (y div n + 1)" by (simp only: distrib_left mult_1_right)
    with False show False by (metis mod_mult_self1_is_0)
  qed
  moreover have "0 \<le> y mod n + 1" using pos_mod_sign[OF assms, of y] by linarith
  ultimately show ?thesis using False by (intro trans[OF int_div_pos_eq]) auto
qed

lemma year_start_succ: "year_start (y + 1) = year_start y + (if leap_year y then 366 else 365)"
proof -
  have d: "y div n = (y - 1) div n + (if y mod n = 0 then 1 else 0)" if "0 < n" for n :: int
    using div_succ[OF that, of "y - 1"] by simp
  have "(4::int) dvd 100" "(100::int) dvd 400" by simp_all
  then have m: "y mod 100 = 0 \<Longrightarrow> y mod 4 = 0" "y mod 400 = 0 \<Longrightarrow> y mod 100 = 0"
    unfolding mod_eq_0_iff_dvd by (blast intro: dvd_trans)+
  have ys: "year_start (y + 1) - year_start y =
      365 + (y div 4 - (y - 1) div 4) - (y div 100 - (y - 1) div 100) + (y div 400 - (y - 1) div 400)"
    by (simp add: year_start_def)
  have "year_start (y + 1) - year_start y = (if leap_year y then 366 else 365)"
    unfolding ys d[of 4, simplified] d[of 100, simplified] d[of 400, simplified] leap_year_def
    using m by (cases "y mod 400 = 0"; cases "y mod 100 = 0"; cases "y mod 4 = 0") simp_all
  then show ?thesis by linarith
qed

lemma sum_month_lengths: "sum_list (month_lengths y) = (if leap_year y then 366 else 365)"
  by (simp add: month_lengths_def)

lemma year_start_mono: "y \<le> y' \<Longrightarrow> year_start y \<le> year_start y'"
proof (induction y' rule: int_ge_induct)
  case (step i)
  then show ?case using year_start_succ[of i] by (auto split: if_splits)
qed simp

lemma year_start_bounds:
  "400 * year_start y \<le> 146097 * (y - 1) + 400 - 287664800"
  "146097 * (y - 1) - 800 - 287664800 < 400 * year_start y"
proof -
  have "n * ((y - 1) div n) \<le> y - 1 \<and> y - 1 < n * ((y - 1) div n) + n" if "0 < n" for n :: int
    using pos_mod_bound[OF that, of "y - 1"] pos_mod_sign[OF that, of "y - 1"]
      mult_div_mod_eq[of n "y - 1"] by linarith
  from this[of 4] this[of 100] this[of 400] show
    "400 * year_start y \<le> 146097 * (y - 1) + 400 - 287664800"
    "146097 * (y - 1) - 800 - 287664800 < 400 * year_start y"
    by (simp_all add: year_start_def)
qed

lemma year_of_bounds: "year_start (year_of d) \<le> d" "d < year_start (year_of d + 1)"
proof -
  define z where "z = 400 * (d + 719162) div 146097"
  have z: "146097 * z \<le> 400 * (d + 719162)" "400 * (d + 719162) < 146097 * z + 146097"
    using pos_mod_bound[of 146097 "400 * (d + 719162)"] pos_mod_sign[of 146097 "400 * (d + 719162)"]
      mult_div_mod_eq[of 146097 "400 * (d + 719162)"] unfolding z_def by linarith+
  have "400 * year_start z \<le> 400 * d"
    using year_start_bounds(1)[of z] z(1) unfolding right_diff_distrib distrib_left by simp
  then have "year_start z \<le> d" by simp
  moreover have "400 * d < 400 * year_start (z + 3)"
    using year_start_bounds(2)[of "z + 3"] z(2) unfolding right_diff_distrib distrib_left by simp
  then have "d < year_start (z + 3)" by simp
  moreover have "year_of d = (if d < year_start (z + 1) then z else if year_start (z + 2) \<le> d then z + 2 else z + 1)"
    unfolding year_of_def Let_def z_def[symmetric] by (simp add: add.commute[of 2 z])
  ultimately show "year_start (year_of d) \<le> d" "d < year_start (year_of d + 1)"
    by (auto simp: add.assoc)
qed

lemma year_of_unique: "year_start y \<le> d \<Longrightarrow> d < year_start (y + 1) \<Longrightarrow> year_of d = y"
  using year_of_bounds[of d] year_start_mono[of "y + 1" "year_of d"] year_start_mono[of "year_of d + 1" y]
  by linarith

subsection \<open>Months\<close>

lemma split_days_sound:
  "split_days ls n = (m, d) \<Longrightarrow> 0 \<le> n \<Longrightarrow> n < sum_list ls \<Longrightarrow>
   0 \<le> m \<and> m < int (length ls) \<and> 0 \<le> d \<and> d < ls ! nat m \<and> sum_list (take (nat m) ls) + d = n"
proof (induction ls n arbitrary: m rule: split_days.induct)
  case (2 l ls n)
  show ?case
  proof (cases "n < l")
    case False
    obtain m' where m': "split_days ls (n - l) = (m', d)" "m = m' + 1"
      using 2(2) False by (auto split: prod.splits)
    from 2(1)[OF False m'(1)] 2(3,4) False show ?thesis
      by (auto simp: m'(2) nat_add_distrib)
  qed (use 2 in auto)
qed simp

lemma split_days_complete:
  "m < length ls \<Longrightarrow> 0 \<le> d \<Longrightarrow> d < ls ! m \<Longrightarrow> \<forall>l\<in>set ls. 0 \<le> l \<Longrightarrow>
   split_days ls (sum_list (take m ls) + d) = (int m, d)"
proof (induction ls arbitrary: m)
  case (Cons l ls)
  show ?case
  proof (cases m)
    case (Suc k)
    have "0 \<le> sum_list (take k ls)"
      using Cons.prems(4) by (intro sum_list_nonneg) (auto dest: in_set_takeD)
    with Suc Cons show ?thesis by simp
  qed (use Cons.prems in simp)
qed simp

lemma sum_take_less:
  fixes ls :: "int list"
  shows "j < k \<Longrightarrow> k \<le> length ls \<Longrightarrow> \<forall>l\<in>set ls. 0 \<le> l \<Longrightarrow>
    sum_list (take j ls) + ls ! j \<le> sum_list (take k ls)"
proof (induction k)
  case (Suc k)
  have s: "sum_list (take (Suc k) ls) = sum_list (take k ls) + ls ! k"
    using Suc.prems(2) by (simp add: take_Suc_conv_app_nth)
  show ?case
  proof (cases "j = k")
    case False
    with Suc have "sum_list (take j ls) + ls ! j \<le> sum_list (take k ls)" by simp
    moreover have "0 \<le> ls ! k" using Suc.prems(2,3) by simp
    ultimately show ?thesis using s by linarith
  qed (simp add: s)
qed simp

lemma month_lengths_props [simp]:
  "length (month_lengths y) = 12" "\<forall>l\<in>set (month_lengths y). 0 \<le> l" "\<forall>l\<in>set (month_lengths y). l \<le> 31"
  by (simp_all add: month_lengths_def)

lemma month_length_31: "nat (m - 1) < 12 \<Longrightarrow> month_lengths y ! nat (m - 1) \<le> 31"
  using month_lengths_props(1,3)[of y] by (metis nth_mem)

subsection \<open>Taking apart and putting together\<close>

lemma day_in_year:
  assumes "valid_date y m d"
  shows "year_start y \<le> year_start y + month_start y m + (d - 1)"
    and "year_start y + month_start y m + (d - 1) < year_start (y + 1)"
proof -
  have i: "nat (m - 1) < length (month_lengths y)" using assms by (auto simp: valid_date_def)
  have "0 \<le> month_start y m"
    unfolding month_start_def by (intro sum_list_nonneg) (auto simp: month_lengths_def dest: in_set_takeD)
  then show "year_start y \<le> year_start y + month_start y m + (d - 1)"
    using assms by (simp add: valid_date_def)
  have "month_start y m + month_lengths y ! nat (m - 1) \<le> sum_list (month_lengths y)"
    using sum_take_less[of "nat (m - 1)" 12 "month_lengths y"] i by (simp add: month_start_def)
  then show "year_start y + month_start y m + (d - 1) < year_start (y + 1)"
    using assms by (simp add: valid_date_def sum_month_lengths year_start_succ)
qed

lemma civil_of_days:
  assumes "civil_of s = c"
  shows "valid_civil c" and "days_of c = s div 86400" and "cv_year c = year_of (s div 86400)"
proof -
  let ?d = "s div 86400"
  let ?y = "year_of ?d"
  obtain m d where md: "split_days (month_lengths ?y) (?d - year_start ?y) = (m, d)"
    by (meson surj_pair)
  have "0 \<le> ?d - year_start ?y" "?d - year_start ?y < sum_list (month_lengths ?y)"
    using year_of_bounds[of ?d] by (simp_all add: sum_month_lengths year_start_succ)
  from split_days_sound[OF md this] have md':
    "0 \<le> m" "m < 12" "0 \<le> d" "d < month_lengths ?y ! nat m"
    "sum_list (take (nat m) (month_lengths ?y)) + d = ?d - year_start ?y" by simp_all
  have c: "c = \<lparr>cv_year = ?y, cv_month = m + 1, cv_day = d + 1, cv_hour = s mod 86400 div 3600,
      cv_minute = s mod 86400 div 60 mod 60, cv_second = s mod 86400 mod 60\<rparr>"
    using assms by (simp add: civil_of_def Let_def md)
  have sod: "0 \<le> s mod 86400" "s mod 86400 < 86400" by simp_all
  then have "0 \<le> s mod 86400 div 3600 \<and> s mod 86400 div 3600 < 24" by linarith
  then show "valid_civil c"
    using md' by (simp add: c valid_civil_def valid_date_def)
  show "days_of c = ?d" using md' by (simp add: c days_of_def month_start_def)
  show "cv_year c = ?y" by (simp add: c)
qed

lemma sod_split: "(s::int) mod 86400 div 3600 * 3600 + s mod 86400 div 60 mod 60 * 60 + s mod 86400 mod 60 = s mod 86400"
proof -
  define r where "r = s mod 86400"
  have "r div 3600 = r div 60 div 60" by (simp flip: zdiv_zmult2_eq)
  moreover have "60 * (r div 60 div 60) + r div 60 mod 60 = r div 60" "60 * (r div 60) + r mod 60 = r"
    by (rule mult_div_mod_eq)+
  ultimately have "r div 3600 * 3600 + r div 60 mod 60 * 60 + r mod 60 = r" by linarith
  then show ?thesis by (simp only: r_def)
qed

theorem secs_of_civil_of: "secs_of (civil_of s) = s"
proof -
  have "cv_hour (civil_of s) = s mod 86400 div 3600" "cv_minute (civil_of s) = s mod 86400 div 60 mod 60"
    "cv_second (civil_of s) = s mod 86400 mod 60"
    by (simp_all add: civil_of_def Let_def split: prod.splits)
  then have "secs_of (civil_of s) = s div 86400 * 86400 + s mod 86400"
    unfolding secs_of_def civil_of_days(2)[OF refl, of s] by (simp only: sod_split)
  then show ?thesis by (simp only: div_mult_mod_eq)
qed

lemma civil_of_valid: "valid_civil (civil_of s)"
  by (rule civil_of_days(1)[OF refl])

subsection \<open>The order of dates\<close>

definition civil_key :: "civil \<Rightarrow> int list" where
  "civil_key c = [cv_year c, cv_month c, cv_day c, cv_hour c, cv_minute c, cv_second c]"

lemma days_of_less:
  assumes v: "valid_civil c" "valid_civil c'"
    and l: "[cv_year c, cv_month c, cv_day c] < [cv_year c', cv_month c', cv_day c']"
  shows "days_of c < days_of c'"
proof -
  note d = v(1)[unfolded valid_civil_def, THEN conjunct1] v(2)[unfolded valid_civil_def, THEN conjunct1]
  consider "cv_year c < cv_year c'"
    | "cv_year c = cv_year c'" "cv_month c < cv_month c'"
    | "cv_year c = cv_year c'" "cv_month c = cv_month c'" "cv_day c < cv_day c'"
    using l by auto
  then show ?thesis
  proof cases
    case 1
    with day_in_year[OF d(1)] day_in_year[OF d(2)] year_start_mono[of "cv_year c + 1" "cv_year c'"]
    show ?thesis by (simp add: days_of_def)
  next
    case 2
    let ?y = "cv_year c'"
    have "month_start ?y (cv_month c) + month_lengths ?y ! nat (cv_month c - 1) \<le> month_start ?y (cv_month c')"
      unfolding month_start_def
      by (rule sum_take_less) (use d 2 in \<open>auto simp: valid_date_def\<close>)
    with 2 d show ?thesis by (simp add: days_of_def valid_date_def)
  next
    case 3
    then show ?thesis by (simp add: days_of_def)
  qed
qed

definition sod_of :: "civil \<Rightarrow> int" where
  "sod_of c = cv_hour c * 3600 + cv_minute c * 60 + cv_second c"

lemma sod_of_bounds: "valid_civil c \<Longrightarrow> 0 \<le> sod_of c \<and> sod_of c < 86400"
  unfolding valid_civil_def sod_of_def by linarith

lemma sod_of_less:
  assumes "valid_civil c" "valid_civil c'"
    and l: "[cv_hour c, cv_minute c, cv_second c] < [cv_hour c', cv_minute c', cv_second c']"
  shows "sod_of c < sod_of c'"
proof -
  have b: "0 \<le> cv_minute c'" "cv_minute c < 60" "0 \<le> cv_second c'" "cv_second c < 60"
    using assms(1,2) unfolding valid_civil_def by blast+
  consider "cv_hour c < cv_hour c'"
    | "cv_hour c = cv_hour c'" "cv_minute c < cv_minute c'"
    | "cv_hour c = cv_hour c'" "cv_minute c = cv_minute c'" "cv_second c < cv_second c'"
    using l by auto
  then show ?thesis using b unfolding sod_of_def by cases linarith+
qed

lemma secs_of_less_key:
  assumes v: "valid_civil c" "valid_civil c'" and l: "civil_key c < civil_key c'"
  shows "secs_of c < secs_of c'"
proof (cases "[cv_year c, cv_month c, cv_day c] < [cv_year c', cv_month c', cv_day c']")
  case True
  from days_of_less[OF v True] sod_of_bounds[OF v(1)] sod_of_bounds[OF v(2)] show ?thesis
    unfolding secs_of_def sod_of_def by linarith
next
  case False
  with l have "cv_year c = cv_year c'" "cv_month c = cv_month c'" "cv_day c = cv_day c'"
    "[cv_hour c, cv_minute c, cv_second c] < [cv_hour c', cv_minute c', cv_second c']"
    by (auto simp: civil_key_def)
  with sod_of_less[OF v] show ?thesis by (simp add: secs_of_def days_of_def sod_of_def)
qed

lemma civil_key_inj: "civil_key c = civil_key c' \<longleftrightarrow> (c :: civil) = c'"
  by (auto simp: civil_key_def)

theorem secs_of_less:
  assumes "valid_civil c" "valid_civil c'"
  shows "secs_of c < secs_of c' \<longleftrightarrow> civil_key c < civil_key c'"
  using secs_of_less_key[OF assms] secs_of_less_key[OF assms(2,1)] civil_key_inj[of c c']
  by (metis less_asym linorder_neqE)

theorem civil_of_secs_of:
  assumes "valid_civil c"
  shows "civil_of (secs_of c) = c"
proof -
  have "\<not> civil_key (civil_of (secs_of c)) < civil_key c" "\<not> civil_key c < civil_key (civil_of (secs_of c))"
    using secs_of_less[OF civil_of_valid[of "secs_of c"] assms] secs_of_less[OF assms civil_of_valid[of "secs_of c"]]
    by (simp_all add: secs_of_civil_of)
  then show ?thesis by (metis civil_key_inj linorder_neqE)
qed

theorem civil_order: "s < t \<longleftrightarrow> civil_key (civil_of s) < civil_key (civil_of t)"
  using secs_of_less[OF civil_of_valid civil_of_valid, of s t] by (simp add: secs_of_civil_of)

end
