(* ===== verification/Server.thy ===== *)
theory Server
  imports Handlers Enroll Calendar
begin

section \<open>The HTTP server\<close>

text \<open>
  \<open>internal/server\<close>: the routes of \<open>server.go\<close> over the console, the enrollment endpoint and
  the library handlers of NanoMDM and SCEP, which are parameters, and the middleware of
  \<open>server.go\<close> and \<open>middleware.go\<close>.  A \<open>writer\<close> is an \<open>http.ResponseWriter\<close>: the header map of the
  handlers, the status and the headers that were sent with the first \<open>WriteHeader\<close>, and the
  body.  A handler can panic at any point: it returns whether it did, with what it had written.
\<close>

subsection \<open>Writing a response\<close>

type_synonym headers = "(string \<times> string) list"

datatype chunk = Text string | Json "(string \<times> string) list" | Html string string

record writer =
  wr_headers :: headers
  wr_sent :: "(int \<times> headers) option"
  wr_last :: int   \<comment> \<open>\<open>statusRecorder.status\<close>\<close>
  wr_body :: "chunk list"

definition set_header :: "string \<Rightarrow> string \<Rightarrow> writer \<Rightarrow> writer" where
  "set_header k v w = w\<lparr>wr_headers := (k, v) # filter (\<lambda>h. fst h \<noteq> k) (wr_headers w)\<rparr>"

definition add_header :: "string \<Rightarrow> string \<Rightarrow> writer \<Rightarrow> writer" where
  "add_header k v w = w\<lparr>wr_headers := wr_headers w @ [(k, v)]\<rparr>"

definition write_header :: "int \<Rightarrow> writer \<Rightarrow> writer" where
  \<comment> \<open>only the first call reaches the client\<close>
  "write_header c w = w\<lparr>wr_last := c, wr_sent := (case wr_sent w of None \<Rightarrow> Some (c, wr_headers w) | Some s \<Rightarrow> Some s)\<rparr>"

definition write_chunk :: "chunk \<Rightarrow> writer \<Rightarrow> writer" where
  "write_chunk b w = w\<lparr>wr_sent := (case wr_sent w of None \<Rightarrow> Some (200, wr_headers w) | Some s \<Rightarrow> Some s), wr_body := wr_body w @ [b]\<rparr>"

definition write_json :: "int \<Rightarrow> (string \<times> string) list \<Rightarrow> writer \<Rightarrow> writer" where
  "write_json c kvs w = write_chunk (Json kvs) (write_header c (set_header ''Content-Type'' ''application/json'' w))"

definition new_writer :: writer where
  "new_writer = \<lparr>wr_headers = [], wr_sent = None, wr_last = 200, wr_body = []\<rparr>"

definition sent_response :: "writer \<Rightarrow> int \<times> headers" where
  \<comment> \<open>what the client has received when the handlers are through\<close>
  "sent_response w = (case wr_sent w of Some s \<Rightarrow> s | None \<Rightarrow> (200, wr_headers w))"

subsection \<open>Middleware\<close>

definition sensitive_path :: "string \<Rightarrow> bool" where
  "sensitive_path p \<longleftrightarrow>
     (p = ''/admin'' \<or> has_prefix p ''/admin/'') \<or> (p = ''/login'' \<or> p = ''/logout'') \<or>
     (p = ''/enroll'' \<or> has_prefix p ''/enroll/'') \<or> has_prefix p ''/e/''"

definition single_quoted :: "string \<Rightarrow> string" where "single_quoted s = [CHR 0x27] @ s @ [CHR 0x27]"

definition content_security_policy :: string where
  "content_security_policy =
     ''default-src '' @ single_quoted ''self'' @ ''; style-src '' @ single_quoted ''self'' @ '' '' @ single_quoted ''unsafe-inline'' @
     ''; script-src '' @ single_quoted ''self'' @ '' '' @ single_quoted ''unsafe-inline'' @ ''; img-src '' @ single_quoted ''self'' @
     '' data:; object-src '' @ single_quoted ''none'' @ ''; base-uri '' @ single_quoted ''self'' @ ''; frame-ancestors '' @ single_quoted ''none''"

definition secure_headers :: "bool \<Rightarrow> string \<Rightarrow> string \<Rightarrow> writer \<Rightarrow> writer" where
  "secure_headers tls proto path w =
     (let w1 = set_header ''Content-Security-Policy'' content_security_policy
            (set_header ''Permissions-Policy'' ''geolocation=(), microphone=(), camera=()''
            (set_header ''Referrer-Policy'' ''no-referrer''
            (set_header ''X-Content-Type-Options'' ''nosniff'' w)));
          w2 = (if tls \<or> equal_fold proto ''https'' then set_header ''Strict-Transport-Security'' ''max-age=31536000; includeSubDomains'' w1 else w1)
      in if sensitive_path path then set_header ''Cache-Control'' ''no-store'' w2 else w2)"

datatype log_level = Debug | Info | Error
datatype log_line = Access log_level string string int | PanicRecovered string

definition access_line :: "string \<Rightarrow> string \<Rightarrow> writer \<Rightarrow> log_line" where
  "access_line verb path w = Access (if path = ''/healthz'' \<or> path = ''/readyz'' then Debug else Info) verb path (wr_last w)"

type_synonym 's handler = "writer \<Rightarrow> 's \<Rightarrow> bool \<times> writer \<times> 's"

definition handler_chain :: "'s handler \<Rightarrow> bool \<Rightarrow> string \<Rightarrow> string \<Rightarrow> string \<Rightarrow> 's \<Rightarrow> log_line list \<times> writer \<times> 's" where
  \<comment> \<open>\<open>s.recoverer(s.secureHeaders(s.accessLog(s.mux)))\<close>: a panic passes \<open>accessLog\<close> by\<close>
  "handler_chain mux tls proto verb path st =
     (case mux (secure_headers tls proto path new_writer) st of
        (panicked, w, st1) \<Rightarrow>
          if panicked then ([PanicRecovered path], write_json 500 [(''error'', ''internal error'')] w, st1)
          else ([access_line verb path w], w, st1))"

subsection \<open>Routes\<close>

datatype body =
    ConsoleBody reply cookies
  | EnrollBody enroll_reply
  | JsonBody int "(string \<times> string) list"
  | PemBody string
  | LibraryBody int headers string

record server_deps =
  sd_app :: app
  sd_tools :: tools
  sd_authn :: authn
  sd_oidc :: "oidc_provider option"
  sd_ui :: bool
  sd_mdm_path :: string
  sd_mdm :: "(env \<Rightarrow> request \<Rightarrow> fleet_console \<Rightarrow> body \<times> fleet_console) option"
  sd_scep :: "(request \<Rightarrow> body) option"
  sd_enroll :: "enroll_cfg option"
  sd_grant :: "enroll_cfg option"
  sd_ca :: "string option"
  sd_ready :: bool   \<comment> \<open>\<open>ready != nil\<close>\<close>
  sd_version :: "string \<times> string \<times> string"

definition path_segs :: "string \<Rightarrow> string list" where
  \<comment> \<open>a path of the request line, clean and without escapes\<close>
  "path_segs p = tl (split_on (CHR ''/'') p)"

definition handle_readyz :: "server_deps \<Rightarrow> env \<Rightarrow> body" where
  "handle_readyz d ev =
     (if sd_ready d \<and> ev_fault ev ''ping'' \<noteq> None
      then JsonBody 503 [(''status'', ''unavailable''), (''error'', ''not ready'')]
      else JsonBody 200 [(''status'', ''ready'')])"

definition handle_version :: "server_deps \<Rightarrow> body" where
  "handle_version d = (case sd_version d of (v, c, t) \<Rightarrow> JsonBody 200 [(''version'', v), (''commit'', c), (''date'', t)])"

definition grant_token :: "server_deps \<Rightarrow> string list \<Rightarrow> string option" where
  \<comment> \<open>\<open>/e/{token}\<close>\<close>
  "grant_token d segs = (case segs of [e, t] \<Rightarrow> if e = ''e'' \<and> t \<noteq> [] \<and> sd_grant d \<noteq> None then Some t else None | _ \<Rightarrow> None)"

definition own_path :: "server_deps \<Rightarrow> string \<Rightarrow> string list \<Rightarrow> bool" where
  \<comment> \<open>the paths that the server itself serves to GET only\<close>
  "own_path d p segs \<longleftrightarrow> p \<in> {''/healthz'', ''/readyz'', ''/version''} \<or> (p = ''/enroll'' \<and> sd_enroll d \<noteq> None) \<or>
     (p = ''/ca'' \<and> sd_ca d \<noteq> None) \<or> grant_token d segs \<noteq> None"

definition serve_own :: "server_deps \<Rightarrow> enroll_env \<Rightarrow> env \<Rightarrow> string \<Rightarrow> string list \<Rightarrow> fleet_console \<Rightarrow> body \<times> fleet_console" where
  "serve_own d ee ev p segs st =
     (if p = ''/healthz'' then (JsonBody 200 [(''status'', ''ok'')], st)
      else if p = ''/readyz'' then (handle_readyz d ev, st)
      else if p = ''/version'' then (handle_version d, st)
      else if p = ''/enroll'' then
        (case sd_enroll d of None \<Rightarrow> (ConsoleBody (TextError 404 ''404 page not found'') [], st) | Some c \<Rightarrow> (EnrollBody (serve_open c ee), st))
      else if p = ''/ca'' then (PemBody (case sd_ca d of None \<Rightarrow> [] | Some pem \<Rightarrow> pem), st)
      else case (grant_token d segs, sd_grant d) of
          (Some t, Some c) \<Rightarrow>
            (case enroll_grants (ap_sha (sd_app d)) c ee (ev_fault ev ''redeem'') (ev_at ev ''redeem'') t (fc_grants st) of
               (rep, rows) \<Rightarrow> (EnrollBody rep, st\<lparr>fc_grants := rows\<rparr>))
        | _ \<Rightarrow> (ConsoleBody (TextError 404 ''404 page not found'') [], st))"

definition dispatch :: "server_deps \<Rightarrow> enroll_env \<Rightarrow> env \<Rightarrow> request \<Rightarrow> fleet_console \<Rightarrow> body \<times> fleet_console" where
  "dispatch d ee ev r st =
     (let p = rq_path r; segs = path_segs p; getting = (rq_method r = ''GET'' \<or> rq_method r = ''HEAD'') in
      if own_path d p segs then
        (if getting then serve_own d ee ev p segs st else (ConsoleBody (TextError 405 ''Method Not Allowed'') [], st))
      else case (sd_mdm d, p = sd_mdm_path d) of
          (Some mdm, True) \<Rightarrow> mdm ev r st
        | _ \<Rightarrow>
      (case (sd_scep d, p = ''/scep'' \<or> has_prefix p ''/scep/'') of
          (Some scep, True) \<Rightarrow> (scep r, st)
        | _ \<Rightarrow>
      (if sd_ui d then (case serve (sd_app d) (sd_tools d) (sd_authn d) (sd_oidc d) ev r segs st of (rep, ck, st1) \<Rightarrow> (ConsoleBody rep ck, st1))
       else (ConsoleBody (TextError 404 ''404 page not found'') [], st))))"

definition two_digits :: "int \<Rightarrow> string" where
  "two_digits n = (if n < 10 then ''0'' else []) @ int_str n"

definition http_time :: "nanos \<Rightarrow> string" where
  \<comment> \<open>\<open>t.UTC().Format(http.TimeFormat)\<close>; the first of January 1970 was a Thursday\<close>
  "http_time t =
     (let c = civil_of (to_secs t);
          weekday = [''Thu'', ''Fri'', ''Sat'', ''Sun'', ''Mon'', ''Tue'', ''Wed''] ! nat (to_secs t div 86400 mod 7);
          month = [''Jan'', ''Feb'', ''Mar'', ''Apr'', ''May'', ''Jun'', ''Jul'', ''Aug'', ''Sep'', ''Oct'', ''Nov'', ''Dec''] ! nat (cv_month c - 1)
      in weekday @ '', '' @ two_digits (cv_day c) @ '' '' @ month @ '' '' @ int_str (cv_year c) @ '' '' @ two_digits (cv_hour c) @
         '':'' @ two_digits (cv_minute c) @ '':'' @ two_digits (cv_second c) @ '' GMT'')"

fun same_site_text :: "same_site \<Rightarrow> string" where
  "same_site_text SameSiteDefault = []"
| "same_site_text SameSiteLax = ''; SameSite=Lax''"
| "same_site_text SameSiteStrict = ''; SameSite=Strict''"
| "same_site_text SameSiteNone = ''; SameSite=None''"

definition cookie_text :: "http_cookie \<Rightarrow> string" where
  \<comment> \<open>\<open>http.SetCookie\<close> of a cookie whose value is a token\<close>
  "cookie_text c =
     hc_name c @ ''='' @ hc_value c @
     (if hc_path c = [] then [] else ''; Path='' @ hc_path c) @
     (if hc_domain c = [] then [] else ''; Domain='' @ hc_domain c) @
     (case hc_expires c of
        None \<Rightarrow> []
      | Some e \<Rightarrow> if cv_year (civil_of (to_secs e)) < 1601 then [] else ''; Expires='' @ http_time e) @
     (if 0 < hc_max_age c then ''; Max-Age='' @ int_str (hc_max_age c)
      else if hc_max_age c < 0 then ''; Max-Age=0'' else []) @
     (if hc_http_only c then ''; HttpOnly'' else []) @
     (if hc_secure c then ''; Secure'' else []) @
     same_site_text (hc_same_site c)"

definition query_escape :: "string \<Rightarrow> string" where
  \<comment> \<open>\<open>url.QueryEscape\<close>\<close>
  "query_escape s = concat (map (\<lambda>c.
     if in_range (CHR ''a'') (CHR ''z'') c \<or> in_range (CHR ''A'') (CHR ''Z'') c \<or> in_range (CHR ''0'') (CHR ''9'') c \<or>
        c \<in> {CHR ''-'', CHR ''_'', CHR ''.'', CHR ''~''} then [c]
     else if c = CHR '' '' then ''+''
     else CHR ''%'' # upper (hex_encode [c])) s)"

fun write_reply :: "reply \<Rightarrow> writer \<Rightarrow> writer" where
  "write_reply (Redirect c u flash) w = write_header c (set_header ''Location''
     (case flash of None \<Rightarrow> u | Some (k, m) \<Rightarrow> u @ ''?'' @ k @ ''='' @ query_escape m) w)"
| "write_reply (Page c t m) w = write_chunk (Html t m) (write_header c (set_header ''Content-Type'' ''text/html; charset=utf-8'' w))"
| "write_reply (TextError c m) w = write_chunk (Text m) (write_header c (set_header ''X-Content-Type-Options'' ''nosniff''
     (set_header ''Content-Type'' ''text/plain; charset=utf-8'' w)))"
| "write_reply (Download n data) w = write_chunk (Text data) (set_header ''Content-Disposition'' (''attachment; filename='' @ [CHR 0x22] @ n @ [CHR 0x22])
     (set_header ''Content-Type'' ''application/x-apple-aspen-config'' w))"

fun write_body :: "body \<Rightarrow> writer \<Rightarrow> writer" where
  "write_body (ConsoleBody rep ck) w = write_reply rep (foldl (\<lambda>w c. add_header ''Set-Cookie'' (cookie_text c) w) w ck)"
| "write_body (EnrollBody (Served prof data)) w = write_chunk (Text data) (set_header ''Cache-Control'' ''no-store''
     (set_header ''Content-Disposition'' (''attachment; filename='' @ [CHR 0x22] @ ''cairn-enroll.mobileconfig'' @ [CHR 0x22])
     (set_header ''Content-Type'' ''application/x-apple-aspen-config'' w)))"
| "write_body (EnrollBody (Refused c m)) w = write_reply (TextError c m) w"
| "write_body (JsonBody c kvs) w = write_json c kvs w"
| "write_body (PemBody pem) w = write_chunk (Text pem) (set_header ''Content-Disposition'' (''attachment; filename='' @ [CHR 0x22] @ ''cairn-ca.pem'' @ [CHR 0x22])
     (set_header ''Content-Type'' ''application/x-pem-file'' w))"
| "write_body (LibraryBody c hs data) w = write_chunk (Text data) (write_header c (foldl (\<lambda>w h. set_header (fst h) (snd h) w) w hs))"

definition serve_mux :: "server_deps \<Rightarrow> enroll_env \<Rightarrow> env \<Rightarrow> request \<Rightarrow> fleet_console handler" where
  "serve_mux d ee ev r w st = (case dispatch d ee ev r st of (b, st1) \<Rightarrow> (False, write_body b w, st1))"

definition serve_http :: "server_deps \<Rightarrow> enroll_env \<Rightarrow> env \<Rightarrow> bool \<Rightarrow> string \<Rightarrow> request \<Rightarrow> fleet_console \<Rightarrow> log_line list \<times> writer \<times> fleet_console" where
  "serve_http d ee ev tls proto r st = handler_chain (serve_mux d ee ev r) tls proto (rq_method r) (rq_path r) st"

subsection \<open>Every response is hardened\<close>

definition hardened :: "bool \<Rightarrow> string \<Rightarrow> string \<Rightarrow> headers \<Rightarrow> bool" where
  "hardened tls proto path hs \<longleftrightarrow>
     map_of hs ''X-Content-Type-Options'' = Some ''nosniff'' \<and> map_of hs ''Referrer-Policy'' = Some ''no-referrer'' \<and>
     map_of hs ''Permissions-Policy'' \<noteq> None \<and> map_of hs ''Content-Security-Policy'' = Some content_security_policy \<and>
     (tls \<or> equal_fold proto ''https'' \<longrightarrow> map_of hs ''Strict-Transport-Security'' \<noteq> None) \<and>
     (sensitive_path path \<longrightarrow> map_of hs ''Cache-Control'' = Some ''no-store'')"

definition safe_writer :: "bool \<Rightarrow> string \<Rightarrow> string \<Rightarrow> writer \<Rightarrow> bool" where
  "safe_writer tls proto path w \<longleftrightarrow> hardened tls proto path (wr_headers w) \<and>
     (case wr_sent w of None \<Rightarrow> True | Some (c, hs) \<Rightarrow> hardened tls proto path hs)"

definition hardening_names :: "string list" where
  "hardening_names = [''X-Content-Type-Options'', ''Referrer-Policy'', ''Permissions-Policy'', ''Content-Security-Policy'',
     ''Strict-Transport-Security'', ''Cache-Control'']"

definition harmless :: "string \<times> string \<Rightarrow> bool" where
  \<comment> \<open>setting this header takes no protection away\<close>
  "harmless h \<longleftrightarrow> fst h \<notin> set hardening_names \<or> h \<in> {(''X-Content-Type-Options'', ''nosniff''), (''Cache-Control'', ''no-store'')}"

lemma map_of_filter_other: "map_of (filter (\<lambda>h. fst h \<noteq> k) hs) j = (if j = k then None else map_of hs j)"
  by (induction hs) auto

lemma hardened_set: "harmless (k, v) \<Longrightarrow> hardened tls proto path hs \<Longrightarrow> hardened tls proto path ((k, v) # filter (\<lambda>h. fst h \<noteq> k) hs)"
  by (auto simp: hardened_def harmless_def hardening_names_def map_of_filter_other)

lemma hardened_add: "hardened tls proto path hs \<Longrightarrow> hardened tls proto path (hs @ [h])"
  by (auto simp: hardened_def map_add_def split: option.splits)

lemma safe_set_header: "harmless (k, v) \<Longrightarrow> safe_writer tls proto path w \<Longrightarrow> safe_writer tls proto path (set_header k v w)"
  by (simp add: safe_writer_def set_header_def hardened_set)

lemma safe_add_header: "safe_writer tls proto path w \<Longrightarrow> safe_writer tls proto path (add_header k v w)"
  by (simp add: safe_writer_def add_header_def hardened_add)

lemma safe_write_header: "safe_writer tls proto path w \<Longrightarrow> safe_writer tls proto path (write_header c w)"
  by (auto simp: safe_writer_def write_header_def split: option.splits)

lemma safe_write_chunk: "safe_writer tls proto path w \<Longrightarrow> safe_writer tls proto path (write_chunk b w)"
  by (auto simp: safe_writer_def write_chunk_def split: option.splits)

lemma harmless_names [simp]:
  "harmless (''Content-Type'', v)" "harmless (''Content-Disposition'', v)" "harmless (''Location'', v)"
  "harmless (''Cache-Control'', ''no-store'')" "harmless (''X-Content-Type-Options'', ''nosniff'')"
  by (simp_all add: harmless_def hardening_names_def)

lemmas safe_intros = safe_set_header safe_add_header safe_write_header safe_write_chunk harmless_names

lemma safe_write_json: "safe_writer tls proto path w \<Longrightarrow> safe_writer tls proto path (write_json c kvs w)"
  by (simp add: write_json_def safe_intros)

lemma safe_write_reply: "safe_writer tls proto path w \<Longrightarrow> safe_writer tls proto path (write_reply rep w)"
  by (cases rep) (simp_all add: safe_intros)

lemma safe_fold: "(\<And>w h. h \<in> set hs \<Longrightarrow> safe_writer tls proto path w \<Longrightarrow> safe_writer tls proto path (f w h)) \<Longrightarrow>
  safe_writer tls proto path w \<Longrightarrow> safe_writer tls proto path (foldl f w hs)"
  by (induction hs arbitrary: w) auto

fun harmless_body :: "body \<Rightarrow> bool" where
  "harmless_body (LibraryBody c hs data) = list_all harmless hs"
| "harmless_body b = True"

lemma safe_write_body:
  assumes "harmless_body b" and "safe_writer tls proto path w"
  shows "safe_writer tls proto path (write_body b w)"
proof (cases b)
  case (EnrollBody e)
  with assms(2) show ?thesis by (cases e) (simp_all add: safe_intros)
qed (use assms in \<open>auto simp: safe_intros safe_write_reply safe_write_json list_all_iff intro!: safe_fold safe_write_chunk safe_write_header safe_write_reply safe_set_header safe_add_header\<close>)

lemma safe_secure_headers: "safe_writer tls proto path (secure_headers tls proto path new_writer)"
  by (simp add: safe_writer_def hardened_def secure_headers_def new_writer_def set_header_def Let_def)

lemma handler_chain_hardened:
  assumes "handler_chain mux tls proto verb path st = (logs, w, st')"
    and "\<forall>w0 st0. safe_writer tls proto path w0 \<longrightarrow> safe_writer tls proto path (fst (snd (mux w0 st0)))"
  shows "hardened tls proto path (snd (sent_response w)) \<and>
    (\<forall>w1 st1. mux (secure_headers tls proto path new_writer) st = (True, w1, st1) \<longrightarrow>
       logs = [PanicRecovered path] \<and> (wr_sent w1 = None \<longrightarrow> fst (sent_response w) = 500))"
proof -
  obtain p w1 st1 where m: "mux (secure_headers tls proto path new_writer) st = (p, w1, st1)"
    by (cases "mux (secure_headers tls proto path new_writer) st")
  from assms(2) safe_secure_headers m have s1: "safe_writer tls proto path w1" by (metis fst_conv snd_conv)
  have sent: "hardened tls proto path (snd (sent_response v))" if "safe_writer tls proto path v" for v
    using that by (auto simp: safe_writer_def sent_response_def split: option.splits)
  show ?thesis
  proof (cases p)
    case True
    with assms(1) m have "w = write_json 500 [(''error'', ''internal error'')] w1" "logs = [PanicRecovered path]"
      by (simp_all add: handler_chain_def)
    moreover have "fst (sent_response (write_json 500 kvs w1)) = 500" if "wr_sent w1 = None" for kvs
      using that by (simp add: sent_response_def write_json_def write_chunk_def write_header_def set_header_def)
    ultimately show ?thesis using m sent[OF safe_write_json[OF s1]] by simp
  next
    case False
    with assms(1) m sent[OF s1] show ?thesis by (simp add: handler_chain_def)
  qed
qed

text \<open>
  C12: Every response carries the security headers, also the answer to a request whose handler
  panicked: whatever handlers are mounted, as long as none of them takes one of these headers
  away; a path of the console, of signing in or of enrollment is never cached, and a request
  that came over TLS gets HSTS.  A panic before anything was sent is answered 500.
\<close>

theorem responses_hardened:
  assumes "handler_chain mux tls proto verb path st = (logs, w, st')"
    and "\<forall>w0 st0. safe_writer tls proto path w0 \<longrightarrow> safe_writer tls proto path (fst (snd (mux w0 st0)))"
  shows "hardened tls proto path (snd (sent_response w)) \<and>
    (\<forall>w1 st1. mux (secure_headers tls proto path new_writer) st = (True, w1, st1) \<longrightarrow>
       logs = [PanicRecovered path] \<and> (wr_sent w1 = None \<longrightarrow> fst (sent_response w) = 500))"
  using assms by (rule handler_chain_hardened)

definition harmless_deps :: "server_deps \<Rightarrow> bool" where
  "harmless_deps d \<longleftrightarrow> (\<forall>mdm ev r st. sd_mdm d = Some mdm \<longrightarrow> harmless_body (fst (mdm ev r st))) \<and>
     (\<forall>scep r. sd_scep d = Some scep \<longrightarrow> harmless_body (scep r))"

lemma serve_own_harmless: "harmless_body (fst (serve_own d ee ev p segs st))"
  by (simp add: serve_own_def handle_readyz_def handle_version_def prod.case_eq_if split: option.splits)

lemma dispatch_harmless:
  assumes "harmless_deps d"
  shows "harmless_body (fst (dispatch d ee ev r st))"
proof (cases "own_path d (rq_path r) (path_segs (rq_path r))")
  case True
  then show ?thesis by (simp add: dispatch_def Let_def serve_own_harmless)
next
  case False
  with assms show ?thesis
    by (simp add: dispatch_def Let_def harmless_deps_def prod.case_eq_if split: option.split bool.split)
qed

lemma serve_http_hardened:
  assumes "harmless_deps d" and "serve_http d ee ev tls proto r st = (logs, w, st')"
  shows "hardened tls proto (rq_path r) (snd (sent_response w))"
proof -
  have "\<forall>w0 st0. safe_writer tls proto (rq_path r) w0 \<longrightarrow> safe_writer tls proto (rq_path r) (fst (snd (serve_mux d ee ev r w0 st0)))"
    using dispatch_harmless[OF assms(1)] by (auto simp: serve_mux_def safe_write_body split: prod.splits) (metis fst_conv safe_write_body)
  from handler_chain_hardened[OF assms(2)[unfolded serve_http_def] this] show ?thesis by simp
qed

definition quiet_deps :: server_deps where
  \<comment> \<open>the console alone, as the configuration of the examples\<close>
  "quiet_deps = \<lparr>sd_app = demo_app, sd_tools = demo_tools, sd_authn = demo_auth, sd_oidc = None, sd_ui = True, sd_mdm_path = ''/mdm'',
     sd_mdm = None, sd_scep = None, sd_enroll = None, sd_grant = Some demo_enroll, sd_ca = None, sd_ready = True,
     sd_version = ([], [], [])\<rparr>"

lemma responses_hardened_witness:
  "\<exists>logs w st'. handler_chain (\<lambda>w st. (True, w, st)) True [] ''GET'' ''/admin'' demo_state = (logs, w, st') \<and>
     fst (sent_response w) = 500 \<and> map_of (snd (sent_response w)) ''Cache-Control'' = Some ''no-store''"
proof -
  obtain logs w st' where h: "handler_chain (\<lambda>w st. (True, w, st)) True [] ''GET'' ''/admin'' demo_state = (logs, w, st')"
    by (cases "handler_chain (\<lambda>w st. (True, w, st)) True [] ''GET'' ''/admin'' demo_state") auto
  have p: "sensitive_path ''/admin''" by (simp add: sensitive_path_def)
  have "wr_sent (secure_headers True [] ''/admin'' new_writer) = None" by (simp add: secure_headers_def new_writer_def set_header_def Let_def)
  with responses_hardened[OF h] p have "fst (sent_response w) = 500" "map_of (snd (sent_response w)) ''Cache-Control'' = Some ''no-store''"
    by (simp_all add: hardened_def)
  with h show ?thesis by (intro exI conjI)
qed

subsection \<open>What a request can change\<close>

lemma serve_own_protected:
  "serve_own d ee ev p segs st = (b, st') \<Longrightarrow> protected_state st' \<noteq> protected_state st \<Longrightarrow>
     (\<exists>t c. grant_token d segs = Some t \<and> sd_grant d = Some c \<and>
        st' = st\<lparr>fc_grants := snd (redeem_grant (ap_sha (sd_app d)) (ev_fault ev ''redeem'') (ev_at ev ''redeem'') (trim_space t) (fc_grants st))\<rparr>)"
  by (auto simp: serve_own_def enroll_grants_def serve_grant_def split: if_splits option.splits prod.splits sum.splits)

lemma serve_http_dispatch:
  "serve_http d ee ev tls proto r st = (logs, w, st') \<Longrightarrow> \<exists>b. dispatch d ee ev r st = (b, st')"
  by (auto simp: serve_http_def handler_chain_def serve_mux_def split: prod.splits)

text \<open>
  C1: No request to the server gets around the console's guards.  Whatever the path, the
  method, the headers and the form, and whatever fails, the fleet, the profile library, the
  command queue, the enrollment grants and the pending reconciliations are unchanged, except
  by: an enrollment link, which redeems the grant of its token and changes nothing else; a
  POST to one of the console's action routes that carries a live session of at least the
  route's role, that session's CSRF token and no Origin or Referer of another host; or a
  request to the MDM path, which the devices authenticate to.
\<close>

theorem server_changes_authorized:
  assumes "serve_http d ee ev tls proto r st = (logs, w, st')" and "protected_state st' \<noteq> protected_state st"
    and "sd_mdm d = None \<or> rq_path r \<noteq> sd_mdm_path d"
  shows "(\<exists>t. (rq_method r = ''GET'' \<or> rq_method r = ''HEAD'') \<and> path_segs (rq_path r) = [''e'', t] \<and>
      st' = st\<lparr>fc_grants := snd (redeem_grant (ap_sha (sd_app d)) (ev_fault ev ''redeem'') (ev_at ev ''redeem'') (trim_space t) (fc_grants st))\<rparr>) \<or>
    (\<exists>rt c row. rq_method r = ''POST'' \<and> post_route (path_segs (rq_path r)) = Some rt \<and>
      live_session (sd_app d) ev r st (min_role rt) c row \<and> csrf_submitted r = s_csrf row \<and> csrf_submitted r \<noteq> [] \<and>
      same_origin (ap_parse_url (sd_app d)) (ap_public_url (sd_app d)) r)"
proof -
  let ?segs = "path_segs (rq_path r)"
  from serve_http_dispatch[OF assms(1)] obtain b where d: "dispatch d ee ev r st = (b, st')" by blast
  show ?thesis
  proof (cases "own_path d (rq_path r) ?segs")
    case True
    with d assms(2) have own: "serve_own d ee ev (rq_path r) ?segs st = (b, st')" "rq_method r = ''GET'' \<or> rq_method r = ''HEAD''"
      by (auto simp: dispatch_def Let_def split: if_splits)
    from serve_own_protected[OF own(1) assms(2)] own(2) show ?thesis
      by (auto simp: grant_token_def split: list.splits if_splits)
  next
    case False
    with d assms(2,3) obtain rep ck where
      "serve (sd_app d) (sd_tools d) (sd_authn d) (sd_oidc d) ev r ?segs st = (rep, ck, st')"
      by (auto simp: dispatch_def Let_def split: if_splits option.splits bool.splits prod.splits)
    from console_guarded[OF this assms(2)] show ?thesis by blast
  qed
qed

definition demo_group_post :: request where
  "demo_group_post = demo_post [(''csrf'', ''k''), (''name'', ''Staff'')] \<lparr>rq_path := ''/admin/groups''\<rparr>"

lemma server_changes_authorized_witness:
  "\<exists>logs w st' c row. serve_http quiet_deps (demo_enroll_env ''topic'') demo_web_env True [] demo_group_post demo_state = (logs, w, st') \<and>
     map gr_name (f_groups (c_fleet (fc_core st'))) = [''Staff''] \<and>
     live_session demo_app demo_web_env demo_group_post demo_state role_admin c row"
proof -
  let ?run = "serve_http quiet_deps (demo_enroll_env ''topic'') demo_web_env True [] demo_group_post demo_state"
  obtain logs w st' where h: "?run = (logs, w, st')" by (cases ?run) auto
  have "map gr_name (f_groups (c_fleet (fc_core (snd (snd ?run))))) = [''Staff'']" by code_simp
  with h have g: "map gr_name (f_groups (c_fleet (fc_core st'))) = [''Staff'']" by simp
  then have n: "protected_state st' \<noteq> protected_state demo_state"
    by (auto simp: protected_state_def demo_state_def empty_fleet_def)
  have "path_segs (rq_path demo_group_post) = [''admin'', ''groups'']" by code_simp
  then obtain c row where "live_session demo_app demo_web_env demo_group_post demo_state role_admin c row"
    using server_changes_authorized[OF h n] by (auto simp: quiet_deps_def post_route_def)
  with h g show ?thesis by (intro exI conjI)
qed

text \<open>
  The enrollment link is spent by looking at it: the pattern \<open>GET /e/{token}\<close> also serves HEAD,
  so a client that only asks for the headers (a link preview, a mail scanner) uses up the
  grant as a device would.
\<close>

theorem head_spends_grant:
  assumes "rq_method r = ''HEAD''" and "path_segs (rq_path r) = [''e'', t]" and "t \<noteq> []" and "sd_grant d = Some c"
  shows "fc_grants (snd (snd (serve_http d ee ev tls proto r st))) =
    snd (redeem_grant (ap_sha (sd_app d)) (ev_fault ev ''redeem'') (ev_at ev ''redeem'') (trim_space t) (fc_grants st))"
proof -
  have p: "path_segs ''/healthz'' = [''healthz'']" "path_segs ''/readyz'' = [''readyz'']" "path_segs ''/version'' = [''version'']"
    "path_segs ''/enroll'' = [''enroll'']" "path_segs ''/ca'' = [''ca'']" by code_simp+
  with assms(2) have "rq_path r \<notin> {''/healthz'', ''/readyz'', ''/version'', ''/enroll'', ''/ca''}" by auto
  moreover have "grant_token d (path_segs (rq_path r)) = Some t" using assms(2-4) by (simp add: grant_token_def)
  ultimately show ?thesis using assms(1,4)
    by (auto simp: serve_http_def handler_chain_def serve_mux_def dispatch_def own_path_def serve_own_def enroll_grants_def
        serve_grant_def Let_def split: prod.splits sum.splits)
qed

end
