(* ===== verification/System.thy ===== *)
theory System
  imports Server
begin

section \<open>The running system\<close>

text \<open>
  The processes that share the database, as one step relation: requests to the server, check-ins
  and command results that NanoMDM hands to \<open>internal/mdmcore\<close>, the statements of the
  reconciliations that run beside them (\<open>internal/assign\<close>), the hourly purge of the sessions that
  \<open>runServe\<close> starts, and \<open>cairn admin\<close> in a process of its own.  Whatever their order, every table
  is the result of a run of its own component, so what was proved of the components holds of the
  system.
\<close>

subsection \<open>What any step may do to the tables\<close>

definition purges :: "grant_event \<Rightarrow> bool" where
  "purges ev = (case snd (snd ev) of DeleteExpiredGrants d \<Rightarrow> True | _ \<Rightarrow> False)"

definition evolves :: "app \<Rightarrow> fleet_console \<Rightarrow> fleet_console \<Rightarrow> bool" where
  "evolves a st st' \<longleftrightarrow>
     (\<exists>evs. c_fleet (fc_core st') = fleet_run evs (c_fleet (fc_core st))) \<and>
     (\<exists>evs. fc_grants st' = grant_run (ap_sha a) evs (fc_grants st) \<and> list_all (\<lambda>ev. \<not> purges ev) evs) \<and>
     (\<exists>evs. cn_sessions st' = session_run (ap_sha a) (ap_store a) evs (cn_sessions st)) \<and>
     (\<exists>evs. cn_audit st' = fold (\<lambda>(ft, now, e) rows. snd (append_audit ft now e rows)) evs (cn_audit st))"

named_theorems evolution

lemma evolves_refl [simp, intro]: "evolves a st st"
  unfolding evolves_def fleet_run_def grant_run_def session_run_def
  by (intro conjI exI[of _ "[]"]) simp_all

lemma evolves_trans:
  assumes "evolves a st1 st2" and "evolves a st2 st3"
  shows "evolves a st1 st3"
proof -
  from assms(1) obtain f g s e where 1:
    "c_fleet (fc_core st2) = fleet_run f (c_fleet (fc_core st1))"
    "fc_grants st2 = grant_run (ap_sha a) g (fc_grants st1)" "list_all (\<lambda>ev. \<not> purges ev) g"
    "cn_sessions st2 = session_run (ap_sha a) (ap_store a) s (cn_sessions st1)"
    "cn_audit st2 = fold (\<lambda>(ft, now, e) rows. snd (append_audit ft now e rows)) e (cn_audit st1)"
    unfolding evolves_def by blast
  from assms(2) obtain f' g' s' e' where 2:
    "c_fleet (fc_core st3) = fleet_run f' (c_fleet (fc_core st2))"
    "fc_grants st3 = grant_run (ap_sha a) g' (fc_grants st2)" "list_all (\<lambda>ev. \<not> purges ev) g'"
    "cn_sessions st3 = session_run (ap_sha a) (ap_store a) s' (cn_sessions st2)"
    "cn_audit st3 = fold (\<lambda>(ft, now, e) rows. snd (append_audit ft now e rows)) e' (cn_audit st2)"
    unfolding evolves_def by blast
  show ?thesis unfolding evolves_def
  proof (intro conjI)
    show "\<exists>evs. c_fleet (fc_core st3) = fleet_run evs (c_fleet (fc_core st1))"
      using 1(1) 2(1) by (intro exI[of _ "f @ f'"]) (simp add: fleet_run_def)
    show "\<exists>evs. fc_grants st3 = grant_run (ap_sha a) evs (fc_grants st1) \<and> list_all (\<lambda>ev. \<not> purges ev) evs"
      using 1(2,3) 2(2,3) by (intro exI[of _ "g @ g'"]) (simp add: grant_run_def)
    show "\<exists>evs. cn_sessions st3 = session_run (ap_sha a) (ap_store a) evs (cn_sessions st1)"
      using 1(4) 2(4) by (intro exI[of _ "s @ s'"]) (simp add: session_run_def)
    show "\<exists>evs. cn_audit st3 = fold (\<lambda>(ft, now, e) rows. snd (append_audit ft now e rows)) evs (cn_audit st1)"
      using 1(5) 2(5) by (intro exI[of _ "e @ e'"]) simp
  qed
qed

lemma evolves_fleet:
  assumes "c_fleet c = fleet_run evs (c_fleet (fc_core st))"
  shows "evolves a st (st\<lparr>fc_core := c\<rparr>)"
  using assms unfolding evolves_def
  by (auto simp: grant_run_def session_run_def intro: exI[of _ "[]"])

lemma evolves_grants:
  assumes "rows = grant_step (ap_sha a) ev (fc_grants st)" and "\<not> purges ev"
  shows "evolves a st (st\<lparr>fc_grants := rows\<rparr>)"
  using assms unfolding evolves_def fleet_run_def grant_run_def session_run_def
  by (intro conjI exI[of _ "[]"] exI[of _ "[ev]"]) simp_all

lemma evolves_sessions:
  assumes "rows = session_run (ap_sha a) (ap_store a) evs (cn_sessions st)"
  shows "evolves a st (st\<lparr>cn_sessions := rows\<rparr>)"
  using assms unfolding evolves_def
  by (auto simp: grant_run_def fleet_run_def intro: exI[of _ "[]"])

lemma evolves_audit:
  "evolves a st (st\<lparr>cn_audit := snd (append_audit ft now e (cn_audit st))\<rparr>)"
  unfolding evolves_def fleet_run_def grant_run_def session_run_def
  by (intro conjI exI[of _ "[]"] exI[of _ "[(ft, now, e)]"]) simp_all

lemma evolves_throttle [simp]: "evolves a st (st\<lparr>cn_throttle := t\<rparr>)" "evolves a st (st\<lparr>fc_jobs := js\<rparr>)"
  unfolding evolves_def fleet_run_def grant_run_def session_run_def
  by (intro conjI exI[of _ "[]"]; simp)+

lemma evolves_start_job: "evolves a st st1 \<Longrightarrow> evolves a st (start_job t j st1)"
  by (auto simp: start_job_def intro: evolves_trans)

subsection \<open>The stores\<close>

lemma on_fleet_evolves:
  assumes "on_fleet f st = (x, st1)" and "snd (f (c_fleet (fc_core st))) = fleet_step ev (c_fleet (fc_core st))"
  shows "evolves a st st1"
  using assms by (auto simp: on_fleet_def on_core_def fleet_run_def split: prod.splits intro!: evolves_fleet[where evs = "[ev]"])

lemma fleet_ops_evolve [evolution]:
  "on_fleet (save_profile ft now p) st = (xi, st1) \<Longrightarrow> evolves a st st1"
  "on_fleet (create_group ft now n dsc) st = (xi, st1) \<Longrightarrow> evolves a st st1"
  "on_fleet (delete_profile ft i) st = (xu, st1) \<Longrightarrow> evolves a st st1"
  "on_fleet (delete_group ft i) st = (xu, st1) \<Longrightarrow> evolves a st st1"
  "on_fleet (add_device_to_group ft i d) st = (xu, st1) \<Longrightarrow> evolves a st st1"
  "on_fleet (remove_device_from_group ft i d) st = (xu, st1) \<Longrightarrow> evolves a st st1"
  "on_fleet (assign_profile ft i j) st = (xu, st1) \<Longrightarrow> evolves a st st1"
  "on_fleet (unassign_profile ft i j) st = (xu, st1) \<Longrightarrow> evolves a st st1"
  by (erule on_fleet_evolves[where ev = "(now, ft, SaveProfile p)"], simp)
    (erule on_fleet_evolves[where ev = "(now, ft, CreateGroup n dsc)"], simp,
     erule on_fleet_evolves[where ev = "(0, ft, DeleteProfile i)"], simp,
     erule on_fleet_evolves[where ev = "(0, ft, DeleteGroup i)"], simp,
     erule on_fleet_evolves[where ev = "(0, ft, AddDevice i d)"], simp,
     erule on_fleet_evolves[where ev = "(0, ft, RemoveDevice i d)"], simp,
     erule on_fleet_evolves[where ev = "(0, ft, AssignProfile i j)"], simp,
     erule on_fleet_evolves[where ev = "(0, ft, UnassignProfile i j)"], simp)

lemma on_grants_evolves:
  assumes "on_grants f st = (x, st1)" and "snd (f (fc_grants st)) = grant_step (ap_sha a) ev (fc_grants st)" and "\<not> purges ev"
  shows "evolves a st st1"
  using assms by (auto simp: on_grants_def split: prod.splits intro!: evolves_grants[where ev = ev])

lemma grant_ops_evolve [evolution]:
  "on_grants (create_grant ft now (g :: grant) h) st = (xi, st1) \<Longrightarrow> evolves a st st1"
  "on_grants (revoke_grant ft ft2 now i) st = (xu, st1) \<Longrightarrow> evolves a st st1"
  by (erule on_grants_evolves[where ev = "(now, ft, CreateGrant g h)"], simp, simp add: purges_def)
    (erule on_grants_evolves[where ev = "(now, ft, RevokeGrant i ft2)"], simp, simp add: purges_def)

lemma record_sent_run: "\<exists>evs. c_fleet (record_sent env now ids cmd c) = fleet_run evs (c_fleet c)"
proof (induction ids arbitrary: c)
  case Nil
  show ?case by (intro exI[of _ "[]"]) (simp add: fleet_run_def)
next
  case (Cons i ids)
  let ?ev = "(now, se_record env i, CommandSent i (cmd_uuid cmd) (request_type (cmd_body cmd)))"
  from Cons.IH[of "c\<lparr>c_fleet := fleet_step ?ev (c_fleet c)\<rparr>"]
  obtain evs where "c_fleet (record_sent env now (i # ids) cmd c) = fleet_run evs (fleet_step ?ev (c_fleet c))" by auto
  then show ?case by (intro exI[of _ "?ev # evs"]) (simp add: fleet_run_def)
qed

lemma send_command_run: "\<exists>evs. c_fleet (snd (send_command env now ids body c)) = fleet_run evs (c_fleet c)"
proof -
  let ?c1 = "c\<lparr>c_queue := c_queue c @ map (\<lambda>i. (i, \<lparr>cmd_uuid = new_command_uuid (se_rnd env), cmd_body = body\<rparr>)) ids\<rparr>"
  have n: "\<exists>evs. x = fleet_run evs x" for x by (intro exI[of _ "[]"]) (simp add: fleet_run_def)
  from record_sent_run[of env now ids "\<lparr>cmd_uuid = new_command_uuid (se_rnd env), cmd_body = body\<rparr>" ?c1] n
  show ?thesis
    by (auto simp: send_command_def build_command_def commander_enqueue_def enqueue_push_def Let_def split: option.splits)
qed

lemma core_ops_evolve [evolution]:
  "on_core (send_install_profile env now data ids) st = (x, st1) \<Longrightarrow> evolves a st st1"
  "on_core (send_remove_profile env now ident ids) st = (x, st1) \<Longrightarrow> evolves a st st1"
  "on_core (send_device_information env now ids) st = (x, st1) \<Longrightarrow> evolves a st st1"
proof -
  have "on_core (send_command env now ids body) st = (x, st1) \<Longrightarrow> evolves a st st1" for body
    using send_command_run[of env now ids body "fc_core st"] by (auto simp: on_core_def split: prod.splits intro: evolves_fleet)
  then show "on_core (send_install_profile env now data ids) st = (x, st1) \<Longrightarrow> evolves a st st1"
    "on_core (send_remove_profile env now ident ids) st = (x, st1) \<Longrightarrow> evolves a st st1"
    "on_core (send_device_information env now ids) st = (x, st1) \<Longrightarrow> evolves a st st1"
    by (auto simp: send_install_profile_def[abs_def] send_remove_profile_def[abs_def] send_device_information_def[abs_def])
qed

subsection \<open>The console\<close>

lemma current_session_run:
  "\<exists>evs. snd (current_session a ev k r rows) = session_run (ap_sha a) (ap_store a) evs rows"
proof (cases "map_of (rq_cookies r) session_cookie")
  case None
  then show ?thesis by (intro exI[of _ "[]"]) (simp add: current_session_def session_run_def)
next
  case (Some c)
  then show ?thesis
    by (intro exI[of _ "[(ev_at ev k, ev_fault ev k, GetSession c (ev_fault ev (k @ ''.delete'')) (ev_fault ev (k @ ''.renew'')))]"])
      (simp add: current_session_def session_run_def split: prod.splits sum.splits)
qed

lemma current_session_evolves [evolution]:
  "current_session a ev k r (cn_sessions st) = (x, rows) \<Longrightarrow> evolves a st (st\<lparr>cn_sessions := rows\<rparr>)"
  using current_session_run[of a ev k r "cn_sessions st"] by (auto intro: evolves_sessions)

lemma check_csrf_evolves [evolution]:
  "check_csrf a ev r (cn_sessions st) = (x, rows) \<Longrightarrow> evolves a st (st\<lparr>cn_sessions := rows\<rparr>)"
  by (auto simp: check_csrf_def split: prod.splits option.splits intro: evolution)

lemma csrf_guard_evolves:
  assumes "\<And>st. evolves a st (snd (h st))"
  shows "evolves a st (snd (csrf_guard a ev r h st))"
  using assms by (auto simp: csrf_guard_def split: prod.splits bool.splits intro: evolution evolves_trans)

lemma save_built_evolves: "evolves a st (snd (save_built_profile t ev prof source back st))"
  by (auto simp: save_built_profile_def intro: evolution split: sum.splits prod.splits)

lemma mutating_handler_evolves:
  "evolves a st (snd (handle_device_refresh a t ev r i st))"
  "evolves a st (snd (handle_device_install a t ev r i st))"
  "evolves a st (snd (handle_device_remove a t ev r i st))"
  "evolves a st (snd (handle_profile_upload a t ev r st))"
  "evolves a st (snd (handle_profile_delete a ev r i st))"
  "evolves a st (snd (handle_builder_wifi a t ev r st))"
  "evolves a st (snd (handle_builder_sso a t ev r st))"
  "evolves a st (snd (handle_grant_create a ev r s st))"
  "evolves a st (snd (handle_grant_revoke a ev r i st))"
  "evolves a st (snd (handle_group_create a ev r st))"
  "evolves a st (snd (handle_group_delete a ev r i st))"
  "evolves a st (snd (handle_group_device_change a t ev r i st))"
  "evolves a st (snd (handle_group_profile_change a t ev r i st))"
  by (auto simp: handle_device_refresh_def handle_device_install_def handle_device_remove_def handle_profile_upload_def
      handle_profile_delete_def handle_builder_wifi_def handle_builder_sso_def handle_grant_create_def handle_grant_revoke_def
      handle_group_create_def handle_group_delete_def handle_group_device_change_def handle_group_profile_change_def
      Let_def save_built_evolves intro!: csrf_guard_evolves
      split: sum.splits prod.splits option.splits parsed.splits upload.splits)
    (erule evolution | rule evolves_start_job, erule evolution)+

lemma handler_evolves: "evolves a st (snd (handler a t ev r rt s st))"
  by (cases rt) (simp_all add: mutating_handler_evolves download_keeps)

lemma require_role_evolves:
  assumes "\<And>s st. evolves a st (snd (h s st))"
  shows "evolves a st (snd (require_role a ev lo h r st))"
  using assms by (auto simp: require_role_def split: prod.splits option.splits intro: evolution evolves_trans)

lemma audited_evolves: "evolves a st (snd (audited a ev r (rep, st)))"
proof -
  obtain x rows where c: "current_session a ev ''audit'' r (cn_sessions st) = (x, rows)"
    by (cases "current_session a ev ''audit'' r (cn_sessions st)")
  show ?thesis
    using evolves_trans[OF current_session_evolves[OF c]
        evolves_audit[of a "st\<lparr>cn_sessions := rows\<rparr>" "ev_fault ev ''append''" "ev_at ev ''append''" "audit_row a r rep x"]]
    by (simp add: audited_def c)
qed

lemma audited_after: "evolves a st (snd res) \<Longrightarrow> evolves a st (snd (audited a ev r res))"
  by (metis audited_evolves evolves_trans prod.collapse)

lemma start_session_evolves: "evolves a st (snd (snd (start_session a ev ident st)))"
  by (auto simp: start_session_def session_run_def split: prod.splits sum.splits
      intro!: evolves_sessions[where evs = "[(ev_at ev ''create'', ev_fault ev ''create'', CreateSession ident (ev_rnd ev ''token'') (ev_rnd ev ''csrf''))]"])

lemma sign_in_evolves:
  "evolves a st (snd (snd (handle_login_form a ev r st)))"
  "evolves a st (snd (snd (handle_login a authn ev r st)))"
  "evolves a st (snd (snd (handle_oidc_login a oidc ev r st)))"
  "evolves a st (snd (snd (handle_oidc_callback a oidc ev r st)))"
  by (auto simp: handle_login_form_def handle_login_def handle_oidc_login_def handle_oidc_callback_def Let_def
      split: prod.splits sum.splits option.splits intro: evolution
      intro: evolves_trans[OF evolves_throttle(1) start_session_evolves])
    (metis start_session_evolves snd_conv)

lemma logout_evolves: "evolves a st (snd (snd (handle_logout a ev r st)))"
proof (cases "map_of (rq_cookies r) session_cookie")
  case None
  then show ?thesis by (simp add: handle_logout_def)
next
  case (Some c)
  obtain b rows where k: "check_csrf a ev r (cn_sessions st) = (b, rows)" by (cases "check_csrf a ev r (cn_sessions st)")
  from evolves_trans[OF check_csrf_evolves[OF k] evolves_sessions[of _ _ "[(0, ev_fault ev ''logout'', DeleteSession c)]"]]
  have "evolves a st (st\<lparr>cn_sessions := snd (delete_session (ap_sha a) (ev_fault ev ''logout'') c rows)\<rparr>)"
    by (simp add: session_run_def)
  with Some k check_csrf_evolves[OF k] show ?thesis by (cases b) (simp_all add: handle_logout_def)
qed

lemma serve_route_evolves: "evolves a st (snd (serve_route a t ev r rt st))"
  using require_role_evolves[where h = "handler a t ev r rt" and a = a and ev = ev and lo = "min_role rt" and r = r and st = st]
  by (simp add: serve_route_def Let_def handler_evolves audited_after)

lemma serve_evolves:
  assumes "serve a t authenticate oidc ev r segs st = (rep, ck, st')"
  shows "evolves a st st'"
proof -
  have "evolves a st (snd (snd (serve a t authenticate oidc ev r segs st)))"
  proof (cases "route_of (rq_method r) segs")
    case None
    then show ?thesis by (simp add: serve_def Let_def split_beta sign_in_evolves logout_evolves audited_after)
  next
    case (Some rt)
    then show ?thesis by (simp add: serve_def Let_def split_beta serve_route_evolves)
  qed
  with assms show ?thesis by simp
qed

lemma serve_own_evolves: "evolves (sd_app d) st (snd (serve_own d ee ev p segs st))"
proof -
  have "evolves (sd_app d) st (st\<lparr>fc_grants := snd (redeem_grant (ap_sha (sd_app d)) ft now raw (fc_grants st))\<rparr>)" for ft now raw
    by (rule evolves_grants[where ev = "(now, ft, RedeemGrant raw)"]) (simp_all add: purges_def)
  moreover have "evolves (sd_app d) st (st\<lparr>fc_grants := fc_grants st\<rparr>)" by simp
  ultimately show ?thesis
    by (auto simp: serve_own_def enroll_grants_def serve_grant_def split: option.splits prod.splits sum.splits)
      (metis snd_conv)+
qed

lemma request_evolves:
  assumes "serve_http d ee ev tls proto r st = (logs, w, st')" and "sd_mdm d = None \<or> rq_path r \<noteq> sd_mdm_path d"
  shows "evolves (sd_app d) st st'"
proof -
  from serve_http_dispatch[OF assms(1)] obtain b where "dispatch d ee ev r st = (b, st')" by blast
  with assms(2) show ?thesis using serve_own_evolves[where d = d and st = st and ee = ee and ev = ev and p = "rq_path r" and segs = "path_segs (rq_path r)"]
    by (auto simp: dispatch_def Let_def split: if_splits option.splits bool.splits prod.splits intro: serve_evolves)
qed

subsection \<open>Check-ins and reconciliations\<close>

definition core_runs :: "core \<Rightarrow> core \<Rightarrow> bool" where
  "core_runs c c' \<longleftrightarrow> (\<exists>evs. c_fleet c' = fleet_run evs (c_fleet c))"

lemma core_runs_refl [simp, intro]: "core_runs c c"
  unfolding core_runs_def fleet_run_def by (intro exI[of _ "[]"]) simp

lemma core_runs_trans: "core_runs c1 c2 \<Longrightarrow> core_runs c2 c3 \<Longrightarrow> core_runs c1 c3"
  unfolding core_runs_def fleet_run_def by (metis comp_apply fold_append)

lemma core_runs_step: "c_fleet c' = fleet_step ev (c_fleet c) \<Longrightarrow> core_runs c c'"
  unfolding core_runs_def fleet_run_def by (intro exI[of _ "[ev]"]) simp

lemma core_runs_evolves: "core_runs (fc_core st) c \<Longrightarrow> evolves a st (st\<lparr>fc_core := c, fc_jobs := js\<rparr>)"
  "core_runs (fc_core st) c \<Longrightarrow> evolves a st (st\<lparr>fc_core := c\<rparr>)"
  using evolves_fleet[of c _ st a] evolves_trans[OF _ evolves_throttle(2)] by (auto simp: core_runs_def)

lemma with_devices_runs:
  assumes "f = on_fault ft (f_devices (c_fleet c)) rows" and "rows = device_step (now, call) (f_devices (c_fleet c))"
  shows "core_runs c (if on then c\<lparr>c_fleet := (c_fleet c)\<lparr>f_devices := snd f\<rparr>\<rparr> else c)"
  using assms core_runs_step[of _ "(now, None, CheckIn call)" c] by (cases ft) (auto simp: on_fault_def)

lemma projections_run:
  "core_runs c (with_devices on (device_enrolled ft now dr) c)"
  "core_runs c (with_devices on (device_token_updated ft now i) c)"
  "core_runs c (with_devices on (device_checked_out ft now i) c)"
  "core_runs c (with_devices on (device_checked_in ft now i) c)"
  "core_runs c (with_devices on (store_inventory ft now i v) c)"
  unfolding with_devices_def
  by (rule with_devices_runs[where call = "DeviceEnrolled dr"], simp add: device_enrolled_def, simp add: device_enrolled_def on_fault_def)
    (rule with_devices_runs[where call = "DeviceTokenUpdated i"], simp add: device_token_updated_def, simp add: device_token_updated_def on_fault_def,
     rule with_devices_runs[where call = "DeviceCheckedOut i"], simp add: device_checked_out_def, simp add: device_checked_out_def on_fault_def,
     rule with_devices_runs[where call = "DeviceCheckedIn i"], simp add: device_checked_in_def, simp add: device_checked_in_def on_fault_def,
     rule with_devices_runs[where call = "DeviceInventory i v"], simp add: store_inventory_def, simp add: store_inventory_def on_fault_def)

lemma events_run:
  "on_authenticate decode pj inner now i am c = (ru, c') \<Longrightarrow> core_runs c c'"
  "on_token_update pj inner now i c = (ru, c', hook) \<Longrightarrow> core_runs c c'"
  "on_check_out pj inner now i c = (ru, c') \<Longrightarrow> core_runs c c'"
  by (auto simp: on_authenticate_def on_token_update_def on_check_out_def projections_run split: option.splits)

lemma command_results_run:
  assumes "on_command_results decode pj inner now i m c = (rc, c')"
  shows "core_runs c c'"
proof -
  have r: "core_runs c1 (c1\<lparr>c_fleet := snd (command_result ft ft2 now i u s e (c_fleet c1))\<rparr>)" for c1 ft ft2 u s e
    by (rule core_runs_step[where ev = "(now, ft, CommandResult i u s e ft2)"]) simp
  show ?thesis using assms
    by (auto simp: on_command_results_def Let_def projections_run split: sum.splits option.splits if_splits
        intro: core_runs_trans[OF projections_run(4)] core_runs_trans[OF _ projections_run(5)] r)
qed

lemma send_runs: "core_runs c (snd (send_install_profile_uuid env now data i c))"
  using send_command_run[of env now "[i]" "InstallProfile data" c] by (simp add: core_runs_def send_install_profile_uuid_def)

lemma mark_runs: "core_runs c (core_mark ft now i p u v c)"
  by (rule core_runs_step[where ev = "(now, ft, MarkDeploySent i p u v)"]) (simp add: core_mark_def)

subsection \<open>The steps of the system\<close>

inductive system_step :: "server_deps \<Rightarrow> fleet_console \<Rightarrow> fleet_console \<Rightarrow> bool" for d where
  Request: "sd_mdm d = None \<or> rq_path r \<noteq> sd_mdm_path d \<Longrightarrow> serve_http d ee ev tls proto r st = (logs, w, st') \<Longrightarrow>
    system_step d st st'"
| Enrolled: "on_authenticate decode pj inner now i m (fc_core st) = (ru, c) \<Longrightarrow> system_step d st (st\<lparr>fc_core := c\<rparr>)"
| Pushable: "on_token_update pj inner now i (fc_core st) = (ru, c, hook) \<Longrightarrow>
    system_step d st (st\<lparr>fc_core := c, fc_jobs := fc_jobs st @ (case hook of None \<Rightarrow> [] | Some i \<Rightarrow> [ReconcileDevice i])\<rparr>)"
| LeftMdm: "on_check_out pj inner now i (fc_core st) = (ru, c) \<Longrightarrow> system_step d st (st\<lparr>fc_core := c\<rparr>)"
| Reported: "on_command_results decode pj (inner :: string + mdm_command option) now i m (fc_core st) = (rc, c) \<Longrightarrow> system_step d st (st\<lparr>fc_core := c\<rparr>)"
| Send: "j \<in> set (fc_jobs st) \<Longrightarrow> system_step d st (st\<lparr>fc_core := snd (send_install_profile_uuid env now data i (fc_core st))\<rparr>)"
| Mark: "j \<in> set (fc_jobs st) \<Longrightarrow> system_step d st (st\<lparr>fc_core := core_mark ft now i p u v (fc_core st)\<rparr>)"
| Settled: "j \<in> set (fc_jobs st) \<Longrightarrow> system_step d st (st\<lparr>fc_jobs := remove1 j (fc_jobs st)\<rparr>)"
| Purged: "system_step d st (st\<lparr>cn_sessions := snd (delete_expired ft now (cn_sessions st))\<rparr>)"
| Revoked: "system_step d st (st\<lparr>cn_sessions := snd (delete_by_username ft u (cn_sessions st))\<rparr>)"

abbreviation reaches :: "server_deps \<Rightarrow> fleet_console \<Rightarrow> fleet_console \<Rightarrow> bool" where
  "reaches d \<equiv> rtranclp (system_step d)"

lemma step_evolves: "system_step d st st' \<Longrightarrow> evolves (sd_app d) st st'"
proof (induction rule: system_step.induct)
  case (Purged st ft now)
  show ?case by (rule evolves_sessions[where evs = "[(now, ft, DeleteExpired)]"]) (simp add: session_run_def)
next
  case (Revoked st ft u)
  show ?case by (rule evolves_sessions[where evs = "[(0, ft, DeleteByUsername u)]"]) (simp add: session_run_def)
qed (auto intro: request_evolves core_runs_evolves events_run command_results_run send_runs mark_runs)

lemma reaches_evolves: "reaches d st st' \<Longrightarrow> evolves (sd_app d) st st'"
  by (induction rule: rtranclp_induct) (auto intro: evolves_trans step_evolves)

lemma demo_reaches: "reaches quiet_deps demo_state (snd (snd (serve_http quiet_deps (demo_enroll_env ''topic'') demo_web_env True [] demo_group_post demo_state)))"
  by (rule r_into_rtranclp, rule Request[where r = demo_group_post])
    (simp_all add: quiet_deps_def prod_eq_iff)

lemma audit_fold:
  "audit_ok rows \<Longrightarrow> audit_ok (fold (\<lambda>(ft, now, e) rows. snd (append_audit ft now e rows)) evs rows)"
  "take (length rows) (fold (\<lambda>(ft, now, e) rows. snd (append_audit ft now e rows)) evs rows) = rows"
proof -
  show "audit_ok rows \<Longrightarrow> audit_ok (fold (\<lambda>(ft, now, e) rows. snd (append_audit ft now e rows)) evs rows)"
    by (induction evs rule: rev_induct) (auto simp: append_audit_ok)
  have "\<exists>more. fold (\<lambda>(ft, now, e) rows. snd (append_audit ft now e rows)) evs rows = rows @ more"
  proof (induction evs rule: rev_induct)
    case (snoc ev evs)
    then show ?case by (cases ev rule: prod_cases3; cases "fst ev") (auto simp: append_audit_def on_fault_def)
  qed simp
  then show "take (length rows) (fold (\<lambda>(ft, now, e) rows. snd (append_audit ft now e rows)) evs rows) = rows" by auto
qed

text \<open>
  C4: The database is sound in every state the system reaches: the keys and references of the
  fleet tables hold, no grant is over-used and no two share a token, no two sessions share a
  token, and the audit log only grows, with increasing ids.
\<close>

theorem system_invariant:
  assumes "reaches d st st'"
    and "fleet_ok (c_fleet (fc_core st)) \<and> grants_ok (fc_grants st) \<and> sessions_ok (cn_sessions st) \<and> audit_ok (cn_audit st)"
  shows "fleet_ok (c_fleet (fc_core st')) \<and> grants_ok (fc_grants st') \<and> sessions_ok (cn_sessions st') \<and> audit_ok (cn_audit st') \<and>
    take (length (cn_audit st)) (cn_audit st') = cn_audit st"
  using reaches_evolves[OF assms(1)] assms(2) unfolding evolves_def
  by (auto simp: fleet_run_ok grant_run_ok session_run_ok audit_fold)

theorem system_invariant_witness:
  "fleet_ok (c_fleet (fc_core (snd (snd (serve_http quiet_deps (demo_enroll_env ''topic'') demo_web_env True [] demo_group_post demo_state)))))"
proof -
  have "fleet_ok (c_fleet (fc_core demo_state)) \<and> grants_ok (fc_grants demo_state) \<and> sessions_ok (cn_sessions demo_state) \<and>
    audit_ok (cn_audit demo_state)"
    by (simp add: demo_state_def empty_fleet_ok grants_ok_def sessions_ok_def audit_ok_def)
  from system_invariant[OF demo_reaches this] show ?thesis by blast
qed

subsection \<open>A revoked link stays revoked\<close>

definition revoked_row :: "string \<Rightarrow> grant_row list \<Rightarrow> bool" where
  "revoked_row h rows \<longleftrightarrow> (\<exists>g\<in>set rows. g_token_hash g = h \<and> g_revoked_at g \<noteq> None)"

lemma revoked_row_update:
  assumes "revoked_row h rows" and "\<And>g. g_token_hash (f g) = g_token_hash g" and "\<And>g. g_revoked_at g \<noteq> None \<Longrightarrow> g_revoked_at (f g) \<noteq> None"
  shows "revoked_row h (update_where p f rows)"
proof -
  from assms(1) obtain g where "g \<in> set rows" "g_token_hash g = h" "g_revoked_at g \<noteq> None" unfolding revoked_row_def by blast
  with assms(2,3) show ?thesis
    unfolding revoked_row_def by (intro bexI[of _ "if p g then f g else g"]) (auto simp: update_where_def)
qed

lemma revoked_row_step:
  assumes "revoked_row h rows" and "\<not> purges ev"
  shows "revoked_row h (grant_step sha ev rows)"
proof -
  obtain now ft c where ev: "ev = (now, ft, c)" by (cases ev rule: prod_cases3)
  show ?thesis
  proof (cases c)
    case (CreateGrant g k)
    with assms ev show ?thesis by (auto simp: create_grant_def revoked_row_def Let_def split: option.splits)
  next
    case (RedeemGrant raw)
    with assms ev show ?thesis by (auto simp: redeem_grant_def Let_def intro!: revoked_row_update split: option.splits)
  next
    case (RevokeGrant i ft2)
    with assms ev show ?thesis by (auto simp: revoke_grant_def intro!: revoked_row_update split: option.splits)
  next
    case (DeleteExpiredGrants x)
    with assms ev show ?thesis by (simp add: purges_def)
  qed
qed

lemma revoked_row_run: "revoked_row h rows \<Longrightarrow> list_all (\<lambda>ev. \<not> purges ev) evs \<Longrightarrow> revoked_row h (grant_run sha evs rows)"
  unfolding grant_run_def by (induction evs arbitrary: rows) (simp_all add: revoked_row_step)

lemma revoked_row_unusable: "grants_ok rows \<Longrightarrow> revoked_row h rows \<Longrightarrow> unusable h rows"
  unfolding revoked_row_def unusable_def find_grant_def grants_ok_def
  by (metis (mono_tags, lifting) find_SomeD inj_on_eq_iff distinct_map)

text \<open>
  C20: Revoking a grant is final.  Once its row is revoked, no sequence of steps of the system
  (not even the creation of another grant) makes its link redeemable again: every later request
  with the token fails and changes nothing.
\<close>

theorem revocation_final:
  assumes "reaches d st st'" and "grants_ok (fc_grants st)" and "g \<in> set (fc_grants st)" and "g_revoked_at g \<noteq> None"
    and "g_token_hash g = hash_grant_token (ap_sha (sd_app d)) raw"
  shows "\<exists>e. redeem_grant (ap_sha (sd_app d)) ft now raw (fc_grants st') = (Inl e, fc_grants st')"
proof -
  from reaches_evolves[OF assms(1)] obtain evs where
    e: "fc_grants st' = grant_run (ap_sha (sd_app d)) evs (fc_grants st)" "list_all (\<lambda>ev. \<not> purges ev) evs"
    unfolding evolves_def by blast
  have "revoked_row (hash_grant_token (ap_sha (sd_app d)) raw) (fc_grants st')"
    unfolding e(1) using assms(3-5) e(2) by (intro revoked_row_run) (auto simp: revoked_row_def)
  moreover have "grants_ok (fc_grants st')" unfolding e(1) by (rule grant_run_ok[OF assms(2)])
  ultimately show ?thesis by (intro unusable_redeem revoked_row_unusable)
qed

theorem revocation_final_witness:
  "\<exists>st' e. reaches quiet_deps (demo_state\<lparr>fc_grants := [demo_grant_row\<lparr>g_revoked_at := Some 1\<rparr>]\<rparr>) st' \<and>
     redeem_grant (\<lambda>s. s) None second ''t'' (fc_grants st') = (Inl e, fc_grants st')"
proof -
  let ?g = "demo_grant_row\<lparr>g_revoked_at := Some 1\<rparr>"
  let ?st = "demo_state\<lparr>fc_grants := [?g]\<rparr>"
  have r: "reaches quiet_deps ?st (?st\<lparr>cn_sessions := snd (delete_by_username None ''ann'' (cn_sessions ?st))\<rparr>)"
    by (rule r_into_rtranclp, rule Revoked)
  have sha: "ap_sha (sd_app quiet_deps) = (\<lambda>s. s)" by (simp add: quiet_deps_def demo_app_def)
  have g: "grants_ok (fc_grants ?st)" "?g \<in> set (fc_grants ?st)" "g_revoked_at ?g \<noteq> None"
    "g_token_hash ?g = hash_grant_token (ap_sha (sd_app quiet_deps)) ''t''"
    using demo_grant_row_ok by (simp_all add: grants_ok_def demo_grant_row_def sha)
  from revocation_final[OF r g, of None second] sha r show ?thesis by (metis (no_types, lifting))
qed

subsection \<open>A reconciliation as steps of the system\<close>

definition core_at :: "fleet_console \<Rightarrow> core \<Rightarrow> fleet_console" where
  "core_at st c = st\<lparr>fc_core := c\<rparr>"

lemma core_at_simps [simp]: "fc_core (core_at st c) = c" "fc_jobs (core_at st c) = fc_jobs st" "core_at (core_at st c) c' = core_at st c'"
  "core_at st (fc_core st) = st"
  by (simp_all add: core_at_def)

lemma loop_reaches:
  assumes "j \<in> set (fc_jobs st)"
  shows "reaches d (core_at st c) (core_at st (snd (reconcile_loop core_mark send_install_profile_uuid env i ps c)))"
proof (induction ps arbitrary: c)
  case (Cons p ps)
  obtain now e ft where env: "env p = (now, e, ft)" by (cases "env p" rule: prod_cases3)
  obtain r c1 where s: "send_install_profile_uuid e now (p_data p) i c = (r, c1)" by fastforce
  have 1: "reaches d (core_at st c) (core_at st c1)"
    using Send[of j "core_at st c" d e now "p_data p" i] assms s by (simp add: core_at_def r_into_rtranclp)
  show ?case
  proof (cases r)
    case (Inl x)
    from rtranclp_trans[OF 1 Cons.IH[of c1]] env s Inl show ?thesis by (simp add: split_beta)
  next
    case (Inr u)
    have "reaches d (core_at st c1) (core_at st (core_mark ft now i (p_id p) u (p_updated_at p) c1))"
      using Mark[of j "core_at st c1" d ft now i "p_id p" u "p_updated_at p"] assms by (simp add: core_at_def r_into_rtranclp)
    from rtranclp_trans[OF rtranclp_trans[OF 1 this] Cons.IH] env s Inr show ?thesis by (simp add: split_beta)
  qed
qed simp

lemma device_reaches:
  assumes "j \<in> set (fc_jobs st)"
  shows "reaches d (core_at st c) (core_at st (snd (core_reconcile ft env i c)))"
  using loop_reaches[OF assms, of d c env i] by (simp add: core_reconcile_def reconcile_device_def split: sum.split prod.split) (metis snd_conv)

lemma job_reaches:
  assumes "j \<in> set (fc_jobs st)"
  shows "reaches d st (st\<lparr>fc_core := run_job ft fts envs j (fc_core st), fc_jobs := remove1 j (fc_jobs st)\<rparr>)"
proof -
  have ds: "reaches d (core_at st c) (core_at st (reconcile_devices core_to_deploy core_mark send_install_profile_uuid fts envs is c))" for c "is"
  proof (induction "is" arbitrary: c)
    case (Cons i "is")
    from rtranclp_trans[OF device_reaches[OF assms, of d c "fts i" "envs i" i] Cons.IH] show ?case by (simp add: core_reconcile_def)
  qed simp
  have run: "reaches d (core_at st (fc_core st)) (core_at st (run_job ft fts envs j (fc_core st)))"
  proof (cases j)
    case (ReconcileDevice i)
    with device_reaches[OF assms, of d "fc_core st" ft "envs i" i] show ?thesis by simp
  next
    case (ReconcileGroup g)
    with ds[of "fc_core st"] show ?thesis by (simp add: core_reconcile_group_def reconcile_group_def split: sum.split)
  qed
  let ?st = "core_at st (run_job ft fts envs j (fc_core st))"
  have "system_step d ?st (?st\<lparr>fc_jobs := remove1 j (fc_jobs ?st)\<rparr>)" by (rule Settled[of j]) (simp add: assms)
  with run show ?thesis by (simp add: core_at_def)
qed

subsection \<open>What an assignment delivers\<close>

lemma deployed_or_missing:
  assumes "(g, dev) \<in> set (f_members fl)" and "q \<in> set (f_profiles fl)" and "(g, p_id q) \<in> set (f_assigned fl)"
  shows "q \<in> set (missing_profiles dev fl) \<or> (\<exists>x. find_deploy dev (p_id q) fl = Some x \<and> dp_version x = p_updated_at q)"
  using assms by (auto simp: missing_profiles_def assigned_to_def outdated_def split: option.splits)

lemma assign_outcome:
  assumes "on_fleet (assign_profile ft g p) st = (Inr u, st1)"
  shows "(g, p) \<in> set (f_assigned (c_fleet (fc_core st1)))"
  using assms by (auto simp: on_fleet_def on_core_def assign_profile_def split: prod.splits option.splits if_splits)

lemma group_info_id [simp]: "gr_id (group_info_of fl g) = gr_id g"
  by (simp add: group_info_of_def group_row.defs)

lemma group_of_path: "group_from_path ev i st = Some g \<Longrightarrow> parse_int i = ParsedInt (gr_id g)"
  by (auto simp: group_from_path_def get_group_def split: parsed.splits sum.splits option.splits dest!: find_SomeD)

lemma on_fleet_jobs: "on_fleet f st = (x, st1) \<Longrightarrow> fc_jobs st1 = fc_jobs st"
  by (auto simp: on_fleet_def on_core_def split: prod.splits)

lemma group_profile_job:
  assumes "handle_group_profile_change a t ev r i st = (rep, st1)" and "fc_jobs st1 \<noteq> fc_jobs st"
  shows "\<exists>g p. parse_int i = ParsedInt g \<and> parse_int (post r ''profile_id'') = ParsedInt p \<and>
    fc_jobs st1 = fc_jobs st @ [ReconcileGroup g] \<and> (g, p) \<in> set (f_assigned (c_fleet (fc_core st1)))"
proof -
  obtain b rows where k: "check_csrf a ev r (cn_sessions st) = (b, rows)" by (cases "check_csrf a ev r (cn_sessions st)")
  let ?st = "st\<lparr>cn_sessions := rows\<rparr>"
  from assms k have b by (cases b) (auto simp: handle_group_profile_change_def csrf_guard_def)
  note h = assms(1)[unfolded handle_group_profile_change_def csrf_guard_def k, simplified, simplified \<open>b\<close>, simplified]
  from h assms(2) obtain g where g: "group_from_path ev i ?st = Some g" by (cases "group_from_path ev i ?st") auto
  from h g assms(2) obtain p where p: "parse_int (post r ''profile_id'') = ParsedInt p"
    by (cases "parse_int (post r ''profile_id'')") (auto simp: Let_def)
  have "post r ''action'' \<noteq> ''unassign''"
    using h g p assms(2) by (auto simp: Let_def dest: on_fleet_jobs split: prod.splits sum.splits)
  with h g p obtain x st2 where s: "on_fleet (assign_profile (ev_fault ev ''change'') (gr_id g) p) ?st = (x, st2)"
    "(case x of Inl e \<Rightarrow> st2 | Inr _ \<Rightarrow> start_job t (ReconcileGroup (gr_id g)) st2) = st1"
    by (auto simp: Let_def split: prod.splits sum.splits)
  from on_fleet_jobs[OF s(1)] s(2) assms(2) obtain u where x: "x = Inr u" by (cases x) auto
  with s assms(2) on_fleet_jobs[OF s(1)] have "st1 = st2\<lparr>fc_jobs := fc_jobs st @ [ReconcileGroup (gr_id g)]\<rparr>"
    by (auto simp: start_job_def split: if_splits)
  with group_of_path[OF g] p assign_outcome[OF s(1)[unfolded x]] show ?thesis by auto
qed

lemma serve_job:
  assumes "serve a t authenticate oidc ev r segs st = (rep, ck, st1)" and "rq_method r = ''POST''" and "post_route segs = Some rt"
    and "fc_jobs st1 \<noteq> fc_jobs st"
  shows "\<exists>s rep0 rows st0. handler a t ev r rt s (st\<lparr>cn_sessions := rows\<rparr>) = (rep0, st0) \<and> protected_state st1 = protected_state st0"
proof -
  obtain rep0 st0 where q: "require_role a ev (min_role rt) (handler a t ev r rt) r st = (rep0, st0)"
    by (cases "require_role a ev (min_role rt) (handler a t ev r rt) r st")
  have "audited a ev r (rep0, st0) = (rep, st1)"
    using assms(1-3) post_route_writes[OF assms(3)] q
    by (auto simp: serve_def route_of_def serve_route_def Let_def split: prod.splits)
  from audited_keeps(2)[OF this] assms(4) require_role_cases[OF q] show ?thesis by (auto simp: protected_state_def)
qed

text \<open>
  C5: Assigning a profile to a group reaches the group's devices.  When a POST to a group's
  profiles starts a reconciliation, the assignment is stored, and the steps of that reconciliation
  lead, once storage and APNs accept what is sent, to a state in which every enrolled device of the
  group has, for each profile assigned to the group, a deployment of the profile's current version:
  it had one before, or a command to install the bytes of that profile was put into the queue for
  that device.  Nothing else was put into the queue than installs of profiles that an enrolled
  device of the group was missing.
\<close>

theorem assignment_delivered:
  assumes "serve (sd_app d) (sd_tools d) (sd_authn d) (sd_oidc d) ev r segs st = (rep, ck, st1)"
    and "rq_method r = ''POST''" and "post_route segs = Some (GroupProfileChange i)" and "fc_jobs st1 \<noteq> fc_jobs st" and "fleet_ok (c_fleet (fc_core st))" and "channel_up envs"
    and "fl = c_fleet (fc_core st1)" and "live = {d_id dev | dev. dev \<in> set (f_devices fl) \<and> d_checked_out_at dev = None \<and> d_token_updated_at dev \<noteq> None}"
  shows "\<exists>g p st2 cs. parse_int i = ParsedInt g \<and> parse_int (post r ''profile_id'') = ParsedInt p \<and>
    (g, p) \<in> set (f_assigned fl) \<and> reaches d st1 st2 \<and>
    fc_core st2 = run_job None (\<lambda>_. None) envs (ReconcileGroup g) (fc_core st1) \<and>
    c_queue (fc_core st2) = c_queue (fc_core st1) @ cs \<and>
    (\<forall>dev q. dev \<in> live \<and> (g, dev) \<in> set (f_members fl) \<and> q \<in> set (f_profiles fl) \<and> (g, p_id q) \<in> set (f_assigned fl) \<longrightarrow>
       (\<exists>x. find_deploy dev (p_id q) (c_fleet (fc_core st2)) = Some x \<and> dp_version x = p_updated_at q) \<and>
       ((\<exists>x. find_deploy dev (p_id q) fl = Some x \<and> dp_version x = p_updated_at q) \<or>
        (\<exists>u. (dev, \<lparr>cmd_uuid = u, cmd_body = InstallProfile (p_data q)\<rparr>) \<in> set cs))) \<and>
    (\<forall>c\<in>set cs. \<exists>dev u q. c = (dev, \<lparr>cmd_uuid = u, cmd_body = InstallProfile (p_data q)\<rparr>) \<and>
       dev \<in> live \<and> (g, dev) \<in> set (f_members fl) \<and> q \<in> set (missing_profiles dev fl))"
proof -
  from serve_job[OF assms(1-4)] obtain rep0 rows st0 where
    h: "handle_group_profile_change (sd_app d) (sd_tools d) ev r i (st\<lparr>cn_sessions := rows\<rparr>) = (rep0, st0)"
    and p0: "protected_state st1 = protected_state st0" by auto
  from p0 assms(4) have "fc_jobs st0 \<noteq> fc_jobs (st\<lparr>cn_sessions := rows\<rparr>)" by (simp add: protected_state_def)
  from group_profile_job[OF h this] p0 obtain g p where
    gp: "parse_int i = ParsedInt g" "parse_int (post r ''profile_id'') = ParsedInt p"
      "(g, p) \<in> set (f_assigned (c_fleet (fc_core st1)))" "ReconcileGroup g \<in> set (fc_jobs st1)"
    by (auto simp: protected_state_def)
  have ok: "fleet_ok (c_fleet (fc_core st1))"
    using serve_evolves[OF assms(1)] fleet_run_ok[OF assms(5)] unfolding evolves_def by metis
  let ?st2 = "st1\<lparr>fc_core := run_job None (\<lambda>_. None) envs (ReconcileGroup g) (fc_core st1), fc_jobs := remove1 (ReconcileGroup g) (fc_jobs st1)\<rparr>"
  obtain ds where ds: "group_device_ids None g fl = Inr ds" "\<And>dev. dev \<in> set ds \<longleftrightarrow> dev \<in> live \<and> (g, dev) \<in> set (f_members fl)"
    unfolding assms(8) by (force simp: group_device_ids_def on_read_def)
  note job = ok assms(6) ds(1)[unfolded assms(7)]
  from group_job_installs[OF job] obtain cs where
    q: "c_queue (fc_core ?st2) = c_queue (fc_core st1) @ cs"
    and only: "\<forall>x\<in>set cs. \<exists>d\<in>set ds. \<exists>p\<in>set (missing_profiles d fl). \<exists>u. x = install_command d u (p_data p)"
    and every: "\<forall>d\<in>set ds. \<forall>p\<in>set (missing_profiles d fl). \<exists>u. install_command d u (p_data p) \<in> set cs"
    unfolding assms(7) by auto
  have m: "missing_profiles dev (c_fleet (fc_core ?st2)) = []" if "dev \<in> set ds" for dev
    using group_job_delivers[OF job, of dev] that by simp
  have kept: "f_members (c_fleet (fc_core ?st2)) = f_members fl" "f_assigned (c_fleet (fc_core ?st2)) = f_assigned fl"
    "f_profiles (c_fleet (fc_core ?st2)) = f_profiles fl"
    using reconcile_keeps(2)[of None "\<lambda>_. None" envs g "fc_core st1"] unfolding assms(7) by (simp_all add: catalog_def)
  have each: "(\<exists>x. find_deploy dev (p_id q) (c_fleet (fc_core ?st2)) = Some x \<and> dp_version x = p_updated_at q) \<and>
     ((\<exists>x. find_deploy dev (p_id q) fl = Some x \<and> dp_version x = p_updated_at q) \<or>
      (\<exists>u. (dev, \<lparr>cmd_uuid = u, cmd_body = InstallProfile (p_data q)\<rparr>) \<in> set cs))"
    if "dev \<in> live" "(g, dev) \<in> set (f_members fl)" "q \<in> set (f_profiles fl)" "(g, p_id q) \<in> set (f_assigned fl)" for dev q
  proof
    have "dev \<in> set ds" using that(1,2) ds(2) by blast
    then show "\<exists>x. find_deploy dev (p_id q) (c_fleet (fc_core ?st2)) = Some x \<and> dp_version x = p_updated_at q"
      using deployed_or_missing[of g dev "c_fleet (fc_core ?st2)" q] m[of dev] that unfolding kept by simp
    show "(\<exists>x. find_deploy dev (p_id q) fl = Some x \<and> dp_version x = p_updated_at q) \<or>
        (\<exists>u. (dev, \<lparr>cmd_uuid = u, cmd_body = InstallProfile (p_data q)\<rparr>) \<in> set cs)"
      using deployed_or_missing[OF that(2-4)] every \<open>dev \<in> set ds\<close> unfolding install_command_def by blast
  qed
  show ?thesis
  proof (rule exI[of _ g], rule exI[of _ p], rule exI[of _ ?st2], rule exI[of _ cs], intro conjI)
    show "parse_int i = ParsedInt g" "parse_int (post r ''profile_id'') = ParsedInt p" by (fact gp)+
    show "(g, p) \<in> set (f_assigned fl)" using gp(3) by (simp add: assms(7))
    show "reaches d st1 ?st2" by (rule job_reaches[OF gp(4)])
    show "c_queue (fc_core ?st2) = c_queue (fc_core st1) @ cs" by (rule q)
    show "\<forall>c\<in>set cs. \<exists>dev u q. c = (dev, \<lparr>cmd_uuid = u, cmd_body = InstallProfile (p_data q)\<rparr>) \<and>
        dev \<in> live \<and> (g, dev) \<in> set (f_members fl) \<and> q \<in> set (missing_profiles dev fl)"
    proof
      fix c assume "c \<in> set cs"
      with only obtain dev q u where c: "dev \<in> set ds" "q \<in> set (missing_profiles dev fl)" "c = install_command dev u (p_data q)"
        by blast
      with ds(2)[of dev] show "\<exists>dev u q. c = (dev, \<lparr>cmd_uuid = u, cmd_body = InstallProfile (p_data q)\<rparr>) \<and>
          dev \<in> live \<and> (g, dev) \<in> set (f_members fl) \<and> q \<in> set (missing_profiles dev fl)"
        unfolding install_command_def by blast
    qed
  qed (use each in \<open>simp_all\<close>)
qed

definition demo_device :: device_record where
  "demo_device = \<lparr>dr_id = ''D1'', dr_udid = ''D1'', dr_serial = [], dr_name = [], dr_model = [], dr_product = [],
     dr_os_version = [], dr_build_version = [], dr_topic = []\<rparr>"

definition demo_staff :: fleet_console where
  \<comment> \<open>a profile, a group and an enrolled member; nothing is assigned yet\<close>
  "demo_staff = demo_state\<lparr>fc_core := \<lparr>c_fleet = fleet_run
     [(0, None, SaveProfile demo_profile), (0, None, CreateGroup ''Staff'' []), (0, None, AddDevice 1 ''D1''),
      (0, None, CheckIn (DeviceEnrolled demo_device)), (0, None, CheckIn (DeviceTokenUpdated ''D1''))] empty_fleet, c_queue = []\<rparr>\<rparr>"

definition demo_assign :: request where
  "demo_assign = demo_post [(''csrf'', ''k''), (''profile_id'', ''1''), (''action'', ''assign'')]"

definition demo_assigned :: "reply \<times> cookies \<times> fleet_console" where
  "demo_assigned = serve (sd_app quiet_deps) (sd_tools quiet_deps) (sd_authn quiet_deps) (sd_oidc quiet_deps) demo_web_env demo_assign
    [''admin'', ''groups'', ''1'', ''profiles''] demo_staff"

lemma demo_assigned_core:
  "fc_jobs (snd (snd demo_assigned)) = [ReconcileGroup 1]"
  "f_members (c_fleet (fc_core (snd (snd demo_assigned)))) = [(1, ''D1'')]"
  "f_assigned (c_fleet (fc_core (snd (snd demo_assigned)))) = [(1, 1)]"
  "f_deploys (c_fleet (fc_core (snd (snd demo_assigned)))) = []"
  "map (\<lambda>q. (p_id q, p_data q)) (f_profiles (c_fleet (fc_core (snd (snd demo_assigned))))) = [(1, p_data demo_profile)]"
  by code_simp+

lemma demo_assigned_queue: "c_queue (fc_core (snd (snd demo_assigned))) = []"
  by code_simp

lemma demo_assigned_devices:
  "map (\<lambda>d. (d_id d, d_checked_out_at d, d_token_updated_at d)) (f_devices (c_fleet (fc_core (snd (snd demo_assigned))))) =
     [(''D1'', None, Some 0)]"
  by code_simp

theorem assignment_delivered_witness:
  "\<exists>st1 st2 u. c_queue (fc_core st1) = [] \<and> reaches quiet_deps st1 st2 \<and>
     (''D1'', \<lparr>cmd_uuid = u, cmd_body = InstallProfile (p_data demo_profile)\<rparr>) \<in> set (c_queue (fc_core st2))"
proof -
  obtain rep ck st1 where h: "demo_assigned = (rep, ck, st1)" by (cases demo_assigned)
  note c = demo_assigned_core[unfolded h, simplified] and ds = demo_assigned_devices[unfolded h, simplified]
  from ds obtain dev where dev: "f_devices (c_fleet (fc_core st1)) = [dev]" "d_id dev = ''D1''" "d_checked_out_at dev = None" "d_token_updated_at dev = Some 0"
    by (cases "f_devices (c_fleet (fc_core st1))") auto
  from c(5) obtain q where q: "f_profiles (c_fleet (fc_core st1)) = [q]" "p_id q = 1" "p_data q = p_data demo_profile"
    by (cases "f_profiles (c_fleet (fc_core st1))") auto
  have j: "fc_jobs st1 \<noteq> fc_jobs demo_staff" using c(1) by (simp add: demo_staff_def demo_state_def)
  have ok: "fleet_ok (c_fleet (fc_core demo_staff))" by (simp add: demo_staff_def fleet_run_ok empty_fleet_ok)
  have up: "channel_up (\<lambda>i p. (second, ok_env, None))" by (simp add: channel_up_def ok_env_def)
  have r: "post_route [''admin'', ''groups'', ''1'', ''profiles''] = Some (GroupProfileChange ''1'')" by (simp add: post_route_def)
  have "rq_method demo_assign = ''POST''" by (simp add: demo_assign_def demo_post_def demo_request_def)
  from assignment_delivered[OF h[unfolded demo_assigned_def] this r j ok up refl refl] obtain g st2 cs where
    g: "parse_int ''1'' = ParsedInt g" "reaches quiet_deps st1 st2" "c_queue (fc_core st2) = c_queue (fc_core st1) @ cs"
    "\<And>d p. d = ''D1'' \<Longrightarrow> p = q \<Longrightarrow> g = 1 \<Longrightarrow> (\<exists>x. find_deploy d (p_id p) (c_fleet (fc_core st1)) = Some x \<and> dp_version x = p_updated_at p) \<or>
        (\<exists>u. (d, \<lparr>cmd_uuid = u, cmd_body = InstallProfile (p_data p)\<rparr>) \<in> set cs)"
    unfolding c(2,3) dev(1) q(1) by (simp add: dev q(2)) metis
  have "parse_int ''1'' = ParsedInt 1" by code_simp
  with g(1) have "g = 1" by simp
  with g(4)[OF refl refl] c(4) q(3) have "\<exists>u. (''D1'', \<lparr>cmd_uuid = u, cmd_body = InstallProfile (p_data demo_profile)\<rparr>) \<in> set cs"
    by (simp add: find_deploy_def)
  moreover have "c_queue (fc_core st1) = []" using demo_assigned_queue by (simp add: h)
  ultimately show ?thesis using g(2,3) by (metis append_Nil)
qed

end
