(* ===== verification/Authority.thy ===== *)
theory Authority
  imports System Reconcile
begin

section \<open>What the running system may do\<close>

text \<open>
  The system as an administrator sees it, with an abstract machine of its own: enrollment links
  with their uses, the catalogue (profile library, groups, members, assignments), who is signed
  in, the commands in the queue and the reconciliations to come.  The machine knows no requests,
  rows, expiries or failures; \<open>may\<close> lists what can happen to each part and who must be signed in
  for it.
\<close>

subsection \<open>The abstract machine\<close>

type_synonym link = "int \<times> int \<times> bool"   \<comment> \<open>the most uses, the uses so far, whether it is revoked\<close>

record authority =
  at_links :: "string \<Rightarrow> link option"   \<comment> \<open>by the hash of the token\<close>
  at_catalog :: "profile list \<times> group_row list \<times> (int \<times> string) list \<times> (int \<times> int) list"
  at_logins :: "(string \<times> identity) set"
  at_queue :: "(string \<times> mdm_command) list"
  at_jobs :: "job list"

definition signed :: "role \<Rightarrow> authority \<Rightarrow> bool" where
  \<comment> \<open>someone of at least this role is signed in\<close>
  "signed lo s \<longleftrightarrow> (\<exists>h who. (h, who) \<in> at_logins s \<and> at_least (id_role who) lo)"

inductive may :: "authority \<Rightarrow> authority \<Rightarrow> bool" where
  SignIn: "(\<forall>who. (h, who) \<notin> at_logins s) \<Longrightarrow> may s (s\<lparr>at_logins := insert (h, who) (at_logins s)\<rparr>)"
| SignOut: "ls \<subseteq> at_logins s \<Longrightarrow> may s (s\<lparr>at_logins := ls\<rparr>)"
| Edit: "signed role_admin s \<Longrightarrow> may s (s\<lparr>at_catalog := c\<rparr>)"
| Plan: "signed role_admin s \<Longrightarrow> may s (s\<lparr>at_jobs := at_jobs s @ [j]\<rparr>)"
| Reach: "may s (s\<lparr>at_jobs := at_jobs s @ [ReconcileDevice i]\<rparr>)"
| Settle: "may s (s\<lparr>at_jobs := remove1 j (at_jobs s)\<rparr>)"
| Command: "signed role_operator s \<Longrightarrow> may s (s\<lparr>at_queue := at_queue s @ cs\<rparr>)"
| Deploy: "j \<in> set (at_jobs s) \<Longrightarrow> may s (s\<lparr>at_queue := at_queue s @ [(i, \<lparr>cmd_uuid = u, cmd_body = InstallProfile data\<rparr>)]\<rparr>)"
| Issue: "signed role_operator s \<Longrightarrow> at_links s h = None \<Longrightarrow> 1 \<le> m \<Longrightarrow> may s (s\<lparr>at_links := (at_links s)(h \<mapsto> (m, 0, False))\<rparr>)"
| Withdraw: "signed role_operator s \<Longrightarrow> at_links s h = Some (m, n, r) \<Longrightarrow> may s (s\<lparr>at_links := (at_links s)(h \<mapsto> (m, n, True))\<rparr>)"
| Redeem: "at_links s h = Some (m, n, False) \<Longrightarrow> n < m \<Longrightarrow> may s (s\<lparr>at_links := (at_links s)(h \<mapsto> (m, n + 1, False))\<rparr>)"

subsection \<open>The state the machine sees\<close>

definition link_of :: "grant_row \<Rightarrow> link" where
  "link_of g = (g_max_uses g, g_use_count g, g_revoked_at g \<noteq> None)"

definition links :: "grant_row list \<Rightarrow> string \<Rightarrow> link option" where
  "links rows h = map_option link_of (find_grant h rows)"

definition logins :: "session_row list \<Rightarrow> (string \<times> identity) set" where
  "logins rows = (\<lambda>r. (s_token r, row_identity r)) ` set rows"

definition library :: "fleet \<Rightarrow> profile list \<times> group_row list \<times> (int \<times> string) list \<times> (int \<times> int) list" where
  "library fl = (f_profiles fl, f_groups fl, f_members fl, f_assigned fl)"

definition seen :: "fleet_console \<Rightarrow> authority" where
  "seen st = \<lparr>at_links = links (fc_grants st), at_catalog = library (c_fleet (fc_core st)), at_logins = logins (cn_sessions st),
     at_queue = c_queue (fc_core st), at_jobs = fc_jobs st\<rparr>"

lemma seen_simps [simp]:
  "at_links (seen st) = links (fc_grants st)" "at_catalog (seen st) = library (c_fleet (fc_core st))"
  "at_logins (seen st) = logins (cn_sessions st)" "at_queue (seen st) = c_queue (fc_core st)" "at_jobs (seen st) = fc_jobs st"
  by (simp_all add: seen_def)

lemma seen_updates [simp]:
  "seen (st\<lparr>fc_grants := g\<rparr>) = (seen st)\<lparr>at_links := links g\<rparr>"
  "seen (st\<lparr>cn_sessions := rows\<rparr>) = (seen st)\<lparr>at_logins := logins rows\<rparr>"
  "seen (st\<lparr>fc_jobs := js\<rparr>) = (seen st)\<lparr>at_jobs := js\<rparr>"
  "seen (st\<lparr>fc_core := c\<rparr>) = (seen st)\<lparr>at_catalog := library (c_fleet c), at_queue := c_queue c\<rparr>"
  "seen (st\<lparr>cn_throttle := t\<rparr>) = seen st" "seen (st\<lparr>cn_audit := au\<rparr>) = seen st"
  by (simp_all add: seen_def)

lemma seen_unchanged [simp]:
  "(seen st)\<lparr>at_links := links (fc_grants st)\<rparr> = seen st"
  "(seen st)\<lparr>at_catalog := x, at_queue := c_queue (fc_core st)\<rparr> = (seen st)\<lparr>at_catalog := x\<rparr>"
  by (simp_all add: seen_def)

definition moves :: "fleet_console \<Rightarrow> fleet_console \<Rightarrow> bool" where
  \<comment> \<open>the machine follows, and the keys of the grants survive\<close>
  "moves st st' \<longleftrightarrow> (grants_ok (fc_grants st) \<longrightarrow> grants_ok (fc_grants st') \<and> rtranclp may (seen st) (seen st'))"

lemma moves_refl [simp, intro]: "moves st st" by (simp add: moves_def)

lemma moves_trans: "moves st1 st2 \<Longrightarrow> moves st2 st3 \<Longrightarrow> moves st1 st3"
  unfolding moves_def by (meson rtranclp_trans)

lemma moves_same: "seen st' = seen st \<Longrightarrow> fc_grants st' = fc_grants st \<Longrightarrow> moves st st'" by (simp add: moves_def)

lemma moves_one: "may (seen st) (seen st') \<Longrightarrow> fc_grants st' = fc_grants st \<Longrightarrow> moves st st'"
  by (auto simp: moves_def)

subsection \<open>Sessions\<close>

lemma logins_delete: "logins (delete_where p rows) \<subseteq> logins rows" by (auto simp: logins_def delete_where_def)

lemma logins_renew [simp]: "logins (update_where p (\<lambda>r. r\<lparr>s_expires := e\<rparr>) rows) = logins rows"
  by (induction rows) (auto simp: logins_def update_where_def row_identity_def)

lemma find_logins: "List.find p rows = Some r \<Longrightarrow> (s_token r, row_identity r) \<in> logins rows"
  by (auto simp: logins_def dest!: find_SomeD)

lemma current_session_logins:
  assumes "current_session a ev k r rows = (x, rows')"
  shows "logins rows' \<subseteq> logins rows" and "x = Some s \<Longrightarrow> logins rows' = logins rows \<and> (\<exists>h. (h, ses_identity s) \<in> logins rows)"
  using assms logins_delete
  by (auto simp: current_session_def get_session_def delete_session_def Let_def
      dest!: find_logins split: option.splits prod.splits sum.splits if_splits)

lemma current_session_moves: "current_session a ev k r (cn_sessions st) = (x, rows) \<Longrightarrow> moves st (st\<lparr>cn_sessions := rows\<rparr>)"
  by (rule moves_one) (simp_all add: SignOut current_session_logins(1))

lemma delete_moves: "moves st (st\<lparr>cn_sessions := delete_where p (cn_sessions st)\<rparr>)"
  by (rule moves_one) (simp_all add: SignOut logins_delete)

lemma check_csrf_logins:
  assumes "check_csrf a ev r rows = (b, rows')"
  shows "logins rows' \<subseteq> logins rows" and "b \<Longrightarrow> logins rows' = logins rows"
  using assms current_session_logins[of a ev "''csrf''" r rows]
  by (auto simp: check_csrf_def split: prod.splits option.splits)

lemma create_moves:
  "moves st (st\<lparr>cn_sessions := snd (create_session sha sto ft now r1 r2 ident (cn_sessions st))\<rparr>)"
proof (cases "snd (create_session sha sto ft now r1 r2 ident (cn_sessions st)) = cn_sessions st")
  case False
  then obtain row where row: "snd (create_session sha sto ft now r1 r2 ident (cn_sessions st)) = cn_sessions st @ [row]"
    "s_token row \<notin> s_token ` set (cn_sessions st)"
    by (auto simp: create_session_def Let_def split: option.splits if_splits)
  have "logins (cn_sessions st @ [row]) = insert (s_token row, row_identity row) (logins (cn_sessions st))"
    by (auto simp: logins_def)
  moreover have "\<forall>who. (s_token row, who) \<notin> at_logins (seen st)" using row(2) by (auto simp: logins_def)
  ultimately show ?thesis using row(1) SignIn[of "s_token row" "seen st" "row_identity row"] by (intro moves_one) simp_all
qed simp

subsection \<open>Links\<close>

lemma grants_move:
  assumes "grants_ok (fc_grants st) \<Longrightarrow> grants_ok rows \<and> (links rows = links (fc_grants st) \<or> may (seen st) (seen (st\<lparr>fc_grants := rows\<rparr>)))"
  shows "moves st (st\<lparr>fc_grants := rows\<rparr>)"
proof -
  have "seen (st\<lparr>fc_grants := rows\<rparr>) = seen st" if "links rows = links (fc_grants st)" using that by (simp add: seen_def)
  with assms show ?thesis unfolding moves_def by (cases "links rows = links (fc_grants st)") auto
qed

lemma links_update:
  assumes "\<And>g. g_token_hash (f g) = g_token_hash g" and "find_grant h rows = Some g" and "p g"
    and "\<And>x. x \<in> set rows \<Longrightarrow> p x \<Longrightarrow> g_token_hash x = h"
  shows "links (update_where p f rows) = (links rows)(h \<mapsto> link_of (f g))"
proof
  fix k
  have "\<not> p x" if "find_grant k rows = Some x" "k \<noteq> h" for x
    using that assms(4) by (auto simp: find_grant_def dest!: find_SomeD)
  with assms(2,3) show "links (update_where p f rows) k = ((links rows)(h \<mapsto> link_of (f g))) k"
    unfolding links_def find_grant_update[OF assms(1)] by (cases "find_grant k rows") auto
qed

lemma create_grant_moves:
  assumes "on_grants (create_grant ft now (g :: grant) k) st = (x, st1)" and "signed role_operator (seen st)"
  shows "moves st st1"
proof -
  have st1: "st1 = st\<lparr>fc_grants := snd (create_grant ft now g k (fc_grants st))\<rparr>"
    using assms(1) by (auto simp: on_grants_def split: prod.splits)
  show ?thesis unfolding st1
  proof (rule grants_move)
    assume ok: "grants_ok (fc_grants st)"
    let ?rows = "fc_grants st"
    from create_grant_rows[of ft now g k ?rows]
    have "links (snd (create_grant ft now g k ?rows)) = links ?rows \<or>
        links ?rows k = None \<and> links (snd (create_grant ft now g k ?rows)) = (links ?rows)(k \<mapsto> (normal_uses (g_max_uses g), 0, False))"
    proof (elim disjE conjE exE)
      fix new assume k: "k \<notin> g_token_hash ` set ?rows" and new: "snd (create_grant ft now g k ?rows) = ?rows @ [new]"
        "g_token_hash new = k" "g_use_count new = 0" "g_max_uses new = normal_uses (g_max_uses g)"
      have "g_revoked_at new = None" using new(1) by (auto simp: create_grant_def Let_def split: option.splits if_splits)
      then show ?thesis using k new find_grant_absent[OF k]
        by (auto simp: links_def fun_eq_iff find_grant_snoc link_of_def)
    qed simp
    then show "grants_ok (snd (create_grant ft now g k ?rows)) \<and> (links (snd (create_grant ft now g k ?rows)) = links ?rows \<or>
        may (seen st) (seen (st\<lparr>fc_grants := snd (create_grant ft now g k ?rows)\<rparr>)))"
      using create_grants_ok[OF ok] Issue[OF assms(2), of k "normal_uses (g_max_uses g)"] normal_uses_pos by auto
  qed
qed

lemma revoke_grant_moves:
  assumes "on_grants (revoke_grant ft ft2 now i) st = (x, st1)" and "signed role_operator (seen st)"
  shows "moves st st1"
proof -
  have st1: "st1 = st\<lparr>fc_grants := snd (revoke_grant ft ft2 now i (fc_grants st))\<rparr>"
    using assms(1) by (auto simp: on_grants_def split: prod.splits)
  let ?rows = "fc_grants st"
  let ?f = "\<lambda>g. g\<lparr>g_revoked_at := Some (to_secs now)\<rparr>"
  show ?thesis unfolding st1
  proof (rule grants_move)
    assume ok: "grants_ok ?rows"
    have "links (snd (revoke_grant ft ft2 now i ?rows)) = links ?rows \<or>
        (\<exists>h m n. links ?rows h = Some (m, n, False) \<and> links (snd (revoke_grant ft ft2 now i ?rows)) = (links ?rows)(h \<mapsto> (m, n, True)))"
    proof (cases "ft = None \<and> (\<exists>g\<in>set ?rows. live_id i g)")
      case True
      then obtain g where g: "g \<in> set ?rows" "live_id i g" by blast
      have f: "find_grant (g_token_hash g) ?rows = Some g"
        using ok g(1) unfolding find_grant_def by (auto simp: grants_ok_def find_Some_iff_unique)
      have "x = g" if "x \<in> set ?rows" "live_id i x" for x
        using that g ok by (auto simp: live_id_def grants_ok_def distinct_map inj_on_def)
      then have "links (update_where (live_id i) ?f ?rows) = (links ?rows)(g_token_hash g \<mapsto> link_of (?f g))"
        by (intro links_update f g(2)) auto
      moreover have "links ?rows (g_token_hash g) = Some (g_max_uses g, g_use_count g, False)"
        using f g(2) by (simp add: links_def link_of_def live_id_def)
      ultimately show ?thesis using True by (force simp: revoke_grant_def link_of_def)
    next
      case False
      then have "snd (revoke_grant ft ft2 now i ?rows) = ?rows"
        by (cases ft) (auto simp: revoke_grant_def update_where_def intro!: map_idI)
      then show ?thesis by simp
    qed
    then show "grants_ok (snd (revoke_grant ft ft2 now i ?rows)) \<and> (links (snd (revoke_grant ft ft2 now i ?rows)) = links ?rows \<or>
        may (seen st) (seen (st\<lparr>fc_grants := snd (revoke_grant ft ft2 now i ?rows)\<rparr>)))"
    proof (elim disjE exE conjE)
      fix h m n assume l: "links ?rows h = Some (m, n, False)" "links (snd (revoke_grant ft ft2 now i ?rows)) = (links ?rows)(h \<mapsto> (m, n, True))"
      have "may (seen st) (seen st\<lparr>at_links := (links ?rows)(h \<mapsto> (m, n, True))\<rparr>)"
        using Withdraw[OF assms(2), of h m n False] l(1) by simp
      with revoke_grants_ok[OF ok] l(2) show ?thesis by simp
    qed (use revoke_grants_ok[OF ok] in simp)
  qed
qed

lemma redeem_moves: "moves st (st\<lparr>fc_grants := snd (redeem_grant sha ft now raw (fc_grants st))\<rparr>)"
proof (rule grants_move)
  assume ok: "grants_ok (fc_grants st)"
  let ?rows = "fc_grants st" and ?h = "hash_grant_token sha raw"
  obtain x rows' where r: "redeem_grant sha ft now raw ?rows = (x, rows')" by fastforce
  show "grants_ok (snd (redeem_grant sha ft now raw ?rows)) \<and> (links (snd (redeem_grant sha ft now raw ?rows)) = links ?rows \<or>
      may (seen st) (seen (st\<lparr>fc_grants := snd (redeem_grant sha ft now raw ?rows)\<rparr>)))"
  proof (cases x)
    case (Inl e)
    with r ok redeem_failure show ?thesis by fastforce
  next
    case (Inr y)
    from redeem_success[OF ok r[unfolded Inr]] obtain g where g: "find_grant ?h ?rows = Some g" "redeemable (to_secs now) g"
      "rows' = update_where (\<lambda>x. g_token_hash x = ?h \<and> redeemable (to_secs now) x) (consume (to_secs now)) ?rows" by blast
    have l: "links rows' = (links ?rows)(?h \<mapsto> link_of (consume (to_secs now) g))"
      unfolding g(3) using g(1,2) find_grant_hash[OF g(1)] by (intro links_update) auto
    have "may (seen st) (seen st\<lparr>at_links := (at_links (seen st))(?h \<mapsto> (g_max_uses g, g_use_count g + 1, False))\<rparr>)"
      using g(1,2) by (intro Redeem) (auto simp: links_def link_of_def redeemable_def)
    moreover have "link_of (consume (to_secs now) g) = (g_max_uses g, g_use_count g + 1, False)"
      using g(2) by (simp add: link_of_def redeemable_def)
    ultimately show ?thesis using redeem_grants_ok[OF ok, of sha ft now raw] r l by simp
  qed
qed

subsection \<open>The fleet, the queue and the jobs\<close>

lemma signed_logins: "at_logins s' = at_logins s \<Longrightarrow> signed lo s' = signed lo s"
  by (simp add: signed_def)

lemma on_fleet_moves:
  assumes "on_fleet f st = (x, st1)" and "signed role_admin (seen st)"
  shows "moves st st1"
proof -
  obtain fl where "st1 = st\<lparr>fc_core := (fc_core st)\<lparr>c_fleet := fl\<rparr>\<rparr>"
    using assms(1) by (auto simp: on_fleet_def on_core_def split: prod.splits)
  with Edit[OF assms(2), of "library fl"] show ?thesis by (intro moves_one) simp_all
qed

lemma start_job_moves:
  assumes "on_fleet f st = (x, st1)" and "signed role_admin (seen st)"
  shows "moves st (start_job t j st1)"
proof -
  have "at_logins (seen st1) = at_logins (seen st)"
    using assms(1) by (auto simp: on_fleet_def on_core_def split: prod.splits)
  with assms(2) have "signed role_admin (seen st1)" by (simp add: signed_def)
  then have "moves st1 (start_job t j st1)"
    using Plan[of "seen st1" j] by (auto simp: start_job_def intro: moves_one)
  with on_fleet_moves[OF assms] show ?thesis by (rule moves_trans)
qed

lemma library_catalog: "catalog fl' = catalog fl \<Longrightarrow> library fl' = library fl"
  by (simp add: catalog_def library_def)

lemma send_command_queue:
  "\<exists>cs. c_queue (snd (send_command env now ids body c)) = c_queue c @ cs \<and>
     (\<forall>y\<in>set cs. cmd_body (snd y) = body) \<and> (\<forall>i. ids = [i] \<longrightarrow> cs = [] \<or> (\<exists>cmd. cs = [(i, cmd)]))"
  by (auto simp: send_command_def build_command_def commander_enqueue_def enqueue_push_def record_sent_queue(1) Let_def split: option.split)

lemma send_moves:
  assumes "on_core (send_command env now ids body) st = (x, st1)" and "signed role_operator (seen st)"
  shows "moves st st1"
proof -
  let ?c = "snd (send_command env now ids body (fc_core st))"
  have st1: "st1 = st\<lparr>fc_core := ?c\<rparr>" using assms(1) by (auto simp: on_core_def split: prod.splits)
  obtain cs where "c_queue ?c = c_queue (fc_core st) @ cs" using send_command_queue[of env now ids body "fc_core st"] by blast
  with Command[OF assms(2), of cs] library_catalog[OF catalog_send_command[of env now ids body "fc_core st"]]
  show ?thesis unfolding st1 by (intro moves_one) (simp_all add: seen_def)
qed

lemma sends_move:
  "on_core (send_install_profile env now data ids) st = (x, st1) \<Longrightarrow> signed role_operator (seen st) \<Longrightarrow> moves st st1"
  "on_core (send_remove_profile env now ident ids) st = (x, st1) \<Longrightarrow> signed role_operator (seen st) \<Longrightarrow> moves st st1"
  "on_core (send_device_information env now ids) st = (x, st1) \<Longrightarrow> signed role_operator (seen st) \<Longrightarrow> moves st st1"
  by (auto simp: send_install_profile_def[abs_def] send_remove_profile_def[abs_def] send_device_information_def[abs_def] intro: send_moves)

subsection \<open>The console\<close>

definition confined :: "role \<Rightarrow> (fleet_console \<Rightarrow> reply \<times> fleet_console) \<Rightarrow> bool" where
  \<comment> \<open>who of this role is signed in may do what \<open>h\<close> does\<close>
  "confined lo h \<longleftrightarrow> (\<forall>st. signed lo (seen st) \<longrightarrow> moves st (snd (h st)))"

lemma csrf_guard_confined:
  assumes "\<And>st. signed lo (seen st) \<Longrightarrow> moves st (snd (h st))"
  shows "confined lo (csrf_guard a ev r h)"
  unfolding confined_def
proof (intro allI impI)
  fix st assume s: "signed lo (seen st)"
  obtain b rows where k: "check_csrf a ev r (cn_sessions st) = (b, rows)" by (cases "check_csrf a ev r (cn_sessions st)")
  note l = check_csrf_logins[OF k]
  have 1: "moves st (st\<lparr>cn_sessions := rows\<rparr>)" using SignOut[of "logins rows" "seen st"] l(1) by (intro moves_one) simp_all
  have "moves (st\<lparr>cn_sessions := rows\<rparr>) (snd (h (st\<lparr>cn_sessions := rows\<rparr>)))" if b
    using s l(2)[OF that] by (intro assms) (simp add: signed_def)
  with 1 k show "moves st (snd (csrf_guard a ev r h st))" by (cases b) (auto simp: csrf_guard_def intro: moves_trans)
qed

lemma confined_if [intro!]: "confined lo h1 \<Longrightarrow> confined lo h2 \<Longrightarrow> confined lo (\<lambda>st. if b then h1 st else h2 st)"
  by (simp add: confined_def)

lemma confined_reply [intro!, simp]: "confined lo (\<lambda>st. (rep, st))"
  by (simp add: confined_def)

lemma save_built_moves: "signed role_admin (seen st) \<Longrightarrow> moves st (snd (save_built_profile t ev prof source back st))"
  by (auto simp: save_built_profile_def intro: on_fleet_moves split: sum.splits prod.splits)

lemma device_handlers_confined:
  "confined role_operator (handle_device_refresh a t ev r i)"
  "confined role_operator (handle_device_install a t ev r i)"
  "confined role_operator (handle_device_remove a t ev r i)"
  "confined role_operator (handle_grant_create a ev r s)"
  "confined role_operator (handle_grant_revoke a ev r i)"
  by (auto simp: handle_device_refresh_def[abs_def] handle_device_install_def[abs_def] handle_device_remove_def[abs_def]
      handle_grant_create_def[abs_def] handle_grant_revoke_def[abs_def] Let_def
      intro!: csrf_guard_confined split: sum.splits prod.splits parsed.splits
      intro: sends_move create_grant_moves revoke_grant_moves)

lemma library_handlers_confined:
  "confined role_admin (handle_profile_upload a t ev r)"
  "confined role_admin (handle_profile_delete a ev r i)"
  "confined role_admin (handle_builder_wifi a t ev r)"
  "confined role_admin (handle_builder_sso a t ev r)"
  by (auto simp: handle_profile_upload_def[abs_def] handle_profile_delete_def[abs_def] handle_builder_wifi_def[abs_def]
      handle_builder_sso_def[abs_def] Let_def save_built_moves
      intro!: csrf_guard_confined split: sum.splits prod.splits option.splits upload.splits intro: on_fleet_moves)

lemma group_handlers_confined:
  "confined role_admin (handle_group_create a ev r)"
  "confined role_admin (handle_group_delete a ev r i)"
  "confined role_admin (handle_group_device_change a t ev r i)"
  "confined role_admin (handle_group_profile_change a t ev r i)"
  by (auto simp: handle_group_create_def[abs_def] handle_group_delete_def[abs_def] handle_group_device_change_def[abs_def]
      handle_group_profile_change_def[abs_def] Let_def
      intro!: csrf_guard_confined split: sum.splits prod.splits option.splits parsed.splits intro: on_fleet_moves start_job_moves)

lemma handler_confined: "confined (min_role rt) (handler a t ev r rt s)"
  using device_handlers_confined library_handlers_confined group_handlers_confined
  by (cases rt) (simp_all add: confined_def download_keeps)

lemma audited_moves: "moves st (snd (audited a ev r (rep, st)))"
proof -
  obtain x rows where c: "current_session a ev ''audit'' r (cn_sessions st) = (x, rows)"
    by (cases "current_session a ev ''audit'' r (cn_sessions st)")
  have "moves (st\<lparr>cn_sessions := rows\<rparr>) (st\<lparr>cn_sessions := rows, cn_audit := au\<rparr>)" for au by (rule moves_same) simp_all
  from moves_trans[OF current_session_moves[OF c] this] show ?thesis by (simp add: audited_def c)
qed

lemma audited_after_moves: "moves st (snd res) \<Longrightarrow> moves st (snd (audited a ev r res))"
  by (metis audited_moves moves_trans prod.collapse)

lemma serve_route_moves: "moves st (snd (serve_route a t ev r rt st))"
proof -
  obtain x rows where c: "current_session a ev ''session'' r (cn_sessions st) = (x, rows)"
    by (cases "current_session a ev ''session'' r (cn_sessions st)")
  note 1 = current_session_moves[OF c]
  have "moves st (snd (require_role a ev (min_role rt) (handler a t ev r rt) r st))"
  proof (cases "\<exists>s. x = Some s \<and> at_least (id_role (ses_identity s)) (min_role rt)")
    case True
    then obtain s where s: "x = Some s" "at_least (id_role (ses_identity s)) (min_role rt)" by blast
    from current_session_logins(2)[OF c s(1)] s(2) have "signed (min_role rt) (seen (st\<lparr>cn_sessions := rows\<rparr>))"
      by (auto simp: signed_def)
    with handler_confined[of rt a t ev r s] have "moves (st\<lparr>cn_sessions := rows\<rparr>) (snd (handler a t ev r rt s (st\<lparr>cn_sessions := rows\<rparr>)))"
      by (simp add: confined_def)
    with 1 c s show ?thesis by (auto simp: require_role_def intro: moves_trans)
  next
    case False
    with 1 c show ?thesis by (auto simp: require_role_def split: option.split)
  qed
  then show ?thesis by (auto simp: serve_route_def Let_def intro: audited_after_moves)
qed

lemma start_session_moves: "moves st (snd (snd (start_session a ev ident st)))"
  using create_moves[of st "ap_sha a" "ap_store a" "ev_fault ev ''create''" "ev_at ev ''create''" "ev_rnd ev ''token''" "ev_rnd ev ''csrf''" ident]
  by (auto simp: start_session_def split: prod.splits sum.splits)

lemma moves_throttle: "moves (st\<lparr>cn_throttle := t\<rparr>) st' \<Longrightarrow> moves st st'"
  by (rule moves_trans[OF moves_same]) simp_all

lemma sign_in_moves:
  "moves st (snd (snd (handle_login_form a ev r st)))"
  "moves st (snd (snd (handle_login a authn ev r st)))"
  "moves st (snd (snd (handle_oidc_login a oidc ev r st)))"
  "moves st (snd (snd (handle_oidc_callback a oidc ev r st)))"
  by (auto simp: handle_login_form_def handle_login_def handle_oidc_login_def handle_oidc_callback_def Let_def
      split: prod.splits sum.splits option.splits intro: current_session_moves moves_same
      intro: moves_throttle[OF start_session_moves])
    (metis start_session_moves snd_conv)

lemma logout_moves: "moves st (snd (snd (handle_logout a ev r st)))"
proof (cases "map_of (rq_cookies r) session_cookie")
  case None
  then show ?thesis by (simp add: handle_logout_def)
next
  case (Some c)
  obtain b rows where k: "check_csrf a ev r (cn_sessions st) = (b, rows)" by (cases "check_csrf a ev r (cn_sessions st)")
  have d: "logins (snd (delete_session (ap_sha a) (ev_fault ev ''logout'') c rows)) \<subseteq> logins rows"
    using logins_delete by (auto simp: delete_session_def split: option.splits)
  have "logins rows \<subseteq> at_logins (seen st)" using check_csrf_logins(1)[OF k] by simp
  from SignOut[OF this] SignOut[OF order_trans[OF d this]] Some k show ?thesis
    by (cases b) (simp_all add: handle_logout_def moves_one)
qed

lemma serve_moves:
  assumes "serve a t authenticate oidc ev r segs st = (rep, ck, st')"
  shows "moves st st'"
proof -
  have "moves st (snd (snd (serve a t authenticate oidc ev r segs st)))"
  proof (cases "route_of (rq_method r) segs")
    case None
    then show ?thesis by (simp add: serve_def Let_def split_beta sign_in_moves logout_moves audited_after_moves)
  next
    case (Some rt)
    then show ?thesis by (simp add: serve_def Let_def split_beta serve_route_moves)
  qed
  with assms show ?thesis by simp
qed

lemma serve_own_moves: "moves st (snd (serve_own d ee ev p segs st))"
proof -
  have "moves st (st\<lparr>fc_grants := fc_grants st\<rparr>)" by simp
  with redeem_moves show ?thesis
    by (auto simp: serve_own_def enroll_grants_def serve_grant_def split: option.splits prod.splits sum.splits)
      (metis snd_conv)+
qed

lemma request_moves:
  assumes "serve_http d ee ev tls proto r st = (logs, w, st')" and "sd_mdm d = None \<or> rq_path r \<noteq> sd_mdm_path d"
  shows "moves st st'"
proof -
  from serve_http_dispatch[OF assms(1)] obtain b where "dispatch d ee ev r st = (b, st')" by blast
  with assms(2) show ?thesis using serve_own_moves[where d = d and st = st and ee = ee and ev = ev and p = "rq_path r" and segs = "path_segs (rq_path r)"]
    by (auto simp: dispatch_def Let_def split: if_splits option.splits bool.splits prod.splits intro: serve_moves)
qed

subsection \<open>Check-ins, jobs and purges\<close>

lemma devices_alone:
  "library (c_fleet (with_devices on f c)) = library (c_fleet c)" "c_queue (with_devices on f c) = c_queue c"
  by (simp_all add: with_devices_def library_def)

lemma events_alone:
  "on_authenticate decode pj inner now i am c = (ru, c') \<Longrightarrow> library (c_fleet c') = library (c_fleet c) \<and> c_queue c' = c_queue c"
  "on_token_update pj inner now i c = (ru, c', hook) \<Longrightarrow> library (c_fleet c') = library (c_fleet c) \<and> c_queue c' = c_queue c"
  "on_check_out pj inner now i c = (ru, c') \<Longrightarrow> library (c_fleet c') = library (c_fleet c) \<and> c_queue c' = c_queue c"
  by (auto simp: on_authenticate_def on_token_update_def on_check_out_def devices_alone split: option.splits)

lemma results_alone:
  assumes "on_command_results decode pj inner now i m c = (rc, c')"
  shows "library (c_fleet c') = library (c_fleet c) \<and> c_queue c' = c_queue c"
proof -
  have "library (snd (command_result ft ft2 now i u s e fl)) = library fl" for ft ft2 u s e fl
    by (simp add: command_result_def library_def Let_def split: option.split)
  with assms show ?thesis
    by (auto simp: on_command_results_def Let_def devices_alone split: sum.splits option.splits if_splits)
qed

lemma core_alone:
  "library (c_fleet c) = library (c_fleet (fc_core st)) \<and> c_queue c = c_queue (fc_core st) \<Longrightarrow> seen (st\<lparr>fc_core := c\<rparr>) = seen st"
  by (simp add: seen_def)

lemma step_moves: "system_step d st st' \<Longrightarrow> moves st st'"
proof (induction rule: system_step.induct)
  case (Request r ee ev tls proto st logs w st')
  then show ?case by (intro request_moves)
next
  case (Enrolled decode pj inner now i m st ru c)
  from core_alone[OF events_alone(1)[OF Enrolled]] show ?case by (intro moves_same) simp_all
next
  case (Pushable pj inner now i st ru c hook)
  have "moves st (st\<lparr>fc_core := c\<rparr>)" using core_alone[OF events_alone(2)[OF Pushable]] by (intro moves_same) simp_all
  moreover have "moves (st\<lparr>fc_core := c\<rparr>) (st\<lparr>fc_core := c, fc_jobs := fc_jobs st @ (case hook of None \<Rightarrow> [] | Some i \<Rightarrow> [ReconcileDevice i])\<rparr>)"
    using Reach[of "seen (st\<lparr>fc_core := c\<rparr>)"] by (cases hook) (auto intro: moves_one moves_same)
  ultimately show ?case by (rule moves_trans)
next
  case (LeftMdm pj inner now i st ru c)
  from core_alone[OF events_alone(3)[OF LeftMdm]] show ?case by (intro moves_same) simp_all
next
  case (Reported decode pj inner now i m st rc c)
  from core_alone[OF results_alone[OF Reported]] show ?case by (intro moves_same) simp_all
next
  case (Send j st env now data i)
  let ?c = "snd (send_install_profile_uuid env now data i (fc_core st))"
  obtain cs where cs: "c_queue ?c = c_queue (fc_core st) @ cs" "\<forall>y\<in>set cs. cmd_body (snd y) = InstallProfile data"
    "cs = [] \<or> (\<exists>cmd. cs = [(i, cmd)])"
    using send_command_queue[of env now "[i]" "InstallProfile data" "fc_core st"] by (auto simp: send_install_profile_uuid_def)
  have l: "library (c_fleet ?c) = library (c_fleet (fc_core st))" by (rule library_catalog) simp
  show ?case
  proof (cases cs)
    case Nil
    with cs(1) l core_alone[of ?c st] show ?thesis by (intro moves_same) simp_all
  next
    case (Cons y ys)
    with cs(2,3) obtain u where u: "cs = [(i, \<lparr>cmd_uuid = u, cmd_body = InstallProfile data\<rparr>)]" by (cases "snd y") auto
    have "seen (st\<lparr>fc_core := ?c\<rparr>) = seen st\<lparr>at_queue := at_queue (seen st) @ cs\<rparr>" using cs(1) l by (simp add: seen_def)
    with Deploy[of j "seen st" i u data] Send u show ?thesis by (intro moves_one) simp_all
  qed
next
  case (Mark j st ft now i p u v)
  have "library (c_fleet (core_mark ft now i p u v (fc_core st))) = library (c_fleet (fc_core st))" by (rule library_catalog) simp
  with core_alone[of "core_mark ft now i p u v (fc_core st)" st] show ?case by (intro moves_same) (simp_all add: core_mark_def)
next
  case (Settled j st)
  show ?case using Settle[of "seen st" j] by (intro moves_one) simp_all
next
  case (Purged st ft now)
  show ?case using delete_moves by (cases ft) (simp_all add: delete_expired_def)
next
  case (Revoked st ft u)
  show ?case using delete_moves by (cases ft) (simp_all add: delete_by_username_def)
qed



end
