(* ===== verification/CertAuth.thy ===== *)
theory CertAuth
  imports Prelude
begin

section \<open>The embedded certificate authority\<close>

text \<open>
  \<open>internal/ca\<close>: the CA that is generated or imported on the first start and loaded on every
  later one (\<open>ca.go\<close>), the depot behind the SCEP signer (\<open>depot.go\<close>) and the trust anchors of an
  external CA (\<open>anchors.go\<close>).  PEM, X.509 and RSA are parameters: \<open>cr_pem\<close> is \<open>pem.Decode\<close> (the
  first block, its type and bytes, and the rest), a parsed certificate is what the code reads
  of it.  The table \<open>ca\<close> has one row at most (\<open>CHECK (id = 1)\<close>).
\<close>

record cert =
  ct_raw :: string
  ct_is_ca :: bool
  ct_common_name :: string
  ct_serial :: int
  ct_not_before :: nanos
  ct_not_after :: nanos

record 'k crypto =
  cr_pem :: "string \<Rightarrow> ((string \<times> string) \<times> string) option"
  cr_encode :: "string \<Rightarrow> string \<Rightarrow> string"
  cr_parse :: "string \<Rightarrow> string + cert"
  cr_pkcs1 :: "string \<Rightarrow> string + 'k"
  cr_pkcs8 :: "string \<Rightarrow> string + 'k option"  \<comment> \<open>\<open>None\<close>: a key that is not RSA\<close>
  cr_marshal :: "'k \<Rightarrow> string"

record ca_options =
  co_common_name :: string
  co_organization :: string
  co_key_bits :: int
  co_years :: int
  co_import_cert :: string
  co_import_key :: string
  co_leaf_days :: int
  co_renewal_days :: int
  co_challenge :: string

record 'k ca_env =
  ce_load :: fault
  ce_generate :: "int \<Rightarrow> string + 'k"
  ce_self_sign :: "string \<Rightarrow> string \<Rightarrow> int \<Rightarrow> 'k \<Rightarrow> string + string"  \<comment> \<open>name, organization, years; the DER\<close>
  ce_persist :: fault

record 'k authority =
  au_cert :: cert
  au_key :: 'k
  au_options :: ca_options

datatype ca_err = CaNoRows | CaErr string

type_synonym ca_table = "(string \<times> string) option"
  \<comment> \<open>\<open>cert_pem\<close> and \<open>key_pem\<close> of the row\<close>

definition ca_defaults :: "ca_options \<Rightarrow> ca_options" where
  "ca_defaults c = c\<lparr>co_key_bits := (if co_key_bits c = 0 then 4096 else co_key_bits c),
     co_years := (if co_years c = 0 then 10 else co_years c),
     co_leaf_days := (if co_leaf_days c = 0 then 365 else co_leaf_days c),
     co_renewal_days := (if co_renewal_days c = 0 then 14 else co_renewal_days c)\<rparr>"

definition load_ca :: "'k crypto \<Rightarrow> fault \<Rightarrow> ca_table \<Rightarrow> ca_err + cert \<times> 'k" where
  "load_ca lib ft tbl =
     (case ft of
        Some e \<Rightarrow> Inl (CaErr e)
      | None \<Rightarrow>
     (case tbl of
        None \<Rightarrow> Inl CaNoRows
      | Some (cert_pem, key_pem) \<Rightarrow>
     (case (cr_pem lib cert_pem, cr_pem lib key_pem) of
        (Some ((_, cb), _), Some ((_, kb), _)) \<Rightarrow>
          (case cr_parse lib cb of
             Inl e \<Rightarrow> Inl (CaErr (''ca: parse stored cert: '' @ e))
           | Inr c \<Rightarrow>
             (case cr_pkcs1 lib kb of
                Inl e \<Rightarrow> Inl (CaErr (''ca: parse stored key: '' @ e))
              | Inr k \<Rightarrow> Inr (c, k)))
      | _ \<Rightarrow> Inl (CaErr ''ca: stored CA PEM is malformed''))))"

definition insert_ca :: "'k crypto \<Rightarrow> fault \<Rightarrow> string \<Rightarrow> string \<Rightarrow> 'k \<Rightarrow> ca_table \<Rightarrow> (string + unit) \<times> ca_table" where
  "insert_ca lib ft what der k tbl =
     (case ft of
        Some e \<Rightarrow> (Inl (what @ e), tbl)
      | None \<Rightarrow>
     (case tbl of
        Some r \<Rightarrow> (Inl (what @ ''UNIQUE constraint failed''), tbl)
      | None \<Rightarrow> (Inr (), Some (cr_encode lib ''CERTIFICATE'' der, cr_encode lib ''RSA PRIVATE KEY'' (cr_marshal lib k)))))"

definition generate_ca :: "'k crypto \<Rightarrow> 'k ca_env \<Rightarrow> ca_options \<Rightarrow> ca_table \<Rightarrow> (ca_err + cert \<times> 'k) \<times> ca_table" where
  "generate_ca lib ev opts tbl =
     (case ce_generate ev (co_key_bits opts) of
        Inl e \<Rightarrow> (Inl (CaErr (''ca: generate key: '' @ e)), tbl)
      | Inr k \<Rightarrow>
     (case ce_self_sign ev (co_common_name opts) (co_organization opts) (co_years opts) k of
        Inl e \<Rightarrow> (Inl (CaErr (''ca: self-sign: '' @ e)), tbl)
      | Inr der \<Rightarrow>
     (case cr_parse lib der of
        Inl e \<Rightarrow> (Inl (CaErr (''ca: parse new cert: '' @ e)), tbl)
      | Inr c \<Rightarrow>
     (case insert_ca lib (ce_persist ev) ''ca: persist: '' der k tbl of
        (Inl e, tbl1) \<Rightarrow> (Inl (CaErr e), tbl1)
      | (Inr _, tbl1) \<Rightarrow> (Inr (c, k), tbl1)))))"

definition parse_rsa_key :: "'k crypto \<Rightarrow> string \<Rightarrow> string + 'k" where
  "parse_rsa_key lib key_pem =
     (case cr_pem lib key_pem of
        None \<Rightarrow> Inl ''ca: import key is not valid PEM''
      | Some ((_, kb), _) \<Rightarrow>
     (case cr_pkcs1 lib kb of
        Inr k \<Rightarrow> Inr k
      | Inl _ \<Rightarrow>
     (case cr_pkcs8 lib kb of
        Inl e \<Rightarrow> Inl (''ca: parse import key (PKCS#1 and PKCS#8 both failed): '' @ e)
      | Inr None \<Rightarrow> Inl ''ca: import key must be RSA''
      | Inr (Some k) \<Rightarrow> Inr k)))"

definition import_ca :: "'k crypto \<Rightarrow> 'k ca_env \<Rightarrow> string \<Rightarrow> string \<Rightarrow> ca_table \<Rightarrow> (ca_err + cert \<times> 'k) \<times> ca_table" where
  "import_ca lib ev cert_pem key_pem tbl =
     (if cert_pem = [] \<or> key_pem = [] then (Inl (CaErr ''ca: import requires both cert and key PEM''), tbl)
      else case cr_pem lib cert_pem of
        None \<Rightarrow> (Inl (CaErr ''ca: import cert is not valid PEM''), tbl)
      | Some ((_, cb), _) \<Rightarrow>
     (case cr_parse lib cb of
        Inl e \<Rightarrow> (Inl (CaErr (''ca: parse import cert: '' @ e)), tbl)
      | Inr c \<Rightarrow>
          if \<not> ct_is_ca c then (Inl (CaErr ''ca: import certificate is not a CA (BasicConstraints CA=false)''), tbl)
          else case parse_rsa_key lib key_pem of
            Inl e \<Rightarrow> (Inl (CaErr e), tbl)
          | Inr k \<Rightarrow>
     (case insert_ca lib (ce_persist ev) ''ca: persist imported CA: '' (ct_raw c) k tbl of
        (Inl e, tbl1) \<Rightarrow> (Inl (CaErr e), tbl1)
      | (Inr _, tbl1) \<Rightarrow> (Inr (c, k), tbl1))))"

definition ensure :: "'k crypto \<Rightarrow> 'k ca_env \<Rightarrow> ca_options \<Rightarrow> ca_table \<Rightarrow> (ca_err + 'k authority) \<times> ca_table" where
  "ensure lib ev opts0 tbl =
     (let opts = ca_defaults opts0;
          res = (case load_ca lib (ce_load ev) tbl of
             Inl CaNoRows \<Rightarrow>
               if co_import_cert opts \<noteq> [] \<or> co_import_key opts \<noteq> []
               then import_ca lib ev (co_import_cert opts) (co_import_key opts) tbl
               else generate_ca lib ev opts tbl
           | r \<Rightarrow> (r, tbl))
      in case res of
           (Inl e, tbl1) \<Rightarrow> (Inl e, tbl1)
         | (Inr (c, k), tbl1) \<Rightarrow> (Inr \<lparr>au_cert = c, au_key = k, au_options = opts\<rparr>, tbl1))"

definition root_pem :: "'k crypto \<Rightarrow> 'k authority \<Rightarrow> string" where
  "root_pem lib a = cr_encode lib ''CERTIFICATE'' (ct_raw (au_cert a))"

subsection \<open>The depot\<close>

record depot =
  dp_last :: int   \<comment> \<open>AUTOINCREMENT: the largest serial ever used\<close>
  dp_serials :: "int list"
  dp_certs :: "((string \<times> string) \<times> (string \<times> secs)) list"
    \<comment> \<open>\<open>scep_certs\<close>: serial and name; the certificate and its expiry\<close>

definition depot_ca :: "'k authority \<Rightarrow> string \<Rightarrow> cert list \<times> 'k" where
  "depot_ca a pass = ([au_cert a], au_key a)"

definition depot_serial :: "fault \<Rightarrow> depot \<Rightarrow> (string + int) \<times> depot" where
  "depot_serial ft d =
     (case ft of
        Some e \<Rightarrow> (Inl (''allocate serial: '' @ e), d)
      | None \<Rightarrow>
          if dp_last d = 2 ^ 63 - 1 then (Inl ''allocate serial: database or disk is full'', d)
          else (Inr (dp_last d + 1), d\<lparr>dp_last := dp_last d + 1, dp_serials := dp_serials d @ [dp_last d + 1]\<rparr>))"

definition depot_put :: "'k crypto \<Rightarrow> fault \<Rightarrow> string \<Rightarrow> cert \<Rightarrow> depot \<Rightarrow> (string + unit) \<times> depot" where
  "depot_put lib ft name c d =
     (case ft of
        Some e \<Rightarrow> (Inl (''store issued cert: '' @ e), d)
      | None \<Rightarrow>
          let key = (int_str (ct_serial c), name); pem = cr_encode lib ''CERTIFICATE'' (ct_raw c) in
          (Inr (), d\<lparr>dp_certs := upsert (\<lambda>r. fst r = key) (\<lambda>r. (fst r, (pem, snd (snd r)))) (key, (pem, to_secs (ct_not_after c))) (dp_certs d)\<rparr>))"

definition depot_has_cn :: "string \<Rightarrow> int \<Rightarrow> cert \<Rightarrow> bool \<Rightarrow> string + bool" where
  "depot_has_cn cn allow c revoke = Inr False"

subsection \<open>Trust anchors\<close>

partial_function (option) anchor_loop :: "'k crypto \<Rightarrow> string \<Rightarrow> string list \<Rightarrow> (string + string list) option" where
  "anchor_loop lib rest anchors =
     (case cr_pem lib rest of
        None \<Rightarrow> Some (Inr anchors)
      | Some ((t, b), rest') \<Rightarrow>
          if t \<noteq> ''CERTIFICATE'' then anchor_loop lib rest' anchors
          else case cr_parse lib b of
                 Inl e \<Rightarrow> Some (Inl (''ca: trust anchor is not a valid certificate: '' @ e))
               | Inr c \<Rightarrow> anchor_loop lib rest' (anchors @ [b]))"

definition trust_anchors :: "'k crypto \<Rightarrow> string \<Rightarrow> (string + string list) option" where
  \<comment> \<open>\<open>None\<close>: the loop does not end\<close>
  "trust_anchors lib pem =
     (case anchor_loop lib pem [] of
        None \<Rightarrow> None
      | Some (Inl e) \<Rightarrow> Some (Inl e)
      | Some (Inr as) \<Rightarrow> Some (if as = [] then Inl ''ca: no CERTIFICATE blocks found in trust chain'' else Inr as))"

subsection \<open>The authority is fixed by the first start\<close>

definition codec_ok :: "'k crypto \<Rightarrow> bool" where
  \<comment> \<open>what is encoded decodes to the same, and a parsed certificate keeps its bytes\<close>
  "codec_ok lib \<longleftrightarrow> (\<forall>t b. \<exists>rest. cr_pem lib (cr_encode lib t b) = Some ((t, b), rest)) \<and>
     (\<forall>b c. cr_parse lib b = Inr c \<longrightarrow> ct_raw c = b) \<and> (\<forall>k. cr_pkcs1 lib (cr_marshal lib k) = Inr k)"

lemma insert_ca_loads:
  assumes "codec_ok lib" and "cr_parse lib der = Inr c" and "insert_ca lib ft what der k tbl = (Inr u, tbl')"
  shows "load_ca lib None tbl' = Inr (c, k)"
proof -
  from assms(3) have t: "tbl' = Some (cr_encode lib ''CERTIFICATE'' der, cr_encode lib ''RSA PRIVATE KEY'' (cr_marshal lib k))"
    by (auto simp: insert_ca_def split: option.splits)
  from assms(1) obtain r1 r2 where
    "cr_pem lib (cr_encode lib ''CERTIFICATE'' der) = Some ((''CERTIFICATE'', der), r1)"
    "cr_pem lib (cr_encode lib ''RSA PRIVATE KEY'' (cr_marshal lib k)) = Some ((''RSA PRIVATE KEY'', cr_marshal lib k), r2)"
    unfolding codec_ok_def by metis
  with assms(1,2) t show ?thesis by (simp add: load_ca_def codec_ok_def)
qed

lemma generate_ca_loads:
  "codec_ok lib \<Longrightarrow> generate_ca lib ev opts tbl = (Inr (c, k), tbl') \<Longrightarrow> load_ca lib None tbl' = Inr (c, k)"
  by (auto simp: generate_ca_def split: sum.splits prod.splits elim!: insert_ca_loads[rotated 2])

lemma import_ca_loads:
  assumes "codec_ok lib" and "import_ca lib ev cp kp tbl = (Inr (c, k), tbl')"
  shows "load_ca lib None tbl' = Inr (c, k) \<and> ct_is_ca c \<and> parse_rsa_key lib kp = Inr k \<and>
    (\<exists>t b rest. cr_pem lib cp = Some ((t, b), rest) \<and> cr_parse lib b = Inr c)"
proof -
  from assms(2) obtain t b rest u where i: "cr_pem lib cp = Some ((t, b), rest)" "cr_parse lib b = Inr c" "ct_is_ca c"
    "parse_rsa_key lib kp = Inr k" "insert_ca lib (ce_persist ev) ''ca: persist imported CA: '' (ct_raw c) k tbl = (Inr u, tbl')"
    by (auto simp: import_ca_def split: if_splits option.splits sum.splits prod.splits)
  from assms(1) i(2) have "ct_raw c = b" by (simp add: codec_ok_def)
  with insert_ca_loads[OF assms(1) i(2)] i show ?thesis by metis
qed

lemma ensure_loads:
  assumes "codec_ok lib" and "ensure lib ev opts tbl = (Inr a, tbl')"
  shows "load_ca lib None tbl' = Inr (au_cert a, au_key a)"
proof (cases "load_ca lib (ce_load ev) tbl")
  case (Inr ck)
  then have "load_ca lib None tbl = Inr ck" by (auto simp: load_ca_def split: option.splits)
  with assms(2) Inr show ?thesis by (auto simp: ensure_def Let_def split: prod.splits)
next
  case (Inl e)
  with assms(2) have "e = CaNoRows" by (cases e) (simp_all add: ensure_def Let_def)
  with Inl assms(2) show ?thesis
    by (auto simp: ensure_def Let_def split: if_splits prod.splits sum.splits
        dest: generate_ca_loads[OF assms(1)] import_ca_loads[OF assms(1)])
qed

text \<open>
  C28: The authority is fixed by the first start that succeeds: every later start, with whatever
  options (another name, another key pair to import, import or generation), comes up with the
  same certificate and the same key and writes nothing; so what the devices were given as
  their trust anchor stays the issuer of their certificates.
\<close>

theorem authority_stable:
  assumes "codec_ok lib" and "ensure lib ev opts tbl = (Inr a, tbl')" and "ce_load ev' = None"
  shows "ensure lib ev' opts' tbl' = (Inr \<lparr>au_cert = au_cert a, au_key = au_key a, au_options = ca_defaults opts'\<rparr>, tbl')"
  using ensure_loads[OF assms(1,2)] assms(3) by (simp add: ensure_def Let_def)

definition demo_crypto :: "string crypto" where
  \<comment> \<open>a block is its type's length in unary, a bar, the type, and the bytes up to the end; a certificate whose bytes start with C is a CA\<close>
  "demo_crypto = \<lparr>cr_pem = (\<lambda>s. if s = [] then None
       else let n = length (takeWhile (\<lambda>c. c = CHR ''1'') s); r = drop (Suc n) s in Some ((take n r, drop n r), [])),
     cr_encode = (\<lambda>t b. replicate (length t) (CHR ''1'') @ CHR ''|'' # t @ b),
     cr_parse = (\<lambda>b. Inr \<lparr>ct_raw = b, ct_is_ca = (take 1 b = ''C''), ct_common_name = b, ct_serial = 7, ct_not_before = 0, ct_not_after = 0\<rparr>),
     cr_pkcs1 = Inr, cr_pkcs8 = (\<lambda>k. Inr (Some k)), cr_marshal = (\<lambda>k. k)\<rparr>"

lemma demo_codec_ok: "codec_ok demo_crypto"
proof -
  have "takeWhile (\<lambda>c. c = CHR ''1'') (replicate n (CHR ''1'') @ CHR ''|'' # r) = replicate n (CHR ''1'')" for n r
    by (induction n) auto
  then have "cr_pem demo_crypto (cr_encode demo_crypto t b) = Some ((t, b), [])" for t b
    by (simp add: demo_crypto_def Let_def)
  then show ?thesis by (auto simp: codec_ok_def demo_crypto_def)
qed

definition demo_ca_env :: "string ca_env" where
  "demo_ca_env = \<lparr>ce_load = None, ce_generate = (\<lambda>bits. Inr ''key''), ce_self_sign = (\<lambda>cn org years k. Inr (CHR ''C'' # cn)), ce_persist = None\<rparr>"

definition demo_ca_options :: ca_options where
  "demo_ca_options = \<lparr>co_common_name = ''ann'', co_organization = ''Cairn'', co_key_bits = 0, co_years = 0, co_import_cert = [],
     co_import_key = [], co_leaf_days = 0, co_renewal_days = 0, co_challenge = []\<rparr>"

lemma authority_stable_witness:
  "\<exists>a tbl. ensure demo_crypto demo_ca_env demo_ca_options None = (Inr a, tbl) \<and> au_key a = ''key'' \<and>
     snd (ensure demo_crypto demo_ca_env (demo_ca_options\<lparr>co_import_cert := ''1|XC'', co_import_key := ''1|Xother''\<rparr>) tbl) = tbl"
proof -
  obtain a tbl where h: "ensure demo_crypto demo_ca_env demo_ca_options None = (Inr a, tbl)" and k: "au_key a = ''key''"
    by (simp add: ensure_def load_ca_def demo_ca_env_def demo_ca_options_def ca_defaults_def generate_ca_def insert_ca_def demo_crypto_def Let_def)
  from authority_stable[OF demo_codec_ok h, of demo_ca_env] h k show ?thesis
    by (intro exI[of _ a] exI[of _ tbl]) (simp add: demo_ca_env_def)
qed

text \<open>
  A first start in import mode takes the configured pair or nothing: it succeeds only with a
  certificate that is a CA and an RSA key, and then the authority is that certificate with
  that key; when it fails the table is as before.
\<close>

theorem import_takes_pair:
  assumes "codec_ok lib" and "ensure lib ev opts None = (r, tbl')" and "co_import_cert opts \<noteq> [] \<or> co_import_key opts \<noteq> []"
  shows "case r of
      Inl e \<Rightarrow> tbl' = None
    | Inr a \<Rightarrow> ct_is_ca (au_cert a) \<and> parse_rsa_key lib (co_import_key opts) = Inr (au_key a) \<and>
        (\<exists>t b rest. cr_pem lib (co_import_cert opts) = Some ((t, b), rest) \<and> cr_parse lib b = Inr (au_cert a))"
proof -
  have o: "co_import_cert (ca_defaults opts) = co_import_cert opts" "co_import_key (ca_defaults opts) = co_import_key opts"
    by (simp_all add: ca_defaults_def)
  consider e where "ce_load ev = Some e" | "ce_load ev = None" by (cases "ce_load ev") auto
  then show ?thesis
  proof cases
    case 1
    with assms(2) show ?thesis by (auto simp: ensure_def load_ca_def Let_def)
  next
    case 2
    obtain r1 t1 where i: "import_ca lib ev (co_import_cert opts) (co_import_key opts) None = (r1, t1)"
      by (cases "import_ca lib ev (co_import_cert opts) (co_import_key opts) None")
    with assms(2,3) 2 o have r: "(r, tbl') = (case r1 of Inl e \<Rightarrow> (Inl e, t1)
        | Inr (c, k) \<Rightarrow> (Inr \<lparr>au_cert = c, au_key = k, au_options = ca_defaults opts\<rparr>, t1))"
      by (auto simp: ensure_def load_ca_def Let_def split: sum.splits prod.splits)
    show ?thesis
    proof (cases r1)
      case (Inl e)
      moreover from i Inl have "t1 = None"
        by (auto simp: import_ca_def insert_ca_def split: if_splits option.splits sum.splits prod.splits)
      ultimately show ?thesis using r by simp
    next
      case (Inr ck)
      with i import_ca_loads[OF assms(1), of ev "co_import_cert opts" "co_import_key opts" None "fst ck" "snd ck" t1] r
      show ?thesis by (auto split: prod.splits)
    qed
  qed
qed

text \<open>
  An import is not checked for being a pair: a CA certificate is accepted with any RSA key,
  also one that is not its own, and it is then the authority for good - what it signs does not
  verify under the anchor the devices installed.
\<close>

theorem import_mismatch_accepted:
  assumes "cr_pem lib cp = Some ((t, b), rest)" and "cr_parse lib b = Inr c" and "ct_is_ca c"
    and "parse_rsa_key lib kp = Inr k" and "cp \<noteq> []" and "kp \<noteq> []" and "ce_load ev = None" and "ce_persist ev = None"
    and "co_import_cert opts = cp" and "co_import_key opts = kp"
  shows "\<exists>tbl. ensure lib ev opts None = (Inr \<lparr>au_cert = c, au_key = k, au_options = ca_defaults opts\<rparr>, tbl)"
  using assms by (simp add: ensure_def load_ca_def import_ca_def insert_ca_def ca_defaults_def Let_def)

subsection \<open>Serial numbers\<close>

datatype depot_call = AllocSerial | PutCert string cert | HasName string

fun depot_step :: "'k crypto \<Rightarrow> fault \<times> depot_call \<Rightarrow> depot \<Rightarrow> depot" where
  "depot_step lib (ft, AllocSerial) d = snd (depot_serial ft d)"
| "depot_step lib (ft, PutCert n c) d = snd (depot_put lib ft n c d)"
| "depot_step lib (ft, HasName n) d = d"

fun serials_given :: "'k crypto \<Rightarrow> (fault \<times> depot_call) list \<Rightarrow> depot \<Rightarrow> int list" where
  "serials_given lib [] d = []"
| "serials_given lib (cl # cls) d =
     (case cl of
        (ft, AllocSerial) \<Rightarrow> (case depot_serial ft d of (Inr n, _) \<Rightarrow> [n] | (Inl e, _) \<Rightarrow> [])
      | _ \<Rightarrow> []) @ serials_given lib cls (depot_step lib cl d)"

lemma depot_step_last: "dp_last d \<le> dp_last (depot_step lib cl d)"
  by (cases "(lib, cl, d)" rule: depot_step.cases)
    (auto simp: depot_serial_def depot_put_def Let_def split: option.splits)

text \<open>
  No serial number is given out twice: over any run of the depot's calls, with any failures,
  the serials are strictly increasing, larger than every earlier one and within 63 bits.
\<close>

theorem serials_increase:
  assumes "dp_last d < 2 ^ 63"
  shows "sorted_wrt (<) (serials_given lib cls d) \<and> (\<forall>n\<in>set (serials_given lib cls d). dp_last d < n \<and> n < 2 ^ 63)"
  using assms
proof (induction cls arbitrary: d)
  case (Cons cl cls)
  obtain ft c where cl: "cl = (ft, c)" by (cases cl)
  have step: "dp_last (depot_step lib cl d) < 2 ^ 63"
    using Cons.prems by (cases c; cases ft) (auto simp: cl depot_serial_def depot_put_def Let_def)
  note ih = Cons.IH[OF this] and le = depot_step_last[of d lib cl]
  show ?case
  proof (cases "c = AllocSerial \<and> ft = None \<and> dp_last d \<noteq> 2 ^ 63 - 1")
    case True
    with ih Cons.prems show ?thesis by (auto simp: cl depot_serial_def)
  next
    case False
    then have "serials_given lib (cl # cls) d = serials_given lib cls (depot_step lib cl d)"
      by (cases c; cases ft) (auto simp: cl depot_serial_def)
    with ih le show ?thesis by auto
  qed
qed simp

lemma serials_increase_witness:
  "sorted_wrt (<) (serials_given demo_crypto [(None, AllocSerial), (Some ''locked'', AllocSerial), (None, AllocSerial)]
     \<lparr>dp_last = 4, dp_serials = [], dp_certs = []\<rparr>) \<and>
   serials_given demo_crypto [(None, AllocSerial), (Some ''locked'', AllocSerial), (None, AllocSerial)]
     \<lparr>dp_last = 4, dp_serials = [], dp_certs = []\<rparr> = [5, 6]"
  using serials_increase[of "\<lparr>dp_last = 4, dp_serials = [], dp_certs = []\<rparr>" demo_crypto] by (simp add: depot_serial_def)

subsection \<open>Reading a chain\<close>

inductive pem_blocks :: "'k crypto \<Rightarrow> string \<Rightarrow> (string \<times> string) list \<Rightarrow> bool" for lib where
  no_block: "cr_pem lib s = None \<Longrightarrow> pem_blocks lib s []"
| block: "cr_pem lib s = Some (tb, rest) \<Longrightarrow> pem_blocks lib rest bs \<Longrightarrow> pem_blocks lib s (tb # bs)"

inductive_cases pem_blocks_ConsE: "pem_blocks lib s (tb # bs)"

definition cert_blocks :: "(string \<times> string) list \<Rightarrow> string list" where
  "cert_blocks bs = map snd (filter (\<lambda>tb. fst tb = ''CERTIFICATE'') bs)"

lemma cert_blocks_simps [simp]:
  "cert_blocks [] = []"
  "cert_blocks ((t, b) # bs) = (if t = ''CERTIFICATE'' then b # cert_blocks bs else cert_blocks bs)"
  by (simp_all add: cert_blocks_def)

lemma pem_blocks_total:
  assumes "\<And>s tb rest. cr_pem lib s = Some (tb, rest) \<Longrightarrow> length rest < length s"
  shows "\<exists>bs. pem_blocks lib s bs"
proof (induction s rule: length_induct)
  case (1 s)
  show ?case
  proof (cases "cr_pem lib s")
    case (Some r)
    obtain tb rest where r: "r = (tb, rest)" by (cases r)
    with Some assms[of s tb rest] 1 obtain bs where "pem_blocks lib rest bs" by auto
    with Some r show ?thesis by (auto intro: pem_blocks.block)
  qed (auto intro: pem_blocks.no_block)
qed

lemma anchor_loop_spec:
  assumes "pem_blocks lib s bs"
  shows "\<exists>res. anchor_loop lib s acc = Some res \<and>
    (case res of
       Inl e \<Rightarrow> \<exists>b\<in>set (cert_blocks bs). isl (cr_parse lib b)
     | Inr as \<Rightarrow> as = acc @ cert_blocks bs \<and> (\<forall>b\<in>set (cert_blocks bs). \<not> isl (cr_parse lib b)))"
  using assms
proof (induction arbitrary: acc)
  case (no_block s)
  then show ?case by (subst anchor_loop.simps) simp
next
  case (block s tb rest bs)
  obtain t b where tb: "tb = (t, b)" by (cases tb)
  have simps: "cert_blocks (tb # bs) = (if t = ''CERTIFICATE'' then b # cert_blocks bs else cert_blocks bs)" by (simp add: tb)
  show ?case
  proof (cases "t = ''CERTIFICATE''")
    case False
    with block(1) block.IH[of acc] show ?thesis by (subst anchor_loop.simps) (simp add: tb simps cong: sum.case_cong)
  next
    case True
    show ?thesis
    proof (cases "cr_parse lib b")
      case (Inl e)
      with True block(1) show ?thesis by (subst anchor_loop.simps) (simp add: tb simps)
    next
      case (Inr c)
      with True block(1) block.IH[of "acc @ [b]"] show ?thesis
        by (subst anchor_loop.simps) (auto simp: tb simps split: sum.splits)
    qed
  qed
qed

text \<open>
  C33: Reading an external CA's chain ends on every input and gives exactly its certificates: as
  long as decoding a block leaves less than it was given, the loop ends; it succeeds when the
  bundle has a certificate block and all of them parse, and then the anchors are the bytes of
  those blocks in order, other blocks left out.
\<close>

theorem trust_anchors_exact:
  assumes "\<forall>s tb rest. cr_pem lib s = Some (tb, rest) \<longrightarrow> length rest < length s"
  shows "\<exists>bs res. pem_blocks lib pem bs \<and> trust_anchors lib pem = Some res \<and>
    (\<not> isl res \<longleftrightarrow> cert_blocks bs \<noteq> [] \<and> (\<forall>b\<in>set (cert_blocks bs). \<not> isl (cr_parse lib b))) \<and>
    (\<forall>as. res = Inr as \<longrightarrow> as = cert_blocks bs)"
proof -
  from pem_blocks_total[of lib pem] assms obtain bs where b: "pem_blocks lib pem bs" by blast
  from anchor_loop_spec[OF b, of "[]"] obtain res where r: "anchor_loop lib pem [] = Some res"
    "case res of Inl e \<Rightarrow> \<exists>b\<in>set (cert_blocks bs). isl (cr_parse lib b)
     | Inr as \<Rightarrow> as = cert_blocks bs \<and> (\<forall>b\<in>set (cert_blocks bs). \<not> isl (cr_parse lib b))"
    unfolding append_Nil by blast
  show ?thesis
  proof (cases res)
    case (Inl e)
    with r b show ?thesis by (intro exI[of _ bs] exI[of _ "Inl e"]) (simp add: trust_anchors_def)
  next
    case (Inr as)
    with r b show ?thesis
      by (intro exI[of _ bs] exI[of _ "if as = [] then Inl ''ca: no CERTIFICATE blocks found in trust chain'' else Inr as"])
        (auto simp: trust_anchors_def)
  qed
qed

definition demo_chain :: "string crypto" where
  \<comment> \<open>two bytes a block: its type, C or K, and its content; a certificate whose byte is x does not parse\<close>
  "demo_chain = demo_crypto\<lparr>cr_pem := (\<lambda>s. if length s < 2 then None
       else Some ((if hd s = CHR ''C'' then ''CERTIFICATE'' else ''RSA PRIVATE KEY'', [s ! 1]), drop 2 s)),
     cr_parse := (\<lambda>b. if b = ''x'' then Inl ''malformed'' else cr_parse demo_crypto b)\<rparr>"

lemma trust_anchors_exact_witness:
  "\<exists>bs. pem_blocks demo_chain ''CaKbCc'' bs \<and> trust_anchors demo_chain ''CaKbCc'' = Some (Inr [''a'', ''c''])"
proof -
  have shorter: "\<forall>s tb rest. cr_pem demo_chain s = Some (tb, rest) \<longrightarrow> length rest < length s"
    by (auto simp: demo_chain_def split: if_splits)
  from trust_anchors_exact[of demo_chain "''CaKbCc''", OF shorter] obtain bs res where
    b: "pem_blocks demo_chain ''CaKbCc'' bs" and t: "trust_anchors demo_chain ''CaKbCc'' = Some res"
    "\<not> isl res \<longleftrightarrow> cert_blocks bs \<noteq> [] \<and> (\<forall>b\<in>set (cert_blocks bs). \<not> isl (cr_parse demo_chain b))"
    "\<forall>as. res = Inr as \<longrightarrow> as = cert_blocks bs" by blast
  have d: "cr_pem demo_chain ''CaKbCc'' = Some ((''CERTIFICATE'', ''a''), ''KbCc'')" "cr_pem demo_chain ''KbCc'' = Some ((''RSA PRIVATE KEY'', ''b''), ''Cc'')"
    "cr_pem demo_chain ''Cc'' = Some ((''CERTIFICATE'', ''c''), [])" "cr_pem demo_chain [] = None" by (simp_all add: demo_chain_def)
  from b have "bs = [(''CERTIFICATE'', ''a''), (''RSA PRIVATE KEY'', ''b''), (''CERTIFICATE'', ''c'')]"
    by (auto elim!: pem_blocks.cases[of _ "''CaKbCc''"] pem_blocks.cases[of _ "''KbCc''"] pem_blocks.cases[of _ "''Cc''"] pem_blocks.cases[of _ "[]"] simp: d)
  with t b show ?thesis by (cases res) (auto simp: demo_chain_def demo_crypto_def)
qed

end
