(* ===== verification/Pki.thy ===== *)
theory Pki
  imports CertAuth Config Enroll
begin

section \<open>Wiring SCEP, trust anchors and enrollment together\<close>

text \<open>
  \<open>cmd/cairn/pki.go\<close>: how the CA mode of the configuration decides what the server mounts and
  what an enrollment profile says, with \<open>publicHost\<close> of \<open>serve.go\<close>, the signing identity of
  \<open>internal/profile/signer.go\<close> and \<open>cairn ca export\<close> (\<open>cmd/cairn/ca.go\<close>).  The SCEP service
  is a library: what the code builds it from is the record \<open>scep_server\<close>.
\<close>

subsection \<open>The public host\<close>

fun all_digits :: "string \<Rightarrow> bool" where
  "all_digits [] = True"
| "all_digits (c # cs) = (in_range (CHR ''0'') (CHR ''9'') c \<and> all_digits cs)"

definition url_hostname :: "string \<Rightarrow> string" where
  \<comment> \<open>\<open>URL.Hostname\<close>: the host without its port and without the brackets of an IPv6 address\<close>
  "url_hostname h =
     (let port = takeWhile (\<lambda>c. c \<noteq> CHR '':'') (rev h);
          h1 = (if CHR '':'' \<in> set h \<and> all_digits (rev port) then take (length h - length port - 1) h else h)
      in if take 1 h1 = ''['' \<and> drop (length h1 - 1) h1 = '']'' then butlast (tl h1) else h1)"

definition public_host :: "url_parser \<Rightarrow> string \<Rightarrow> string" where
  "public_host parse_url u =
     (case parse_url u of
        Some (scheme, host) \<Rightarrow> if host \<noteq> [] then url_hostname host else u
      | None \<Rightarrow> u)"

subsection \<open>The signing identity\<close>

record signer =
  sg_leaf :: cert
  sg_key :: string
  sg_chain :: "cert list"

fun parse_chain :: "'k crypto \<Rightarrow> string list \<Rightarrow> string + cert list" where
  "parse_chain lib [] = Inr []"
| "parse_chain lib (der # ders) =
     (case cr_parse lib der of
        Inl e \<Rightarrow> Inl (''profile: parse signing chain: '' @ e)
      | Inr c \<Rightarrow> (case parse_chain lib ders of Inl e \<Rightarrow> Inl e | Inr cs \<Rightarrow> Inr (c # cs)))"

definition load_signer ::
  "'k crypto \<Rightarrow> (string \<Rightarrow> string \<Rightarrow> string + string list \<times> string) \<Rightarrow> (nanos \<Rightarrow> string) \<Rightarrow> nanos \<Rightarrow> string \<Rightarrow> string \<Rightarrow> string + signer" where
  \<comment> \<open>\<open>pair\<close> is \<open>tls.LoadX509KeyPair\<close>: the chain, leaf first, and the key\<close>
  "load_signer lib pair rfc3339 now cert_file key_file =
     (case pair cert_file key_file of
        Inl e \<Rightarrow> Inl (''profile: load signing keypair: '' @ e)
      | Inr (ders, key) \<Rightarrow>
     (case ders of
        [] \<Rightarrow> Inl ''profile: signing cert file has no certificates''
      | der # rest \<Rightarrow>
     (case cr_parse lib der of
        Inl e \<Rightarrow> Inl (''profile: parse signing leaf: '' @ e)
      | Inr leaf \<Rightarrow>
          if now < ct_not_before leaf then Inl (''profile: signing cert not valid until '' @ rfc3339 (ct_not_before leaf))
          else if ct_not_after leaf < now then Inl (''profile: signing cert expired '' @ rfc3339 (ct_not_after leaf))
          else case parse_chain lib rest of
                 Inl e \<Rightarrow> Inl e
               | Inr cs \<Rightarrow> Inr \<lparr>sg_leaf = leaf, sg_key = key, sg_chain = cs\<rparr>)))"

subsection \<open>What is mounted\<close>

record 'k scep_server =
  sc_cert :: cert
  sc_key :: 'k
  sc_leaf_days :: int
  sc_renewal_days :: int
  sc_challenge :: "string option"  \<comment> \<open>the static challenge middleware, when there is one\<close>

definition scep_handler :: "fault \<Rightarrow> 'k authority \<Rightarrow> string + 'k scep_server" where
  "scep_handler ft a =
     (case ft of
        Some e \<Rightarrow> Inl (''ca: new scep service: '' @ e)
      | None \<Rightarrow> Inr \<lparr>sc_cert = au_cert a, sc_key = au_key a, sc_leaf_days = co_leaf_days (au_options a),
          sc_renewal_days = co_renewal_days (au_options a),
          sc_challenge = (if co_challenge (au_options a) \<noteq> [] then Some (co_challenge (au_options a)) else None)\<rparr>)"

record 'k deps =
  de_scep :: "'k scep_server option"
  de_enroll :: enroll_cfg
  de_signer :: "signer option"
  de_ca :: string  \<comment> \<open>the body of \<open>GET /ca\<close>\<close>

record 'k pki_result =
  pk_authority :: "'k authority option"
  pk_org :: string
  pk_scep_url :: string
  pk_challenge :: string
  pk_anchors :: "string list"

record 'k pki_env =
  pe_ca :: "'k ca_env"
  pe_read :: "string \<Rightarrow> string + string"
  pe_pair :: "string \<Rightarrow> string \<Rightarrow> string + string list \<times> string"
  pe_rfc3339 :: "nanos \<Rightarrow> string"
  pe_now :: nanos
  pe_scep :: fault

definition ca_download :: "'k crypto \<Rightarrow> string list \<Rightarrow> string" where
  "ca_download lib ders = concat (map (cr_encode lib ''CERTIFICATE'') ders)"

definition wire_signer :: "'k crypto \<Rightarrow> 'k pki_env \<Rightarrow> config \<Rightarrow> string + signer option" where
  "wire_signer lib pe cfg =
     (let s = cfg_signing cfg in
      if signing_enabled s
      then (case load_signer lib (pe_pair pe) (pe_rfc3339 pe) (pe_now pe) (signing_cert_file s) (signing_key_file s) of
              Inl e \<Rightarrow> Inl e | Inr sg \<Rightarrow> Inr (Some sg))
      else Inr None)"

definition enroll_config :: "url_parser \<Rightarrow> config \<Rightarrow> string list \<Rightarrow> string \<Rightarrow> enroll_cfg" where
  "enroll_config parse_url cfg anchors scep =
     (let host = public_host parse_url (public_url (cfg_server cfg)) in
      \<lparr>ec_organization = ''cairn.'' @ host, ec_anchors = anchors, ec_scep_url = scep, ec_challenge = challenge (cfg_ca cfg),
       ec_server_url = public_url (cfg_server cfg) @ mdm_path (cfg_server cfg), ec_subject_prefix = ''devices.'' @ host,
       ec_allow_open = allow_open cfg\<rparr>)"

definition import_options :: "(string \<Rightarrow> string + string) \<Rightarrow> config \<Rightarrow> ca_options \<Rightarrow> string + ca_options" where
  "import_options rd cfg opts =
     (if ca_mode (cfg_ca cfg) = ''import'' then
        (case rd (import_cert_file (cfg_ca cfg)) of
           Inl e \<Rightarrow> Inl (''read ca.import.cert_file: '' @ e)
         | Inr cert_pem \<Rightarrow>
        (case rd (import_key_file (cfg_ca cfg)) of
           Inl e \<Rightarrow> Inl (''read ca.import.key_file: '' @ e)
         | Inr key_pem \<Rightarrow> Inr (opts\<lparr>co_import_cert := cert_pem, co_import_key := key_pem\<rparr>)))
      else Inr opts)"

definition ca_err_text :: "ca_err \<Rightarrow> string" where
  "ca_err_text e = (case e of CaNoRows \<Rightarrow> ''sql: no rows in result set'' | CaErr m \<Rightarrow> m)"

definition empty_options :: ca_options where
  "empty_options = \<lparr>co_common_name = [], co_organization = [], co_key_bits = 0, co_years = 0, co_import_cert = [], co_import_key = [],
     co_leaf_days = 0, co_renewal_days = 0, co_challenge = []\<rparr>"

definition serve_options :: "url_parser \<Rightarrow> config \<Rightarrow> ca_options" where
  "serve_options parse_url cfg = empty_options\<lparr>
     co_common_name := ''Cairn CA ('' @ public_host parse_url (public_url (cfg_server cfg)) @ '')'', co_organization := ''Cairn'',
     co_challenge := challenge (cfg_ca cfg)\<rparr>"

definition wire_embedded ::
  "'k crypto \<Rightarrow> url_parser \<Rightarrow> 'k pki_env \<Rightarrow> config \<Rightarrow> signer option \<Rightarrow> ca_table \<Rightarrow> (string + 'k pki_result \<times> 'k deps) \<times> ca_table" where
  "wire_embedded lib parse_url pe cfg sg tbl =
     (case import_options (pe_read pe) cfg (serve_options parse_url cfg) of
        Inl e \<Rightarrow> (Inl e, tbl)
      | Inr opts \<Rightarrow>
     (case ensure lib (pe_ca pe) opts tbl of
        (Inl e, tbl1) \<Rightarrow> (Inl (ca_err_text e), tbl1)
      | (Inr a, tbl1) \<Rightarrow>
     (case scep_handler (pe_scep pe) a of
        Inl e \<Rightarrow> (Inl e, tbl1)
      | Inr sc \<Rightarrow>
          let anchors = [ct_raw (au_cert a)]; scep = public_url (cfg_server cfg) @ ''/scep'' in
          (Inr (\<lparr>pk_authority = Some a, pk_org = ''cairn.'' @ public_host parse_url (public_url (cfg_server cfg)),
                 pk_scep_url = scep, pk_challenge = challenge (cfg_ca cfg), pk_anchors = anchors\<rparr>,
                \<lparr>de_scep = Some sc, de_enroll = enroll_config parse_url cfg anchors scep, de_signer = sg, de_ca = ca_download lib anchors\<rparr>), tbl1))))"

definition wire_external ::
  "'k crypto \<Rightarrow> url_parser \<Rightarrow> 'k pki_env \<Rightarrow> config \<Rightarrow> signer option \<Rightarrow> (string + 'k pki_result \<times> 'k deps) option" where
  \<comment> \<open>\<open>None\<close>: reading the chain does not end\<close>
  "wire_external lib parse_url pe cfg sg =
     (case pe_read pe (ca_chain_file (cfg_ca cfg)) of
        Inl e \<Rightarrow> Some (Inl (''read ca.external.ca_chain_file: '' @ e))
      | Inr chain \<Rightarrow>
     (case trust_anchors lib chain of
        None \<Rightarrow> None
      | Some (Inl e) \<Rightarrow> Some (Inl e)
      | Some (Inr anchors) \<Rightarrow>
          let scep = scep_url (cfg_ca cfg) in
          Some (Inr (\<lparr>pk_authority = None, pk_org = ''cairn.'' @ public_host parse_url (public_url (cfg_server cfg)),
                 pk_scep_url = scep, pk_challenge = challenge (cfg_ca cfg), pk_anchors = anchors\<rparr>,
                \<lparr>de_scep = None, de_enroll = enroll_config parse_url cfg anchors scep, de_signer = sg, de_ca = ca_download lib anchors\<rparr>))))"

definition wire_pki ::
  "'k crypto \<Rightarrow> url_parser \<Rightarrow> 'k pki_env \<Rightarrow> config \<Rightarrow> ca_table \<Rightarrow> ((string + 'k pki_result \<times> 'k deps) \<times> ca_table) option" where
  "wire_pki lib parse_url pe cfg tbl =
     (case wire_signer lib pe cfg of
        Inl e \<Rightarrow> Some (Inl e, tbl)
      | Inr sg \<Rightarrow>
          if embedded (ca_mode (cfg_ca cfg)) then Some (wire_embedded lib parse_url pe cfg sg tbl)
          else (case wire_external lib parse_url pe cfg sg of None \<Rightarrow> None | Some r \<Rightarrow> Some (r, tbl)))"

definition ca_export :: "'k crypto \<Rightarrow> 'k ca_env \<Rightarrow> config \<Rightarrow> ca_table \<Rightarrow> (string + string) \<times> ca_table" where
  \<comment> \<open>\<open>cairn ca export\<close> from the loaded configuration and the opened database on: what is written\<close>
  "ca_export lib ev cfg tbl =
     (if \<not> embedded (ca_mode (cfg_ca cfg)) then
        (Inl (''ca.mode='' @ ca_mode (cfg_ca cfg) @ '' does not have a Cairn-managed CA to export; the root lives in your external CA''), tbl)
      else if driver (cfg_storage cfg) \<noteq> ''sqlite'' then (Inl ''storage driver not yet implemented (Phase 4)'', tbl)
      else case ensure lib ev empty_options tbl of
             (Inl e, tbl1) \<Rightarrow> (Inl (ca_err_text e), tbl1)
           | (Inr a, tbl1) \<Rightarrow> (Inr (root_pem lib a), tbl1))"

subsection \<open>Everything points at the same authority\<close>

lemma wire_pki_cases:
  assumes "wire_pki lib parse_url pe cfg tbl = Some (Inr (res, deps), tbl')"
  shows "de_enroll deps = enroll_config parse_url cfg (pk_anchors res) (pk_scep_url res) \<and> pk_challenge res = challenge (cfg_ca cfg) \<and>
    de_ca deps = ca_download lib (pk_anchors res) \<and>
    (if embedded (ca_mode (cfg_ca cfg))
     then \<exists>a opts. pk_authority res = Some a \<and> ensure lib (pe_ca pe) opts tbl = (Inr a, tbl') \<and>
       scep_handler (pe_scep pe) a = Inr (the (de_scep deps)) \<and> de_scep deps \<noteq> None \<and>
       au_options a = ca_defaults opts \<and> co_challenge opts = challenge (cfg_ca cfg) \<and>
       pk_scep_url res = public_url (cfg_server cfg) @ ''/scep'' \<and> pk_anchors res = [ct_raw (au_cert a)]
     else pk_authority res = None \<and> de_scep deps = None \<and> tbl' = tbl \<and> pk_scep_url res = scep_url (cfg_ca cfg) \<and>
       (\<exists>chain. pe_read pe (ca_chain_file (cfg_ca cfg)) = Inr chain \<and> trust_anchors lib chain = Some (Inr (pk_anchors res))))"
proof (cases "embedded (ca_mode (cfg_ca cfg))")
  case True
  have ch: "co_challenge opts = challenge (cfg_ca cfg)" if "import_options rd cfg (serve_options parse_url cfg) = Inr opts" for rd opts
    using that by (auto simp: import_options_def serve_options_def split: if_splits sum.splits)
  have opt: "au_options a = ca_defaults opts" if "ensure lib ev opts t = (Inr a, t')" for ev opts t a t'
    using that by (auto simp: ensure_def Let_def split: prod.splits sum.splits ca_err.splits if_splits)
  from assms True show ?thesis
    by (auto simp: wire_pki_def wire_embedded_def Let_def split: sum.splits prod.splits intro!: exI dest: ch opt)
next
  case False
  with assms show ?thesis
    by (auto simp: wire_pki_def wire_external_def Let_def split: sum.splits option.splits)
qed

definition scep_accepts :: "('k, 'a) scep_server_scheme \<Rightarrow> string \<Rightarrow> bool" where
  \<comment> \<open>what the static challenge middleware asks of a request\<close>
  "scep_accepts sc c \<longleftrightarrow> (case sc_challenge sc of None \<Rightarrow> True | Some d \<Rightarrow> c = d)"

text \<open>
  C10: A device that enrolls can complete its enrollment with the authority of this server: with an
  embedded CA, each profile the enrollment endpoint hands out asks the server's own SCEP
  endpoint for its identity, with a challenge that endpoint accepts, and installs as trust
  anchors exactly the certificate that endpoint signs with; the anchor download and the
  console's own profiles get the same one.
\<close>

theorem profile_trusts_issuer:
  assumes "wire_pki lib parse_url pe cfg tbl = Some (Inr (res, deps), tbl')" and "embedded (ca_mode (cfg_ca cfg))"
    and "serve_grant red_opt (de_enroll deps) ev ft now token st = (Served prof body, st')"
  shows "\<exists>sc content req. de_scep deps = Some sc \<and> identity_request prof req \<and>
    map_of prof ''PayloadContent'' = Some (VArr (map VDict content)) \<and>
    map_of req ''URL'' = Some (VStr (public_url (cfg_server cfg) @ ''/scep'')) \<and>
    (\<exists>c. map_of req ''Challenge'' = Some (VStr c) \<and> scep_accepts sc c) \<and>
    (\<forall>der. (\<exists>ca\<in>set content. holds_cert der ca) \<longleftrightarrow> der = ct_raw (sc_cert sc)) \<and>
    pk_anchors res = [ct_raw (sc_cert sc)] \<and> de_ca deps = cr_encode lib ''CERTIFICATE'' (ct_raw (sc_cert sc))"
proof -
  from wire_pki_cases[OF assms(1)] assms(2) obtain a opts sc where
    e: "de_enroll deps = enroll_config parse_url cfg (pk_anchors res) (pk_scep_url res)" and
    d: "de_ca deps = ca_download lib (pk_anchors res)" and
    w: "scep_handler (pe_scep pe) a = Inr sc" "de_scep deps = Some sc" "au_options a = ca_defaults opts"
      "co_challenge opts = challenge (cfg_ca cfg)" "pk_scep_url res = public_url (cfg_server cfg) @ ''/scep''"
      "pk_anchors res = [ct_raw (au_cert a)]" by auto
  have sc: "sc_cert sc = au_cert a" "scep_accepts sc (challenge (cfg_ca cfg))"
    using w(1,3,4) by (auto simp: scep_handler_def scep_accepts_def ca_defaults_def split: option.splits if_splits)
  from assms(3) obtain red where "serve_profile (de_enroll deps) ev red = Served prof body"
    by (auto simp: serve_grant_def split: option.splits prod.splits sum.splits)
  from serve_profile_served[OF this] obtain topic where
    b: "build_enrollment (ee_rnd ev) (params_for (de_enroll deps) topic (red_owner red)) = Inr prof" by blast
  from enrollment_profile_complete[where rnd = "ee_rnd ev" and p = "params_for (de_enroll deps) topic (red_owner red)", unfolded b sum.case]
  obtain content scep mdm req where p: "map_of prof ''PayloadContent'' = Some (VArr (map VDict content))"
    "identity_bound content mdm scep ''IdentityCertificateUUID''" "map_of scep ''PayloadContent'' = Some (VDict req)"
    "map_of req ''URL'' = Some (VStr (pk_scep_url res))" "map_of req ''Challenge'' = Some (VStr (challenge (cfg_ca cfg)))"
    "\<forall>der. (\<exists>ca\<in>set content. holds_cert der ca) = (der \<in> set (pk_anchors res))"
    by (auto simp: params_for_def e enroll_config_def Let_def)
  have "identity_request prof req" using p(1-3) unfolding identity_request_def identity_bound_def by blast
  with p w(2,5,6) sc d show ?thesis by (auto simp: ca_download_def)
qed

definition demo_pki_env :: "string pki_env" where
  "demo_pki_env = \<lparr>pe_ca = demo_ca_env, pe_read = (\<lambda>f. Inl ''missing''), pe_pair = (\<lambda>c k. Inl ''missing''), pe_rfc3339 = (\<lambda>t. []),
     pe_now = 0, pe_scep = None\<rparr>"

definition demo_pki_config :: config where
  "demo_pki_config = default_config\<lparr>cfg_server := (cfg_server default_config)\<lparr>public_url := ''https://m''\<rparr>\<rparr>"

definition demo_url :: url_parser where
  "demo_url u = Some (''https'', ''m:8443'')"

lemma demo_wired:
  "\<exists>res deps tbl'. wire_pki demo_crypto demo_url demo_pki_env demo_pki_config None = Some (Inr (res, deps), tbl') \<and>
     ec_organization (de_enroll deps) = ''cairn.m''"
proof -
  have "public_host demo_url u = ''m''" for u by (simp add: public_host_def demo_url_def) code_simp
  then show ?thesis
    by (simp add: wire_pki_def wire_signer_def demo_pki_config_def default_config_def signing_enabled_def embedded_def wire_embedded_def
        import_options_def serve_options_def empty_options_def ensure_def load_ca_def demo_pki_env_def demo_ca_env_def ca_defaults_def
        generate_ca_def insert_ca_def demo_crypto_def scep_handler_def enroll_config_def Let_def)
qed

lemma profile_trusts_issuer_witness:
  "\<exists>res deps tbl' prof body st' sc. wire_pki demo_crypto demo_url demo_pki_env demo_pki_config None = Some (Inr (res, deps), tbl') \<and>
     serve_grant (Some (redeem_grant (\<lambda>s. s))) (de_enroll deps) (demo_enroll_env ''topic'') None (5 * second) ''t'' [demo_grant_row] =
       (Served prof body, st') \<and> de_scep deps = Some sc \<and> pk_anchors res = [ct_raw (sc_cert sc)]"
proof -
  obtain res deps tbl' where w: "wire_pki demo_crypto demo_url demo_pki_env demo_pki_config None = Some (Inr (res, deps), tbl')"
    and o: "ec_organization (de_enroll deps) = ''cairn.m''" using demo_wired by blast
  obtain red rows where r: "redeem_grant (\<lambda>s. s) None (5 * second) (trim_space ''t'') [demo_grant_row] = (Inr red, rows)"
    using demo_redeemed by blast
  have "\<exists>prof. serve_profile (de_enroll deps) (demo_enroll_env ''topic'') red = Served prof ''xml''"
    by (rule serve_profile_ready[where topic = "''topic''"]) (simp_all add: demo_enroll_env_def o)
  with r have "\<exists>prof body st'. serve_grant (Some (redeem_grant (\<lambda>s. s))) (de_enroll deps) (demo_enroll_env ''topic'') None (5 * second) ''t''
      [demo_grant_row] = (Served prof body, st')" by (auto simp: serve_grant_def)
  then obtain prof body st' where g: "serve_grant (Some (redeem_grant (\<lambda>s. s))) (de_enroll deps) (demo_enroll_env ''topic'') None (5 * second)
      ''t'' [demo_grant_row] = (Served prof body, st')" by blast
  have "embedded (ca_mode (cfg_ca demo_pki_config))" by (simp add: demo_pki_config_def default_config_def embedded_def)
  from profile_trusts_issuer[OF w this g] obtain sc where "de_scep deps = Some sc" "pk_anchors res = [ct_raw (sc_cert sc)]" by metis
  with w g show ?thesis by (intro exI conjI)
qed

text \<open>
  \<open>cairn ca export\<close> is not the read it looks like: on a database that has no CA yet it creates
  one, with an empty subject, also when the configuration says to import a pair - and from then
  on the server comes up with that one, whatever pair the configuration names.
\<close>

theorem export_pins_authority:
  assumes "codec_ok lib" and "ca_mode (cfg_ca cfg) = ''import''" and "ca_export lib ev cfg None = (Inr out, tbl)"
  shows "\<exists>a. out = root_pem lib a \<and> ce_self_sign ev [] [] 10 (au_key a) = Inr (ct_raw (au_cert a)) \<and>
    (\<forall>ev' opts. ce_load ev' = None \<longrightarrow>
       ensure lib ev' opts tbl = (Inr \<lparr>au_cert = au_cert a, au_key = au_key a, au_options = ca_defaults opts\<rparr>, tbl))"
proof -
  from assms(2,3) obtain a where a: "ensure lib ev empty_options None = (Inr a, tbl)" "out = root_pem lib a"
    by (auto simp: ca_export_def embedded_def split: if_splits prod.splits sum.splits)
  have o: "co_import_cert (ca_defaults empty_options) = []" "co_import_key (ca_defaults empty_options) = []"
    "co_common_name (ca_defaults empty_options) = []" "co_organization (ca_defaults empty_options) = []"
    "co_years (ca_defaults empty_options) = 10"
    by (simp_all add: ca_defaults_def empty_options_def)
  have "load_ca lib (ce_load ev) None = Inl CaNoRows"
    using a(1) by (auto simp: ensure_def load_ca_def Let_def split: option.splits)
  with a(1) o have "generate_ca lib ev (ca_defaults empty_options) None = (Inr (au_cert a, au_key a), tbl)"
    by (auto simp: ensure_def Let_def split: prod.splits sum.splits)
  then obtain der where "ce_self_sign ev [] [] 10 (au_key a) = Inr der" "cr_parse lib der = Inr (au_cert a)"
    by (auto simp: generate_ca_def o split: sum.splits prod.splits)
  moreover from this(2) assms(1) have "ct_raw (au_cert a) = der" by (simp add: codec_ok_def)
  ultimately show ?thesis using a(2) ensure_loads[OF assms(1) a(1)]
    by (intro exI[of _ a]) (simp add: ensure_def Let_def)
qed

definition demo_import_config :: config where
  "demo_import_config = demo_pki_config\<lparr>cfg_ca := (cfg_ca demo_pki_config)\<lparr>ca_mode := ''import''\<rparr>\<rparr>"

lemma export_pins_authority_witness:
  "\<exists>tbl a. ca_export demo_crypto demo_ca_env demo_import_config None = (Inr (root_pem demo_crypto a), tbl) \<and>
     (\<forall>opts. snd (ensure demo_crypto demo_ca_env opts tbl) = tbl)"
proof -
  obtain out tbl where h: "ca_export demo_crypto demo_ca_env demo_import_config None = (Inr out, tbl)"
    by (simp add: ca_export_def demo_import_config_def demo_pki_config_def default_config_def embedded_def empty_options_def ensure_def
        load_ca_def demo_ca_env_def ca_defaults_def generate_ca_def insert_ca_def demo_crypto_def Let_def)
  have m: "ca_mode (cfg_ca demo_import_config) = ''import''" by (simp add: demo_import_config_def)
  from export_pins_authority[OF demo_codec_ok m h] obtain a where "out = root_pem demo_crypto a"
    "\<forall>ev' opts. ce_load ev' = None \<longrightarrow> ensure demo_crypto ev' opts tbl =
       (Inr \<lparr>au_cert = au_cert a, au_key = au_key a, au_options = ca_defaults opts\<rparr>, tbl)" by blast
  moreover have "ce_load demo_ca_env = None" by (simp add: demo_ca_env_def)
  ultimately show ?thesis using h by (intro exI[of _ tbl] exI[of _ a]) auto
qed

end
