(* ===== verification/LocalUsers.thy ===== *)
theory LocalUsers
  imports Sessions
begin

section \<open>Local accounts\<close>

text \<open>
  \<open>internal/auth/local.go\<close> and the account commands of \<open>cmd/cairn/admin.go\<close>.  The state is
  the two tables they use, \<open>app_users\<close> and \<open>app_sessions\<close>.  The password hash is argon2id, a
  library outside the repository: \<open>mk\<close> is \<open>CreateHash\<close> (with its random salt as an argument)
  and \<open>cmp\<close> is \<open>ComparePasswordAndHash\<close>.  \<open>argon_laws\<close> is what the code relies on: a hash
  that was made from a password matches that password and no other.  The interpretation at
  the end shows that the store is an \<open>authenticator\<close>.
\<close>

record user_row =
  u_name :: string
  u_hash :: string
  u_role :: role
  u_display :: string
  u_created :: secs

record auth_db =
  db_users :: "user_row list"
  db_sessions :: "session_row list"

record user_summary =
  us_name :: string
  us_role :: role
  us_display :: string
  us_created :: secs

type_synonym make_hash = "string \<Rightarrow> string \<Rightarrow> string + string"
type_synonym compare_hash = "string \<Rightarrow> string \<Rightarrow> string + bool"

definition argon_laws :: "make_hash \<Rightarrow> compare_hash \<Rightarrow> bool" where
  "argon_laws mk cmp \<longleftrightarrow> (\<forall>salt pw h pw'. mk salt pw = Inr h \<longrightarrow> cmp pw' h = Inr (pw' = pw))"

datatype user_err =
    MissingField
  | PasswordTooShort int
  | InvalidRole string
  | HashFailed string
  | UserDb sql_err
  | NoSuchUser string
  | LastAdmin

definition set_min_password_len :: "int \<Rightarrow> int" where
  "set_min_password_len n = (if n < 0 then 0 else n)"

definition create_user ::
  "make_hash \<Rightarrow> int \<Rightarrow> fault \<Rightarrow> nanos \<Rightarrow> string \<Rightarrow> string \<Rightarrow> string \<Rightarrow> role \<Rightarrow> string \<Rightarrow> auth_db \<Rightarrow>
   (user_err + unit) \<times> auth_db" where
  "create_user mk minlen ft now salt u pw r disp db =
     (if u = [] \<or> pw = [] then (Inl MissingField, db)
      else if int (length pw) < minlen then (Inl (PasswordTooShort minlen), db)
      else if \<not> role_valid r then (Inl (InvalidRole r), db)
      else case mk salt pw of
        Inl e \<Rightarrow> (Inl (HashFailed e), db)
      | Inr h \<Rightarrow> (case ft of
          Some e \<Rightarrow> (Inl (UserDb (SqlErr e)), db)
        | None \<Rightarrow>
            if u \<in> set (map u_name (db_users db))
            then (Inl (UserDb (SqlErr ''UNIQUE constraint failed: app_users.username'')), db)
            else (Inr (), db\<lparr>db_users := db_users db @
              [\<lparr>u_name = u, u_hash = h, u_role = r, u_display = disp, u_created = to_secs now\<rparr>]\<rparr>)))"

definition set_password ::
  "make_hash \<Rightarrow> int \<Rightarrow> fault \<Rightarrow> string \<Rightarrow> string \<Rightarrow> string \<Rightarrow> auth_db \<Rightarrow> (user_err + unit) \<times> auth_db" where
  "set_password mk minlen ft salt u pw db =
     (if int (length pw) < minlen then (Inl (PasswordTooShort minlen), db)
      else case mk salt pw of
        Inl e \<Rightarrow> (Inl (HashFailed e), db)
      | Inr h \<Rightarrow> (case ft of
          Some e \<Rightarrow> (Inl (UserDb (SqlErr e)), db)
        | None \<Rightarrow>
            (if affected (\<lambda>r. u_name r = u) (db_users db) = 0 then Inl (NoSuchUser u) else Inr (),
             db\<lparr>db_users := update_where (\<lambda>r. u_name r = u) (\<lambda>r. r\<lparr>u_hash := h\<rparr>) (db_users db)\<rparr>)))"

definition find_user :: "string \<Rightarrow> auth_db \<Rightarrow> user_row option" where
  "find_user u db = List.find (\<lambda>r. u_name r = u) (db_users db)"

definition local_authenticate :: "compare_hash \<Rightarrow> fault \<Rightarrow> auth_db \<Rightarrow> authn" where
  "local_authenticate cmp ft db u pw =
     (case ft of
        Some e \<Rightarrow> Inl (OpError e)
      | None \<Rightarrow> (case find_user u db of
          None \<Rightarrow> Inl InvalidCredentials
        | Some r \<Rightarrow> (case cmp pw (u_hash r) of
            Inl e \<Rightarrow> Inl (OpError (''auth: compare password: '' @ e))
          | Inr match \<Rightarrow>
              if \<not> match then Inl InvalidCredentials
              else Inr \<lparr>id_username = u, id_display = u_display r, id_role = u_role r, id_provider = ''local''\<rparr>)))"

definition user_role :: "fault \<Rightarrow> string \<Rightarrow> auth_db \<Rightarrow> sql_err + role" where
  "user_role ft u db = (case ft of Some e \<Rightarrow> Inl (SqlErr e)
     | None \<Rightarrow> (case find_user u db of None \<Rightarrow> Inl NoRows | Some r \<Rightarrow> Inr (u_role r)))"

definition count_users :: "fault \<Rightarrow> auth_db \<Rightarrow> sql_err + nat" where
  "count_users ft db = (case ft of Some e \<Rightarrow> Inl (SqlErr e) | None \<Rightarrow> Inr (length (db_users db)))"

definition list_users :: "fault \<Rightarrow> auth_db \<Rightarrow> sql_err + user_summary list" where
  "list_users ft db = (case ft of Some e \<Rightarrow> Inl (SqlErr e)
     | None \<Rightarrow> Inr (map (\<lambda>r. \<lparr>us_name = u_name r, us_role = u_role r, us_display = u_display r,
          us_created = u_created r\<rparr>) (sort_key u_name (db_users db))))"

definition admins :: "auth_db \<Rightarrow> nat" where
  "admins db = length (filter (\<lambda>r. u_role r = role_admin) (db_users db))"

definition delete_check :: "fault \<Rightarrow> fault \<Rightarrow> string \<Rightarrow> auth_db \<Rightarrow> user_err + unit" where
  \<comment> \<open>the reads of \<open>DeleteUser\<close>\<close>
  "delete_check f1 f2 u db =
     (case user_role f1 u db of
        Inl NoRows \<Rightarrow> Inl (NoSuchUser u)
      | Inl e \<Rightarrow> Inl (UserDb e)
      | Inr r \<Rightarrow>
          if r = role_admin then
            (case f2 of
               Some e \<Rightarrow> Inl (UserDb (SqlErr e))
             | None \<Rightarrow> if admins db \<le> 1 then Inl LastAdmin else Inr ())
          else Inr ())"

definition delete_apply :: "fault \<Rightarrow> fault \<Rightarrow> string \<Rightarrow> auth_db \<Rightarrow> (user_err + unit) \<times> auth_db" where
  \<comment> \<open>the writes of \<open>DeleteUser\<close>\<close>
  "delete_apply f3 f4 u db =
     (case f3 of
        Some e \<Rightarrow> (Inl (UserDb (SqlErr e)), db)
      | None \<Rightarrow>
          let db1 = db\<lparr>db_users := delete_where (\<lambda>r. u_name r = u) (db_users db)\<rparr> in
          (case delete_by_username f4 u (db_sessions db1) of
             (Inl e, ss) \<Rightarrow> (Inl (UserDb e), db1\<lparr>db_sessions := ss\<rparr>)
           | (Inr n, ss) \<Rightarrow> (Inr (), db1\<lparr>db_sessions := ss\<rparr>)))"

definition delete_user ::
  "fault \<Rightarrow> fault \<Rightarrow> fault \<Rightarrow> fault \<Rightarrow> string \<Rightarrow> auth_db \<Rightarrow> (user_err + unit) \<times> auth_db" where
  "delete_user f1 f2 f3 f4 u db =
     (case delete_check f1 f2 u db of Inl e \<Rightarrow> (Inl e, db) | Inr _ \<Rightarrow> delete_apply f3 f4 u db)"

definition admin_passwd ::
  "make_hash \<Rightarrow> int \<Rightarrow> fault \<Rightarrow> fault \<Rightarrow> string \<Rightarrow> string \<Rightarrow> string \<Rightarrow> auth_db \<Rightarrow> (user_err + unit) \<times> auth_db" where
  \<comment> \<open>\<open>cairn admin passwd\<close>: a failure to revoke the sessions is only a warning\<close>
  "admin_passwd mk minlen ft f2 salt u pw db =
     (if u = [] then (Inl MissingField, db)
      else case set_password mk minlen ft salt u pw db of
        (Inl e, db1) \<Rightarrow> (Inl e, db1)
      | (Inr _, db1) \<Rightarrow> (Inr (), db1\<lparr>db_sessions := snd (delete_by_username f2 u (db_sessions db1))\<rparr>))"

definition admin_add ::
  "make_hash \<Rightarrow> int \<Rightarrow> fault \<Rightarrow> nanos \<Rightarrow> string \<Rightarrow> string \<Rightarrow> string \<Rightarrow> string \<Rightarrow> string \<Rightarrow> auth_db \<Rightarrow>
   (user_err + unit) \<times> auth_db" where
  \<comment> \<open>\<open>cairn admin add\<close>: the role is lower-cased first\<close>
  "admin_add mk minlen ft now salt u pw r disp db =
     (if u = [] then (Inl MissingField, db)
      else if \<not> role_valid (lower r) then (Inl (InvalidRole r), db)
      else create_user mk minlen ft now salt u pw (lower r) disp db)"

definition admin_del :: "fault \<Rightarrow> fault \<Rightarrow> fault \<Rightarrow> fault \<Rightarrow> string \<Rightarrow> auth_db \<Rightarrow> (user_err + unit) \<times> auth_db" where
  "admin_del f1 f2 f3 f4 u db = (if u = [] then (Inl MissingField, db) else delete_user f1 f2 f3 f4 u db)"

datatype user_call =
    CreateUser fault nanos string string string role string
  | SetPassword fault string string string
  | DeleteUser fault fault fault fault string

fun user_step :: "make_hash \<Rightarrow> int \<Rightarrow> user_call \<Rightarrow> auth_db \<Rightarrow> auth_db" where
  "user_step mk minlen (CreateUser ft now salt u pw r disp) db = snd (create_user mk minlen ft now salt u pw r disp db)"
| "user_step mk minlen (SetPassword ft salt u pw) db = snd (set_password mk minlen ft salt u pw db)"
| "user_step mk minlen (DeleteUser f1 f2 f3 f4 u) db = snd (delete_user f1 f2 f3 f4 u db)"

definition user_run :: "make_hash \<Rightarrow> int \<Rightarrow> user_call list \<Rightarrow> auth_db \<Rightarrow> auth_db" where
  "user_run mk minlen cs db = fold (user_step mk minlen) cs db"

subsection \<open>The table's invariant\<close>

definition users_ok :: "auth_db \<Rightarrow> bool" where
  "users_ok db \<longleftrightarrow> distinct (map u_name (db_users db)) \<and> (\<forall>r\<in>set (db_users db). role_valid (u_role r))"

lemma create_user_users:
  "db_users (snd (create_user mk minlen ft now salt u pw r disp db)) =
     db_users db @ (case fst (create_user mk minlen ft now salt u pw r disp db) of Inl _ \<Rightarrow> []
       | Inr _ \<Rightarrow> (case mk salt pw of Inl _ \<Rightarrow> [] | Inr h \<Rightarrow>
           [\<lparr>u_name = u, u_hash = h, u_role = r, u_display = disp, u_created = to_secs now\<rparr>]))"
  by (auto simp: create_user_def split: sum.splits option.splits)

lemma create_user_Inr:
  "fst (create_user mk minlen ft now salt u pw r disp db) = Inr x \<Longrightarrow>
   role_valid r \<and> u \<notin> u_name ` set (db_users db) \<and> u \<noteq> [] \<and> (\<exists>h. mk salt pw = Inr h)"
  by (auto simp: create_user_def split: sum.splits option.splits if_splits)

lemma set_password_users:
  "db_users (snd (set_password mk minlen ft salt u pw db)) = db_users db \<or>
   (\<exists>h. mk salt pw = Inr h \<and> db_users (snd (set_password mk minlen ft salt u pw db)) =
      update_where (\<lambda>r. u_name r = u) (\<lambda>r. r\<lparr>u_hash := h\<rparr>) (db_users db))"
  by (auto simp: set_password_def split: sum.splits option.splits)

lemma delete_apply_users:
  "db_users (snd (delete_apply f3 f4 u db)) = (if f3 = None then delete_where (\<lambda>r. u_name r = u) (db_users db) else db_users db)"
  by (auto simp: delete_apply_def delete_by_username_def Let_def split: option.splits)

lemma delete_user_users:
  "db_users (snd (delete_user f1 f2 f3 f4 u db)) = db_users db \<or>
   (\<exists>x. delete_check f1 f2 u db = Inr x) \<and>
   db_users (snd (delete_user f1 f2 f3 f4 u db)) = delete_where (\<lambda>r. u_name r = u) (db_users db)"
  by (auto simp: delete_user_def delete_apply_users split: sum.splits)

lemma users_ok_hash: "users_ok db \<Longrightarrow> users_ok (db\<lparr>db_users := update_where p (\<lambda>r. r\<lparr>u_hash := h\<rparr>) (db_users db)\<rparr>)"
  by (auto simp: users_ok_def map_update_where set_update_where)

lemma users_ok_cong: "db_users db = db_users db' \<Longrightarrow> users_ok db = users_ok db'"
  by (simp add: users_ok_def)

lemma user_step_ok: "users_ok db \<Longrightarrow> users_ok (user_step mk minlen c db)"
proof (cases c)
  case (CreateUser ft now salt u pw r disp)
  assume "users_ok db"
  then show ?thesis
    using CreateUser create_user_Inr[of mk minlen ft now salt u pw r disp db]
    by (auto simp: users_ok_def create_user_users split: sum.splits)
next
  case (SetPassword ft salt u pw)
  assume ok: "users_ok db"
  from set_password_users[of mk minlen ft salt u pw db] show ?thesis
  proof (elim disjE exE conjE)
    fix h assume "db_users (snd (set_password mk minlen ft salt u pw db)) =
      update_where (\<lambda>r. u_name r = u) (\<lambda>r. r\<lparr>u_hash := h\<rparr>) (db_users db)"
    with users_ok_hash[OF ok, of "\<lambda>r. u_name r = u" h] SetPassword show ?thesis by (simp add: users_ok_def)
  qed (use ok SetPassword in \<open>simp add: users_ok_def\<close>)
next
  case (DeleteUser f1 f2 f3 f4 u)
  assume "users_ok db"
  then show ?thesis
    using DeleteUser delete_user_users[of f1 f2 f3 f4 u db]
    by (auto simp: users_ok_def distinct_map_delete_where)
qed

lemma user_run_ok: "users_ok db \<Longrightarrow> users_ok (user_run mk minlen cs db)"
  unfolding user_run_def by (induction cs arbitrary: db) (simp_all add: user_step_ok)

subsection \<open>The last administrator\<close>

lemma filter_delete_unique:
  assumes "distinct (map g rs)"
  shows "length (filter P rs) \<le> length (filter P (delete_where (\<lambda>r. g r = k) rs)) +
    (case List.find (\<lambda>r. g r = k) rs of Some r \<Rightarrow> if P r then 1 else 0 | None \<Rightarrow> 0)"
  using assms
proof (induction rs)
  case (Cons r rs)
  show ?case
  proof (cases "g r = k")
    case True
    with Cons.prems have "\<And>x. x \<in> set rs \<Longrightarrow> g x \<noteq> k" by (auto simp: image_iff)
    then have "delete_where (\<lambda>r. g r = k) rs = rs" by (simp add: delete_where_def)
    with True show ?thesis by (simp add: table_simps)
  next
    case False
    with Cons show ?thesis by (simp add: table_simps)
  qed
qed (simp add: table_simps)

lemma admins_delete:
  assumes "users_ok db" and "delete_check f1 f2 u db = Inr x" and "0 < admins db"
  shows "0 < length (filter (\<lambda>r. u_role r = role_admin) (delete_where (\<lambda>r. u_name r = u) (db_users db)))"
  using filter_delete_unique[of u_name "db_users db" "\<lambda>r. u_role r = role_admin" u] assms
  by (auto simp: users_ok_def delete_check_def user_role_def find_user_def admins_def
      split: option.splits if_splits sql_err.splits)

lemma admins_step: "users_ok db \<Longrightarrow> 0 < admins db \<Longrightarrow> 0 < admins (user_step mk minlen c db)"
proof (cases c)
  case (CreateUser ft now salt u pw r disp)
  assume "0 < admins db"
  then show ?thesis using CreateUser by (simp add: admins_def create_user_users)
next
  case (SetPassword ft salt u pw)
  have "admins (snd (set_password mk minlen ft salt u pw db)) = admins db"
    using set_password_users[of mk minlen ft salt u pw db] by (auto simp: admins_def filter_update_where)
  moreover assume "0 < admins db"
  ultimately show ?thesis using SetPassword by simp
next
  case (DeleteUser f1 f2 f3 f4 u)
  assume "users_ok db" "0 < admins db"
  then show ?thesis using DeleteUser delete_user_users[of f1 f2 f3 f4 u db] admins_delete[of db f1 f2 u]
    by (auto simp: admins_def simp del: length_greater_0_conv)
qed

text \<open>
  C17: The console is never locked: as long as the account operations run one at a time, an
  administrator that exists at the start is never the last one deleted, whatever is created,
  reset or deleted and whichever statements fail.
\<close>

theorem last_admin_kept:
  assumes "users_ok db" and "0 < admins db"
  shows "0 < admins (user_run mk minlen cs db)"
  using assms unfolding user_run_def
  by (induction cs arbitrary: db) (simp_all add: admins_step user_step_ok)

definition demo_user :: "string \<Rightarrow> user_row" where
  "demo_user u = \<lparr>u_name = u, u_hash = ''pw'', u_role = role_admin, u_display = [], u_created = 0\<rparr>"

definition demo_db :: "string list \<Rightarrow> auth_db" where
  "demo_db us = \<lparr>db_users = map demo_user us, db_sessions = []\<rparr>"

definition plain_hash :: make_hash where "plain_hash salt pw = Inr pw"

definition plain_cmp :: compare_hash where "plain_cmp pw h = Inr (pw = h)"

lemma plain_laws: "argon_laws plain_hash plain_cmp"
  by (auto simp: argon_laws_def plain_hash_def plain_cmp_def)

theorem last_admin_kept_witness:
  "0 < admins (user_run plain_hash 8 [DeleteUser None None None None ''ann''] (demo_db [''ann'']))"
  by (rule last_admin_kept) (simp_all add: users_ok_def admins_def demo_db_def demo_user_def)

text \<open>
  The check that protects the last administrator and the deletion are separate
  statements: when two deletions of two different administrators both check before either
  deletes, both go through and none is left.
\<close>

theorem delete_user_race:
  "delete_check None None ''ann'' (demo_db [''ann'', ''bob'']) = Inr () \<and>
   delete_check None None ''bob'' (demo_db [''ann'', ''bob'']) = Inr () \<and>
   admins (snd (delete_apply None None ''bob'' (snd (delete_apply None None ''ann'' (demo_db [''ann'', ''bob'']))))) = 0"
  by (simp add: delete_check_def user_role_def find_user_def demo_db_def demo_user_def admins_def
      delete_apply_def delete_by_username_def delete_where_def Let_def)

subsection \<open>Passwords\<close>

definition concerns :: "string \<Rightarrow> user_call \<Rightarrow> bool" where
  "concerns u c \<longleftrightarrow> (case c of
      CreateUser ft now salt v pw r d \<Rightarrow> False
    | SetPassword ft salt v pw \<Rightarrow> v = u
    | DeleteUser f1 f2 f3 f4 v \<Rightarrow> v = u)"

lemma find_user_step:
  assumes "find_user u db = Some r" and "\<not> concerns u c"
  shows "find_user u (user_step mk minlen c db) = Some r"
proof (cases c)
  case (CreateUser ft now salt v pw r d)
  with assms(1) show ?thesis by (simp add: find_user_def create_user_users find_append)
next
  case (SetPassword ft salt v pw)
  with assms(2) have "v \<noteq> u" by (auto simp: concerns_def)
  moreover have "u_name r = u" using assms(1) by (auto simp: find_user_def find_Some_iff)
  ultimately show ?thesis using SetPassword assms(1) set_password_users[of mk minlen ft salt v pw db]
    by (auto simp: find_user_def find_update_where)
next
  case (DeleteUser f1 f2 f3 f4 v)
  with assms(2) have "v \<noteq> u" by (auto simp: concerns_def)
  with DeleteUser assms(1) delete_user_users[of f1 f2 f3 f4 v db] show ?thesis
    by (auto simp: find_user_def find_delete_other)
qed

lemma find_user_run:
  "find_user u db = Some r \<Longrightarrow> (\<And>c. c \<in> set cs \<Longrightarrow> \<not> concerns u c) \<Longrightarrow>
   find_user u (user_run mk minlen cs db) = Some r"
  unfolding user_run_def by (induction cs arbitrary: db) (simp_all add: find_user_step)

lemma authenticate_found:
  assumes "argon_laws mk cmp" and "mk salt pw = Inr (u_hash r)" and "find_user u db = Some r"
  shows "local_authenticate cmp None db u pw' =
    (if pw' = pw then Inr \<lparr>id_username = u, id_display = u_display r, id_role = u_role r, id_provider = ''local''\<rparr>
     else Inl InvalidCredentials)"
  using assms by (simp add: local_authenticate_def argon_laws_def)

lemma created_account_found:
  assumes "create_user mk minlen ft now salt u pw r disp db = (Inr (), db1)"
  shows "\<exists>h. mk salt pw = Inr h \<and>
    find_user u db1 = Some \<lparr>u_name = u, u_hash = h, u_role = r, u_display = disp, u_created = to_secs now\<rparr>"
proof -
  from assms have i: "fst (create_user mk minlen ft now salt u pw r disp db) = Inr ()" by simp
  from create_user_Inr[OF i] obtain h where h: "mk salt pw = Inr h" "u \<notin> u_name ` set (db_users db)" by blast
  let ?row = "\<lparr>u_name = u, u_hash = h, u_role = r, u_display = disp, u_created = to_secs now\<rparr>"
  have "db_users db1 = db_users db @ [?row]"
    using create_user_users[of mk minlen ft now salt u pw r disp db] i h assms by simp
  with h(2) have "find_user u db1 = Some ?row"
    by (simp add: find_user_def find_append find_None_key[THEN iffD2])
  with h(1) show ?thesis by blast
qed

text \<open>
  A created account can log in with exactly its password, gets exactly the role and
  display name it was created with, and this stays so through every later operation that is
  not a password reset or deletion of that account.
\<close>

theorem created_account_logs_in:
  assumes "argon_laws mk cmp" and "create_user mk minlen ft now salt u pw r disp db = (Inr (), db1)"
    and "\<forall>c\<in>set cs. \<not> concerns u c"
  shows "local_authenticate cmp None (user_run mk minlen cs db1) u pw' =
    (if pw' = pw then Inr \<lparr>id_username = u, id_display = disp, id_role = r, id_provider = ''local''\<rparr>
     else Inl InvalidCredentials)"
proof -
  from created_account_found[OF assms(2)] obtain h row where h: "mk salt pw = Inr h" "find_user u db1 = Some row"
    and row: "row = \<lparr>u_name = u, u_hash = h, u_role = r, u_display = disp, u_created = to_secs now\<rparr>" by blast
  from find_user_run[OF h(2), of cs mk minlen] assms(3)
  have "find_user u (user_run mk minlen cs db1) = Some row" by blast
  from authenticate_found[OF assms(1) _ this, of salt pw] h(1) row show ?thesis by simp
qed

theorem created_account_logs_in_witness:
  "local_authenticate plain_cmp None
     (user_run plain_hash 8 [DeleteUser None None None None ''bob'']
        (snd (create_user plain_hash 8 None 0 [] ''ann'' ''secret42'' role_user ''Ann'' (demo_db [''bob'']))))
     ''ann'' ''secret42'' = Inr \<lparr>id_username = ''ann'', id_display = ''Ann'', id_role = role_user, id_provider = ''local''\<rparr>"
proof -
  let ?r = "create_user plain_hash 8 None 0 [] ''ann'' ''secret42'' role_user ''Ann'' (demo_db [''bob''])"
  have c: "?r = (Inr (), snd ?r)" by (simp add: create_user_def plain_hash_def demo_db_def demo_user_def)
  have "\<forall>c\<in>set [DeleteUser None None None None ''bob'']. \<not> concerns ''ann'' c" by (simp add: concerns_def)
  from created_account_logs_in[OF plain_laws c this, of "''secret42''"] show ?thesis by simp
qed

text \<open>
  After \<open>cairn admin passwd\<close> succeeds, only the new password logs the user in, no
  session of the user is left, and every other account and session is as before.
\<close>

theorem password_reset_effective:
  assumes "argon_laws mk cmp" and "admin_passwd mk minlen ft None salt u pw db = (Inr (), db')"
  shows "(\<forall>pw'. (\<exists>i. local_authenticate cmp None db' u pw' = Inr i) \<longleftrightarrow> pw' = pw) \<and>
    (\<forall>s\<in>set (db_sessions db'). s_username s \<noteq> u) \<and>
    (\<forall>v. v \<noteq> u \<longrightarrow> find_user v db' = find_user v db) \<and>
    (\<forall>s\<in>set (db_sessions db). s_username s \<noteq> u \<longrightarrow> s \<in> set (db_sessions db'))"
proof -
  from assms(2) obtain h where h: "mk salt pw = Inr h" "affected (\<lambda>r. u_name r = u) (db_users db) \<noteq> 0"
    "db' = \<lparr>db_users = update_where (\<lambda>r. u_name r = u) (\<lambda>r. r\<lparr>u_hash := h\<rparr>) (db_users db),
            db_sessions = delete_where (\<lambda>r. s_username r = u) (db_sessions db)\<rparr>"
    by (cases db) (auto simp: admin_passwd_def set_password_def delete_by_username_def
        split: if_splits sum.splits option.splits)
  have f: "find_user v db' = map_option (\<lambda>r. if u_name r = u then r\<lparr>u_hash := h\<rparr> else r) (find_user v db)" for v
    unfolding find_user_def h(3) auth_db.select_convs by (rule find_update_where) simp
  from h(2) obtain r where r: "find_user u db = Some r" "u_name r = u"
    by (cases "find_user u db") (auto simp: affected_0 find_user_def find_None_iff find_Some_iff)
  have "local_authenticate cmp None db' u pw' =
    (if pw' = pw then Inr \<lparr>id_username = u, id_display = u_display r, id_role = u_role r, id_provider = ''local''\<rparr>
     else Inl InvalidCredentials)" for pw'
    using authenticate_found[OF assms(1), of salt pw "r\<lparr>u_hash := h\<rparr>" u db' pw'] f[of u] r h(1) by simp
  moreover have "find_user v db' = find_user v db" if "v \<noteq> u" for v
  proof (cases "find_user v db")
    case (Some x)
    then have "u_name x = v" by (auto simp: find_user_def find_Some_iff)
    with Some f[of v] that show ?thesis by simp
  qed (simp add: f)
  ultimately show ?thesis using h(3) by auto
qed

theorem password_reset_effective_witness:
  "\<exists>i. local_authenticate plain_cmp None
     (snd (admin_passwd plain_hash 8 None None [] ''ann'' ''newsecret'' (demo_db [''ann'', ''bob'']))) ''ann'' ''newsecret'' = Inr i"
proof -
  let ?r = "admin_passwd plain_hash 8 None None [] ''ann'' ''newsecret'' (demo_db [''ann'', ''bob''])"
  have "?r = (Inr (), snd ?r)"
    by (simp add: admin_passwd_def set_password_def plain_hash_def demo_db_def demo_user_def affected_def)
  from password_reset_effective[OF plain_laws this] show ?thesis by blast
qed

subsection \<open>The store is an authenticator\<close>

interpretation lu: authenticator "local_authenticate cmp ft" users_ok for cmp ft
proof unfold_locales
  fix st u p ident
  assume ok: "users_ok st" and a: "local_authenticate cmp ft st u p = Inr ident"
  then obtain r where "r \<in> set (db_users st)" "id_role ident = u_role r"
    by (auto simp: local_authenticate_def find_user_def dest!: find_SomeD split: option.splits sum.splits if_splits)
  with ok show "role_valid (id_role ident)" by (simp add: users_ok_def)
qed

end
