(* ===== verification/Directory.thy ===== *)
theory Directory
  imports Config LocalUsers "HOL-Library.Multiset"
begin

section \<open>Directory and single sign-on providers\<close>

text \<open>
  \<open>internal/auth/ldap/ldap.go\<close>, \<open>internal/auth/oidc/oidc.go\<close> and \<open>cmd/cairn/authn.go\<close>.  The
  libraries are parameters: an LDAP connection is the record of what its \<open>Bind\<close> and \<open>Search\<close>
  answer, \<open>esc\<close> is \<open>goldap.EscapeFilter\<close>, the OIDC library gives the token exchange and the
  verification of an ID token.  An error of the LDAP client is a message; \<open>BadCredentials\<close> is
  the one with result code 49.  A Go map is iterated in the order of its list, so a theorem
  for every list is one for every iteration order.
\<close>

subsection \<open>Group mapping\<close>

definition lookup_fold :: "(string \<times> string) list \<Rightarrow> string \<Rightarrow> string option" where
  \<comment> \<open>\<open>lookupDN\<close> and \<open>lookupGroup\<close>\<close>
  "lookup_fold m g = map_option snd (List.find (\<lambda>(k, v). equal_fold k g) m)"

fun map_role_loop :: "(string \<times> string) list \<Rightarrow> string list \<Rightarrow> role \<Rightarrow> role" where
  "map_role_loop m [] r = r"
| "map_role_loop m (g # gs) r =
     (case lookup_fold m g of
        None \<Rightarrow> map_role_loop m gs r
      | Some v \<Rightarrow> map_role_loop m gs (if role_valid v \<and> at_least v r then v else r))"

definition ldap_map_role :: "ldap_cfg \<Rightarrow> string list \<Rightarrow> role" where
  "ldap_map_role cfg member_of = map_role_loop (ldap_group_roles cfg) member_of (ldap_default_role cfg)"

definition oidc_map_role :: "oidc_cfg \<Rightarrow> string list \<Rightarrow> role" where
  "oidc_map_role cfg groups =
     map_role_loop (oidc_group_roles cfg) groups
       (if role_valid (oidc_default_role cfg) then oidc_default_role cfg else role_user)"

definition grants_role :: "(string \<times> string) list \<Rightarrow> string list \<Rightarrow> role \<Rightarrow> bool" where
  "grants_role m gs r \<longleftrightarrow> role_valid r \<and> (\<exists>g\<in>set gs. lookup_fold m g = Some r)"

lemma grants_role_Cons: "grants_role m (g # gs) r \<longleftrightarrow> role_valid r \<and> lookup_fold m g = Some r \<or> grants_role m gs r"
  by (auto simp: grants_role_def)

lemma map_role_loop_spec:
  "(map_role_loop m gs r = r \<or> grants_role m gs (map_role_loop m gs r)) \<and>
   at_least (map_role_loop m gs r) r \<and> (\<forall>v. grants_role m gs v \<longrightarrow> at_least (map_role_loop m gs r) v)"
proof (induction gs arbitrary: r)
  case Nil
  show ?case by (simp add: grants_role_def)
next
  case (Cons g gs)
  show ?case
  proof (cases "lookup_fold m g")
    case None
    with Cons[of r] show ?thesis by (simp add: grants_role_Cons)
  next
    case (Some v)
    show ?thesis
    proof (cases "role_valid v \<and> at_least v r")
      case True
      with Cons[of v] Some show ?thesis
        by (simp add: grants_role_Cons) (metis at_least_trans)
    next
      case False
      with at_least_total have "role_valid v \<longrightarrow> at_least r v" by blast
      with Cons[of r] Some False show ?thesis
        by (simp add: grants_role_Cons) (blast intro: at_least_trans)
    qed
  qed
qed

lemma map_role_loop_unique:
  assumes "r' = r \<or> grants_role m gs r'" and "at_least r' r" and "\<forall>v. grants_role m gs v \<longrightarrow> at_least r' v"
    and "role_valid r"
  shows "map_role_loop m gs r = r'"
proof -
  note s = map_role_loop_spec[of m gs r]
  have "rank (map_role_loop m gs r) = rank r'"
    using s assms unfolding at_least_def by (metis le_antisym)
  moreover have "role_valid (map_role_loop m gs r)" "role_valid r'"
    using s assms(1,4) by (auto simp: grants_role_def)
  ultimately show ?thesis by (rule rank_inj[rotated 2])
qed

lemma lookup_fold_unique:
  assumes "distinct (map (lower \<circ> fst) m)"
  shows "lookup_fold m g = Some v \<longleftrightarrow> (\<exists>k. (k, v) \<in> set m \<and> equal_fold k g)"
proof -
  have p: "(\<lambda>(k, v). equal_fold k g) = (\<lambda>e. (lower \<circ> fst) e = lower g)"
    by (auto simp: equal_fold_def)
  have "List.find (\<lambda>(k, v). equal_fold k g) m = Some e \<longleftrightarrow> e \<in> set m \<and> equal_fold (fst e) g" for e
    unfolding p by (subst find_Some_iff_unique[OF assms]) (simp add: equal_fold_def)
  then show ?thesis by (force simp: lookup_fold_def)
qed

text \<open>
  The role of a directory user is the highest of the default role and the known roles
  that the configuration maps his groups to, and it is one of those: no role comes from
  anywhere else.
\<close>

theorem ldap_role_highest:
  "(ldap_map_role cfg groups = ldap_default_role cfg \<or>
      grants_role (ldap_group_roles cfg) groups (ldap_map_role cfg groups)) \<and>
   at_least (ldap_map_role cfg groups) (ldap_default_role cfg) \<and>
   (\<forall>v. grants_role (ldap_group_roles cfg) groups v \<longrightarrow> at_least (ldap_map_role cfg groups) v)"
  unfolding ldap_map_role_def by (rule map_role_loop_spec)

definition demo_dir :: ldap_cfg where
  "demo_dir = zero_ldap\<lparr>ldap_enabled := True, ldap_servers := [''ldaps://dc1'', ''ldaps://dc2''], base_dn := ''DC=x'',
     bind_dn := ''CN=svc'', bind_password := ''svcpw'', ldap_default_role := role_user,
     user_filter := ''(uid=%s)'',
     ldap_group_roles := [(''CN=Ops'', role_operator), (''CN=Admins'', role_admin)]\<rparr>"

theorem ldap_role_highest_witness:
  "ldap_map_role demo_dir [''cn=ops'', ''cn=admins'', ''cn=other''] = role_admin"
proof -
  have "grants_role (ldap_group_roles demo_dir) [''cn=ops'', ''cn=admins'', ''cn=other''] role_admin"
    by code_simp
  with ldap_role_highest[of demo_dir "[''cn=ops'', ''cn=admins'', ''cn=other'']"] show ?thesis
    by (metis at_least_admin)
qed

text \<open>
  When no two configured groups differ only in case, the role depends neither on the
  order of the user's groups nor on the order in which the map is iterated.
\<close>

theorem ldap_role_order_free:
  assumes "distinct (map (lower \<circ> fst) (ldap_group_roles cfg))" and "role_valid (ldap_default_role cfg)"
    and "mset groups = mset groups'" and "mset (ldap_group_roles cfg) = mset m"
  shows "ldap_map_role (cfg\<lparr>ldap_group_roles := m\<rparr>) groups' = ldap_map_role cfg groups"
proof -
  let ?m = "ldap_group_roles cfg"
  have "mset (map (lower \<circ> fst) ?m) = mset (map (lower \<circ> fst) m)"
    using assms(4) unfolding mset_map by (rule arg_cong)
  then have d: "distinct (map (lower \<circ> fst) m)" using assms(1) by (metis mset_eq_imp_distinct_iff)
  have sets: "set groups = set groups'" "set ?m = set m"
    using assms(3,4) by (auto dest: mset_eq_setD)
  have "grants_role m groups' v \<longleftrightarrow> grants_role ?m groups v" for v
    by (simp add: grants_role_def sets lookup_fold_unique[OF d] lookup_fold_unique[OF assms(1)])
  then show ?thesis
    using map_role_loop_spec[of ?m groups "ldap_default_role cfg"] assms(2)
    unfolding ldap_map_role_def by (intro map_role_loop_unique) simp_all
qed

theorem ldap_role_order_free_witness:
  "ldap_map_role (demo_dir\<lparr>ldap_group_roles := [(''CN=Admins'', role_admin), (''CN=Ops'', role_operator)]\<rparr>)
     [''cn=admins'', ''cn=ops''] = ldap_map_role demo_dir [''cn=ops'', ''cn=admins'']"
  by (rule ldap_role_order_free)
    (simp_all add: demo_dir_def lower_def to_lower_def in_range_def role_names role_valid_def add_mset_commute)

text \<open>
  When two configured groups differ only in case and map to different roles, the same
  user gets either role, depending on the order in which the map happens to be iterated.
\<close>

theorem case_collision_ambiguous:
  "ldap_map_role (demo_dir\<lparr>ldap_group_roles := [(''CN=Ops'', role_admin), (''cn=ops'', role_operator)]\<rparr>) [''CN=Ops''] = role_admin \<and>
   ldap_map_role (demo_dir\<lparr>ldap_group_roles := [(''cn=ops'', role_operator), (''CN=Ops'', role_admin)]\<rparr>) [''CN=Ops''] = role_operator"
  by code_simp

subsection \<open>The directory provider\<close>

record ldap_entry =
  le_dn :: string
  le_account :: string
  le_display :: string
  le_cn :: string
  le_member_of :: "string list"

datatype bind_err = BadCredentials | BindFailed string

record ldap_conn =
  c_bind :: "string \<Rightarrow> string \<Rightarrow> bind_err option"
  c_search :: "string \<Rightarrow> string \<Rightarrow> string + ldap_entry list"

type_synonym dialer = "string \<Rightarrow> string + ldap_conn"

definition ldap_provider_cfg :: "ldap_cfg \<Rightarrow> ldap_cfg" where
  \<comment> \<open>the defaults that \<open>New\<close> fills in\<close>
  "ldap_provider_cfg cfg = cfg\<lparr>
     user_filter := (if user_filter cfg = [] then ''(&(objectClass=user)(sAMAccountName=%s))'' else user_filter cfg),
     ldap_default_role := (if ldap_default_role cfg = [] then role_user else ldap_default_role cfg)\<rparr>"

function replace_all :: "string \<Rightarrow> string \<Rightarrow> string \<Rightarrow> string" where
  \<comment> \<open>\<open>strings.ReplaceAll\<close> for a non-empty \<open>old\<close>\<close>
  "replace_all old new s =
     (if s = [] \<or> old = [] then s
      else if has_prefix s old then new @ replace_all old new (drop (length old) s)
      else hd s # replace_all old new (tl s))"
  by pat_completeness auto

termination
  by (relation "measure (\<lambda>(old, new, s). length s)") (auto simp: has_prefix_iff)

declare replace_all.simps [simp del]

fun bind_error :: "string \<Rightarrow> bind_err \<Rightarrow> string" where
  "bind_error p BadCredentials = p @ ''LDAP Result Code 49''"
| "bind_error p (BindFailed e) = p @ e"

definition user_identity :: "ldap_cfg \<Rightarrow> string \<Rightarrow> ldap_entry \<Rightarrow> identity" where
  "user_identity cfg username e =
     \<lparr>id_username = (if le_account e = [] then username else le_account e),
      id_display = (if le_display e = [] then le_cn e else le_display e),
      id_role = ldap_map_role cfg (le_member_of e), id_provider = ''ldap''\<rparr>"

definition authenticate_via ::
  "(string \<Rightarrow> string) \<Rightarrow> dialer \<Rightarrow> ldap_cfg \<Rightarrow> string \<Rightarrow> string \<Rightarrow> string \<Rightarrow> auth_err + identity" where
  "authenticate_via esc dial cfg server username password =
     (case dial server of
        Inl e \<Rightarrow> Inl (OpError e)
      | Inr conn \<Rightarrow>
         (case c_bind conn (bind_dn cfg) (bind_password cfg) of
            Some e \<Rightarrow> Inl (OpError (bind_error ''service bind: '' e))
          | None \<Rightarrow>
             (case c_search conn (base_dn cfg) (replace_all ''%s'' (esc username) (user_filter cfg)) of
                Inl e \<Rightarrow> Inl (OpError (''user search: '' @ e))
              | Inr [] \<Rightarrow> Inl InvalidCredentials
              | Inr [entry] \<Rightarrow>
                 (case c_bind conn (le_dn entry) password of
                    Some BadCredentials \<Rightarrow> Inl InvalidCredentials
                  | Some e \<Rightarrow> Inl (OpError (bind_error ''user bind: '' e))
                  | None \<Rightarrow> Inr (user_identity cfg username entry))
              | Inr (_ # _ # _) \<Rightarrow> Inl (OpError ''user search: filter matched several entries''))))"

fun try_servers :: "(string \<Rightarrow> auth_err + identity) \<Rightarrow> string list \<Rightarrow> string option \<Rightarrow> auth_err + identity" where
  "try_servers via [] last_err =
     Inl (OpError (''ldap: all servers failed: '' @
       (case last_err of None \<Rightarrow> ''ldap: no servers configured'' | Some e \<Rightarrow> e)))"
| "try_servers via (s # ss) last_err =
     (case via s of
        Inr ident \<Rightarrow> Inr ident
      | Inl InvalidCredentials \<Rightarrow> Inl InvalidCredentials
      | Inl (OpError e) \<Rightarrow> try_servers via ss (Some e))"

definition ldap_authenticate :: "(string \<Rightarrow> string) \<Rightarrow> dialer \<Rightarrow> ldap_cfg \<Rightarrow> authn" where
  "ldap_authenticate esc dial cfg username password =
     (if username = [] \<or> password = [] then Inl InvalidCredentials
      else try_servers (\<lambda>s. authenticate_via esc dial cfg s username password) (ldap_servers cfg) None)"

lemma try_servers_Inr:
  "try_servers via ss l = Inr ident \<Longrightarrow>
   \<exists>pre s post. ss = pre @ s # post \<and> via s = Inr ident \<and> (\<forall>t\<in>set pre. \<exists>e. via t = Inl (OpError e))"
proof (induction ss arbitrary: l)
  case (Cons t ss)
  show ?case
  proof (cases "via t")
    case (Inr i)
    with Cons.prems have "t # ss = [] @ t # ss \<and> via t = Inr ident \<and> (\<forall>u\<in>set []. \<exists>e. via u = Inl (OpError e))" by simp
    then show ?thesis by (intro exI)
  next
    case (Inl err)
    with Cons.prems obtain e where e: "via t = Inl (OpError e)" "try_servers via ss (Some e) = Inr ident"
      by (cases err) auto
    from Cons.IH[OF e(2)] obtain pre s post where "ss = pre @ s # post" "via s = Inr ident"
      "\<forall>u\<in>set pre. \<exists>e. via u = Inl (OpError e)" by blast
    with e(1) have "t # ss = (t # pre) @ s # post \<and> via s = Inr ident \<and> (\<forall>u\<in>set (t # pre). \<exists>e. via u = Inl (OpError e))"
      by simp
    then show ?thesis by (intro exI)
  qed
qed simp

lemma authenticate_via_Inr:
  assumes "authenticate_via esc dial cfg s u pw = Inr ident"
  shows "\<exists>conn e. dial s = Inr conn \<and> c_bind conn (bind_dn cfg) (bind_password cfg) = None \<and>
    c_search conn (base_dn cfg) (replace_all ''%s'' (esc u) (user_filter cfg)) = Inr [e] \<and>
    c_bind conn (le_dn e) pw = None \<and> ident = user_identity cfg u e"
  using assms by (auto simp: authenticate_via_def split: sum.splits option.splits list.splits bind_err.splits)

text \<open>
  C30: A directory login succeeds only if a configured server, reached after nothing but
  operational failures of the servers before it, found exactly one entry for the escaped user
  name and accepted a bind as that entry with the given, non-empty password; the identity is
  that entry's, with the role its groups map to.
\<close>

theorem ldap_login_verified:
  assumes "ldap_authenticate esc dial cfg u pw = Inr ident"
  shows "u \<noteq> [] \<and> pw \<noteq> [] \<and> (\<exists>pre s post conn e. ldap_servers cfg = pre @ s # post \<and>
      (\<forall>t\<in>set pre. \<exists>m. authenticate_via esc dial cfg t u pw = Inl (OpError m)) \<and> dial s = Inr conn \<and>
      c_search conn (base_dn cfg) (replace_all ''%s'' (esc u) (user_filter cfg)) = Inr [e] \<and>
      c_bind conn (le_dn e) pw = None \<and> id_provider ident = ''ldap'' \<and>
      id_role ident = ldap_map_role cfg (le_member_of e) \<and>
      id_username ident = (if le_account e = [] then u else le_account e))"
proof -
  from assms have u: "u \<noteq> []" "pw \<noteq> []"
    and t: "try_servers (\<lambda>s. authenticate_via esc dial cfg s u pw) (ldap_servers cfg) None = Inr ident"
    by (auto simp: ldap_authenticate_def split: if_splits)
  from try_servers_Inr[OF t] obtain pre s post where s: "ldap_servers cfg = pre @ s # post"
    "authenticate_via esc dial cfg s u pw = Inr ident"
    "\<forall>t\<in>set pre. \<exists>m. authenticate_via esc dial cfg t u pw = Inl (OpError m)" by blast
  from authenticate_via_Inr[OF s(2)] obtain conn e where e: "dial s = Inr conn"
    "c_search conn (base_dn cfg) (replace_all ''%s'' (esc u) (user_filter cfg)) = Inr [e]"
    "c_bind conn (le_dn e) pw = None" "ident = user_identity cfg u e" by blast
  show ?thesis
    using u s(1,3) e
    by (intro conjI exI[of _ pre] exI[of _ s] exI[of _ post] exI[of _ conn] exI[of _ e])
      (simp_all add: user_identity_def)
qed

definition demo_conn :: ldap_conn where
  "demo_conn = \<lparr>c_bind = (\<lambda>dn pw. if dn = ''CN=svc'' \<and> pw = ''svcpw'' \<or> dn = ''CN=Ann'' \<and> pw = ''hunter2'' then None
       else Some BadCredentials),
     c_search = (\<lambda>base f. if f = ''(uid=ann)'' then Inr [\<lparr>le_dn = ''CN=Ann'', le_account = ''ann'',
       le_display = [], le_cn = ''Ann'', le_member_of = [''CN=Ops'']\<rparr>] else Inr [])\<rparr>"

definition demo_dial :: dialer where
  "demo_dial s = (if s = ''ldaps://dc1'' then Inl ''connection refused'' else Inr demo_conn)"

lemma demo_ldap_login:
  "ldap_authenticate (\<lambda>s. s) demo_dial demo_dir ''ann'' ''hunter2'' =
   Inr \<lparr>id_username = ''ann'', id_display = ''Ann'', id_role = role_operator, id_provider = ''ldap''\<rparr>"
  by code_simp

theorem ldap_login_verified_witness:
  "\<exists>pre s post. [''ldaps://dc1'', ''ldaps://dc2''] = pre @ s # post \<and> (\<exists>conn. demo_dial s = Inr conn)"
  using ldap_login_verified[OF demo_ldap_login] unfolding demo_dir_def by fastforce

definition definite :: "auth_err + identity \<Rightarrow> bool" where
  "definite r \<longleftrightarrow> (\<nexists>e. r = Inl (OpError e))"

definition op_message :: "auth_err + identity \<Rightarrow> string" where
  "op_message r = (case r of Inl (OpError e) \<Rightarrow> e | _ \<Rightarrow> [])"

lemma definite_simps [simp]:
  "definite (Inr i)" "definite (Inl InvalidCredentials)" "\<not> definite (Inl (OpError e))"
  by (simp_all add: definite_def)

lemma try_servers_spec:
  "try_servers via ss l =
    (case List.find definite (map via ss) of
       Some r \<Rightarrow> r
     | None \<Rightarrow> Inl (OpError (''ldap: all servers failed: '' @
         (if ss = [] then (case l of None \<Rightarrow> ''ldap: no servers configured'' | Some e \<Rightarrow> e)
          else op_message (via (last ss))))))"
proof (induction ss arbitrary: l)
  case (Cons s ss)
  show ?case
  proof (cases "via s")
    case (Inl err)
    with Cons show ?thesis
      by (cases err; cases "ss = []") (simp_all add: op_message_def split: option.splits)
  qed simp
qed simp

text \<open>
  The login fails over exactly over operational failures: the first server that gives a
  definitive answer decides, an acceptance or a rejection alike, whatever the servers after
  it say; when every server fails the answer is an operational error and never a rejection.
\<close>

theorem ldap_failover:
  assumes "u \<noteq> []" and "pw \<noteq> []"
  shows "ldap_authenticate esc dial cfg u pw =
    (case List.find definite (map (\<lambda>s. authenticate_via esc dial cfg s u pw) (ldap_servers cfg)) of
       Some r \<Rightarrow> r
     | None \<Rightarrow> Inl (OpError (''ldap: all servers failed: '' @
         (if ldap_servers cfg = [] then ''ldap: no servers configured''
          else op_message (authenticate_via esc dial cfg (last (ldap_servers cfg)) u pw)))))"
  using assms by (simp add: ldap_authenticate_def try_servers_spec)

theorem ldap_failover_witness:
  "ldap_authenticate (\<lambda>s. s) demo_dial demo_dir ''ann'' ''wrong'' = Inl InvalidCredentials"
proof -
  have m: "map (\<lambda>s. authenticate_via (\<lambda>s. s) demo_dial demo_dir s ''ann'' ''wrong'') (ldap_servers demo_dir) =
      [Inl (OpError ''connection refused''), Inl InvalidCredentials]" by code_simp
  show ?thesis by (subst ldap_failover) (simp_all add: m)
qed

subsection \<open>Connecting\<close>

text \<open>
  The default dialer.  A TLS configuration is the trusted pool (\<open>None\<close>: the system roots)
  and the host name the certificate must carry; \<open>dial_url\<close> (\<open>goldap.DialURL\<close>) and \<open>start_tls\<close>
  are the library's, \<open>hostname\<close> is \<open>URL.Hostname\<close> of the host part.
\<close>

record tls_client =
  root_pool :: "string option"
  server_name :: string

definition ldap_pool ::
  "(string \<Rightarrow> string + string) \<Rightarrow> (string \<Rightarrow> bool) \<Rightarrow> string \<Rightarrow> string + string option" where
  \<comment> \<open>the pool of \<open>ca_file\<close>; \<open>has_certs\<close> is the answer of \<open>AppendCertsFromPEM\<close>\<close>
  "ldap_pool read_file has_certs ca_file =
     (if ca_file = [] then Inr None
      else case read_file ca_file of
        Inl e \<Rightarrow> Inl (''ldap: read ca_file: '' @ e)
      | Inr pem \<Rightarrow> if has_certs pem then Inr (Some pem)
                  else Inl (''ldap: ca_file '' @ ca_file @ '' contains no certificates''))"

definition ldap_dial ::
  "url_parser \<Rightarrow> (string \<Rightarrow> string) \<Rightarrow> (string \<Rightarrow> tls_client option \<Rightarrow> string + 'c) \<Rightarrow> ('c \<Rightarrow> tls_client \<Rightarrow> string + 'c) \<Rightarrow>
   bool \<Rightarrow> string option \<Rightarrow> string \<Rightarrow> string + 'c" where
  "ldap_dial parse_url hostname dial_url start_tls_on want_tls pool server =
     (case parse_url server of
        None \<Rightarrow> Inl ''parse url''
      | Some (scheme, host) \<Rightarrow>
          let opts = (if scheme = ''ldaps'' \<and> pool \<noteq> None
                      then Some \<lparr>root_pool = pool, server_name = hostname host\<rparr> else None)
          in case dial_url server opts of
               Inl e \<Rightarrow> Inl e
             | Inr conn \<Rightarrow>
                 if scheme = ''ldap'' \<and> want_tls
                 then start_tls_on conn \<lparr>root_pool = pool, server_name = hostname host\<rparr>
                 else Inr conn)"

text \<open>
  With a directory configuration that \<open>Validate\<close> accepts, no connection is ever used in
  clear text: each one the dialer returns was dialled to an \<open>ldaps\<close> URL, with the configured
  pool and the URL's host name pinned when there is a pool, or upgraded by StartTLS with that
  host name.
\<close>

theorem ldap_never_in_clear:
  assumes "validate_ldap parse_url cfg = []" and "ldap_enabled cfg" and "server \<in> set (ldap_servers cfg)"
    and "ldap_dial parse_url hostname dial_url start_tls_on (start_tls cfg) pool server = Inr conn"
  shows "\<exists>scheme host. parse_url server = Some (scheme, host) \<and>
    (scheme = ''ldaps'' \<and>
       dial_url server (if pool = None then None else Some \<lparr>root_pool = pool, server_name = hostname host\<rparr>) = Inr conn \<or>
     scheme = ''ldap'' \<and> (\<exists>plain. dial_url server None = Inr plain \<and>
       start_tls_on plain \<lparr>root_pool = pool, server_name = hostname host\<rparr> = Inr conn))"
proof -
  have "directory_ok parse_url cfg" using assms(1,2) by (simp add: validate_ldap_Nil)
  with assms(3) obtain scheme host where s: "parse_url server = Some (scheme, host)"
    "scheme = ''ldaps'' \<or> scheme = ''ldap'' \<and> start_tls cfg"
    by (fastforce simp: directory_ok_def)
  with assms(4) show ?thesis
    by (auto simp: ldap_dial_def Let_def split: sum.splits if_splits)
qed

definition demo_dial_url :: "string \<Rightarrow> tls_client option \<Rightarrow> string + string" where
  "demo_dial_url s tls = Inr (case tls of None \<Rightarrow> s | Some c \<Rightarrow> server_name c)"

theorem ldap_never_in_clear_witness:
  "ldap_dial demo_url (\<lambda>h. h) demo_dial_url (\<lambda>c tls. Inr c) False (Some ''pem'') ''ldaps://dc1'' = Inr ''dc1''
   \<and> demo_url ''ldaps://dc1'' = Some (''ldaps'', ''dc1'')"
proof -
  have a: "validate_ldap demo_url demo_dir = []" "ldap_enabled demo_dir" "''ldaps://dc1'' \<in> set (ldap_servers demo_dir)"
    "start_tls demo_dir = False" by code_simp+
  have b: "ldap_dial demo_url (\<lambda>h. h) demo_dial_url (\<lambda>c tls. Inr c) (start_tls demo_dir) (Some ''pem'') ''ldaps://dc1'' = Inr ''dc1''"
    by code_simp
  from ldap_never_in_clear[OF a(1,2,3) b] b show ?thesis
    by (auto simp: a(4) demo_url_def)
qed

end
