(* ===== verification/SignOn.thy ===== *)
theory SignOn
  imports Directory
begin

section \<open>OpenID Connect and the login chain\<close>

text \<open>
  \<open>internal/auth/oidc/oidc.go\<close> and \<open>cmd/cairn/authn.go\<close>.  The OAuth and OIDC libraries are
  parameters: the token exchange answers with the \<open>id_token\<close> member of its response, the
  verifier with the verified token's nonce, subject and claims.  A claim is the JSON value
  the decoder gives.  The locale \<open>authenticator\<close> is interpreted on the directory provider and
  on the chain that \<open>buildAuthenticator\<close> assembles.
\<close>

datatype claim = CString string | CList "claim list" | CStrings "string list" | COther

record id_token =
  tok_nonce :: string
  tok_subject :: string
  tok_claims :: "string + (string \<Rightarrow> claim option)"

definition string_claim :: "(string \<Rightarrow> claim option) \<Rightarrow> string \<Rightarrow> string" where
  "string_claim claims key = (case claims key of Some (CString s) \<Rightarrow> s | _ \<Rightarrow> [])"

definition group_values :: "(string \<Rightarrow> claim option) \<Rightarrow> string \<Rightarrow> string list" where
  "group_values claims key =
     (case claims key of
        Some (CList cs) \<Rightarrow> concat (map (\<lambda>c. case c of CString s \<Rightarrow> [s] | _ \<Rightarrow> []) cs)
      | Some (CStrings ss) \<Rightarrow> ss
      | Some (CString s) \<Rightarrow> if s = [] then [] else [s]
      | _ \<Rightarrow> [])"

definition identity_from_claims :: "(string \<Rightarrow> claim option) \<Rightarrow> oidc_cfg \<Rightarrow> identity" where
  "identity_from_claims claims cfg0 =
     (let cfg = oidc_with_defaults cfg0;
          name = string_claim claims (username_claim cfg);
          display = string_claim claims ''name''
      in \<lparr>id_username = (if name = [] then string_claim claims ''sub'' else name),
          id_display = (if display = [] then string_claim claims ''email'' else display),
          id_role = oidc_map_role cfg (group_values claims (group_claim cfg)),
          id_provider = ''oidc''\<rparr>)"

definition oidc_exchange ::
  "(string \<Rightarrow> string + claim option) \<Rightarrow> (string \<Rightarrow> string + id_token) \<Rightarrow> oidc_cfg \<Rightarrow> string \<Rightarrow> string \<Rightarrow>
   string + identity" where
  "oidc_exchange token_exchange verify cfg code expected_nonce =
     (case token_exchange code of
        Inl e \<Rightarrow> Inl (''oidc: token exchange: '' @ e)
      | Inr (Some (CString raw)) \<Rightarrow>
          if raw = [] then Inl ''oidc: token response has no id_token''
          else (case verify raw of
             Inl e \<Rightarrow> Inl (''oidc: verify id_token: '' @ e)
           | Inr tok \<Rightarrow>
               if tok_nonce tok \<noteq> expected_nonce then Inl ''oidc: id_token nonce mismatch''
               else (case tok_claims tok of
                  Inl e \<Rightarrow> Inl (''oidc: parse claims: '' @ e)
                | Inr claims \<Rightarrow>
                    let ident = identity_from_claims claims cfg in
                    Inr (if id_username ident = [] then ident\<lparr>id_username := tok_subject tok\<rparr> else ident)))
      | Inr _ \<Rightarrow> Inl ''oidc: token response has no id_token'')"

definition oidc_new_cfg :: "oidc_cfg \<Rightarrow> string \<Rightarrow> oidc_cfg \<times> string" where
  \<comment> \<open>the configuration and callback URL that \<open>buildOIDC\<close> and \<open>New\<close> set the provider up with\<close>
  "oidc_new_cfg cfg public = (oidc_with_defaults cfg,
     trim_right (\<lambda>c. c = CHR ''/'') public @ ''/auth/oidc/callback'')"

lemma oidc_map_role_spec:
  "(oidc_map_role cfg gs = (if role_valid (oidc_default_role cfg) then oidc_default_role cfg else role_user) \<or>
      grants_role (oidc_group_roles cfg) gs (oidc_map_role cfg gs)) \<and> role_valid (oidc_map_role cfg gs)"
  unfolding oidc_map_role_def
  using map_role_loop_spec[of "oidc_group_roles cfg" gs "if role_valid (oidc_default_role cfg) then oidc_default_role cfg else role_user"]
  by (auto simp: grants_role_def)

lemma identity_from_claims_fields:
  "id_provider (identity_from_claims claims cfg) = ''oidc''"
  "id_role (identity_from_claims claims cfg) =
     oidc_map_role (oidc_with_defaults cfg) (group_values claims (group_claim (oidc_with_defaults cfg)))"
  by (simp_all add: identity_from_claims_def Let_def)

lemma oidc_exchange_Inr:
  assumes "oidc_exchange token_exchange verify cfg code nonce = Inr ident"
  shows "\<exists>raw tok claims. token_exchange code = Inr (Some (CString raw)) \<and> raw \<noteq> [] \<and> verify raw = Inr tok \<and>
    tok_nonce tok = nonce \<and> tok_claims tok = Inr claims \<and>
    ident = (let i = identity_from_claims claims cfg in if id_username i = [] then i\<lparr>id_username := tok_subject tok\<rparr> else i)"
  using assms
  by (auto simp: oidc_exchange_def Let_def split: sum.splits option.splits claim.splits if_splits)


definition demo_claims :: "string \<Rightarrow> claim option" where
  "demo_claims k = (if k = ''groups'' then Some (CList [COther, CString ''mdm-admins'']) else None)"

definition demo_verify :: "string \<Rightarrow> string + id_token" where
  "demo_verify raw = Inr \<lparr>tok_nonce = ''n1'', tok_subject = ''u-17'', tok_claims = Inr demo_claims\<rparr>"

definition demo_oidc :: oidc_cfg where
  "demo_oidc = zero_oidc\<lparr>oidc_group_roles := [(''MDM-Admins'', role_admin)]\<rparr>"

lemma demo_exchange:
  "oidc_exchange (\<lambda>c. Inr (Some (CString c))) demo_verify demo_oidc ''code'' ''n1'' =
   Inr \<lparr>id_username = ''u-17'', id_display = [], id_role = role_admin, id_provider = ''oidc''\<rparr>"
  by code_simp


subsection \<open>The login chain\<close>

definition build_authenticator ::
  "bool \<Rightarrow> string + authn \<Rightarrow> authn \<Rightarrow> string + authn" where
  \<comment> \<open>\<open>new_ldap\<close> is the outcome of \<open>ldapauth.New\<close>\<close>
  "build_authenticator enabled new_ldap local =
     (if \<not> enabled then Inr local
      else case new_ldap of Inl e \<Rightarrow> Inl e | Inr provider \<Rightarrow> Inr (chain_authenticate [provider, local]))"

definition ldap_new ::
  "(string \<Rightarrow> string + string) \<Rightarrow> (string \<Rightarrow> bool) \<Rightarrow> (string \<Rightarrow> string) \<Rightarrow> (string option \<Rightarrow> dialer) \<Rightarrow> ldap_cfg \<Rightarrow>
   string + authn" where
  "ldap_new read_file has_certs esc dial cfg0 =
     (let cfg = ldap_provider_cfg cfg0 in
      case ldap_pool read_file has_certs (ldap_ca_file cfg) of
        Inl e \<Rightarrow> Inl e
      | Inr pool \<Rightarrow> Inr (ldap_authenticate esc (dial pool) cfg))"

definition console_login ::
  "(string \<Rightarrow> string + string) \<Rightarrow> (string \<Rightarrow> bool) \<Rightarrow> (string \<Rightarrow> string) \<Rightarrow> (string option \<Rightarrow> dialer) \<Rightarrow> compare_hash \<Rightarrow>
   ldap_cfg \<Rightarrow> fault \<Rightarrow> auth_db \<Rightarrow> string + authn" where
  \<comment> \<open>the authenticator the console runs with\<close>
  "console_login read_file has_certs esc dial cmp cfg ft db =
     build_authenticator (ldap_enabled cfg) (ldap_new read_file has_certs esc dial cfg) (local_authenticate cmp ft db)"

definition valid_directory :: "ldap_cfg \<Rightarrow> bool" where
  \<comment> \<open>what \<open>Validate\<close> leaves of the default role\<close>
  "valid_directory cfg \<longleftrightarrow> ldap_default_role cfg = [] \<or> role_valid (ldap_default_role cfg)"

lemma ldap_role_valid:
  assumes "role_valid (ldap_default_role cfg)"
  shows "role_valid (ldap_map_role cfg gs)"
  unfolding ldap_map_role_def
  using map_role_loop_spec[of "ldap_group_roles cfg" gs "ldap_default_role cfg"] assms
  by (auto simp: grants_role_def)

lemma provider_cfg_role: "valid_directory cfg \<Longrightarrow> role_valid (ldap_default_role (ldap_provider_cfg cfg))"
  by (auto simp: valid_directory_def ldap_provider_cfg_def)

lemma ldap_identity_role:
  assumes "role_valid (ldap_default_role cfg)" and "ldap_authenticate esc dial cfg u p = Inr ident"
  shows "role_valid (id_role ident)"
proof -
  from assms(2) have "try_servers (\<lambda>s. authenticate_via esc dial cfg s u p) (ldap_servers cfg) None = Inr ident"
    by (auto simp: ldap_authenticate_def split: if_splits)
  from try_servers_Inr[OF this] obtain s where "authenticate_via esc dial cfg s u p = Inr ident" by blast
  from authenticate_via_Inr[OF this] obtain e where "ident = user_identity cfg u e" by blast
  then show ?thesis by (simp add: user_identity_def ldap_role_valid[OF assms(1)])
qed

interpretation dir: authenticator "ldap_authenticate esc dial" "\<lambda>cfg. role_valid (ldap_default_role cfg)" for esc dial
  by unfold_locales (rule ldap_identity_role)

text \<open>
  The chain as an authenticator on the pair of the directory configuration and the account
  database.
\<close>

definition chained :: "(string \<Rightarrow> string) \<Rightarrow> dialer \<Rightarrow> compare_hash \<Rightarrow> fault \<Rightarrow> ldap_cfg \<times> auth_db \<Rightarrow> authn" where
  "chained esc dial cmp ft st = chain_authenticate [ldap_authenticate esc dial (fst st), local_authenticate cmp ft (snd st)]"

interpretation both: authenticator "chained esc dial cmp ft"
  "\<lambda>st. role_valid (ldap_default_role (fst st)) \<and> users_ok (snd st)" for esc dial cmp ft
proof unfold_locales
  fix st u p ident
  assume ok: "role_valid (ldap_default_role (fst st)) \<and> users_ok (snd st)" and c: "chained esc dial cmp ft st u p = Inr ident"
  have "role_valid (id_role i)" if "a \<in> set [ldap_authenticate esc dial (fst st), local_authenticate cmp ft (snd st)]"
    "a u p = Inr i" for a i
    using that ok dir.known_role[of "fst st" esc dial u p i] lu.known_role[of "snd st" cmp ft u p i] by auto
  from chain_role_valid[OF this c[unfolded chained_def]] show "role_valid (id_role ident)" .
qed

lemma console_login_cases:
  assumes "console_login read_file has_certs esc dial cmp cfg ft db = Inr auth"
  shows "auth = local_authenticate cmp ft db \<or>
    (\<exists>pool. auth = chained esc (dial pool) cmp ft (ldap_provider_cfg cfg, db))"
  using assms
  by (auto simp: console_login_def build_authenticator_def ldap_new_def chained_def Let_def split: if_splits sum.splits)

text \<open>
  C37: Whatever the configuration that \<open>Validate\<close> accepts, the accounts and the directory
  answer, the console's login never produces an identity with an unknown role, and the local
  store remains the break-glass path: a local account logs in whenever the directory does not
  accept the credentials, also when every directory server is down.
\<close>

theorem console_login_break_glass:
  assumes "console_login read_file has_certs esc dial cmp cfg ft db = Inr auth"
    and "valid_directory cfg" and "users_ok db"
  shows "(\<forall>u p ident. auth u p = Inr ident \<longrightarrow> role_valid (id_role ident)) \<and>
    (\<forall>u p ident. local_authenticate cmp ft db u p = Inr ident \<longrightarrow>
       (\<exists>i. auth u p = Inr i \<and> (id_provider i = ''ldap'' \<or> i = ident)))"
  using console_login_cases[OF assms(1)]
proof (elim disjE exE)
  assume "auth = local_authenticate cmp ft db"
  then show ?thesis using lu.known_role assms(3) by blast
next
  fix pool assume a: "auth = chained esc (dial pool) cmp ft (ldap_provider_cfg cfg, db)"
  have "\<exists>i. auth u p = Inr i \<and> (id_provider i = ''ldap'' \<or> i = ident)"
    if "local_authenticate cmp ft db u p = Inr ident" for u p ident
  proof (cases "ldap_authenticate esc (dial pool) (ldap_provider_cfg cfg) u p")
    case (Inl e)
    with that a show ?thesis
      by (cases e) (simp_all add: chained_def chain_authenticate_def)
  next
    case (Inr i)
    then have "try_servers (\<lambda>s. authenticate_via esc (dial pool) (ldap_provider_cfg cfg) s u p)
        (ldap_servers (ldap_provider_cfg cfg)) None = Inr i"
      by (auto simp: ldap_authenticate_def split: if_splits)
    from try_servers_Inr[OF this] obtain s where "authenticate_via esc (dial pool) (ldap_provider_cfg cfg) s u p = Inr i" by blast
    from authenticate_via_Inr[OF this] have "id_provider i = ''ldap''" by (auto simp: user_identity_def)
    with Inr a show ?thesis by (simp add: chained_def chain_authenticate_def)
  qed
  moreover have "role_valid (id_role ident)" if "auth u p = Inr ident" for u p ident
    using both.known_role[of "(ldap_provider_cfg cfg, db)" esc "dial pool" cmp ft u p ident] that a
      provider_cfg_role[OF assms(2)] assms(3) by simp
  ultimately show ?thesis by blast
qed

theorem console_login_break_glass_witness:
  "\<exists>auth i. console_login (\<lambda>_. Inr []) (\<lambda>_. True) (\<lambda>s. s) (\<lambda>_ _. Inl ''down'') plain_cmp demo_dir None (demo_db [''ann'']) = Inr auth
    \<and> auth ''ann'' ''pw'' = Inr i \<and> id_role i = role_admin"
proof -
  obtain auth where a: "console_login (\<lambda>_. Inr []) (\<lambda>_. True) (\<lambda>s. s) (\<lambda>_ _. Inl ''down'') plain_cmp demo_dir None (demo_db [''ann'']) = Inr auth"
    by (simp add: console_login_def build_authenticator_def ldap_new_def ldap_pool_def demo_dir_def zero_ldap_def
        ldap_provider_cfg_def)
  have ok: "valid_directory demo_dir" "users_ok (demo_db [''ann''])"
    by (simp_all add: valid_directory_def demo_dir_def users_ok_def demo_db_def demo_user_def)
  have l: "local_authenticate plain_cmp None (demo_db [''ann'']) ''ann'' ''pw'' =
    Inr \<lparr>id_username = ''ann'', id_display = [], id_role = role_admin, id_provider = ''local''\<rparr>"
    by (simp add: local_authenticate_def plain_cmp_def find_user_def demo_db_def demo_user_def)
  have down: "id_provider i \<noteq> ''ldap''" if "auth ''ann'' ''pw'' = Inr i" for i
    using that a
    by (auto simp: console_login_def build_authenticator_def ldap_new_def ldap_pool_def demo_dir_def zero_ldap_def
        ldap_provider_cfg_def chain_authenticate_def ldap_authenticate_def authenticate_via_def l)
  from console_login_break_glass[OF a ok] l down a show ?thesis by fastforce
qed

end
