(* ===== verification/Migrate.thy ===== *)
theory Migrate
  imports Prelude
begin

section \<open>Schema migrations\<close>

text \<open>
  \<open>Open\<close>, \<open>restrictPerms\<close> and \<open>migrate\<close> of \<open>internal/storage/sqlite/sqlite.go\<close>.  The SQL of a
  migration is run by SQLite: \<open>mv_exec\<close> is a parameter that takes the text and the tables to
  the tables it leaves, or an error; inside a transaction an error leaves nothing.  The
  embedded directory, and every call that can fail, are fields of the environment.
\<close>

record 's schema_db =
  sd_versions :: "string list option"  \<comment> \<open>\<open>schema_migrations\<close>; \<open>None\<close> before it is created\<close>
  sd_tables :: 's

record 's migrate_env =
  mv_create :: fault
  mv_read :: fault
  mv_dir :: "string + (string \<times> bool) list"  \<comment> \<open>name and \<open>IsDir\<close>\<close>
  mv_file :: "string \<Rightarrow> string + string"
  mv_begin :: "string \<Rightarrow> fault"
  mv_exec :: "string \<Rightarrow> 's \<Rightarrow> string + 's"
  mv_record :: "string \<Rightarrow> fault"
  mv_commit :: "string \<Rightarrow> fault"

definition has_suffix :: "string \<Rightarrow> string \<Rightarrow> bool" where
  "has_suffix s suf = has_prefix (rev s) (rev suf)"

definition trim_suffix :: "string \<Rightarrow> string \<Rightarrow> string" where
  "trim_suffix s suf = (if has_suffix s suf then take (length s - length suf) s else s)"

definition schema_names :: "(string \<times> bool) list \<Rightarrow> string list" where
  "schema_names entries = sort (map fst (filter (\<lambda>(n, is_dir). \<not> is_dir \<and> has_suffix n ''.sql'') entries))"

definition version_of :: "string \<Rightarrow> string" where
  "version_of name = trim_suffix name ''.sql''"

definition applied_versions :: "('s, 'a) schema_db_scheme \<Rightarrow> string list" where
  "applied_versions db = (case sd_versions db of None \<Rightarrow> [] | Some vs \<Rightarrow> vs)"

definition apply_one :: "('s, 'e) migrate_env_scheme \<Rightarrow> string \<Rightarrow> 's schema_db \<Rightarrow> (string + unit) \<times> 's schema_db" where
  \<comment> \<open>one transaction: the script and its row in \<open>schema_migrations\<close>, whose key is the version\<close>
  "apply_one ev name db =
     (case mv_file ev name of
        Inl e \<Rightarrow> (Inl (''read migration '' @ name @ '': '' @ e), db)
      | Inr body \<Rightarrow>
     (case mv_begin ev name of
        Some e \<Rightarrow> (Inl e, db)
      | None \<Rightarrow>
     (case mv_exec ev body (sd_tables db) of
        Inl e \<Rightarrow> (Inl (''apply migration '' @ name @ '': '' @ e), db)
      | Inr tables \<Rightarrow>
     (case (if version_of name \<in> set (applied_versions db) then Some ''UNIQUE constraint failed'' else mv_record ev name) of
        Some e \<Rightarrow> (Inl (''record migration '' @ name @ '': '' @ e), db)
      | None \<Rightarrow>
     (case mv_commit ev name of
        Some e \<Rightarrow> (Inl (''commit migration '' @ name @ '': '' @ e), db)
      | None \<Rightarrow> (Inr (), \<lparr>sd_versions = Some (applied_versions db @ [version_of name]), sd_tables = tables\<rparr>))))))"

fun apply_pending ::
  "('s, 'e) migrate_env_scheme \<Rightarrow> string list \<Rightarrow> string list \<Rightarrow> 's schema_db \<Rightarrow> (string + unit) \<times> 's schema_db" where
  "apply_pending ev applied [] db = (Inr (), db)"
| "apply_pending ev applied (name # names) db =
     (if version_of name \<in> set applied then apply_pending ev applied names db
      else case apply_one ev name db of
             (Inl e, db1) \<Rightarrow> (Inl e, db1)
           | (Inr _, db1) \<Rightarrow> apply_pending ev applied names db1)"

definition migrate :: "('s, 'e) migrate_env_scheme \<Rightarrow> 's schema_db \<Rightarrow> (string + unit) \<times> 's schema_db" where
  "migrate ev db =
     (case mv_create ev of
        Some e \<Rightarrow> (Inl (''create schema_migrations: '' @ e), db)
      | None \<Rightarrow>
         let db1 = db\<lparr>sd_versions := Some (applied_versions db)\<rparr> in
         case mv_read ev of
           Some e \<Rightarrow> (Inl (''read schema_migrations: '' @ e), db1)
         | None \<Rightarrow>
            (case mv_dir ev of
               Inl e \<Rightarrow> (Inl (''read embedded schema: '' @ e), db1)
             | Inr entries \<Rightarrow> apply_pending ev (applied_versions db1) (schema_names entries) db1))"

subsection \<open>Opening the database\<close>

type_synonym modes = "(string \<times> nat) list"
  \<comment> \<open>the permission bits of the files that exist\<close>

definition restrict_perms :: "(string \<Rightarrow> fault) \<Rightarrow> string \<Rightarrow> modes \<Rightarrow> modes" where
  \<comment> \<open>best effort: a file that is missing or whose \<open>chmod\<close> fails stays as it is\<close>
  "restrict_perms chmod path fs =
     map (\<lambda>(p, m). (p, if p \<in> {path, path @ ''-wal'', path @ ''-shm''} \<and> chmod p = None then 6 * 64 else m)) fs"

definition open_db ::
  "fault \<Rightarrow> fault \<Rightarrow> (modes \<Rightarrow> modes) \<Rightarrow> (modes \<Rightarrow> modes) \<Rightarrow> (string \<Rightarrow> fault) \<Rightarrow> (string \<Rightarrow> fault) \<Rightarrow>
   ('s, 'e) migrate_env_scheme \<Rightarrow> string \<Rightarrow> modes \<Rightarrow> 's schema_db \<Rightarrow> (string + unit) \<times> modes \<times> 's schema_db" where
  \<comment> \<open>\<open>touch1\<close> and \<open>touch2\<close>: the files that the driver creates when it connects and during the migrations\<close>
  "open_db f_open f_ping touch1 touch2 chmod1 chmod2 ev path fs db =
     (case f_open of
        Some e \<Rightarrow> (Inl (''open sqlite: '' @ e), fs, db)
      | None \<Rightarrow>
     (case f_ping of
        Some e \<Rightarrow> (Inl (''ping sqlite: '' @ e), touch1 fs, db)
      | None \<Rightarrow>
         let fs1 = restrict_perms chmod1 path (touch1 fs) in
         case migrate ev db of
           (Inl e, db1) \<Rightarrow> (Inl e, touch2 fs1, db1)
         | (Inr _, db1) \<Rightarrow> (Inr (), restrict_perms chmod2 path (touch2 fs1), db1)))"

subsection \<open>What a run leaves\<close>

fun scripts :: "('s, 'e) migrate_env_scheme \<Rightarrow> string list \<Rightarrow> 's \<Rightarrow> 's option" where
  \<comment> \<open>the tables after these migrations, all of them applied\<close>
  "scripts ev [] s = Some s"
| "scripts ev (n # ns) s =
     (case mv_file ev n of Inl e \<Rightarrow> None
      | Inr body \<Rightarrow> (case mv_exec ev body s of Inl e \<Rightarrow> None | Inr s' \<Rightarrow> scripts ev ns s'))"

definition pending_names :: "string list \<Rightarrow> string list \<Rightarrow> string list" where
  "pending_names applied names = filter (\<lambda>n. version_of n \<notin> set applied) names"

lemma scripts_append: "scripts ev (ns @ ms) s = (case scripts ev ns s of None \<Rightarrow> None | Some s' \<Rightarrow> scripts ev ms s')"
  by (induction ns arbitrary: s) (auto split: sum.splits)

lemma apply_one_cases:
  assumes "apply_one ev name db = (r, db')"
  shows "(\<exists>e. r = Inl e \<and> db' = db) \<or>
    (\<exists>body tables. r = Inr () \<and> mv_file ev name = Inr body \<and> mv_exec ev body (sd_tables db) = Inr tables \<and>
      db' = \<lparr>sd_versions = Some (applied_versions db @ [version_of name]), sd_tables = tables\<rparr>)"
  using assms by (auto simp: apply_one_def split: sum.splits option.splits if_splits)

lemma apply_pending_prefix:
  assumes "apply_pending ev applied names db = (r, db')"
  shows "\<exists>past rest. pending_names applied names = past @ rest \<and> (r = Inr () \<longrightarrow> rest = []) \<and>
    scripts ev past (sd_tables db) = Some (sd_tables db') \<and>
    applied_versions db' = applied_versions db @ map version_of past \<and>
    (sd_versions db \<noteq> None \<longrightarrow> sd_versions db' \<noteq> None)"
  using assms
proof (induction names arbitrary: db)
  case Nil
  then show ?case by (intro exI[of _ "[]"]) (simp add: pending_names_def)
next
  case (Cons n ns)
  show ?case
  proof (cases "version_of n \<in> set applied")
    case True
    with Cons show ?thesis by (simp add: pending_names_def)
  next
    case False
    obtain r1 db1 where one: "apply_one ev n db = (r1, db1)" by (cases "apply_one ev n db")
    show ?thesis
    proof (cases r1)
      case (Inl e)
      with Cons.prems False one have "r = Inl e" "db' = db1" by simp_all
      moreover from apply_one_cases[OF one] Inl have "db1 = db" by auto
      ultimately show ?thesis by (intro exI[of _ "[]"] exI[of _ "pending_names applied (n # ns)"]) simp
    next
      case (Inr u)
      with Cons.prems False one have "apply_pending ev applied ns db1 = (r, db')" by simp
      from Cons.IH[OF this] obtain past rest where ih: "pending_names applied ns = past @ rest" "r = Inr () \<longrightarrow> rest = []"
        "scripts ev past (sd_tables db1) = Some (sd_tables db')"
        "applied_versions db' = applied_versions db1 @ map version_of past" "sd_versions db1 \<noteq> None \<longrightarrow> sd_versions db' \<noteq> None"
        by blast
      from apply_one_cases[OF one] Inr ih False show ?thesis
        by (intro exI[of _ "n # past"] exI[of _ rest]) (auto simp: pending_names_def applied_versions_def)
    qed
  qed
qed

definition all_names :: "('s, 'e) migrate_env_scheme \<Rightarrow> string list" where
  "all_names ev = (case mv_dir ev of Inl e \<Rightarrow> [] | Inr entries \<Rightarrow> schema_names entries)"

lemma migrations_prefix:
  assumes "migrate ev db = (r, db')"
  shows "\<exists>past rest. pending_names (applied_versions db) (all_names ev) = past @ rest \<and> (r = Inr () \<longrightarrow> rest = []) \<and>
    scripts ev past (sd_tables db) = Some (sd_tables db') \<and> applied_versions db' = applied_versions db @ map version_of past"
proof (cases "mv_create ev = None \<and> mv_read ev = None \<and> (\<exists>entries. mv_dir ev = Inr entries)")
  case True
  then obtain entries where d: "mv_dir ev = Inr entries" by blast
  define db1 where "db1 = db\<lparr>sd_versions := Some (applied_versions db)\<rparr>"
  have v: "applied_versions db1 = applied_versions db" "sd_tables db1 = sd_tables db" by (simp_all add: db1_def applied_versions_def)
  from assms True d have "apply_pending ev (applied_versions db1) (schema_names entries) db1 = (r, db')"
    by (simp add: migrate_def Let_def db1_def)
  from apply_pending_prefix[OF this] v d show ?thesis by (auto simp: all_names_def)
next
  case False
  with assms have "sd_tables db' = sd_tables db" "applied_versions db' = applied_versions db" "r \<noteq> Inr ()"
    by (auto simp: migrate_def Let_def applied_versions_def split: option.splits sum.splits)
  then show ?thesis by (intro exI[of _ "[]"] exI[of _ "pending_names (applied_versions db) (all_names ev)"]) simp
qed

lemma has_suffix_iff: "has_suffix n suf \<longleftrightarrow> (\<exists>v. n = v @ suf)"
  by (metis has_prefix_iff has_suffix_def rev_append rev_rev_ident)

lemma version_of_sql [simp]: "version_of (v @ ''.sql'') = v"
  by (simp add: version_of_def trim_suffix_def has_suffix_iff)

lemma set_pending:
  "set (pending_names vs (schema_names entries)) = {v @ ''.sql'' | v. (v @ ''.sql'', False) \<in> set entries \<and> v \<notin> set vs}"
  by (force simp: pending_names_def schema_names_def has_suffix_iff)

lemma pending_sorted:
  assumes "distinct (map fst entries)"
  shows "sorted_wrt (<) (pending_names vs (schema_names entries))"
proof -
  have "distinct (schema_names entries)"
    using assms unfolding schema_names_def by (simp add: distinct_map_filter)
  then show ?thesis
    unfolding pending_names_def strict_sorted_iff by (simp add: schema_names_def sorted_wrt_filter)
qed

lemma pending_versions:
  assumes "pending_names vs (schema_names entries) = past @ rest"
  shows "map (\<lambda>v. v @ ''.sql'') (map version_of past) = past"
proof -
  have "version_of n @ ''.sql'' = n" if "n \<in> set past" for n
  proof -
    from that have "n \<in> set (pending_names vs (schema_names entries))" by (simp add: assms)
    then obtain v where "n = v @ ''.sql''" unfolding set_pending by blast
    then show ?thesis by (simp only: version_of_sql)
  qed
  then show ?thesis by (simp add: map_idI)
qed

text \<open>
  C29: Whatever fails, the migrations are applied in the order of their names and all or nothing.
  The files of the embedded directory whose names end in \<open>.sql\<close> and whose versions were not
  recorded are the pending ones, and in the strictly increasing order of their names the database
  a run leaves is the one it found plus the first of them, each with its script and its record;
  after a success none is missing.
\<close>

theorem migrations_atomic:
  assumes "migrate ev db = (r, db')" and "entries = (case mv_dir ev of Inl e \<Rightarrow> [] | Inr es \<Rightarrow> es)"
    and "distinct (map fst entries)"
  shows "\<exists>vs rest. sorted_wrt (<) (map (\<lambda>v. v @ ''.sql'') vs @ rest) \<and>
    set (map (\<lambda>v. v @ ''.sql'') vs @ rest) =
      {v @ ''.sql'' | v. (v @ ''.sql'', False) \<in> set entries \<and> v \<notin> set (applied_versions db)} \<and>
    scripts ev (map (\<lambda>v. v @ ''.sql'') vs) (sd_tables db) = Some (sd_tables db') \<and>
    applied_versions db' = applied_versions db @ vs \<and> (r = Inr () \<longrightarrow> rest = [])"
proof -
  have names: "all_names ev = schema_names entries"
    by (simp add: all_names_def assms(2) schema_names_def split: sum.split)
  from migrations_prefix[OF assms(1)] obtain past rest where
    p: "pending_names (applied_versions db) (schema_names entries) = past @ rest" "r = Inr () \<longrightarrow> rest = []"
    and run: "scripts ev past (sd_tables db) = Some (sd_tables db')" "applied_versions db' = applied_versions db @ map version_of past"
    unfolding names by blast
  show ?thesis
  proof (rule exI[of _ "map version_of past"], rule exI[of _ rest], unfold pending_versions[OF p(1)], intro conjI)
    show "sorted_wrt (<) (past @ rest)" using pending_sorted[OF assms(3)] unfolding p(1)[symmetric] .
    show "set (past @ rest) = {v @ ''.sql'' | v. (v @ ''.sql'', False) \<in> set entries \<and> v \<notin> set (applied_versions db)}"
      unfolding p(1)[symmetric] by (rule set_pending)
  qed (rule run p(2))+
qed

definition demo_migrations :: "bool \<Rightarrow> (string list) migrate_env" where
  \<comment> \<open>three entries of the schema directory over an engine that appends the script to a log; \<open>broken\<close>: the second one fails\<close>
  "demo_migrations broken = \<lparr>mv_create = None, mv_read = None,
     mv_dir = Inr [(''002_b.sql'', False), (''notes'', False), (''001_a.sql'', False)],
     mv_file = (\<lambda>n. Inr n), mv_begin = (\<lambda>n. None), mv_exec = (\<lambda>body s. Inr (s @ [body])),
     mv_record = (\<lambda>n. if broken \<and> n = ''002_b.sql'' then Some ''disk full'' else None), mv_commit = (\<lambda>n. None)\<rparr>"

lemma demo_broken:
  "migrate (demo_migrations True) \<lparr>sd_versions = None, sd_tables = []\<rparr> =
     (Inl ''record migration 002_b.sql: disk full'', \<lparr>sd_versions = Some [''001_a''], sd_tables = [''001_a.sql'']\<rparr>)"
  by code_simp

lemma migrations_atomic_witness:
  "\<exists>rest. sorted_wrt (<) (''001_a.sql'' # rest) \<and> ''002_b'' @ ''.sql'' \<in> set (''001_a.sql'' # rest)"
proof -
  let ?entries = "[(''002_b.sql'', False), (''notes'', False), (''001_a.sql'', False)]"
  have d: "?entries = (case mv_dir (demo_migrations True) of Inl e \<Rightarrow> [] | Inr es \<Rightarrow> es)" by (simp add: demo_migrations_def)
  obtain vs rest where m: "sorted_wrt (<) (map (\<lambda>v. v @ ''.sql'') vs @ rest)"
    "set (map (\<lambda>v. v @ ''.sql'') vs @ rest) = {v @ ''.sql'' | v. (v @ ''.sql'', False) \<in> set ?entries \<and> v \<notin> {}}"
    "[''001_a''] = vs"
    using migrations_atomic[OF demo_broken d] by (auto simp only: applied_versions_def schema_db.simps option.case distinct.simps
        append_Nil list.map fst_conv list.set)
  have "''002_b'' @ ''.sql'' \<in> set (map (\<lambda>v. v @ ''.sql'') vs @ rest)"
    unfolding m(2) by (intro CollectI exI[of _ "''002_b''"]) simp
  with m(1) show ?thesis by (intro exI[of _ rest]) (simp flip: m(3))
qed

subsection \<open>Running again\<close>

lemma version_append: "has_suffix n suf \<Longrightarrow> n = trim_suffix n suf @ suf"
proof -
  assume h: "has_suffix n suf"
  then obtain t where "rev n = rev suf @ t" by (auto simp: has_suffix_def has_prefix_iff)
  then have "n = rev t @ suf" by (metis rev_append rev_rev_ident)
  then show ?thesis using h by (simp add: trim_suffix_def)
qed

lemma versions_distinct:
  assumes "distinct (map fst entries)"
  shows "distinct (map version_of (schema_names entries))"
proof -
  let ?p = "\<lambda>(n, is_dir). \<not> is_dir \<and> has_suffix n ''.sql''"
  have "distinct (map fst (filter ?p entries))" using assms by (induction entries) auto
  then have "distinct (schema_names entries)" by (simp add: schema_names_def)
  moreover have "inj_on version_of (set (schema_names entries))"
  proof (rule inj_onI)
    fix x y
    assume xy: "x \<in> set (schema_names entries)" "y \<in> set (schema_names entries)" "version_of x = version_of y"
    then have "has_suffix x ''.sql''" "has_suffix y ''.sql''" by (auto simp: schema_names_def)
    from this[THEN version_append] xy(3) show "x = y" by (simp add: version_of_def)
  qed
  ultimately show ?thesis by (simp add: distinct_map)
qed

lemma pending_after:
  assumes "distinct (map version_of names)" and "pending_names vs names = past @ rest"
  shows "pending_names (vs @ map version_of past) names = rest"
proof -
  have "distinct (map version_of (past @ rest))"
    using assms distinct_map_filter[of version_of names "\<lambda>n. version_of n \<notin> set vs"] by (simp add: pending_names_def)
  then have d: "set (map version_of past) \<inter> set (map version_of rest) = {}" by simp
  have "pending_names (vs @ map version_of past) names = filter (\<lambda>n. version_of n \<notin> set (map version_of past)) (pending_names vs names)"
    by (simp add: pending_names_def conj_commute)
  also have "\<dots> = filter (\<lambda>n. version_of n \<notin> set (map version_of past)) past @ filter (\<lambda>n. version_of n \<notin> set (map version_of past)) rest"
    by (simp add: assms(2))
  also have "\<dots> = rest" using d by (auto simp: filter_empty_conv filter_id_conv)
  finally show ?thesis .
qed

lemma scripts_cong: "mv_file ev = mv_file ev' \<Longrightarrow> mv_exec ev = mv_exec ev' \<Longrightarrow> scripts ev ns s = scripts ev' ns s"
  by (induction ns arbitrary: s) (auto split: sum.splits)

definition same_binary :: "('s, 'e) migrate_env_scheme \<Rightarrow> ('s, 'e) migrate_env_scheme \<Rightarrow> bool" where
  \<comment> \<open>the embedded files and the engine are the same; what fails is not\<close>
  "same_binary ev ev' \<longleftrightarrow> mv_dir ev = mv_dir ev' \<and> mv_file ev = mv_file ev' \<and> mv_exec ev = mv_exec ev'"

lemma migrate_success:
  assumes "migrate ev db = (Inr (), db')"
  shows "scripts ev (pending_names (applied_versions db) (all_names ev)) (sd_tables db) = Some (sd_tables db') \<and>
    sd_versions db' = Some (applied_versions db @ map version_of (pending_names (applied_versions db) (all_names ev)))"
proof -
  define db1 where "db1 = db\<lparr>sd_versions := Some (applied_versions db)\<rparr>"
  from assms obtain entries where d: "mv_dir ev = Inr entries" and run: "apply_pending ev (applied_versions db1) (schema_names entries) db1 = (Inr (), db')"
    by (auto simp: migrate_def Let_def db1_def split: option.splits sum.splits)
  from apply_pending_prefix[OF run] d show ?thesis
    by (auto simp: all_names_def db1_def applied_versions_def split: option.splits)
qed

lemma migrate_nothing_pending:
  assumes "mv_create ev = None" and "mv_read ev = None" and "mv_dir ev = Inr entries" and "sd_versions db \<noteq> None"
    and "pending_names (applied_versions db) (schema_names entries) = []"
  shows "migrate ev db = (Inr (), db)"
proof -
  have "apply_pending ev vs ns db = (Inr (), db)" if "pending_names vs ns = []" for vs ns
    using that by (induction ns) (auto simp: pending_names_def split: if_splits)
  note this[OF assms(5)]
  moreover have "db\<lparr>sd_versions := Some (applied_versions db)\<rparr> = db" using assms(4) by (auto simp: applied_versions_def)
  ultimately show ?thesis using assms(1-3) by (simp add: migrate_def Let_def)
qed

text \<open>
  A start that fails in the middle of the migrations is repaired by the next one: a run that
  fails anywhere, followed by one that succeeds, leaves exactly the database of a single
  successful run; and running again changes nothing.
\<close>

theorem migrations_resume:
  assumes "migrate ev1 db = (r, db1)" and "migrate ev2 db1 = (Inr (), db2)" and "same_binary ev1 ev2"
    and "mv_dir ev1 = Inr entries" and "distinct (map fst entries)"
  shows "(\<forall>ev3 db3. same_binary ev1 ev3 \<and> migrate ev3 db = (Inr (), db3) \<longrightarrow> db3 = db2) \<and>
    (\<forall>ev3. same_binary ev1 ev3 \<and> mv_create ev3 = None \<and> mv_read ev3 = None \<longrightarrow> migrate ev3 db2 = (Inr (), db2))"
proof -
  let ?names = "schema_names entries" and ?vs = "applied_versions db"
  have names: "all_names ev = ?names" if "same_binary ev1 ev" for ev
  proof -
    from that assms(4) have "mv_dir ev = Inr entries" by (simp add: same_binary_def)
    then show ?thesis by (simp add: all_names_def)
  qed
  have sc: "scripts ev = scripts ev1" if "same_binary ev1 ev" for ev
    using that scripts_cong[of ev1 ev] by (auto simp: same_binary_def fun_eq_iff)
  have refl: "same_binary ev1 ev1" by (simp add: same_binary_def)
  from migrations_prefix[OF assms(1)] obtain past rest where p: "pending_names ?vs ?names = past @ rest"
    "scripts ev1 past (sd_tables db) = Some (sd_tables db1)" "applied_versions db1 = ?vs @ map version_of past"
    using names[OF refl] by auto
  note rest = pending_after[OF versions_distinct[OF assms(5)] p(1)]
  from migrate_success[OF assms(2)] names[OF assms(3)] sc[OF assms(3)] p(3) rest
  have two: "scripts ev1 rest (sd_tables db1) = Some (sd_tables db2)" "sd_versions db2 = Some (?vs @ map version_of (past @ rest))" by auto
  have all: "scripts ev1 (past @ rest) (sd_tables db) = Some (sd_tables db2)" using p(2) two(1) by (simp add: scripts_append)
  have "db3 = db2" if "same_binary ev1 ev3" "migrate ev3 db = (Inr (), db3)" for ev3 db3
    using migrate_success[OF that(2)] names[OF that(1)] sc[OF that(1)] p(1) all two(2)
    by (intro schema_db.equality) auto
  moreover have "migrate ev3 db2 = (Inr (), db2)" if "same_binary ev1 ev3" "mv_create ev3 = None" "mv_read ev3 = None" for ev3
  proof -
    have none: "pending_names (applied_versions db2) ?names = []"
      using pending_after[OF versions_distinct[OF assms(5)], of ?vs "past @ rest" "[]"] p(1) two(2) by (simp add: applied_versions_def)
    from that assms(4) have "mv_dir ev3 = Inr entries" by (simp add: same_binary_def)
    with none two(2) that show ?thesis by (intro migrate_nothing_pending) (auto simp: all_names_def)
  qed
  ultimately show ?thesis by blast
qed

lemma migrations_resume_witness:
  "\<exists>db2. migrate (demo_migrations False) \<lparr>sd_versions = Some [''001_a''], sd_tables = [''001_a.sql'']\<rparr> = (Inr (), db2) \<and>
     sd_tables db2 = [''001_a.sql'', ''002_b.sql''] \<and> migrate (demo_migrations False) db2 = (Inr (), db2)"
proof -
  let ?db2 = "\<lparr>sd_versions = Some [''001_a'', ''002_b''], sd_tables = [''001_a.sql'', ''002_b.sql'']\<rparr>"
  have two: "migrate (demo_migrations False) \<lparr>sd_versions = Some [''001_a''], sd_tables = [''001_a.sql'']\<rparr> = (Inr (), ?db2)"
    by code_simp
  have d: "mv_dir (demo_migrations b) = Inr [(''002_b.sql'', False), (''notes'', False), (''001_a.sql'', False)]"
    "mv_create (demo_migrations b) = None" "mv_read (demo_migrations b) = None" for b by (simp_all add: demo_migrations_def)
  have same: "same_binary (demo_migrations True) (demo_migrations False)" by (simp add: same_binary_def demo_migrations_def)
  have "migrate (demo_migrations False) ?db2 = (Inr (), ?db2)"
    using migrations_resume[OF demo_broken two same d(1)] same d by simp
  with two show ?thesis by (intro exI[of _ ?db2]) simp
qed

text \<open>
  The file holding the keys is left readable by its owner only: after a successful opening the
  database and the files beside it that exist carry no permission for others, wherever
  \<open>chmod\<close> works.
\<close>

lemma database_owner_only:
  assumes "open_db f_open f_ping touch1 touch2 chmod1 chmod2 ev path fs db = (Inr (), fs', db')"
    and "(p, m) \<in> set fs'" and "p \<in> {path, path @ ''-wal'', path @ ''-shm''}" and "chmod2 p = None"
  shows "m = 6 * 64"
proof -
  from assms(1) obtain fs1 where fs': "fs' = restrict_perms chmod2 path (touch2 fs1)"
    by (auto simp: open_db_def Let_def split: option.splits prod.splits sum.splits)
  from assms(2-4) show ?thesis unfolding fs' restrict_perms_def by auto
qed

end
