(* ===== verification/Cli.thy ===== *)
theory Cli
  imports Migrate Config Commands
begin

unbundle bit_operations_syntax

section \<open>The command line\<close>

text \<open>
  \<open>cmd/cairn\<close>: what its commands share (files, the configuration, opening the database), the
  dispatch of \<open>main.go\<close>, and the commands \<open>migrate\<close>, \<open>backup\<close> and \<open>enqueue\<close>.  The flag package
  is left out: a command takes the values of its flags.  A file is its permission bits and its
  contents; every call to the operating system takes its failure from the environment.
\<close>

subsection \<open>Files\<close>

type_synonym file_system = "string \<Rightarrow> (nat \<times> string) option"

datatype write_fault = OpenFails string | WriteFails string nat
  \<comment> \<open>a write that fails has already truncated the file and written some bytes\<close>

record os_env =
  os_decode :: "string \<Rightarrow> config \<Rightarrow> string + config"  \<comment> \<open>the TOML decoder\<close>
  os_parse_url :: url_parser
  os_getenv :: "string \<Rightarrow> string option"
  os_stat :: "string \<Rightarrow> fault"
  os_read :: "string \<Rightarrow> fault"
  os_write :: "string \<Rightarrow> write_fault option"
  os_mkdir :: "string \<Rightarrow> fault"
  os_chmod :: "string \<Rightarrow> fault"
  os_umask :: nat

definition exists_file :: "os_env \<Rightarrow> string \<Rightarrow> file_system \<Rightarrow> bool" where
  \<comment> \<open>\<open>os.Stat\<close> without an error\<close>
  "exists_file x p fs \<longleftrightarrow> os_stat x p = None \<and> fs p \<noteq> None"

definition read_file :: "os_env \<Rightarrow> string \<Rightarrow> file_system \<Rightarrow> string + string" where
  "read_file x p fs =
     (case os_read x p of Some e \<Rightarrow> Inl e
      | None \<Rightarrow> (case fs p of None \<Rightarrow> Inl ''no such file or directory'' | Some (m, data) \<Rightarrow> Inr data))"

definition write_file :: "os_env \<Rightarrow> string \<Rightarrow> string \<Rightarrow> nat \<Rightarrow> file_system \<Rightarrow> fault \<times> file_system" where
  \<comment> \<open>\<open>os.WriteFile\<close>: the mode is for a file it creates; an existing file keeps its own\<close>
  "write_file x p data perm fs =
     (let m = (case fs p of Some (m, old) \<Rightarrow> m | None \<Rightarrow> perm - (perm AND os_umask x))
      in case os_write x p of
           None \<Rightarrow> (None, fs(p \<mapsto> (m, data)))
         | Some (OpenFails e) \<Rightarrow> (Some e, fs)
         | Some (WriteFails e n) \<Rightarrow> (Some e, fs(p \<mapsto> (m, take n data))))"

definition chmod_file :: "os_env \<Rightarrow> string \<Rightarrow> nat \<Rightarrow> file_system \<Rightarrow> fault \<times> file_system" where
  "chmod_file x p perm fs =
     (case os_chmod x p of Some e \<Rightarrow> (Some e, fs)
      | None \<Rightarrow> (case fs p of None \<Rightarrow> (Some ''no such file or directory'', fs) | Some (m, data) \<Rightarrow> (None, fs(p \<mapsto> (perm, data)))))"

definition path_dir :: "string \<Rightarrow> string" where
  \<comment> \<open>\<open>filepath.Dir\<close> of a clean path\<close>
  "path_dir p =
     (let d = trim_right (\<lambda>c. c \<noteq> CHR ''/'') p in
      if d = [] then ''.'' else if d = ''/'' then d else butlast d)"

definition path_join :: "string \<Rightarrow> string \<Rightarrow> string" where
  \<comment> \<open>\<open>filepath.Join\<close> of a clean directory and a name\<close>
  "path_join d n = (if d = [] then n else if d = ''/'' then d @ n else d @ ''/'' @ n)"

subsection \<open>Encodings\<close>

definition base64_std :: string where
  "base64_std = ''ABCDEFGHIJKLMNOPQRSTUVWXYZabcdefghijklmnopqrstuvwxyz0123456789+/''"

definition base64_url :: string where
  "base64_url = ''ABCDEFGHIJKLMNOPQRSTUVWXYZabcdefghijklmnopqrstuvwxyz0123456789-_''"

fun base64 :: "string \<Rightarrow> string \<Rightarrow> string \<Rightarrow> string" where
  \<comment> \<open>with an alphabet and the padding character, or none\<close>
  "base64 abc pad (a # b # c # s) =
     (let n = (of_char a :: nat) * 65536 + of_char b * 256 + of_char c
      in [abc ! (n div 262144), abc ! (n div 4096 mod 64), abc ! (n div 64 mod 64), abc ! (n mod 64)] @ base64 abc pad s)"
| "base64 abc pad [a, b] =
     (let n = (of_char a :: nat) * 65536 + of_char b * 256
      in [abc ! (n div 262144), abc ! (n div 4096 mod 64), abc ! (n div 64 mod 64)] @ pad)"
| "base64 abc pad [a] =
     (let n = (of_char a :: nat) * 65536 in [abc ! (n div 262144), abc ! (n div 4096 mod 64)] @ pad @ pad)"
| "base64 abc pad [] = []"

definition hex_value :: "char \<Rightarrow> nat option" where
  "hex_value c = (if in_range (CHR ''0'') (CHR ''9'') c then Some (of_char c - 48)
     else if in_range (CHR ''a'') (CHR ''f'') c then Some (of_char c - 87)
     else if in_range (CHR ''A'') (CHR ''F'') c then Some (of_char c - 55) else None)"

fun hex_decode :: "string \<Rightarrow> string option" where
  \<comment> \<open>\<open>hex.DecodeString\<close>\<close>
  "hex_decode [] = Some []"
| "hex_decode [c] = None"
| "hex_decode (a # b # s) =
     (case (hex_value a, hex_value b, hex_decode s) of
        (Some x, Some y, Some t) \<Rightarrow> Some (char_of (16 * x + y) # t) | _ \<Rightarrow> None)"

lemma hex_value_digit: "n < 16 \<Longrightarrow> hex_value (hex_digit n) = Some n"
proof -
  have "list_all (\<lambda>n. hex_value (hex_digit n) = Some n) [0..<16]" by code_simp
  then show "n < 16 \<Longrightarrow> hex_value (hex_digit n) = Some n" by (simp add: list_all_iff)
qed

lemma hex_roundtrip [simp]: "hex_decode (hex_encode s) = Some s"
proof (induction s)
  case (Cons c s)
  have "(of_char c :: nat) < 256" using nat_of_char_less_256 by simp
  then have "(of_char c :: nat) div 16 < 16" by (simp add: div_less_iff_less_mult)
  then have "hex_value (hex_digit (of_char c div 16)) = Some (of_char c div 16)"
    "hex_value (hex_digit (of_char c mod 16)) = Some (of_char c mod 16)" by (auto intro!: hex_value_digit)
  with Cons show ?case by (simp add: hex_encode_def Let_def)
qed (simp add: hex_encode_def)

subsection \<open>The configuration and the database\<close>

datatype cli_error = Usage string | BadConfig load_error | Failed string

definition load_config :: "os_env \<Rightarrow> string \<Rightarrow> file_system \<Rightarrow> cli_error + config" where
  "load_config x path fs =
     (case load (os_decode x) (os_parse_url x) (os_getenv x) (\<lambda>p. read_file x p fs) path of
        Inl e \<Rightarrow> Inl (BadConfig e) | Inr cfg \<Rightarrow> Inr cfg)"

definition sqlite_config :: "os_env \<Rightarrow> string \<Rightarrow> file_system \<Rightarrow> cli_error + config" where
  \<comment> \<open>\<open>config.Load\<close> and the check of the driver that follows it\<close>
  "sqlite_config x path fs = and_then (load_config x path fs) (\<lambda>cfg.
     if driver (cfg_storage cfg) \<noteq> ''sqlite''
     then Inl (Failed (''storage driver '' @ driver (cfg_storage cfg) @ '' not yet implemented (Phase 4)'')) else Inr cfg)"

record 's open_env =
  ov_open :: fault
  ov_ping :: fault
  ov_touch1 :: "modes \<Rightarrow> modes"
  ov_touch2 :: "modes \<Rightarrow> modes"
  ov_chmod1 :: "string \<Rightarrow> fault"
  ov_chmod2 :: "string \<Rightarrow> fault"
  ov_migrate :: "'s migrate_env"

record 's machine =
  mc_files :: file_system
  mc_modes :: modes   \<comment> \<open>of the database's own files\<close>
  mc_db :: "'s schema_db"
  mc_out :: "string list"

definition open_sqlite :: "'s open_env \<Rightarrow> string \<Rightarrow> ('s, 'a) machine_scheme \<Rightarrow> (cli_error + unit) \<times> ('s, 'a) machine_scheme" where
  "open_sqlite v path st =
     (case open_db (ov_open v) (ov_ping v) (ov_touch1 v) (ov_touch2 v) (ov_chmod1 v) (ov_chmod2 v) (ov_migrate v) path
             (mc_modes st) (mc_db st) of
        (Inl e, ms, db) \<Rightarrow> (Inl (Failed e), st\<lparr>mc_modes := ms, mc_db := db\<rparr>)
      | (Inr _, ms, db) \<Rightarrow> (Inr (), st\<lparr>mc_modes := ms, mc_db := db\<rparr>))"

definition say :: "string \<Rightarrow> ('s, 'a) machine_scheme \<Rightarrow> ('s, 'a) machine_scheme" where
  "say s st = st\<lparr>mc_out := mc_out st @ [s]\<rparr>"

definition run_migrate :: "os_env \<Rightarrow> 's open_env \<Rightarrow> string \<Rightarrow> 's machine \<Rightarrow> (cli_error + unit) \<times> 's machine" where
  "run_migrate x v path st =
     (case sqlite_config x path (mc_files st) of
        Inl e \<Rightarrow> (Inl e, st)
      | Inr cfg \<Rightarrow>
     (case open_sqlite v (storage_path (cfg_storage cfg)) st of
        (Inl e, st1) \<Rightarrow> (Inl e, st1)
      | (Inr _, st1) \<Rightarrow> (Inr (), say (''migrations applied; database ready at '' @ storage_path (cfg_storage cfg)) st1)))"

subsection \<open>Dispatch\<close>

datatype command = Serve | Init | MigrateCmd | Pushcert | Enqueue | CaCmd | Admin | ImportCmd | BackupCmd | VersionCmd | Help

definition command_of :: "string \<Rightarrow> command option" where
  "command_of c = map_of
     [(''serve'', Serve), (''init'', Init), (''migrate'', MigrateCmd), (''pushcert'', Pushcert), (''enqueue'', Enqueue),
      (''ca'', CaCmd), (''admin'', Admin), (''import'', ImportCmd), (''backup'', BackupCmd), (''version'', VersionCmd),
      (''-v'', VersionCmd), (''--version'', VersionCmd), (''help'', Help), (''-h'', Help), (''--help'', Help)] c"

definition run_main :: "(command \<Rightarrow> string list \<Rightarrow> 'w \<Rightarrow> fault \<times> 'w) \<Rightarrow> string list \<Rightarrow> 'w \<Rightarrow> int \<times> string list \<times> 'w" where
  \<comment> \<open>\<open>main\<close>: \<open>argv\<close> is \<open>os.Args\<close>; the exit status and what is written to the standard error\<close>
  "run_main run argv w =
     (case argv of
        _ # cmd # args \<Rightarrow>
          (case command_of cmd of
             None \<Rightarrow> (2, [''cairn: unknown command '' @ cmd, ''usage''], w)
           | Some Help \<Rightarrow> (0, [''usage''], w)
           | Some c \<Rightarrow>
               (case run c args w of
                  (None, w1) \<Rightarrow> (0, [], w1)
                | (Some e, w1) \<Rightarrow> (1, [''cairn '' @ cmd @ '': '' @ e], w1)))
      | _ \<Rightarrow> (2, [''usage''], w))"

definition subcommand :: "string \<Rightarrow> string list \<Rightarrow> string list \<Rightarrow> cli_error + string" where
  \<comment> \<open>the switch of \<open>runAdmin\<close>, \<open>runPushcert\<close> and \<open>runCA\<close>\<close>
  "subcommand what known args =
     (case args of
        [] \<Rightarrow> Inl (Usage (''usage: cairn '' @ what))
      | sub # rest \<Rightarrow> if sub \<in> set known then Inr sub else Inl (Usage (''unknown '' @ what @ '' subcommand '' @ sub)))"

definition run_pushcert :: "string list \<Rightarrow> cli_error + string" where
  "run_pushcert = subcommand ''pushcert'' [''request'', ''decrypt'', ''import'', ''check'']"

definition run_admin :: "string list \<Rightarrow> cli_error + string" where
  "run_admin = subcommand ''admin'' [''add'', ''passwd'', ''list'', ''del'', ''testauth'']"

definition run_ca :: "string list \<Rightarrow> cli_error + string" where
  "run_ca = subcommand ''ca'' [''export'']"

subsection \<open>Backups\<close>

record 's backup_env =
  bk_open :: fault
  bk_ping :: fault
  bk_vacuum :: fault
  bk_snapshot :: "'s schema_db \<Rightarrow> string"   \<comment> \<open>what \<open>VACUUM INTO\<close> writes\<close>
  bk_reopen :: fault
  bk_integrity :: "string \<Rightarrow> string + string"

definition vacuum_into :: "os_env \<Rightarrow> 's backup_env \<Rightarrow> string \<Rightarrow> 's machine \<Rightarrow> fault \<times> 's machine" where
  \<comment> \<open>SQLite refuses a destination that exists and is not empty; it creates the file with mode 0644\<close>
  "vacuum_into x b out st =
     (case bk_vacuum b of
        Some e \<Rightarrow> (Some e, st)
      | None \<Rightarrow>
         (case mc_files st out of
            Some (m, c # cs) \<Rightarrow> (Some ''output file already exists'', st)
          | Some (m, []) \<Rightarrow> (None, st\<lparr>mc_files := (mc_files st)(out \<mapsto> (m, bk_snapshot b (mc_db st)))\<rparr>)
          | None \<Rightarrow> (None, st\<lparr>mc_files := (mc_files st)(out \<mapsto> (420 - (420 AND os_umask x), bk_snapshot b (mc_db st)))\<rparr>)))"

definition verify_backup :: "'s backup_env \<Rightarrow> string \<Rightarrow> cli_error + unit" where
  "verify_backup b data =
     (case bk_reopen b of
        Some e \<Rightarrow> Inl (Failed (''reopen backup: '' @ e))
      | None \<Rightarrow>
         (case bk_integrity b data of
            Inl e \<Rightarrow> Inl (Failed (''integrity check: '' @ e))
          | Inr res \<Rightarrow> if res \<noteq> ''ok'' then Inl (Failed (''backup integrity check FAILED: '' @ res)) else Inr ()))"

definition run_backup :: "os_env \<Rightarrow> 's backup_env \<Rightarrow> string \<Rightarrow> string \<Rightarrow> bool \<Rightarrow> 's machine \<Rightarrow> (cli_error + unit) \<times> 's machine" where
  "run_backup x b path out verify st =
     (if out = [] then (Inl (Usage ''-out <file> is required''), st)
      else case load_config x path (mc_files st) of
        Inl e \<Rightarrow> (Inl e, st)
      | Inr cfg \<Rightarrow>
     (if driver (cfg_storage cfg) \<noteq> ''sqlite'' then (Inl (Failed ''backup supports the sqlite driver only''), st)
      else if exists_file x out (mc_files st) then (Inl (Failed (''destination '' @ out @ '' already exists; choose a new path'')), st)
      else case os_mkdir x (path_dir out) of
        Some e \<Rightarrow> (Inl (Failed e), st)
      | None \<Rightarrow>
     (case bk_open b of
        Some e \<Rightarrow> (Inl (Failed (''open source db: '' @ e)), st)
      | None \<Rightarrow>
     (case bk_ping b of
        Some e \<Rightarrow> (Inl (Failed (''source db unreachable: '' @ e)), st)
      | None \<Rightarrow>
     (case vacuum_into x b out st of
        (Some e, st1) \<Rightarrow> (Inl (Failed (''vacuum into '' @ out @ '': '' @ e)), st1)
      | (None, st1) \<Rightarrow>
     (case chmod_file x out 384 (mc_files st1) of
        (Some e, fs) \<Rightarrow> (Inl (Failed (''tighten backup perms: '' @ e)), st1\<lparr>mc_files := fs\<rparr>)
      | (None, fs) \<Rightarrow>
          let st2 = say (''backup written: '' @ out) (st1\<lparr>mc_files := fs\<rparr>) in
          if \<not> verify then (Inr (), st2)
          else (case verify_backup b (bk_snapshot b (mc_db st)) of
              Inl e \<Rightarrow> (Inl e, st2)
            | Inr _ \<Rightarrow> (Inr (), say ''integrity check: ok'' st2))))))))"

subsection \<open>Queueing a command by hand\<close>

definition enqueue_command :: "os_env \<Rightarrow> send_env \<Rightarrow> string \<Rightarrow> string \<Rightarrow> file_system \<Rightarrow> cli_error + mdm_command" where
  "enqueue_command x se rtype profile fs =
     (let built = (\<lambda>body. case build_command se body of Inl e \<Rightarrow> Inl (Failed e) | Inr cmd \<Rightarrow> Inr cmd) in
      if rtype = ''DeviceInformation'' then built (device_information_command [])
      else if rtype = ''InstallProfile'' then
        (if profile = [] then Inl (Usage ''-profile is required for InstallProfile'')
         else case read_file x profile fs of Inl e \<Rightarrow> Inl (Failed e) | Inr data \<Rightarrow> built (InstallProfile data))
      else Inl (Usage (''unsupported command type '' @ rtype)))"

definition run_enqueue ::
  "os_env \<Rightarrow> core open_env \<Rightarrow> send_env \<Rightarrow> string \<Rightarrow> string \<Rightarrow> string \<Rightarrow> string \<Rightarrow> bool \<Rightarrow> core machine \<Rightarrow>
   (cli_error + unit) \<times> core machine" where
  "run_enqueue x v se path i rtype profile no_push st =
     (if i = [] then (Inl (Usage ''-id (enrollment ID / UDID) is required''), st)
      else case and_then (sqlite_config x path (mc_files st)) (\<lambda>cfg.
          and_then (enqueue_command x se rtype profile (mc_files st)) (\<lambda>cmd. Inr (cfg, cmd))) of
        Inl e \<Rightarrow> (Inl e, st)
      | Inr (cfg, cmd) \<Rightarrow>
     (case open_sqlite v (storage_path (cfg_storage cfg)) st of
        (Inl e, st1) \<Rightarrow> (Inl e, st1)
      | (Inr _, st1) \<Rightarrow>
     (case enqueue_push (se\<lparr>se_pusher := \<not> no_push\<rparr>) [i] cmd (sd_tables (mc_db st1)) of
        (Inl e, c) \<Rightarrow> (Inl (Failed e), st1\<lparr>mc_db := (mc_db st1)\<lparr>sd_tables := c\<rparr>\<rparr>)
      | (Inr _, c) \<Rightarrow>
          (Inr (), say (''enqueued '' @ cmd_uuid cmd @ '' for '' @ i) (st1\<lparr>mc_db := (mc_db st1)\<lparr>sd_tables := c\<rparr>\<rparr>)))))"

subsection \<open>What the commands do\<close>

lemma write_file_others: "write_file x p data perm fs = (r, fs') \<Longrightarrow> q \<noteq> p \<Longrightarrow> fs' q = fs q"
  by (auto simp: write_file_def Let_def split: option.splits write_fault.splits prod.splits)

lemma write_file_done:
  "write_file x p data perm fs = (None, fs') \<Longrightarrow>
     fs' = fs(p \<mapsto> (case fs p of Some (m, old) \<Rightarrow> m | None \<Rightarrow> perm - (perm AND os_umask x), data))"
  by (auto simp: write_file_def Let_def split: option.splits write_fault.splits)

lemma chmod_file_done: "chmod_file x p m fs = (None, fs') \<Longrightarrow> \<exists>m0 data. fs p = Some (m0, data) \<and> fs' = fs(p \<mapsto> (m, data))"
  by (auto simp: chmod_file_def split: option.splits)

lemma chmod_file_others: "chmod_file x p m fs = (r, fs') \<Longrightarrow> q \<noteq> p \<Longrightarrow> fs' q = fs q"
  by (auto simp: chmod_file_def split: option.splits)

lemma say_simps [simp]: "mc_files (say s st) = mc_files st" "mc_db (say s st) = mc_db st" "mc_modes (say s st) = mc_modes st"
  by (simp_all add: say_def)

lemma vacuum_into_files:
  "vacuum_into x b out st = (r, st1) \<Longrightarrow> mc_db st1 = mc_db st \<and> (\<forall>q. q \<noteq> out \<longrightarrow> mc_files st1 q = mc_files st q) \<and>
     (r = None \<longrightarrow> (\<exists>m. mc_files st1 out = Some (m, bk_snapshot b (mc_db st))) \<and> (\<forall>m c cs. mc_files st out \<noteq> Some (m, c # cs)))"
  by (auto simp: vacuum_into_def split: option.splits prod.splits list.splits)

text \<open>
  A backup that succeeds is a new file, for its owner only, that holds the snapshot of the
  database, checked when that was asked for; whatever happens, the database, every other file and
  a file that was already at the destination are untouched.
\<close>

theorem backup_faithful:
  assumes "run_backup x b path out verify st = (r, st')"
  shows "mc_db st' = mc_db st \<and> (\<forall>q. q \<noteq> out \<longrightarrow> mc_files st' q = mc_files st q) \<and>
    (exists_file x out (mc_files st) \<longrightarrow> mc_files st' = mc_files st \<and> r \<noteq> Inr ()) \<and>
    (r = Inr () \<longrightarrow> mc_files st' out = Some (384, bk_snapshot b (mc_db st)) \<and>
       (verify \<longrightarrow> bk_integrity b (bk_snapshot b (mc_db st)) = Inr ''ok''))"
proof (cases "exists_file x out (mc_files st)")
  case True
  with assms show ?thesis by (auto simp: run_backup_def split: if_splits sum.splits)
next
  case False
  show ?thesis
  proof (cases "\<exists>st1 c. vacuum_into x b out st = (None, st1)")
    case True
    then obtain st1 where v: "vacuum_into x b out st = (None, st1)" by blast
    obtain cf fs where c: "chmod_file x out 384 (mc_files st1) = (cf, fs)" by (cases "chmod_file x out 384 (mc_files st1)")
    note o = chmod_file_others[OF c]
    show ?thesis
    proof (cases cf)
      case None
      with chmod_file_done c vacuum_into_files[OF v] have "fs out = Some (384, bk_snapshot b (mc_db st))" by fastforce
      with assms False v c None o vacuum_into_files[OF v] show ?thesis
        by (auto simp: run_backup_def Let_def verify_backup_def split: if_splits sum.splits option.splits)
    next
      case (Some e)
      with assms False v c o vacuum_into_files[OF v] show ?thesis
        by (auto simp: run_backup_def split: if_splits sum.splits option.splits)
    qed
  next
    case n: False
    obtain vf st1 where v: "vacuum_into x b out st = (vf, st1)" by (cases "vacuum_into x b out st")
    with n obtain e where "vf = Some e" by (cases vf) auto
    with assms False v vacuum_into_files[OF v] show ?thesis
      by (auto simp: run_backup_def split: if_splits sum.splits option.splits)
  qed
qed

text \<open>
  The backup holds the key of the authority, the APNs key and the sessions, and it is readable
  by everyone until the \<open>chmod\<close> that follows (for good, when that fails): SQLite creates it
  under the usual umask with mode 0644.
\<close>

theorem backup_readable_meanwhile:
  assumes "vacuum_into x b out st = (None, st1)" and "mc_files st out = None" and "os_umask x = 18"
  shows "mc_files st1 out = Some (420, bk_snapshot b (mc_db st))"
proof -
  have "(420::nat) AND 18 = 0" by (simp add: and_nat_def)
  with assms show ?thesis by (auto simp: vacuum_into_def split: option.splits)
qed

definition demo_os :: os_env where
  "demo_os = \<lparr>os_decode = demo_decode, os_parse_url = demo_url, os_getenv = demo_env, os_stat = (\<lambda>_. None), os_read = (\<lambda>_. None),
     os_write = (\<lambda>_. None), os_mkdir = (\<lambda>_. None), os_chmod = (\<lambda>_. None), os_umask = 18\<rparr>"

end
