(* ===== verification/Importer.thy ===== *)
theory Importer
  imports Commands KeyStores
begin

section \<open>Migration from an existing NanoMDM\<close>

text \<open>
  \<open>internal/importer/importer.go\<close>, \<open>report.go\<close> and the helpers of \<open>cmd/cairn/import.go\<close>.  The
  source is the record of what its six queries answer.  The destination is NanoMDM's storage
  interface, a library: the record \<open>dst\<close> of its operations on an arbitrary state, each with
  the error it returns.  The check-in decoder, the bootstrap-token decoder and the push
  certificate validation (PEM, X.509) are parameters.  A mismatch or a skip keeps what it is
  about instead of its message.
\<close>

record device_src =
  ds_id :: string
  ds_authenticate :: string
  ds_token_update :: string
  ds_bootstrap :: string

record user_src =
  us_id :: string
  us_device :: string
  us_token_update :: string
  us_user_auth :: string
  us_user_auth_digest :: string

record enrollment_src =
  es_id :: string
  es_device :: string
  es_user :: string
  es_type :: string
  es_topic :: string
  es_magic :: string
  es_token_hex :: string
  es_enabled :: bool

record push_cert_src =
  pc_topic :: string
  pc_cert :: string
  pc_key :: string

record source =
  src_pending :: "string + int"
  src_push_certs :: "string + push_cert_src list"
  src_devices :: "string + device_src list"
  src_users :: "string + user_src list"
  src_assocs :: "string + (string \<times> string) list"
  src_enrollments :: "string + enrollment_src list"

datatype request = DeviceReq string | UserReq string string

record push_info =
  pi_topic :: string
  pi_magic :: string
  pi_token :: string

record ('st, 'auth, 'tok, 'uauth, 'boot) dst =
  st_push_cert :: "string \<Rightarrow> string \<Rightarrow> 'st \<Rightarrow> fault \<times> 'st"
  st_authenticate :: "request \<Rightarrow> 'auth \<Rightarrow> 'st \<Rightarrow> fault \<times> 'st"
  st_token_update :: "request \<Rightarrow> 'tok \<Rightarrow> 'st \<Rightarrow> fault \<times> 'st"
  st_bootstrap :: "request \<Rightarrow> 'boot \<Rightarrow> 'st \<Rightarrow> fault \<times> 'st"
  st_user_auth :: "request \<Rightarrow> 'uauth \<Rightarrow> 'st \<Rightarrow> fault \<times> 'st"
  st_associate :: "request \<Rightarrow> string \<Rightarrow> 'st \<Rightarrow> fault \<times> 'st"
  st_disable :: "request \<Rightarrow> 'st \<Rightarrow> fault \<times> 'st"
  st_push_info :: "string list \<Rightarrow> 'st \<Rightarrow> string + (string \<Rightarrow> push_info option)"
  st_is_assoc :: "request \<Rightarrow> string \<Rightarrow> 'st \<Rightarrow> string + bool"
  st_project :: "string \<Rightarrow> 'auth \<Rightarrow> 'st \<Rightarrow> 'st"   \<comment> \<open>the inventory projection, its errors only logged\<close>
  st_project_token :: "string \<Rightarrow> 'st \<Rightarrow> 'st"

record ('auth, 'tok, 'uauth, 'boot) decoders =
  dec_auth :: "string \<Rightarrow> string + 'auth"
  dec_token :: "string \<Rightarrow> string + 'tok"
  dec_user_auth :: "string \<Rightarrow> string + 'uauth"
  dec_bootstrap :: "string \<Rightarrow> string + 'boot"
  dec_push_cert :: "string \<Rightarrow> string \<Rightarrow> string + (string \<times> string \<times> string)"

record options =
  op_allow_pending :: bool
  op_dry_run :: bool
  op_exceptions :: "string list"
  op_exceptions_sha :: string

datatype skip_reason = BadAuthenticate | BadTokenUpdate | BadBootstrap | BadUserAuthenticate

record skip_entry =
  sk_id :: string
  sk_reason :: skip_reason
  sk_accepted :: bool

datatype mismatch =
    RetrieveFailed string
  | NoPushInfo string
  | TopicMismatch string
  | MagicMismatch string
  | TokenMismatch string
  | CertMissing string string

record source_counts =
  sc_devices :: nat
  sc_users :: nat
  sc_enrollments :: nat
  sc_associations :: nat
  sc_push_certs :: nat
  sc_pending :: int

record report =
  rep_source :: source_counts
  rep_exceptions_sha :: string
  rep_devices :: nat
  rep_users :: nat
  rep_enrollments :: nat
  rep_associations :: nat
  rep_push_certs :: nat
  rep_disabled :: nat
  rep_skipped :: "skip_entry list"
  rep_mismatches :: "mismatch list"
  rep_disable_failures :: "string list"
  rep_types :: "string list"  \<comment> \<open>\<open>CountsByType\<close> and \<open>CountsByTopic\<close>, as the multiset of the keys counted\<close>
  rep_topics :: "string list"
  rep_push_topics :: "(string \<times> string \<times> string) list"
  rep_dry_run :: bool

definition new_report :: "options \<Rightarrow> report" where
  "new_report opts = \<lparr>rep_source = \<lparr>sc_devices = 0, sc_users = 0, sc_enrollments = 0, sc_associations = 0,
       sc_push_certs = 0, sc_pending = 0\<rparr>, rep_exceptions_sha = op_exceptions_sha opts, rep_devices = 0, rep_users = 0, rep_enrollments = 0, rep_associations = 0, rep_push_certs = 0,
     rep_disabled = 0, rep_skipped = [], rep_mismatches = [], rep_disable_failures = [], rep_types = [],
     rep_topics = [], rep_push_topics = [], rep_dry_run = op_dry_run opts\<rparr>"

definition is_user_channel :: "enrollment_src \<Rightarrow> bool" where
  "is_user_channel e \<longleftrightarrow> es_type e = ''User'' \<or> es_user e \<noteq> []"

definition disable_req :: "enrollment_src \<Rightarrow> request" where
  "disable_req e = (if is_user_channel e then UserReq (es_id e) (es_device e) else DeviceReq (es_id e))"

definition add_skip :: "string \<Rightarrow> skip_reason \<Rightarrow> options \<Rightarrow> report \<Rightarrow> report" where
  "add_skip i reason opts rep =
     rep\<lparr>rep_skipped := rep_skipped rep @ [\<lparr>sk_id = i, sk_reason = reason, sk_accepted = i \<in> set (op_exceptions opts)\<rparr>]\<rparr>"

definition report_ok :: "report \<Rightarrow> bool" where
  "report_ok rep \<longleftrightarrow> rep_mismatches rep = [] \<and> rep_disable_failures rep = [] \<and> (\<forall>s\<in>set (rep_skipped rep). sk_accepted s)"

subsection \<open>The phases of a run\<close>

definition write_unless :: "bool \<Rightarrow> ('st \<Rightarrow> fault \<times> 'st) \<Rightarrow> 'st \<Rightarrow> fault \<times> 'st" where
  "write_unless dry f st = (if dry then (None, st) else f st)"

fun import_push_certs ::
  "('st, 'auth, 'tok, 'uauth, 'boot) dst \<Rightarrow> ('auth, 'tok, 'uauth, 'boot) decoders \<Rightarrow> options \<Rightarrow> push_cert_src list \<Rightarrow>
   report \<Rightarrow> 'st \<Rightarrow> (string + report) \<times> 'st" where
  "import_push_certs d dec opts [] rep st = (Inr rep, st)"
| "import_push_certs d dec opts (pc # pcs) rep st =
     (case dec_push_cert dec (pc_cert pc) (pc_key pc) of
        Inl e \<Rightarrow> (Inl (''importer: push cert '' @ pc_topic pc @ '': '' @ e), st)
      | Inr meta \<Rightarrow>
          (case write_unless (op_dry_run opts) (st_push_cert d (pc_cert pc) (pc_key pc)) st of
             (Some e, st1) \<Rightarrow> (Inl (''importer: store push cert '' @ pc_topic pc @ '': '' @ e), st1)
           | (None, st1) \<Rightarrow> import_push_certs d dec opts pcs
               (rep\<lparr>rep_push_topics := rep_push_topics rep @ [meta], rep_push_certs := rep_push_certs rep + 1\<rparr>) st1))"

definition bump_devices :: "report \<Rightarrow> report" where
  "bump_devices rep = rep\<lparr>rep_devices := rep_devices rep + 1\<rparr>"

definition import_bootstrap ::
  "('st, 'auth, 'tok, 'uauth, 'boot) dst \<Rightarrow> ('auth, 'tok, 'uauth, 'boot) decoders \<Rightarrow> options \<Rightarrow> device_src \<Rightarrow>
   report \<Rightarrow> 'st \<Rightarrow> (string + report) \<times> 'st" where
  "import_bootstrap d dec opts row rep st =
     (if ds_bootstrap row = [] then (Inr rep, st)
      else case dec_bootstrap dec (ds_bootstrap row) of
        Inl e \<Rightarrow> (Inr (add_skip (ds_id row) BadBootstrap opts rep), st)
      | Inr bs \<Rightarrow> (case st_bootstrap d (DeviceReq (ds_id row)) bs st of
          (Some e, st1) \<Rightarrow> (Inl (''importer: store bootstrap token: '' @ e), st1)
        | (None, st1) \<Rightarrow> (Inr rep, st1)))"

definition import_device ::
  "('st, 'auth, 'tok, 'uauth, 'boot) dst \<Rightarrow> ('auth, 'tok, 'uauth, 'boot) decoders \<Rightarrow> options \<Rightarrow> device_src \<Rightarrow>
   report \<Rightarrow> 'st \<Rightarrow> (string + report) \<times> 'st" where
  "import_device d dec opts row rep st =
     (case dec_auth dec (ds_authenticate row) of
        Inl e \<Rightarrow> (Inr (add_skip (ds_id row) BadAuthenticate opts rep), st)
      | Inr auth \<Rightarrow>
          if op_dry_run opts then
            (if ds_token_update row \<noteq> [] \<and> isl (dec_token dec (ds_token_update row))
             then (Inr (add_skip (ds_id row) BadTokenUpdate opts rep), st)
             else (Inr (bump_devices rep), st))
          else
            (case st_authenticate d (DeviceReq (ds_id row)) auth st of
               (Some e, st1) \<Rightarrow> (Inl (''importer: store authenticate: '' @ e), st1)
             | (None, st1) \<Rightarrow>
                let st2 = st_project d (ds_id row) auth st1;
                    finish = (\<lambda>st3. case import_bootstrap d dec opts row rep st3 of
                        (Inl e, st4) \<Rightarrow> (Inl e, st4)
                      | (Inr rep1, st4) \<Rightarrow> (Inr (bump_devices rep1), st4))
                in if ds_token_update row = [] then finish st2
                   else (case dec_token dec (ds_token_update row) of
                       Inl e \<Rightarrow> (Inr (add_skip (ds_id row) BadTokenUpdate opts rep), st2)
                     | Inr tok \<Rightarrow> (case st_token_update d (DeviceReq (ds_id row)) tok st2 of
                         (Some e, st3) \<Rightarrow> (Inl (''importer: store token update: '' @ e), st3)
                       | (None, st3) \<Rightarrow> finish (st_project_token d (ds_id row) st3)))))"

fun import_user_auth ::
  "('st, 'auth, 'tok, 'uauth, 'boot) dst \<Rightarrow> ('auth, 'tok, 'uauth, 'boot) decoders \<Rightarrow> options \<Rightarrow> user_src \<Rightarrow> string list \<Rightarrow>
   report \<Rightarrow> 'st \<Rightarrow> (string + report) \<times> 'st" where
  "import_user_auth d dec opts row [] rep st = (Inr rep, st)"
| "import_user_auth d dec opts row (raw # raws) rep st =
     (if raw = [] then import_user_auth d dec opts row raws rep st
      else case dec_user_auth dec raw of
        Inl e \<Rightarrow> import_user_auth d dec opts row raws (add_skip (us_id row) BadUserAuthenticate opts rep) st
      | Inr ua \<Rightarrow> (case write_unless (op_dry_run opts) (st_user_auth d (UserReq (us_id row) (us_device row)) ua) st of
          (Some e, st1) \<Rightarrow> (Inl (''importer: store user authenticate: '' @ e), st1)
        | (None, st1) \<Rightarrow> import_user_auth d dec opts row raws rep st1))"

definition import_user ::
  "('st, 'auth, 'tok, 'uauth, 'boot) dst \<Rightarrow> ('auth, 'tok, 'uauth, 'boot) decoders \<Rightarrow> options \<Rightarrow> user_src \<Rightarrow>
   report \<Rightarrow> 'st \<Rightarrow> (string + report) \<times> 'st" where
  "import_user d dec opts row rep st =
     (case import_user_auth d dec opts row [us_user_auth row, us_user_auth_digest row] rep st of
        (Inl e, st1) \<Rightarrow> (Inl e, st1)
      | (Inr rep1, st1) \<Rightarrow>
          if us_token_update row = [] then (Inr (rep1\<lparr>rep_users := rep_users rep1 + 1\<rparr>), st1)
          else (case dec_token dec (us_token_update row) of
              Inl e \<Rightarrow> (Inr (add_skip (us_id row) BadTokenUpdate opts rep1), st1)
            | Inr tok \<Rightarrow> (case write_unless (op_dry_run opts) (st_token_update d (UserReq (us_id row) (us_device row)) tok) st1 of
                (Some e, st2) \<Rightarrow> (Inl (''importer: store token update: '' @ e), st2)
              | (None, st2) \<Rightarrow> (Inr (rep1\<lparr>rep_users := rep_users rep1 + 1\<rparr>), st2))))"

fun each_row :: "('r \<Rightarrow> report \<Rightarrow> 'st \<Rightarrow> (string + report) \<times> 'st) \<Rightarrow> 'r list \<Rightarrow> report \<Rightarrow> 'st \<Rightarrow> (string + report) \<times> 'st" where
  \<comment> \<open>a loop that an error leaves\<close>
  "each_row f [] rep st = (Inr rep, st)"
| "each_row f (r # rs) rep st =
     (case f r rep st of (Inl e, st1) \<Rightarrow> (Inl e, st1) | (Inr rep1, st1) \<Rightarrow> each_row f rs rep1 st1)"

definition import_assoc ::
  "('st, 'auth, 'tok, 'uauth, 'boot) dst \<Rightarrow> options \<Rightarrow> string \<times> string \<Rightarrow> report \<Rightarrow> 'st \<Rightarrow> (string + report) \<times> 'st" where
  "import_assoc d opts a rep st =
     (case write_unless (op_dry_run opts) (st_associate d (DeviceReq (fst a)) (snd a)) st of
        (Some e, st1) \<Rightarrow> (Inl (''importer: associate '' @ fst a @ '': '' @ e), st1)
      | (None, st1) \<Rightarrow> (Inr (rep\<lparr>rep_associations := rep_associations rep + 1\<rparr>), st1))"

fun disable_all ::
  "('st, 'auth, 'tok, 'uauth, 'boot) dst \<Rightarrow> enrollment_src list \<Rightarrow> report \<Rightarrow> 'st \<Rightarrow> report \<times> 'st" where
  "disable_all d [] rep st = (rep, st)"
| "disable_all d (e # es) rep st =
     (if es_enabled e then disable_all d es rep st
      else case st_disable d (disable_req e) st of
        (Some err, st1) \<Rightarrow> disable_all d es (rep\<lparr>rep_disable_failures := rep_disable_failures rep @ [es_id e]\<rparr>) st1
      | (None, st1) \<Rightarrow> disable_all d es (rep\<lparr>rep_disabled := rep_disabled rep + 1\<rparr>) st1)"

definition hex_token :: "string \<Rightarrow> string" where "hex_token t = hex_encode t"

definition check_push :: "(string \<Rightarrow> push_info option) \<Rightarrow> enrollment_src \<Rightarrow> mismatch list" where
  "check_push infos e =
     (case infos (es_id e) of
        None \<Rightarrow> [NoPushInfo (es_id e)]
      | Some p \<Rightarrow>
          (if pi_topic p \<noteq> es_topic e then [TopicMismatch (es_id e)] else []) @
          (if pi_magic p \<noteq> es_magic e then [MagicMismatch (es_id e)] else []) @
          (if hex_token (pi_token p) \<noteq> es_token_hex e then [TokenMismatch (es_id e)] else []))"

definition by_id :: "enrollment_src list \<Rightarrow> string \<Rightarrow> enrollment_src option" where
  \<comment> \<open>the Go map filled in order: the last row of an ID\<close>
  "by_id es = map_of (rev (map (\<lambda>e. (es_id e, e)) es))"

definition verify ::
  "('st, 'auth, 'tok, 'uauth, 'boot) dst \<Rightarrow> enrollment_src list \<Rightarrow> (string \<times> string) list \<Rightarrow> 'st \<Rightarrow> mismatch list" where
  "verify d enrollments assocs st =
     (let ids = map es_id (filter es_enabled enrollments) in
      case st_push_info d ids st of
        Inl e \<Rightarrow> [RetrieveFailed e]
      | Inr infos \<Rightarrow>
          concat (map (\<lambda>i. case by_id enrollments i of None \<Rightarrow> [] | Some e \<Rightarrow> check_push infos e) ids) @
          concat (map (\<lambda>(i, h). case st_is_assoc d (DeviceReq i) h st of Inr True \<Rightarrow> [] | _ \<Rightarrow> [CertMissing i h]) assocs))"

definition import_enrollments ::
  "('st, 'auth, 'tok, 'uauth, 'boot) dst \<Rightarrow> options \<Rightarrow> enrollment_src list \<Rightarrow> (string \<times> string) list \<Rightarrow>
   report \<Rightarrow> 'st \<Rightarrow> report \<times> 'st" where
  "import_enrollments d opts enrollments assocs rep st =
     (let rep1 = rep\<lparr>rep_enrollments := length enrollments,
            rep_types := map (\<lambda>e. if es_type e = [] then ''Device'' else es_type e) enrollments,
            rep_topics := map es_topic enrollments\<rparr>
      in if op_dry_run opts
         then (rep1\<lparr>rep_disabled := length (filter (\<lambda>e. \<not> es_enabled e) enrollments)\<rparr>, st)
         else (case disable_all d enrollments rep1 st of
            (rep2, st1) \<Rightarrow> (rep2\<lparr>rep_mismatches := rep_mismatches rep2 @ verify d enrollments assocs st1\<rparr>, st1)))"

definition set_source :: "(source_counts \<Rightarrow> source_counts) \<Rightarrow> report \<Rightarrow> report" where
  "set_source f rep = rep\<lparr>rep_source := f (rep_source rep)\<rparr>"

definition phase :: "string \<Rightarrow> (string + 'r) \<Rightarrow> ('r \<Rightarrow> 'st \<Rightarrow> (string + report) \<times> 'st) \<Rightarrow> 'st \<Rightarrow> (string + report) \<times> 'st" where
  "phase what rows f st = (case rows of Inl e \<Rightarrow> (Inl (''importer: '' @ what @ '': '' @ e), st) | Inr rs \<Rightarrow> f rs st)"

definition and_next :: "(string + report) \<times> 'st \<Rightarrow> (report \<Rightarrow> 'st \<Rightarrow> (string + report) \<times> 'st) \<Rightarrow> (string + report) \<times> 'st" where
  "and_next r f = (case r of (Inl e, st) \<Rightarrow> (Inl e, st) | (Inr rep, st) \<Rightarrow> f rep st)"

definition run_import ::
  "('st, 'auth, 'tok, 'uauth, 'boot) dst \<Rightarrow> ('auth, 'tok, 'uauth, 'boot) decoders \<Rightarrow> source \<Rightarrow> options \<Rightarrow> 'st \<Rightarrow>
   (string + report) \<times> 'st" where
  "run_import d dec src opts st0 =
     phase ''count pending commands'' (src_pending src) (\<lambda>pending st.
       if 0 < pending \<and> \<not> op_allow_pending opts then (Inl ''importer: source has pending queued commands'', st)
       else
         and_next (phase ''read push certs'' (src_push_certs src) (\<lambda>pcs. import_push_certs d dec opts pcs
             (set_source (\<lambda>s. s\<lparr>sc_pending := pending, sc_push_certs := length pcs\<rparr>) (new_report opts))) st) (\<lambda>rep1 st1.
         and_next (phase ''read devices'' (src_devices src) (\<lambda>ds. each_row (import_device d dec opts) ds
             (set_source (\<lambda>s. s\<lparr>sc_devices := length ds\<rparr>) rep1)) st1) (\<lambda>rep2 st2.
         and_next (phase ''read users'' (src_users src) (\<lambda>us. each_row (import_user d dec opts) us
             (set_source (\<lambda>s. s\<lparr>sc_users := length us\<rparr>) rep2)) st2) (\<lambda>rep3 st3.
         phase ''read cert-auth associations'' (src_assocs src) (\<lambda>assocs st3.
           and_next (each_row (import_assoc d opts) assocs
               (set_source (\<lambda>s. s\<lparr>sc_associations := length assocs\<rparr>) rep3) st3) (\<lambda>rep4 st4.
           phase ''read enrollments'' (src_enrollments src) (\<lambda>es st4.
             case import_enrollments d opts es assocs (set_source (\<lambda>s. s\<lparr>sc_enrollments := length es\<rparr>) rep4) st4 of
               (rep5, st5) \<Rightarrow> (Inr rep5, st5)) st4)) st3)))) st0"

subsection \<open>Dry runs\<close>

lemma dry_push: "op_dry_run opts \<Longrightarrow> snd (import_push_certs d dec opts pcs rep st) = st"
  by (induction pcs arbitrary: rep) (auto simp: write_unless_def split: sum.splits)

lemma dry_device: "op_dry_run opts \<Longrightarrow> snd (import_device d dec opts row rep st) = st"
  by (auto simp: import_device_def split: sum.splits)

lemma dry_user_auth: "op_dry_run opts \<Longrightarrow> snd (import_user_auth d dec opts row raws rep st) = st"
  by (induction raws arbitrary: rep) (auto simp: write_unless_def split: sum.splits)

lemma dry_user:
  assumes "op_dry_run opts"
  shows "snd (import_user d dec opts row rep st) = st"
  using dry_user_auth[OF assms, of d dec row "[us_user_auth row, us_user_auth_digest row]" rep st] assms
  by (auto simp: import_user_def write_unless_def simp del: import_user_auth.simps split: sum.splits prod.splits)

lemma dry_each: "(\<And>r rep st. snd (f r rep st) = st) \<Longrightarrow> snd (each_row f rs rep st) = st"
proof (induction rs arbitrary: rep st)
  case (Cons r rs)
  show ?case
  proof (cases "f r rep st")
    case (Pair x st1)
    with Cons.prems[of r rep st] Cons.IH[OF Cons.prems] show ?thesis by (cases x) simp_all
  qed
qed simp

lemma dry_assoc: "op_dry_run opts \<Longrightarrow> snd (import_assoc d opts a rep st) = st"
  by (simp add: import_assoc_def write_unless_def)

lemma phase_keeps: "(\<And>rs. snd (f rs st) = st) \<Longrightarrow> snd (phase w rows f st) = st"
  by (simp add: phase_def split: sum.splits)

lemma and_next_keeps:
  assumes "snd r = st" and "\<And>rep. snd (f rep st) = st"
  shows "snd (and_next r f) = st"
proof (cases r)
  case (Pair x st1)
  with assms show ?thesis by (cases x) (simp_all add: and_next_def)
qed

lemma dry_enrollments: "op_dry_run opts \<Longrightarrow> import_enrollments d opts es as rep st =
   (rep\<lparr>rep_enrollments := length es, rep_types := map (\<lambda>e. if es_type e = [] then ''Device'' else es_type e) es,
      rep_topics := map es_topic es, rep_disabled := length (filter (\<lambda>e. \<not> es_enabled e) es)\<rparr>, st)"
  by (simp add: import_enrollments_def Let_def)

lemma pending_refused:
  assumes "src_pending src = Inr n" and "0 < n" and "\<not> op_allow_pending opts"
  shows "run_import d dec src opts st = (Inl ''importer: source has pending queued commands'', st)"
  using assms by (simp add: run_import_def phase_def)

text \<open>
  A dry run writes nothing: whatever the source contains and whatever fails, the
  destination is unchanged; and a source with pending commands is refused before anything is
  written unless the operator allowed it.
\<close>

theorem import_writes_guarded:
  assumes "op_dry_run opts \<or> (\<exists>n. src_pending src = Inr n \<and> 0 < n \<and> \<not> op_allow_pending opts)"
  shows "snd (run_import d dec src opts st) = st"
proof (cases "op_dry_run opts")
  case dry: True
  show ?thesis
    unfolding run_import_def
    apply (rule phase_keeps)
    apply (split if_split, intro conjI impI)
     apply simp
    apply (rule and_next_keeps, rule phase_keeps, rule dry_push[OF dry])
    apply (rule and_next_keeps, rule phase_keeps, rule dry_each, rule dry_device[OF dry])
    apply (rule and_next_keeps, rule phase_keeps, rule dry_each, rule dry_user[OF dry])
    apply (rule phase_keeps, rule and_next_keeps, rule dry_each, rule dry_assoc[OF dry])
    apply (rule phase_keeps)
    apply (simp add: dry_enrollments[OF dry])
    done
next
  case False
  with assms obtain n where n: "src_pending src = Inr n" "0 < n" "\<not> op_allow_pending opts" by blast
  show ?thesis by (simp add: pending_refused[OF n])
qed

definition example_dst :: "(string list, unit, unit, unit, unit) dst" where
  \<comment> \<open>a destination that keeps the IDs whose token update it stored\<close>
  "example_dst = \<lparr>st_push_cert = (\<lambda>_ _ st. (None, st)), st_authenticate = (\<lambda>_ _ st. (None, st)),
     st_token_update = (\<lambda>r _ st. (None, (case r of DeviceReq i \<Rightarrow> i | UserReq i p \<Rightarrow> i) # st)),
     st_bootstrap = (\<lambda>_ _ st. (None, st)), st_user_auth = (\<lambda>_ _ st. (None, st)), st_associate = (\<lambda>_ _ st. (None, st)),
     st_disable = (\<lambda>_ st. (None, st)),
     st_push_info = (\<lambda>ids st. Inr (\<lambda>i. if i \<in> set ids \<and> i \<in> set st then Some \<lparr>pi_topic = ''t'', pi_magic = ''m'', pi_token = ''k''\<rparr> else None)),
     st_is_assoc = (\<lambda>_ _ _. Inr True), st_project = (\<lambda>_ _ st. st), st_project_token = (\<lambda>_ st. st)\<rparr>"

definition example_decoders :: "(unit, unit, unit, unit) decoders" where
  "example_decoders = \<lparr>dec_auth = (\<lambda>raw. if raw = ''A'' then Inr () else Inl ''eof''), dec_token = (\<lambda>raw. Inr ()),
     dec_user_auth = (\<lambda>raw. Inr ()), dec_bootstrap = (\<lambda>raw. Inr ()), dec_push_cert = (\<lambda>c k. Inr (''t'', ''n'', ''s''))\<rparr>"

definition example_source :: "string \<Rightarrow> source" where
  "example_source auth = \<lparr>src_pending = Inr 0, src_push_certs = Inr [],
     src_devices = Inr [\<lparr>ds_id = ''d1'', ds_authenticate = auth, ds_token_update = ''T'', ds_bootstrap = []\<rparr>],
     src_users = Inr [], src_assocs = Inr [(''d1'', ''h1'')],
     src_enrollments = Inr [\<lparr>es_id = ''d1'', es_device = ''d1'', es_user = [], es_type = ''Device'', es_topic = ''t'',
        es_magic = ''m'', es_token_hex = ''6b'', es_enabled = True\<rparr>,
       \<lparr>es_id = ''d2'', es_device = ''d2'', es_user = [], es_type = ''Device'', es_topic = ''t'',
        es_magic = ''m'', es_token_hex = ''6b'', es_enabled = False\<rparr>]\<rparr>"

definition example_options :: "bool \<Rightarrow> string list \<Rightarrow> options" where
  "example_options dry exc = \<lparr>op_allow_pending = False, op_dry_run = dry, op_exceptions = exc, op_exceptions_sha = []\<rparr>"

lemma import_writes_guarded_witness:
  "snd (run_import example_dst example_decoders (example_source ''A'') (example_options True []) []) = []
   \<and> snd (run_import example_dst example_decoders (example_source ''A'') (example_options False []) []) = [''d1'']"
proof -
  have "snd (run_import example_dst example_decoders (example_source ''A'') (example_options True []) []) = []"
    by (rule import_writes_guarded) (simp add: example_options_def)
  moreover have "snd (run_import example_dst example_decoders (example_source ''A'') (example_options False []) []) = [''d1'']"
    by code_simp
  ultimately show ?thesis by simp
qed

subsection \<open>What a clean report certifies\<close>

definition unverified :: "options \<Rightarrow> report \<Rightarrow> bool" where
  \<comment> \<open>the report before the enrollment phase: nothing disabled, nothing compared, every skip graded against the exceptions\<close>
  "unverified opts rep \<longleftrightarrow> rep_disabled rep = 0 \<and> rep_mismatches rep = [] \<and> rep_disable_failures rep = []
     \<and> (\<forall>s\<in>set (rep_skipped rep). sk_accepted s = (sk_id s \<in> set (op_exceptions opts)))"

lemma unverified_new [simp]: "unverified opts (new_report opts)"
  by (simp add: unverified_def new_report_def)

lemma unverified_set_source [simp]: "unverified opts (set_source f rep) = unverified opts rep"
  by (simp add: unverified_def set_source_def)

lemma unverified_skip [simp]: "unverified opts rep \<Longrightarrow> unverified opts (add_skip i r opts rep)"
  by (auto simp: unverified_def add_skip_def)

lemma unverified_counts [simp]:
  "unverified opts (rep\<lparr>rep_users := n\<rparr>) = unverified opts rep"
  "unverified opts (rep\<lparr>rep_associations := n\<rparr>) = unverified opts rep"
  "unverified opts (rep\<lparr>rep_push_topics := ts, rep_push_certs := n\<rparr>) = unverified opts rep"
  "unverified opts (bump_devices rep) = unverified opts rep"
  by (simp_all add: unverified_def bump_devices_def)

lemma unverified_push:
  "import_push_certs d dec opts pcs rep st = (Inr rep', st') \<Longrightarrow> unverified opts rep \<Longrightarrow> unverified opts rep'"
  by (induction pcs arbitrary: rep st) (auto split: sum.splits prod.splits option.splits)

lemma unverified_bootstrap:
  "import_bootstrap d dec opts row rep st = (Inr rep', st') \<Longrightarrow> unverified opts rep \<Longrightarrow> unverified opts rep'"
  by (auto simp: import_bootstrap_def split: if_splits sum.splits prod.splits option.splits)

lemma unverified_device:
  "import_device d dec opts row rep st = (Inr rep', st') \<Longrightarrow> unverified opts rep \<Longrightarrow> unverified opts rep'"
  by (auto simp: import_device_def Let_def dest: unverified_bootstrap split: if_splits sum.splits prod.splits option.splits)

lemma unverified_user_auth:
  "import_user_auth d dec opts row raws rep st = (Inr rep', st') \<Longrightarrow> unverified opts rep \<Longrightarrow> unverified opts rep'"
  by (induction raws arbitrary: rep st) (auto split: if_splits sum.splits prod.splits option.splits)

lemma unverified_user:
  "import_user d dec opts row rep st = (Inr rep', st') \<Longrightarrow> unverified opts rep \<Longrightarrow> unverified opts rep'"
  by (auto simp: import_user_def simp del: import_user_auth.simps dest!: unverified_user_auth
      split: if_splits sum.splits prod.splits option.splits)

lemma unverified_assoc:
  "import_assoc d opts a rep st = (Inr rep', st') \<Longrightarrow> unverified opts rep \<Longrightarrow> unverified opts rep'"
  by (auto simp: import_assoc_def split: prod.splits option.splits)

lemma unverified_each:
  assumes "\<And>r rep st rep' st'. f r rep st = (Inr rep', st') \<Longrightarrow> unverified opts rep \<Longrightarrow> unverified opts rep'"
  shows "each_row f rs rep st = (Inr rep', st') \<Longrightarrow> unverified opts rep \<Longrightarrow> unverified opts rep'"
proof (induction rs arbitrary: rep st)
  case (Cons r rs)
  from Cons.prems(1) obtain rep1 st1 where 1: "f r rep st = (Inr rep1, st1)" "each_row f rs rep1 st1 = (Inr rep', st')"
    by (auto split: prod.splits sum.splits)
  show ?case by (rule Cons.IH[OF 1(2)]) (rule assms[OF 1(1) Cons.prems(2)])
qed simp

lemma phase_Inr: "phase w rows f st = (Inr rep, st') \<longleftrightarrow> (\<exists>rs. rows = Inr rs \<and> f rs st = (Inr rep, st'))"
  by (simp add: phase_def split: sum.splits)

lemma and_next_Inr: "and_next r f = (Inr rep, st') \<longleftrightarrow> (\<exists>rep1 st1. r = (Inr rep1, st1) \<and> f rep1 st1 = (Inr rep, st'))"
  by (cases r; cases "fst r") (auto simp: and_next_def)

lemma run_import_enrollments:
  \<comment> \<open>a run that returns a report ends with the enrollment phase, on a report that has verified nothing yet\<close>
  assumes "run_import d dec src opts st0 = (Inr rep, st1)" and "src_enrollments src = Inr es" and "src_assocs src = Inr assocs"
  obtains rep0 st where "unverified opts rep0" and "import_enrollments d opts es assocs rep0 st = (rep, st1)"
proof -
  from assms(1)[unfolded run_import_def phase_Inr] assms(2,3)
  obtain p pcs ds us rep1 s1 rep2 s2 rep3 s3 rep4 s4 where
      1: "import_push_certs d dec opts pcs
            (set_source (\<lambda>s. s\<lparr>sc_pending := p, sc_push_certs := length pcs\<rparr>) (new_report opts)) st0 = (Inr rep1, s1)"
    and 2: "each_row (import_device d dec opts) ds (set_source (\<lambda>s. s\<lparr>sc_devices := length ds\<rparr>) rep1) s1 = (Inr rep2, s2)"
    and 3: "each_row (import_user d dec opts) us (set_source (\<lambda>s. s\<lparr>sc_users := length us\<rparr>) rep2) s2 = (Inr rep3, s3)"
    and 4: "each_row (import_assoc d opts) assocs (set_source (\<lambda>s. s\<lparr>sc_associations := length assocs\<rparr>) rep3) s3 = (Inr rep4, s4)"
    and 5: "(case import_enrollments d opts es assocs (set_source (\<lambda>s. s\<lparr>sc_enrollments := length es\<rparr>) rep4) s4 of
               (rep5, st5) \<Rightarrow> (Inr rep5 :: string + report, st5)) = (Inr rep, st1)"
    by (auto simp: and_next_Inr phase_Inr split: if_splits)
  have "unverified opts rep1" by (rule unverified_push[OF 1]) simp
  then have "unverified opts rep2" using unverified_each[OF unverified_device 2] by simp
  then have "unverified opts rep3" using unverified_each[OF unverified_user 3] by simp
  then have "unverified opts rep4" using unverified_each[OF unverified_assoc 4] by simp
  then have "unverified opts (set_source (\<lambda>s. s\<lparr>sc_enrollments := length es\<rparr>) rep4)" by simp
  then show ?thesis by (rule that) (use 5 in \<open>simp split: prod.splits\<close>)
qed

lemma disable_all_report:
  assumes "disable_all d es rep st = (rep', st')"
  shows "rep_mismatches rep' = rep_mismatches rep" and "rep_skipped rep' = rep_skipped rep"
    and "\<exists>fs. rep_disable_failures rep' = rep_disable_failures rep @ fs
           \<and> rep_disabled rep' + length fs = rep_disabled rep + length (filter (\<lambda>e. \<not> es_enabled e) es)"
proof -
  have "rep_mismatches rep' = rep_mismatches rep \<and> rep_skipped rep' = rep_skipped rep
     \<and> (\<exists>fs. rep_disable_failures rep' = rep_disable_failures rep @ fs
           \<and> rep_disabled rep' + length fs = rep_disabled rep + length (filter (\<lambda>e. \<not> es_enabled e) es))"
    using assms
  proof (induction es arbitrary: rep st)
    case (Cons e es)
    show ?case
    proof (cases "es_enabled e")
      case True
      with Cons show ?thesis by simp
    next
      case False
      obtain f st1 where f: "st_disable d (disable_req e) st = (f, st1)" by (cases "st_disable d (disable_req e) st")
      show ?thesis
      proof (cases f)
        case None
        with Cons.prems False f Cons.IH[of "rep\<lparr>rep_disabled := rep_disabled rep + 1\<rparr>" st1] show ?thesis by auto
      next
        case (Some err)
        with Cons.prems False f Cons.IH[of "rep\<lparr>rep_disable_failures := rep_disable_failures rep @ [es_id e]\<rparr>" st1]
        obtain fs where "rep_mismatches rep' = rep_mismatches rep" "rep_skipped rep' = rep_skipped rep"
          and fs: "rep_disable_failures rep' = rep_disable_failures rep @ es_id e # fs"
            "rep_disabled rep' + length fs = rep_disabled rep + length (filter (\<lambda>e. \<not> es_enabled e) es)" by auto
        then show ?thesis using False by (intro conjI exI[of _ "es_id e # fs"]) simp_all
      qed
    qed
  qed simp
  then show "rep_mismatches rep' = rep_mismatches rep" and "rep_skipped rep' = rep_skipped rep"
    and "\<exists>fs. rep_disable_failures rep' = rep_disable_failures rep @ fs
           \<and> rep_disabled rep' + length fs = rep_disabled rep + length (filter (\<lambda>e. \<not> es_enabled e) es)" by blast+
qed

lemma import_enrollments_report:
  assumes "import_enrollments d opts es assocs rep0 st = (rep, st1)" and "\<not> op_dry_run opts" and "unverified opts rep0"
  shows "rep_mismatches rep = verify d es assocs st1"
    and "rep_disabled rep + length (rep_disable_failures rep) = length (filter (\<lambda>e. \<not> es_enabled e) es)"
    and "rep_skipped rep = rep_skipped rep0"
proof -
  define rep1 where "rep1 = rep0\<lparr>rep_enrollments := length es,
            rep_types := map (\<lambda>e. if es_type e = [] then ''Device'' else es_type e) es, rep_topics := map es_topic es\<rparr>"
  obtain rep2 st2 where d: "disable_all d es rep1 st = (rep2, st2)" by (cases "disable_all d es rep1 st")
  from assms(1,2) d have r: "rep = rep2\<lparr>rep_mismatches := rep_mismatches rep2 @ verify d es assocs st2\<rparr>" "st1 = st2"
    by (auto simp: import_enrollments_def rep1_def)
  have u: "rep_disabled rep1 = 0" "rep_mismatches rep1 = []" "rep_disable_failures rep1 = []" "rep_skipped rep1 = rep_skipped rep0"
    using assms(3) by (simp_all add: rep1_def unverified_def)
  show "rep_mismatches rep = verify d es assocs st1" using disable_all_report(1)[OF d] u r by simp
  show "rep_disabled rep + length (rep_disable_failures rep) = length (filter (\<lambda>e. \<not> es_enabled e) es)"
    using disable_all_report(3)[OF d] u r by auto
  show "rep_skipped rep = rep_skipped rep0" using disable_all_report(2)[OF d] u r by simp
qed

lemma by_id_unique: "distinct (map es_id es) \<Longrightarrow> e \<in> set es \<Longrightarrow> by_id es (es_id e) = Some e"
  unfolding by_id_def by (rule map_of_is_SomeI) (simp_all add: comp_def rev_map[symmetric])

lemma check_push_clean:
  "check_push infos e = [] \<longleftrightarrow> (\<exists>p. infos (es_id e) = Some p \<and> pi_topic p = es_topic e \<and> pi_magic p = es_magic e
     \<and> hex_token (pi_token p) = es_token_hex e)"
  by (simp add: check_push_def split: option.splits)

lemma import_certified:
  assumes run: "run_import d dec src opts st0 = (Inr rep, st1)" and ok: "report_ok rep" and wet: "\<not> op_dry_run opts"
    and src: "src_enrollments src = Inr es" "src_assocs src = Inr assocs" and ids: "distinct (map es_id es)"
  shows "(\<exists>infos. st_push_info d (map es_id (filter es_enabled es)) st1 = Inr infos
            \<and> (\<forall>e\<in>set es. es_enabled e \<longrightarrow> (\<exists>p. infos (es_id e) = Some p \<and> pi_topic p = es_topic e
                 \<and> pi_magic p = es_magic e \<and> hex_token (pi_token p) = es_token_hex e)))
       \<and> (\<forall>(i, h)\<in>set assocs. st_is_assoc d (DeviceReq i) h st1 = Inr True)
       \<and> rep_disabled rep = length (filter (\<lambda>e. \<not> es_enabled e) es)
       \<and> (\<forall>s\<in>set (rep_skipped rep). sk_id s \<in> set (op_exceptions opts))"
proof -
  obtain rep0 st where u: "unverified opts rep0" and e: "import_enrollments d opts es assocs rep0 st = (rep, st1)"
    by (rule run_import_enrollments[OF run src])
  note r = import_enrollments_report[OF e wet u]
  from r(1) ok have v: "verify d es assocs st1 = []" by (simp add: report_ok_def)
  then obtain infos where i: "st_push_info d (map es_id (filter es_enabled es)) st1 = Inr infos"
    by (auto simp: verify_def Let_def split: sum.splits)
  with v have c: "\<forall>e\<in>set es. es_enabled e \<longrightarrow> (case by_id es (es_id e) of None \<Rightarrow> [] | Some e \<Rightarrow> check_push infos e) = []"
    and a: "\<forall>(i, h)\<in>set assocs. (case st_is_assoc d (DeviceReq i) h st1 of Inr True \<Rightarrow> [] | _ \<Rightarrow> [CertMissing i h]) = []"
    by (auto simp: verify_def)
  from c have "\<forall>e\<in>set es. es_enabled e \<longrightarrow> check_push infos e = []" by (simp add: by_id_unique[OF ids])
  with i have 1: "\<exists>infos. st_push_info d (map es_id (filter es_enabled es)) st1 = Inr infos
            \<and> (\<forall>e\<in>set es. es_enabled e \<longrightarrow> (\<exists>p. infos (es_id e) = Some p \<and> pi_topic p = es_topic e
                 \<and> pi_magic p = es_magic e \<and> hex_token (pi_token p) = es_token_hex e))"
    by (simp add: check_push_clean)
  have 2: "\<forall>(i, h)\<in>set assocs. st_is_assoc d (DeviceReq i) h st1 = Inr True"
  proof safe
    fix i h assume "(i, h) \<in> set assocs"
    with a have "(case st_is_assoc d (DeviceReq i) h st1 of Inr True \<Rightarrow> [] | _ \<Rightarrow> [CertMissing i h]) = []" by blast
    then show "st_is_assoc d (DeviceReq i) h st1 = Inr True" by (simp split: sum.splits bool.splits)
  qed
  have 3: "rep_disabled rep = length (filter (\<lambda>e. \<not> es_enabled e) es)" using r(2) ok by (simp add: report_ok_def)
  have 4: "\<forall>s\<in>set (rep_skipped rep). sk_id s \<in> set (op_exceptions opts)"
    using ok u r(3) by (simp add: report_ok_def unverified_def)
  from 1 2 3 4 show ?thesis by simp
qed

text \<open>
  A run that returns a report graded Ok, outside a dry run, certifies the cut-over: in
  the storage it leaves, every enrollment the source had enabled has its push information
  with the topic, the magic and the token of the source; every certificate association is
  present; every enrollment the source had disabled was disabled; and nothing was skipped
  that is not in the exceptions the operator accepted.
\<close>

theorem import_ok_certifies:
  assumes run: "run_import d dec src opts st0 = (Inr rep, st1)" and ok: "report_ok rep" and wet: "\<not> op_dry_run opts"
    and src: "src_enrollments src = Inr es" "src_assocs src = Inr assocs" and ids: "distinct (map es_id es)"
  shows "(\<exists>infos. st_push_info d (map es_id (filter es_enabled es)) st1 = Inr infos
            \<and> (\<forall>e\<in>set es. es_enabled e \<longrightarrow> (\<exists>p. infos (es_id e) = Some p \<and> pi_topic p = es_topic e
                 \<and> pi_magic p = es_magic e \<and> hex_token (pi_token p) = es_token_hex e)))
       \<and> (\<forall>(i, h)\<in>set assocs. st_is_assoc d (DeviceReq i) h st1 = Inr True)
       \<and> rep_disabled rep = length (filter (\<lambda>e. \<not> es_enabled e) es)
       \<and> (\<forall>s\<in>set (rep_skipped rep). sk_id s \<in> set (op_exceptions opts))"
  by (rule import_certified[OF assms])

lemma import_ok_certifies_witness:
  "\<exists>rep. run_import example_dst example_decoders (example_source ''A'') (example_options False []) [] = (Inr rep, [''d1''])
     \<and> rep_disabled rep = 1"
proof -
  define r where "r = run_import example_dst example_decoders (example_source ''A'') (example_options False []) []"
  obtain es assocs where s: "src_enrollments (example_source ''A'') = Inr es" "src_assocs (example_source ''A'') = Inr assocs"
    and ids: "distinct (map es_id es)" and n: "length (filter (\<lambda>e. \<not> es_enabled e) es) = 1"
    by (simp add: example_source_def)
  have c: "case r of (Inr rep, st) \<Rightarrow> report_ok rep \<and> st = [''d1''] | _ \<Rightarrow> False"
    unfolding r_def by code_simp
  then obtain rep where r: "r = (Inr rep, [''d1''])" and ok: "report_ok rep" by (auto split: prod.splits sum.splits)
  have "rep_disabled rep = 1"
    using import_ok_certifies[OF r[unfolded r_def] ok _ s ids] n by (simp add: example_options_def)
  with r show ?thesis by (auto simp: r_def)
qed

text \<open>
  An exception the operator accepted still fails the run when the source has an enabled
  enrollment row for it: the row is compared whether or not its device was skipped, so a
  device with no push information after the run is a mismatch and the report is not Ok.
\<close>

theorem accepted_exception_still_fails:
  assumes run: "run_import d dec src opts st0 = (Inr rep, st1)" and wet: "\<not> op_dry_run opts"
    and src: "src_enrollments src = Inr es" "src_assocs src = Inr assocs" and ids: "distinct (map es_id es)"
    and e: "e \<in> set es" "es_enabled e" and infos: "st_push_info d (map es_id (filter es_enabled es)) st1 = Inr infos"
    and none: "infos (es_id e) = None"
  shows "NoPushInfo (es_id e) \<in> set (rep_mismatches rep) \<and> \<not> report_ok rep"
proof -
  obtain rep0 st where u: "unverified opts rep0" and en: "import_enrollments d opts es assocs rep0 st = (rep, st1)"
    by (rule run_import_enrollments[OF run src])
  have m: "rep_mismatches rep = verify d es assocs st1" by (rule import_enrollments_report(1)[OF en wet u])
  have "NoPushInfo (es_id e) \<in> set (case by_id es (es_id e) of None \<Rightarrow> [] | Some e \<Rightarrow> check_push infos e)"
    by (simp add: by_id_unique[OF ids e(1)] check_push_def none)
  with e infos have "NoPushInfo (es_id e) \<in> set (verify d es assocs st1)" by (auto simp: verify_def)
  with m show ?thesis by (auto simp: report_ok_def)
qed

lemma accepted_exception_still_fails_witness:
  "\<exists>rep. run_import example_dst example_decoders (example_source ''bad'') (example_options False [''d1'']) [] = (Inr rep, [])
     \<and> rep_skipped rep = [\<lparr>sk_id = ''d1'', sk_reason = BadAuthenticate, sk_accepted = True\<rparr>] \<and> \<not> report_ok rep"
proof -
  define r where "r = run_import example_dst example_decoders (example_source ''bad'') (example_options False [''d1'']) []"
  have c: "case r of (Inr rep, st) \<Rightarrow> rep_skipped rep = [\<lparr>sk_id = ''d1'', sk_reason = BadAuthenticate, sk_accepted = True\<rparr>] \<and> st = []
      | _ \<Rightarrow> False"
    unfolding r_def by code_simp
  then obtain rep where r: "r = (Inr rep, [])"
    and s: "rep_skipped rep = [\<lparr>sk_id = ''d1'', sk_reason = BadAuthenticate, sk_accepted = True\<rparr>]"
    by (auto split: prod.splits sum.splits)
  define e1 e2 where "e1 = \<lparr>es_id = ''d1'', es_device = ''d1'', es_user = [], es_type = ''Device'', es_topic = ''t'',
        es_magic = ''m'', es_token_hex = ''6b'', es_enabled = True\<rparr>"
    and "e2 = \<lparr>es_id = ''d2'', es_device = ''d2'', es_user = [], es_type = ''Device'', es_topic = ''t'',
        es_magic = ''m'', es_token_hex = ''6b'', es_enabled = False\<rparr>"
  have src: "src_enrollments (example_source ''bad'') = Inr [e1, e2]" "src_assocs (example_source ''bad'') = Inr [(''d1'', ''h1'')]"
    by (simp_all add: example_source_def e1_def e2_def)
  have "\<not> report_ok rep"
    using accepted_exception_still_fails[OF r[unfolded r_def] _ src, of e1 "\<lambda>i. None"]
    by (simp add: example_options_def e1_def e2_def example_dst_def)
  with r s show ?thesis by (auto simp: r_def)
qed

end
