(* ===== verification/ImportCli.thy ===== *)
theory ImportCli
  imports Cli Importer
begin

section \<open>The import command\<close>

text \<open>
  \<open>cmd/cairn/import.go\<close>, \<open>internal/importer/mysql.go\<close> and \<open>report.go\<close>: the source DSN and the file
  it comes from, the exception list, the rows of the source, the run with its checks of the
  destination, the evidence bundle and the summary.  What the MySQL server answers to a query
  is a parameter; its columns can be NULL.
\<close>

subsection \<open>The source DSN\<close>

definition last_part :: "char \<Rightarrow> string \<Rightarrow> string option" where
  \<comment> \<open>what follows the last occurrence\<close>
  "last_part d s = (if d \<in> set s then Some (rev (takeWhile (\<lambda>c. c \<noteq> d) (rev s))) else None)"

definition dsn_has_tls :: "string \<Rightarrow> bool" where
  "dsn_has_tls d =
     (case last_part (CHR ''?'') d of
        None \<Rightarrow> False
      | Some q \<Rightarrow> list_ex (\<lambda>kv. has_prefix (lower kv) ''tls='') (split_on (CHR ''&'') q))"

definition append_dsn_param :: "string \<Rightarrow> string \<Rightarrow> string \<Rightarrow> string" where
  "append_dsn_param d k v = d @ (if CHR ''?'' \<in> set d then ''&'' else ''?'') @ k @ ''='' @ v"

definition source_dsn :: "string \<Rightarrow> string" where
  \<comment> \<open>the DSN that \<open>OpenMySQL\<close> hands to the driver\<close>
  "source_dsn d = (if dsn_has_tls d then d else append_dsn_param d ''tls'' ''preferred'')"

definition read_dsn_file :: "os_env \<Rightarrow> string \<Rightarrow> file_system \<Rightarrow> cli_error + string" where
  "read_dsn_file x path fs =
     (case (os_stat x path, fs path) of
        (None, Some (m, old)) \<Rightarrow>
          if m AND 63 \<noteq> 0 then Inl (Failed (''DSN file '' @ path @ '' is group/other-accessible; chmod 600 it''))
          else (case read_file x path fs of
              Inl e \<Rightarrow> Inl (Failed (''read DSN file: '' @ e))
            | Inr data \<Rightarrow>
                let d = trim_space data in if d = [] then Inl (Failed (''DSN file '' @ path @ '' is empty'')) else Inr d)
      | (Some e, _) \<Rightarrow> Inl (Failed (''read DSN file: '' @ e))
      | (None, None) \<Rightarrow> Inl (Failed ''read DSN file: no such file or directory''))"

definition resolve_dsn :: "os_env \<Rightarrow> string \<Rightarrow> string \<Rightarrow> file_system \<Rightarrow> (cli_error + string) \<times> string list" where
  \<comment> \<open>with the warnings on the standard error\<close>
  "resolve_dsn x inline file fs =
     (if file \<noteq> [] then (read_dsn_file x file fs, if inline \<noteq> [] then [''warning: both -from-mysql and -from-mysql-file given''] else [])
      else if inline \<noteq> [] then (Inr inline, [''warning: -from-mysql puts the DSN in process listings''])
      else (Inl (Usage ''one of -from-mysql or -from-mysql-file is required''), []))"

subsection \<open>The exception list\<close>

definition scan_lines :: "string \<Rightarrow> string + string list" where
  \<comment> \<open>\<open>bufio.Scanner\<close>: lines of less than 64 KiB, without their line ends\<close>
  "scan_lines s =
     (let ls = split_on (CHR 0x0A) s;
          ls1 = (if last ls = [] then butlast ls else ls)
      in if list_ex (\<lambda>l. 65536 \<le> length l) ls1 then Inl ''bufio.Scanner: token too long''
         else Inr (map (\<lambda>l. if l \<noteq> [] \<and> last l = CHR 0x0D then butlast l else l) ls1))"

definition exception_ids :: "string list \<Rightarrow> string list" where
  "exception_ids ls = filter (\<lambda>l. l \<noteq> [] \<and> \<not> has_prefix l ''#'') (map trim_space ls)"

definition load_exceptions :: "os_env \<Rightarrow> (string \<Rightarrow> string) \<Rightarrow> string \<Rightarrow> file_system \<Rightarrow> cli_error + string list \<times> string" where
  "load_exceptions x sha path fs =
     (case read_file x path fs of
        Inl e \<Rightarrow> Inl (Failed (''read exception file: '' @ e))
      | Inr data \<Rightarrow>
          (case scan_lines data of
             Inl e \<Rightarrow> Inl (Failed (''scan exception file: '' @ e))
           | Inr ls \<Rightarrow> Inr (exception_ids ls, hex_encode (sha data))))"

definition unaccepted_skips :: "report \<Rightarrow> nat" where
  "unaccepted_skips rep = length (filter (\<lambda>s. \<not> sk_accepted s) (rep_skipped rep))"

subsection \<open>The rows of the source\<close>

type_synonym column = "string option"
type_synonym 'row answer = "string + 'row list \<times> fault"
  \<comment> \<open>the failure of the query, or its rows in order and the error the iteration ends with\<close>

record mysql_db =
  my_pending :: "string + int"
  my_push_certs :: "(column \<times> column \<times> column) answer"
  my_devices :: "(column \<times> column \<times> column \<times> column \<times> column) answer"
  my_users :: "(column \<times> column \<times> column \<times> column \<times> column) answer"
  my_assocs :: "(column \<times> column) answer"
  my_enrollments :: "(column \<times> column \<times> column \<times> column \<times> column \<times> column \<times> column \<times> bool option) answer"

definition scan_col :: "'a option \<Rightarrow> string + 'a" where
  \<comment> \<open>scanning a NULL into a string is an error\<close>
  "scan_col c = (case c of None \<Rightarrow> Inl ''sql: Scan error: converting NULL is unsupported'' | Some s \<Rightarrow> Inr s)"

definition coalesce :: "column \<Rightarrow> string" where
  "coalesce c = (case c of None \<Rightarrow> [] | Some s \<Rightarrow> s)"

fun scan_rows :: "('row \<Rightarrow> string + 'a) \<Rightarrow> 'row list \<Rightarrow> string + 'a list" where
  "scan_rows f [] = Inr []"
| "scan_rows f (r # rs) = and_then (f r) (\<lambda>a. and_then (scan_rows f rs) (\<lambda>as. Inr (a # as)))"

definition read_rows :: "('row \<Rightarrow> string + 'a) \<Rightarrow> 'row answer \<Rightarrow> string + 'a list" where
  "read_rows f ans =
     (case ans of
        Inl e \<Rightarrow> Inl e
      | Inr (rs, err) \<Rightarrow> and_then (scan_rows f rs) (\<lambda>xs. case err of Some e \<Rightarrow> Inl e | None \<Rightarrow> Inr xs))"

definition scan_device :: "column \<times> column \<times> column \<times> column \<times> column \<Rightarrow> string + device_src" where
  "scan_device r = (case r of (i, auth, tok, boot, serial) \<Rightarrow>
     and_then (scan_col i) (\<lambda>i. and_then (scan_col auth) (\<lambda>auth.
       Inr \<lparr>ds_id = i, ds_authenticate = auth, ds_token_update = coalesce tok, ds_bootstrap = coalesce boot\<rparr>)))"

definition scan_user :: "column \<times> column \<times> column \<times> column \<times> column \<Rightarrow> string + user_src" where
  "scan_user r = (case r of (i, dev, tok, ua, dig) \<Rightarrow>
     and_then (scan_col i) (\<lambda>i. and_then (scan_col dev) (\<lambda>dev.
       Inr \<lparr>us_id = i, us_device = dev, us_token_update = coalesce tok, us_user_auth = coalesce ua, us_user_auth_digest = coalesce dig\<rparr>)))"

definition scan_enrollment ::
  "column \<times> column \<times> column \<times> column \<times> column \<times> column \<times> column \<times> bool option \<Rightarrow> string + enrollment_src" where
  "scan_enrollment r = (case r of (i, dev, usr, typ, topic, magic, tok, en) \<Rightarrow>
     and_then (scan_col i) (\<lambda>i. and_then (scan_col dev) (\<lambda>dev. and_then (scan_col typ) (\<lambda>typ. and_then (scan_col topic) (\<lambda>topic.
     and_then (scan_col magic) (\<lambda>magic. and_then (scan_col tok) (\<lambda>tok. and_then (scan_col en) (\<lambda>en.
       Inr \<lparr>es_id = i, es_device = dev, es_user = coalesce usr, es_type = typ, es_topic = topic, es_magic = magic,
            es_token_hex = tok, es_enabled = en\<rparr>))))))))"

definition scan_assoc :: "column \<times> column \<Rightarrow> string + string \<times> string" where
  "scan_assoc r = and_then (scan_col (fst r)) (\<lambda>i. and_then (scan_col (snd r)) (\<lambda>h. Inr (i, h)))"

definition scan_push_cert :: "column \<times> column \<times> column \<Rightarrow> string + push_cert_src" where
  "scan_push_cert r = (case r of (t, c, k) \<Rightarrow> and_then (scan_col t) (\<lambda>t. and_then (scan_col c) (\<lambda>c. and_then (scan_col k) (\<lambda>k.
     Inr \<lparr>pc_topic = t, pc_cert = c, pc_key = k\<rparr>))))"

definition mysql_source :: "mysql_db \<Rightarrow> source" where
  "mysql_source my = \<lparr>src_pending = my_pending my, src_push_certs = read_rows scan_push_cert (my_push_certs my),
     src_devices = read_rows scan_device (my_devices my), src_users = read_rows scan_user (my_users my),
     src_assocs = read_rows scan_assoc (my_assocs my), src_enrollments = read_rows scan_enrollment (my_enrollments my)\<rparr>"

subsection \<open>The evidence and the summary\<close>

record evidence =
  ev_started :: nanos
  ev_finished :: nanos
  ev_build :: "string \<times> string"
  ev_ok :: bool
  ev_dry_run :: bool
  ev_devices :: nat
  ev_users :: nat
  ev_enrollments :: nat
  ev_associations :: nat
  ev_push_certs :: nat
  ev_disabled :: nat
  ev_types :: "string list"
  ev_topics :: "string list"
  ev_source :: source_counts
  ev_exceptions :: "skip_entry list"
  ev_exceptions_sha :: string
  ev_mismatches :: "mismatch list"
  ev_disable_failures :: "string list"

definition build_evidence :: "string \<times> string \<Rightarrow> report \<Rightarrow> nanos \<Rightarrow> nanos \<Rightarrow> evidence" where
  "build_evidence build rep t0 t1 = \<lparr>ev_started = t0, ev_finished = t1, ev_build = build, ev_ok = report_ok rep,
     ev_dry_run = rep_dry_run rep, ev_devices = rep_devices rep, ev_users = rep_users rep,
     ev_enrollments = rep_enrollments rep, ev_associations = rep_associations rep, ev_push_certs = rep_push_certs rep,
     ev_disabled = rep_disabled rep, ev_types = rep_types rep, ev_topics = rep_topics rep, ev_source = rep_source rep,
     ev_exceptions = rep_skipped rep, ev_exceptions_sha = rep_exceptions_sha rep, ev_mismatches = rep_mismatches rep,
     ev_disable_failures = rep_disable_failures rep\<rparr>"

definition write_evidence :: "os_env \<Rightarrow> (evidence \<Rightarrow> string + string) \<Rightarrow> string \<Rightarrow> evidence \<Rightarrow> file_system \<Rightarrow> fault \<times> file_system" where
  "write_evidence x encode path ev fs =
     (case encode ev of
        Inl e \<Rightarrow> (Some (''marshal evidence: '' @ e), fs)
      | Inr b \<Rightarrow> (case write_file x path (b @ [CHR 0x0A]) 384 fs of
          (Some e, fs1) \<Rightarrow> (Some (''write evidence '' @ path @ '': '' @ e), fs1) | (None, fs1) \<Rightarrow> (None, fs1)))"

datatype summary_line =
    Heading bool
  | Tally string int
  | ByKey string "(string \<times> nat) list"
  | SkippedRow string skip_reason bool
  | MismatchRow mismatch
  | DisableFailed string
  | Verdict bool

definition join_counts :: "(string list \<Rightarrow> string list) \<Rightarrow> string list \<Rightarrow> (string \<times> nat) list" where
  \<comment> \<open>\<open>order\<close> is the iteration order of the Go map\<close>
  "join_counts order ks = map (\<lambda>k. (if k = [] then ''(none)'' else k, count_list ks k)) (order (remdups ks))"

definition summary :: "(string list \<Rightarrow> string list) \<Rightarrow> report \<Rightarrow> summary_line list" where
  "summary order rep =
     [Heading (rep_dry_run rep), Tally ''devices'' (int (rep_devices rep)), Tally ''users'' (int (rep_users rep)),
      Tally ''enrollments'' (int (rep_enrollments rep)), Tally ''disabled'' (int (rep_disabled rep)),
      Tally ''cert associations'' (int (rep_associations rep)), Tally ''push certificates'' (int (rep_push_certs rep)),
      Tally ''pending (not migrated)'' (sc_pending (rep_source rep))] @
     (if rep_types rep \<noteq> [] then [ByKey ''by type'' (join_counts order (rep_types rep))] else []) @
     (if rep_topics rep \<noteq> [] then [ByKey ''by topic'' (join_counts order (rep_topics rep))] else []) @
     map (\<lambda>s. SkippedRow (sk_id s) (sk_reason s) (sk_accepted s)) (rep_skipped rep) @
     map MismatchRow (rep_mismatches rep) @ map DisableFailed (rep_disable_failures rep) @
     (if rep_dry_run rep then [] else [Verdict (report_ok rep)])"

subsection \<open>The command\<close>

record ('st, 'auth, 'tok, 'uauth, 'boot) import_env =
  im_os :: os_env
  im_open :: "'st open_env"
  im_sha :: "string \<Rightarrow> string"
  im_connect :: "string \<Rightarrow> fault"
  im_ping :: fault
  im_mysql :: "string \<Rightarrow> mysql_db"
  im_dst :: "('st, 'auth, 'tok, 'uauth, 'boot) dst"
  im_decoders :: "('auth, 'tok, 'uauth, 'boot) decoders"
  im_count :: "'st \<Rightarrow> string + nat"   \<comment> \<open>\<open>DeviceCounts\<close> of the destination\<close>
  im_secs :: "string \<Rightarrow> secs"           \<comment> \<open>the instant of an RFC3339 text\<close>
  im_upsert :: "string \<Rightarrow> fault"
  im_encode :: "evidence \<Rightarrow> string + string"
  im_order :: "string list \<Rightarrow> string list"
  im_build :: "string \<times> string"
  im_started :: nanos
  im_finished :: nanos

record import_flags =
  if_config :: string
  if_mysql :: string
  if_mysql_file :: string
  if_dry_run :: bool
  if_allow_pending :: bool
  if_exceptions :: string
  if_force :: bool
  if_evidence :: string

record 'st import_machine = "'st machine" +
  im_topics :: "apns_topic list"
  im_warnings :: "string list"
  im_printed :: "summary_line list"

definition import_run_options ::
  "('st, 'auth, 'tok, 'uauth, 'boot) import_env \<Rightarrow> import_flags \<Rightarrow> file_system \<Rightarrow> cli_error + options" where
  "import_run_options ie fl fs =
     and_then (if if_exceptions fl = [] then Inr ([], []) else load_exceptions (im_os ie) (im_sha ie) (if_exceptions fl) fs)
       (\<lambda>(allowed, sha). Inr \<lparr>op_allow_pending = if_allow_pending fl, op_dry_run = if_dry_run fl, op_exceptions = allowed,
          op_exceptions_sha = sha\<rparr>)"

definition prepare_import ::
  "('st, 'auth, 'tok, 'uauth, 'boot) import_env \<Rightarrow> import_flags \<Rightarrow> file_system \<Rightarrow> (cli_error + config \<times> options \<times> source) \<times> string list" where
  \<comment> \<open>all that precedes the destination\<close>
  "prepare_import ie fl fs =
     (case resolve_dsn (im_os ie) (if_mysql fl) (if_mysql_file fl) fs of (d, warnings) \<Rightarrow>
       (and_then d (\<lambda>d. and_then (sqlite_config (im_os ie) (if_config fl) fs) (\<lambda>cfg. and_then (import_run_options ie fl fs) (\<lambda>opts.
          case im_connect ie (source_dsn d) of
            Some e \<Rightarrow> Inl (Failed (''open mysql: '' @ e))
          | None \<Rightarrow> (case im_ping ie of
              Some e \<Rightarrow> Inl (Failed (''source unreachable: '' @ e))
            | None \<Rightarrow> Inr (cfg, opts, mysql_source (im_mysql ie (source_dsn d))))))), warnings))"

definition record_topics ::
  "('st, 'auth, 'tok, 'uauth, 'boot) import_env \<Rightarrow> (string \<times> string \<times> string) list \<Rightarrow> apns_topic list \<Rightarrow> apns_topic list" where
  \<comment> \<open>an error is only logged\<close>
  "record_topics ie metas ts = foldl (\<lambda>ts (topic, not_after, subject).
     snd (upsert_apns_topic (im_upsert ie topic) (im_finished ie) topic (im_secs ie not_after) subject ''import'' ts)) ts metas"

definition evidence_path :: "import_flags \<Rightarrow> config \<Rightarrow> string" where
  "evidence_path fl cfg = (if if_evidence fl = [] then storage_path (cfg_storage cfg) @ ''.import-evidence.json'' else if_evidence fl)"

definition finish_import ::
  "('st, 'auth, 'tok, 'uauth, 'boot) import_env \<Rightarrow> import_flags \<Rightarrow> config \<Rightarrow> report \<Rightarrow> 'st import_machine \<Rightarrow>
   (cli_error + unit) \<times> 'st import_machine" where
  \<comment> \<open>what follows a run that returned a report\<close>
  "finish_import ie fl cfg rep st =
     (let st1 = st\<lparr>im_topics := record_topics ie (rep_push_topics rep) (im_topics st)\<rparr> in
      case write_evidence (im_os ie) (im_encode ie) (evidence_path fl cfg)
             (build_evidence (im_build ie) rep (im_started ie) (im_finished ie)) (mc_files st1) of
        (Some e, fs) \<Rightarrow> (Inl (Failed e), st1\<lparr>mc_files := fs\<rparr>)
      | (None, fs) \<Rightarrow>
          let st2 = say (''Evidence written to '' @ evidence_path fl cfg)
                (st1\<lparr>mc_files := fs, im_printed := im_printed st1 @ summary (im_order ie) rep\<rparr>)
          in (if report_ok rep then Inr () else Inl (Failed ''import verification failed''), st2))"

definition run_import_command ::
  "('st, 'auth, 'tok, 'uauth, 'boot) import_env \<Rightarrow> import_flags \<Rightarrow> 'st import_machine \<Rightarrow> (cli_error + unit) \<times> 'st import_machine" where
  "run_import_command ie fl st0 =
     (case prepare_import ie fl (mc_files st0) of
        (Inl e, warnings) \<Rightarrow> (Inl e, st0\<lparr>im_warnings := im_warnings st0 @ warnings\<rparr>)
      | (Inr (cfg, opts, src), warnings) \<Rightarrow>
         let st = st0\<lparr>im_warnings := im_warnings st0 @ warnings\<rparr>;
             run = (\<lambda>s. run_import (im_dst ie) (im_decoders ie) src opts s)
         in if if_dry_run fl then
              (case run (sd_tables (mc_db st)) of
                 (Inl e, _) \<Rightarrow> (Inl (Failed e), st)
               | (Inr rep, _) \<Rightarrow> (Inr (), st\<lparr>im_printed := im_printed st @ summary (im_order ie) rep\<rparr>))
            else
              (case open_sqlite (im_open ie) (storage_path (cfg_storage cfg)) st of
                 (Inl e, st1) \<Rightarrow> (Inl e, st1)
               | (Inr _, st1) \<Rightarrow>
              (case im_count ie (sd_tables (mc_db st1)) of
                 Inl e \<Rightarrow> (Inl (Failed (''precheck destination device count: '' @ e)), st1)
               | Inr n \<Rightarrow>
                  if 0 < n \<and> \<not> if_force fl
                  then (Inl (Failed (''destination '' @ storage_path (cfg_storage cfg) @ '' already contains devices'')), st1)
                  else (case run (sd_tables (mc_db st1)) of
                      (Inl e, s) \<Rightarrow> (Inl (Failed e), st1\<lparr>mc_db := (mc_db st1)\<lparr>sd_tables := s\<rparr>\<rparr>)
                    | (Inr rep, s) \<Rightarrow> finish_import ie fl cfg rep (st1\<lparr>mc_db := (mc_db st1)\<lparr>sd_tables := s\<rparr>\<rparr>)))))"

subsection \<open>A dry run\<close>

text \<open>
  A dry run is not only without writes to the destination, it never opens it, so that not even the
  schema is migrated: the files, the database and its modes, and the APNs topics are as before.
\<close>

theorem dry_run_untouched:
  assumes "if_dry_run fl" and "run_import_command ie fl st = (r, st')"
  shows "mc_files st' = mc_files st \<and> mc_modes st' = mc_modes st \<and> mc_db st' = mc_db st \<and> im_topics st' = im_topics st"
  using assms by (auto simp: run_import_command_def Let_def split: prod.splits sum.splits)

lemma finish_tables: "finish_import ie fl cfg rep st = (r, st') \<Longrightarrow> mc_db st' = mc_db st"
  by (auto simp: finish_import_def Let_def split: prod.splits option.splits)

text \<open>
  Without \<open>-force\<close> a destination that already has devices is left alone: if the tables differ from
  what opening the database gives, then there was no device in it.
\<close>

theorem import_spares_live_database:
  assumes "run_import_command ie fl st = (r, st')" and "\<not> if_force fl"
    and "prepare_import ie fl (mc_files st) = (Inr (cfg, opts, src), warnings)"
    and "open_sqlite (im_open ie) (storage_path (cfg_storage cfg)) (st\<lparr>im_warnings := im_warnings st @ warnings\<rparr>) = (Inr (), st1)"
    and "sd_tables (mc_db st') \<noteq> sd_tables (mc_db st1)" and "\<not> if_dry_run fl"
  shows "im_count ie (sd_tables (mc_db st1)) = Inr 0"
proof (cases "im_count ie (sd_tables (mc_db st1))")
  case (Inl e)
  with assms show ?thesis by (simp add: run_import_command_def)
next
  case (Inr n)
  with assms show ?thesis by (cases "n = 0") (auto simp: run_import_command_def Let_def)
qed

subsection \<open>What a successful import certifies\<close>

lemma write_evidence_done:
  "write_evidence x encode p ev fs = (None, fs') \<Longrightarrow> \<exists>b m. encode ev = Inr b \<and> fs' p = Some (m, b @ [CHR 0x0A])"
  by (auto simp: write_evidence_def dest!: write_file_done split: sum.splits prod.splits option.splits)

lemma finish_import_ok:
  assumes "finish_import ie fl cfg rep st = (Inr (), st')"
  shows "report_ok rep \<and> (\<exists>b m. im_encode ie (build_evidence (im_build ie) rep (im_started ie) (im_finished ie)) = Inr b \<and>
    mc_files st' (evidence_path fl cfg) = Some (m, b @ [CHR 0x0A]))"
  using assms by (auto simp: finish_import_def Let_def dest!: write_evidence_done split: prod.splits option.splits if_splits)

lemma prepare_import_options:
  "prepare_import ie fl fs = (Inr (cfg, opts, src), w) \<Longrightarrow> op_dry_run opts = if_dry_run fl"
  by (auto simp: prepare_import_def import_run_options_def and_then_def split: prod.splits sum.splits option.splits if_splits)

lemma import_command_run:
  assumes "run_import_command ie fl st = (Inr (), st')" and "\<not> if_dry_run fl"
    and "prepare_import ie fl (mc_files st) = (Inr (cfg, opts, src), warnings)"
  obtains s st1 rep where "run_import (im_dst ie) (im_decoders ie) src opts s = (Inr rep, sd_tables (mc_db st'))"
    and "finish_import ie fl cfg rep st1 = (Inr (), st')"
proof -
  from assms obtain st0 where o: "open_sqlite (im_open ie) (storage_path (cfg_storage cfg)) (st\<lparr>im_warnings := im_warnings st @ warnings\<rparr>) = (Inr (), st0)"
    by (auto simp: run_import_command_def Let_def split: prod.splits sum.splits)
  obtain res s where u: "run_import (im_dst ie) (im_decoders ie) src opts (sd_tables (mc_db st0)) = (res, s)"
    by (cases "run_import (im_dst ie) (im_decoders ie) src opts (sd_tables (mc_db st0))")
  from assms o u obtain rep where r: "res = Inr rep"
    "finish_import ie fl cfg rep (st0\<lparr>mc_db := (mc_db st0)\<lparr>sd_tables := s\<rparr>\<rparr>) = (Inr (), st')"
    by (auto simp: run_import_command_def Let_def split: sum.splits if_splits)
  with finish_tables[OF r(2)] u that show ?thesis by simp
qed

text \<open>
  C14: When \<open>cairn import\<close> succeeds, outside a dry run, the cut-over is certified from end to end: in
  the database that it leaves, every enrollment that is enabled in the source has the topic, the push
  magic and the token of the source, every certificate association is present, and what was
  skipped is in the operator's exception file; and the evidence file holds the record of that run,
  graded ok.
\<close>

theorem import_success_certified:
  assumes "run_import_command ie fl st = (Inr (), st')" and "\<not> if_dry_run fl"
    and "prepare_import ie fl (mc_files st) = (Inr (cfg, opts, mysql_source my), warnings)"
    and "read_rows scan_enrollment (my_enrollments my) = Inr es" and "read_rows scan_assoc (my_assocs my) = Inr assocs"
    and "distinct (map es_id es)"
  shows "\<exists>infos rep b m.
      st_push_info (im_dst ie) (map es_id (filter es_enabled es)) (sd_tables (mc_db st')) = Inr infos \<and>
      (\<forall>e\<in>set es. es_enabled e \<longrightarrow> (\<exists>p. infos (es_id e) = Some p \<and> pi_topic p = es_topic e \<and> pi_magic p = es_magic e \<and>
         hex_token (pi_token p) = es_token_hex e)) \<and>
      (\<forall>(i, h)\<in>set assocs. st_is_assoc (im_dst ie) (DeviceReq i) h (sd_tables (mc_db st')) = Inr True) \<and>
      (\<forall>s\<in>set (rep_skipped rep). sk_id s \<in> set (op_exceptions opts)) \<and> report_ok rep \<and>
      im_encode ie (build_evidence (im_build ie) rep (im_started ie) (im_finished ie)) = Inr b \<and>
      mc_files st' (evidence_path fl cfg) = Some (m, b @ [CHR 0x0A])"
proof -
  obtain s st1 rep where r: "run_import (im_dst ie) (im_decoders ie) (mysql_source my) opts s = (Inr rep, sd_tables (mc_db st'))"
    "finish_import ie fl cfg rep st1 = (Inr (), st')"
    by (rule import_command_run[OF assms(1-3)])
  from finish_import_ok[OF r(2)] obtain b m where f: "report_ok rep"
    "im_encode ie (build_evidence (im_build ie) rep (im_started ie) (im_finished ie)) = Inr b"
    "mc_files st' (evidence_path fl cfg) = Some (m, b @ [CHR 0x0A])" by blast
  have "src_enrollments (mysql_source my) = Inr es" "src_assocs (mysql_source my) = Inr assocs"
    using assms(4,5) by (simp_all add: mysql_source_def)
  with import_certified[OF r(1) f(1) _ _ _ assms(6)] prepare_import_options[OF assms(3)] assms(2) f show ?thesis by blast
qed

subsection \<open>The source DSN\<close>

definition dsn_params :: "string \<Rightarrow> string list" where
  \<comment> \<open>the format of the driver: \<open>[user[:password]@][net[(addr)]]/dbname[?param1&param2...]\<close>, at the last slash\<close>
  "dsn_params d = (let r = (case last_part (CHR ''/'') d of None \<Rightarrow> d | Some r \<Rightarrow> r); q = dropWhile (\<lambda>c. c \<noteq> CHR ''?'') r
     in if q = [] then [] else split_on (CHR ''&'') (tl q))"

definition sets_tls :: "string \<Rightarrow> bool" where
  "sets_tls d \<longleftrightarrow> list_ex (\<lambda>kv. has_prefix (lower kv) ''tls='') (dsn_params d)"

lemma last_part_append: "d \<notin> set r \<Longrightarrow> last_part d (s @ d # r) = Some r"
  by (subst last_part_def) (simp, subst takeWhile_append2, auto)

lemma last_part_none: "d \<notin> set r \<Longrightarrow> last_part d r = None"
  by (simp add: last_part_def)

lemma dsn_params_none:
  "CHR ''/'' \<notin> set r \<Longrightarrow> CHR ''?'' \<notin> set r \<Longrightarrow> dsn_params (pre @ CHR ''/'' # r) = []"
  by (simp add: dsn_params_def last_part_append dropWhile_eq_Nil_conv Let_def)

lemma dsn_params_some:
  assumes "CHR ''/'' \<notin> set (db @ CHR ''?'' # q)" and "CHR ''?'' \<notin> set db"
  shows "dsn_params (pre @ CHR ''/'' # db @ CHR ''?'' # q) = split_on (CHR ''&'') q"
proof -
  have "dropWhile (\<lambda>c. c \<noteq> CHR ''?'') (db @ CHR ''?'' # q) = CHR ''?'' # q" using assms(2) by (subst dropWhile_append2) auto
  with last_part_append[OF assms(1), of pre] show ?thesis by (simp add: dsn_params_def Let_def)
qed

text \<open>
  The source is read over TLS when it can be: whatever parameters a DSN has, the one that the
  driver is given keeps them and sets \<open>tls\<close>, provided that a question mark occurs in it at most once,
  before the parameters.
\<close>

theorem source_dsn_sets_tls:
  assumes "d = pre @ CHR ''/'' # db @ params" and "CHR ''?'' \<notin> set pre" and "CHR ''?'' \<notin> set db" and "CHR ''/'' \<notin> set (db @ params)"
    and "params = [] \<or> (\<exists>q. params = CHR ''?'' # q \<and> CHR ''?'' \<notin> set q)"
  shows "sets_tls (source_dsn d) \<and> set (dsn_params d) \<subseteq> set (dsn_params (source_dsn d))"
proof -
  consider "params = []" | q where "params = CHR ''?'' # q" "CHR ''?'' \<notin> set q" using assms(5) by blast
  then show ?thesis
  proof cases
    case 1
    with assms have s: "source_dsn d = pre @ CHR ''/'' # db @ CHR ''?'' # ''tls=preferred''" "dsn_params d = []"
      using dsn_params_none[of db pre] by (auto simp: source_dsn_def dsn_has_tls_def last_part_none append_dsn_param_def)
    have "dsn_params (source_dsn d) = [''tls=preferred'']"
      unfolding s(1) using assms(3,4) by (subst dsn_params_some) (simp_all add: split_on_none)
    with s(2) show ?thesis by (simp add: sets_tls_def lower_def to_lower_def in_range_def)
  next
    case 2
    have p: "dsn_params d = split_on (CHR ''&'') q" using assms(1,3,4) 2 dsn_params_some[of db q pre] by simp
    have l: "last_part (CHR ''?'') d = Some q" using assms(1) 2 last_part_append[of "CHR ''?''" q "pre @ CHR ''/'' # db"] by simp
    show ?thesis
    proof (cases "dsn_has_tls d")
      case True
      with p l show ?thesis by (simp add: source_dsn_def sets_tls_def dsn_has_tls_def)
    next
      case False
      with assms(1) 2 have s: "source_dsn d = pre @ CHR ''/'' # db @ CHR ''?'' # q @ CHR ''&'' # ''tls=preferred''"
        by (simp add: source_dsn_def append_dsn_param_def)
      have "dsn_params (source_dsn d) = split_on (CHR ''&'') q @ [''tls=preferred'']"
        unfolding s using assms(3,4) 2 by (subst dsn_params_some) (simp_all add: split_on_append split_on_none)
      with p show ?thesis by (auto simp: sets_tls_def lower_def to_lower_def in_range_def)
    qed
  qed
qed

text \<open>
  A question mark in the password breaks that: the parameter is appended with an ampersand, where
  the driver still reads the name of the database, so no parameter reaches it and the name is
  another one.
\<close>

theorem question_mark_breaks_dsn:
  assumes "CHR ''?'' \<in> set pre" and "CHR ''?'' \<notin> set db" and "CHR ''/'' \<notin> set db" and "\<not> dsn_has_tls (pre @ CHR ''/'' # db)"
  shows "source_dsn (pre @ CHR ''/'' # db) = pre @ CHR ''/'' # db @ ''&tls=preferred'' \<and> dsn_params (source_dsn (pre @ CHR ''/'' # db)) = []"
proof -
  have s: "source_dsn (pre @ CHR ''/'' # db) = pre @ CHR ''/'' # db @ ''&tls=preferred''"
    using assms by (simp add: source_dsn_def append_dsn_param_def)
  with dsn_params_none[of "db @ ''&tls=preferred''" pre] assms show ?thesis by simp
qed

lemma question_mark_breaks_dsn_witness:
  "source_dsn ''u:p?w@tcp(h:3306)/mdm'' = ''u:p?w@tcp(h:3306)/mdm&tls=preferred''"
proof -
  have "\<not> dsn_has_tls (''u:p?w@tcp(h:3306)'' @ CHR ''/'' # ''mdm'')" by code_simp
  with question_mark_breaks_dsn[of "''u:p?w@tcp(h:3306)''" "''mdm''"] show ?thesis by simp
qed

subsection \<open>Rows and exceptions\<close>

lemma scan_rows_all: "scan_rows f rs = Inr xs \<Longrightarrow> list_all2 (\<lambda>r x. f r = Inr x) rs xs"
  by (induction rs arbitrary: xs) (auto simp: and_then_def split: sum.splits)

text \<open>
  The rows of the source are complete: when a query of the source succeeds, its result has one entry
  for each row that the server sent, in order, and the iteration ended without an error; a row
  with an unexpected NULL fails the query.
\<close>

theorem source_rows_complete:
  assumes "read_rows f ans = Inr xs"
  shows "\<exists>rs. ans = Inr (rs, None) \<and> list_all2 (\<lambda>r x. f r = Inr x) rs xs"
  using assms by (auto simp: read_rows_def and_then_def intro: scan_rows_all split: sum.splits prod.splits option.splits)

definition plain_id :: "string \<Rightarrow> bool" where
  "plain_id i \<longleftrightarrow> i \<noteq> [] \<and> trim_space i = i \<and> \<not> has_prefix i ''#'' \<and> CHR 0x0A \<notin> set i \<and> length i < 65536"

definition render_ids :: "string list \<Rightarrow> string" where
  "render_ids is = concat (map (\<lambda>i. i @ [CHR 0x0A]) is)"

lemma split_render: "list_all plain_id is \<Longrightarrow> split_on (CHR 0x0A) (render_ids is) = is @ [[]]"
proof (induction "is")
  case (Cons i "is")
  then have "CHR 0x0A \<notin> set i" by (simp add: plain_id_def)
  with Cons show ?case by (simp add: render_ids_def split_on_append split_on_none)
qed (simp add: render_ids_def)

lemma plain_last: "plain_id i \<Longrightarrow> last i \<noteq> CHR 0x0D"
proof
  assume p: "plain_id i" and l: "last i = CHR 0x0D"
  from p obtain s where s: "i = s @ [CHR 0x0D]" using l by (metis append_butlast_last_id plain_id_def)
  have "length (trim_space i) \<le> length s"
    using s by (auto simp: trim_space_def trim_both_def trim_left_def trim_right_def is_space_def Let_def dropWhile_append
        length_dropWhile_le intro: le_trans[OF length_dropWhile_le])
  with p s show False by (simp add: plain_id_def)
qed

text \<open>
  An exception file round-trips: the IDs that are written to it, one per line, are exactly the ones
  that the import accepts, together with comments and blank lines it ignores.
\<close>

theorem exceptions_roundtrip:
  assumes "list_all plain_id is" and "os_read x p = None" and "fs p = Some (m, render_ids is)"
  shows "load_exceptions x sha p fs = Inr (is, hex_encode (sha (render_ids is)))"
proof -
  have "scan_lines (render_ids is) = Inr is"
    using assms(1) plain_last
    by (auto simp: scan_lines_def split_render[OF assms(1)] Let_def list_ex_iff list_all_iff plain_id_def intro!: map_idI)
  moreover have "exception_ids is = is" using assms(1) by (induction "is") (auto simp: exception_ids_def plain_id_def)
  ultimately show ?thesis using assms(2,3) by (simp add: load_exceptions_def read_file_def)
qed

subsection \<open>A run of the command\<close>

definition demo_open :: "string list open_env" where
  "demo_open = \<lparr>ov_open = None, ov_ping = None, ov_touch1 = (\<lambda>m. m), ov_touch2 = (\<lambda>m. m), ov_chmod1 = (\<lambda>_. None), ov_chmod2 = (\<lambda>_. None),
     ov_migrate = (demo_migrations False)\<lparr>mv_dir := Inr []\<rparr>\<rparr>"

definition demo_mysql :: mysql_db where
  "demo_mysql = \<lparr>my_pending = Inr 0, my_push_certs = Inr ([], None), my_devices = Inr ([(Some ''d1'', Some ''A'', Some ''T'', None, None)], None),
     my_users = Inr ([], None), my_assocs = Inr ([(Some ''d1'', Some ''h1'')], None),
     my_enrollments = Inr ([(Some ''d1'', Some ''d1'', None, Some ''Device'', Some ''t'', Some ''m'', Some ''6b'', Some True)], None)\<rparr>"

definition demo_import_env :: "(string list, unit, unit, unit, unit) import_env" where
  "demo_import_env = \<lparr>im_os = demo_os, im_open = demo_open, im_sha = (\<lambda>s. s), im_connect = (\<lambda>_. None), im_ping = None,
     im_mysql = (\<lambda>_. demo_mysql), im_dst = example_dst, im_decoders = example_decoders, im_count = (\<lambda>s. Inr (length s)),
     im_secs = (\<lambda>_. 0), im_upsert = (\<lambda>_. None), im_encode = (\<lambda>ev. Inr (if ev_ok ev then ''ok'' else ''failed'')), im_order = (\<lambda>ks. ks),
     im_build = ([], []), im_started = 0, im_finished = second\<rparr>"

definition demo_flags :: import_flags where
  "demo_flags = \<lparr>if_config = ''cairn.toml'', if_mysql = [], if_mysql_file = ''dsn'', if_dry_run = False, if_allow_pending = False,
     if_exceptions = [], if_force = False, if_evidence = ''e.json''\<rparr>"

definition demo_machine :: "string list import_machine" where
  "demo_machine = \<lparr>mc_files = [''cairn.toml'' \<mapsto> (416, []), ''dsn'' \<mapsto> (384, ''u:p@tcp(h:3306)/mdm'')], mc_modes = [],
     mc_db = \<lparr>sd_versions = None, sd_tables = []\<rparr>, mc_out = [], im_topics = [], im_warnings = [], im_printed = []\<rparr>"

lemma demo_import_runs: "fst (run_import_command demo_import_env demo_flags demo_machine) = Inr ()"
  by code_simp

lemma prepare_import_source:
  "prepare_import ie fl fs = (Inr (cfg, opts, src), w) \<Longrightarrow> \<exists>d. src = mysql_source (im_mysql ie (source_dsn d))"
  by (auto simp: prepare_import_def and_then_def split: prod.splits sum.splits option.splits)

lemma demo_prepared:
  obtains cfg opts w where "prepare_import demo_import_env demo_flags (mc_files demo_machine) = (Inr (cfg, opts, mysql_source demo_mysql), w)"
proof -
  obtain p w where p: "prepare_import demo_import_env demo_flags (mc_files demo_machine) = (p, w)"
    by (cases "prepare_import demo_import_env demo_flags (mc_files demo_machine)")
  with demo_import_runs obtain cfg opts src where q: "p = Inr (cfg, opts, src)"
    by (cases p) (auto simp: run_import_command_def split: prod.splits)
  with prepare_import_source[of demo_import_env demo_flags "mc_files demo_machine"] p have "src = mysql_source demo_mysql"
    by (auto simp: demo_import_env_def)
  with p q that show ?thesis by blast
qed

theorem import_success_certified_witness:
  "\<exists>st' m. run_import_command demo_import_env demo_flags demo_machine = (Inr (), st') \<and>
     mc_files st' ''e.json'' = Some (m, ''ok'' @ [CHR 0x0A])"
proof -
  obtain r st' where r: "run_import_command demo_import_env demo_flags demo_machine = (r, st')"
    by (cases "run_import_command demo_import_env demo_flags demo_machine")
  with demo_import_runs have r: "run_import_command demo_import_env demo_flags demo_machine = (Inr (), st')" by simp
  obtain cfg opts w where p: "prepare_import demo_import_env demo_flags (mc_files demo_machine) = (Inr (cfg, opts, mysql_source demo_mysql), w)"
    by (rule demo_prepared)
  obtain es assocs where e: "read_rows scan_enrollment (my_enrollments demo_mysql) = Inr es" "read_rows scan_assoc (my_assocs demo_mysql) = Inr assocs"
    "map es_id es = [''d1'']"
    by (simp add: demo_mysql_def read_rows_def scan_enrollment_def scan_assoc_def scan_col_def and_then_def coalesce_def)
  have "\<not> if_dry_run demo_flags" by (simp add: demo_flags_def)
  from import_success_certified[OF r this p e(1,2)] e(3) obtain rep b m where
    "report_ok rep" "im_encode demo_import_env (build_evidence (im_build demo_import_env) rep (im_started demo_import_env) (im_finished demo_import_env)) = Inr b"
    "mc_files st' (evidence_path demo_flags cfg) = Some (m, b @ [CHR 0x0A])" by auto
  then have "mc_files st' ''e.json'' = Some (m, ''ok'' @ [CHR 0x0A])"
    by (simp add: demo_import_env_def build_evidence_def evidence_path_def demo_flags_def)
  with r show ?thesis by blast
qed

theorem source_dsn_sets_tls_witness:
  "sets_tls (source_dsn ''u:p@tcp(h:3306)/mdm?parseTime=true'')"
  by (rule conjunct1[OF source_dsn_sets_tls[where pre = "''u:p@tcp(h:3306)''" and db = "''mdm''" and params = "''?parseTime=true''"]]) auto

theorem exceptions_roundtrip_witness:
  "load_exceptions demo_os (\<lambda>s. s) ''ex'' [''ex'' \<mapsto> (384, render_ids [''d1'', ''d2''])] = Inr ([''d1'', ''d2''], hex_encode (render_ids [''d1'', ''d2'']))"
proof -
  have "trim_space ''d1'' = ''d1''" "trim_space ''d2'' = ''d2''" by code_simp+
  then have "list_all plain_id [''d1'', ''d2'']" by (simp add: plain_id_def)
  from exceptions_roundtrip[OF this, where x = demo_os and p = "''ex''"] show ?thesis by (simp add: demo_os_def)
qed

text \<open>
  A dry run reports no verdict and exits with success even when the migration would fail: here the one
  device cannot be decoded and is skipped without the operator's acceptance.
\<close>

lemma dry_run_exits_ok:
  "\<exists>st'. run_import_command (demo_import_env\<lparr>im_decoders := example_decoders\<lparr>dec_auth := Inl\<rparr>\<rparr>) (demo_flags\<lparr>if_dry_run := True\<rparr>) demo_machine = (Inr (), st') \<and>
     (\<exists>i why. SkippedRow i why False \<in> set (im_printed st')) \<and> (\<forall>v. Verdict v \<notin> set (im_printed st'))"
proof -
  let ?run = "run_import_command (demo_import_env\<lparr>im_decoders := example_decoders\<lparr>dec_auth := Inl\<rparr>\<rparr>) (demo_flags\<lparr>if_dry_run := True\<rparr>) demo_machine"
  have "fst ?run = Inr ()" by code_simp
  moreover have "list_ex (\<lambda>l. l = SkippedRow ''d1'' BadAuthenticate False) (im_printed (snd ?run))" by code_simp
  then have "SkippedRow ''d1'' BadAuthenticate False \<in> set (im_printed (snd ?run))" by (auto simp: list_ex_iff)
  moreover have "list_all (\<lambda>l. case l of Verdict v \<Rightarrow> False | _ \<Rightarrow> True) (im_printed (snd ?run))" by code_simp
  then have "\<forall>v. Verdict v \<notin> set (im_printed (snd ?run))" by (auto simp: list_all_iff)
  ultimately show ?thesis by (intro exI[of _ "snd ?run"]) (auto simp: prod_eq_iff)
qed

end
