(* ===== verification/Push.thy ===== *)
theory Push
  imports KeyStores
begin

section \<open>APNs push certificates\<close>

text \<open>
  \<open>internal/push/push.go\<close>, \<open>cairn pushcert import\<close> (\<open>cmd/cairn/pushcert.go\<close>) and the
  dashboard's summary (\<open>apnsStatus\<close> in \<open>internal/web/handlers.go\<close>).  X.509 is a parameter: what
  the code asks of a certificate is the record \<open>x509\<close>.  Hours are exact here; the code takes
  them in floating point, which differs only within a microsecond of a whole day.
\<close>

record x509 =
  x_pair :: "string \<Rightarrow> string \<Rightarrow> fault"       \<comment> \<open>\<open>tls.X509KeyPair\<close>\<close>
  x_topic :: "string \<Rightarrow> string + string"
  x_leaf :: "string \<Rightarrow> string + (nanos \<times> nanos)"  \<comment> \<open>\<open>NotBefore\<close>, \<open>NotAfter\<close> of the first certificate, or the error\<close>
  x_subject :: "string \<Rightarrow> string"

definition setting_topic :: string where "setting_topic = ''apns_topic''"

definition setting_not_after :: string where "setting_not_after = ''apns_not_after''"

record 'st push_db =
  pd_store :: 'st   \<comment> \<open>NanoMDM's storage\<close>
  pd_settings :: "setting list"
  pd_topics :: "apns_topic list"

definition load_cert ::
  "x509 \<Rightarrow> (nanos \<Rightarrow> string) \<Rightarrow> (string \<Rightarrow> string \<Rightarrow> 'st \<Rightarrow> fault \<times> 'st) \<Rightarrow> fault \<Rightarrow> fault \<Rightarrow> nanos \<Rightarrow> string \<Rightarrow> string \<Rightarrow> 'st push_db \<Rightarrow>
   (string + string \<times> nanos) \<times> 'st push_db" where
  "load_cert x rfc3339 store f1 f2 now cert key st =
     (case x_pair x cert key of
        Some e \<Rightarrow> (Inl (''push: certificate/key pair invalid: '' @ e), st)
      | None \<Rightarrow>
     (case x_topic x cert of
        Inl e \<Rightarrow> (Inl (''push: extract topic: '' @ e), st)
      | Inr topic \<Rightarrow>
     (case x_leaf x cert of
        Inl e \<Rightarrow> (Inl (''push: parse certificate: '' @ e), st)
      | Inr (not_before, not_after) \<Rightarrow>
          if now < not_before then (Inl (''push: certificate for topic '' @ topic @ '' is not valid until '' @ rfc3339 not_before), st)
          else if not_after < now then (Inl (''push: certificate for topic '' @ topic @ '' expired '' @ rfc3339 not_after), st)
          else case store cert key (pd_store st) of
              (Some e, s1) \<Rightarrow> (Inl (''push: store cert: '' @ e), st\<lparr>pd_store := s1\<rparr>)
            | (None, s1) \<Rightarrow>
                let st1 = st\<lparr>pd_store := s1\<rparr> in
                case set_setting f1 now setting_topic topic (pd_settings st1) of
                  (Inl e, ss) \<Rightarrow> (Inl ''push: record topic'', st1\<lparr>pd_settings := ss\<rparr>)
                | (Inr _, ss) \<Rightarrow>
                    (Inr (topic, not_after),
                     st1\<lparr>pd_settings := snd (set_setting f2 now setting_not_after (rfc3339 not_after) ss)\<rparr>))))"

definition pushcert_import ::
  "x509 \<Rightarrow> (nanos \<Rightarrow> string) \<Rightarrow> (string \<Rightarrow> string \<Rightarrow> 'st \<Rightarrow> fault \<times> 'st) \<Rightarrow> fault \<Rightarrow> fault \<Rightarrow> fault \<Rightarrow> nanos \<Rightarrow> string \<Rightarrow> string \<Rightarrow> string \<Rightarrow>
   'st push_db \<Rightarrow> (string + string \<times> nanos) \<times> 'st push_db" where
  "pushcert_import x rfc3339 store f1 f2 f3 now cert key loaded_by st =
     (case load_cert x rfc3339 store f1 f2 now cert key st of
        (Inl e, st1) \<Rightarrow> (Inl e, st1)
      | (Inr (topic, not_after), st1) \<Rightarrow>
         (case upsert_apns_topic f3 now topic (to_secs not_after) (x_subject x cert) loaded_by (pd_topics st1) of
            (Inl e, ts) \<Rightarrow> (Inl ''record topic metadata'', st1\<lparr>pd_topics := ts\<rparr>)
          | (Inr _, ts) \<Rightarrow> (Inr (topic, not_after), st1\<lparr>pd_topics := ts\<rparr>)))"

subsection \<open>Renewal tiers\<close>

definition days_left :: "nanos \<Rightarrow> nanos \<Rightarrow> int" where
  \<comment> \<open>\<open>int(time.Until(notAfter).Hours() / 24)\<close>: towards zero\<close>
  "days_left now not_after =
     (let d = dur_sub not_after now in if 0 \<le> d then d div (24 * hour) else - ((- d) div (24 * hour)))"

definition renewal_tier :: "nanos \<Rightarrow> nanos \<Rightarrow> int \<times> string \<times> string" where
  "renewal_tier now not_after =
     (let days = days_left now not_after in
      if days < 0 then (days, ''critical'', ''expired'')
      else if days \<le> 7 then (days, ''critical'', ''renew now'')
      else if days \<le> 14 then (days, ''high'', ''renew now'')
      else if days \<le> 30 then (days, ''warning'', ''renew soon'')
      else if days \<le> 60 then (days, ''caution'', ''plan renewal'')
      else if days \<le> 90 then (days, ''notice'', ''upcoming'')
      else (days, ''ok'', ''ok''))"

definition severity_rank :: "string \<Rightarrow> int" where
  \<comment> \<open>a missing key of the map reads as 0\<close>
  "severity_rank s =
     (if s = ''notice'' then 1 else if s = ''caution'' then 2 else if s = ''warning'' then 3 else if s = ''high'' then 4
      else if s = ''critical'' then 5 else if s = ''unknown'' then 6 else 0)"

definition more_severe :: "string \<Rightarrow> string \<Rightarrow> string" where
  "more_severe a b = (if severity_rank a < severity_rank b then b else a)"

record topic_status =
  ts_topic :: string
  ts_subject :: string
  ts_expires :: secs
  ts_days :: int
  ts_severity :: string
  ts_label :: string
  ts_warn :: bool

record apns_summary =
  as_topics :: "topic_status list"
  as_warn :: bool
  as_severity :: string
  as_nearest :: topic_status

definition topic_row :: "nanos \<Rightarrow> apns_topic \<Rightarrow> topic_status" where
  \<comment> \<open>a stored expiry always parses\<close>
  "topic_row now t = (case renewal_tier now (of_secs (at_not_after t)) of (days, sev, label) \<Rightarrow>
     \<lparr>ts_topic = at_topic t, ts_subject = at_subject t, ts_expires = at_not_after t, ts_days = days, ts_severity = sev,
      ts_label = label, ts_warn = (sev \<noteq> ''ok'')\<rparr>)"

definition apns_status :: "fault \<Rightarrow> nanos \<Rightarrow> apns_topic list \<Rightarrow> apns_summary option" where
  "apns_status ft now rows =
     (case list_apns_topics ft rows of
        Inl e \<Rightarrow> None
      | Inr [] \<Rightarrow> None
      | Inr (t # ts) \<Rightarrow> let out = map (topic_row now) (t # ts) in
          Some \<lparr>as_topics = out, as_warn = (\<exists>r\<in>set out. ts_warn r),
            as_severity = foldl more_severe [] (map ts_severity out), as_nearest = hd out\<rparr>)"

lemma setting_after: "get_setting None k (snd (set_setting None now k v rows)) = Inr v"
  by (simp add: get_setting_def set_setting_def on_fault_def find_upsert_same[where g = st_key] split: option.splits)

lemma setting_after_other: "k \<noteq> k' \<Longrightarrow> get_setting None k (snd (set_setting ft now k' v rows)) = get_setting None k rows"
  by (cases ft) (simp_all add: get_setting_def set_setting_def on_fault_def find_upsert_other[where g = st_key])

lemma set_setting_None: "case_prod F (set_setting None now k v rows) = F (Inr ()) (snd (set_setting None now k v rows))"
  by (simp add: set_setting_def on_fault_def)

lemma set_setting_Some: "set_setting (Some e) now k v rows = (Inl (SqlErr e), rows)"
  by (simp add: set_setting_def on_fault_def)

lemma upsert_apns_None:
  "case_prod F (upsert_apns_topic None now t na s u rows) = F (Inr ()) (snd (upsert_apns_topic None now t na s u rows))"
  by (simp add: upsert_apns_topic_def on_fault_def)

lemma upsert_apns_Some: "upsert_apns_topic (Some e) now t na s u rows = (Inl (SqlErr e), rows)"
  by (simp add: upsert_apns_topic_def on_fault_def)

subsection \<open>Only a valid certificate is loaded\<close>

text \<open>
  A push certificate reaches the storage, the settings or the list of topics only if its
  key matches it, it names a topic, and the import falls inside its validity; a successful
  import has stored the pair, made its topic the current one and recorded its own expiry for
  that topic.
\<close>

theorem only_valid_certs_loaded:
  assumes "pushcert_import x rfc3339 store f1 f2 f3 now cert key by_user st = (res, st')" and "st' \<noteq> st \<or> (\<exists>r. res = Inr r)"
  shows "\<exists>topic not_before not_after. x_pair x cert key = None \<and> x_topic x cert = Inr topic \<and>
    x_leaf x cert = Inr (not_before, not_after) \<and> not_before \<le> now \<and> now \<le> not_after \<and>
    pd_store st' = snd (store cert key (pd_store st)) \<and>
    (\<forall>r. res = Inr r \<longrightarrow> r = (topic, not_after) \<and> fst (store cert key (pd_store st)) = None \<and>
       get_setting None setting_topic (pd_settings st') = Inr topic \<and> apns_expiry (pd_topics st') topic = Some (to_secs not_after))"
proof -
  from assms obtain topic where p: "x_pair x cert key = None" and t: "x_topic x cert = Inr topic"
    by (auto simp: pushcert_import_def load_cert_def split: option.splits sum.splits)
  with assms obtain nb na where l: "x_leaf x cert = Inr (nb, na)" and v: "nb \<le> now" "now \<le> na"
    by (auto simp: pushcert_import_def load_cert_def split: sum.splits if_splits)
  obtain f s1 where s: "store cert key (pd_store st) = (f, s1)" by (cases "store cert key (pd_store st)")
  have ld: "load_cert x rfc3339 store f1 f2 now cert key st = (case f of Some e \<Rightarrow> (Inl (''push: store cert: '' @ e), st\<lparr>pd_store := s1\<rparr>)
     | None \<Rightarrow> (case f1 of Some e \<Rightarrow> (Inl ''push: record topic'', st\<lparr>pd_store := s1\<rparr>)
       | None \<Rightarrow> (Inr (topic, na), st\<lparr>pd_store := s1, pd_settings := snd (set_setting f2 now setting_not_after (rfc3339 na)
             (snd (set_setting None now setting_topic topic (pd_settings st))))\<rparr>)))"
    using p t l v s by (cases f; cases f1) (simp_all add: load_cert_def Let_def set_setting_None set_setting_Some)
  note run = assms(1)[unfolded pushcert_import_def ld]
  have "pd_store st' = s1"
    using run by (cases f; cases f1; cases f3) (auto simp: upsert_apns_None upsert_apns_Some)
  moreover have "r = (topic, na) \<and> f = None \<and> get_setting None setting_topic (pd_settings st') = Inr topic \<and>
      apns_expiry (pd_topics st') topic = Some (to_secs na)" if r: "res = Inr r" for r
  proof -
    have "f = None \<and> f1 = None \<and> f3 = None"
      using run r by (cases f; cases f1; cases f3) (auto simp: upsert_apns_Some)
    with run r have "r = (topic, na) \<and> f = None \<and>
      pd_topics st' = snd (upsert_apns_topic None now topic (to_secs na) (x_subject x cert) by_user (pd_topics st)) \<and>
      pd_settings st' = snd (set_setting f2 now setting_not_after (rfc3339 na) (snd (set_setting None now setting_topic topic (pd_settings st))))"
      by (auto simp: upsert_apns_None)
    then show ?thesis
      by (simp add: apns_expiry_upsert setting_after_other setting_after setting_topic_def setting_not_after_def)
  qed
  ultimately show ?thesis using p t l v s by auto
qed

definition demo_x509 :: x509 where
  "demo_x509 = \<lparr>x_pair = (\<lambda>c k. if c = ''c'' \<and> k = ''k'' then None else Some ''mismatch''), x_topic = (\<lambda>c. Inr ''com.apple.mgmt''),
     x_leaf = (\<lambda>c. Inr (0, 100 * second)), x_subject = (\<lambda>c. ''CN'')\<rparr>"

definition demo_push_db :: "(string \<times> string) list push_db" where
  "demo_push_db = \<lparr>pd_store = [], pd_settings = [], pd_topics = []\<rparr>"

lemma only_valid_certs_loaded_witness:
  "\<exists>st'. pushcert_import demo_x509 (\<lambda>t. []) (\<lambda>c k st. (None, (c, k) # st)) None None None (5 * second) ''c'' ''k'' [] demo_push_db
     = (Inr (''com.apple.mgmt'', 100 * second), st') \<and> pd_store st' = [(''c'', ''k'')] \<and> apns_expiry (pd_topics st') ''com.apple.mgmt'' = Some 100"
proof -
  obtain res st' where h: "pushcert_import demo_x509 (\<lambda>t. []) (\<lambda>c k st. (None, (c, k) # st)) None None None (5 * second) ''c'' ''k'' [] demo_push_db
     = (res, st')" by (cases "pushcert_import demo_x509 (\<lambda>t. []) (\<lambda>c k st. (None, (c, k) # st)) None None None (5 * second) ''c'' ''k'' [] demo_push_db")
  have r: "res = Inr (''com.apple.mgmt'', 100 * second)"
    using h by (auto simp: pushcert_import_def load_cert_def demo_x509_def set_setting_def upsert_apns_topic_def on_fault_def second_def Let_def
        split: prod.splits)
  from only_valid_certs_loaded[OF h] r h show ?thesis by (auto simp: demo_x509_def demo_push_db_def to_secs_def second_def)
qed

subsection \<open>The dashboard's warning\<close>

lemma days_left_mono: "na \<le> nb \<Longrightarrow> days_left now na \<le> days_left now nb"
proof -
  assume "na \<le> nb"
  then have d: "dur_sub na now \<le> dur_sub nb now" by (rule dur_sub_mono_left)
  have pos: "(0::int) < 24 * hour" by (simp add: hour_def second_def)
  show ?thesis
  proof (cases "0 \<le> dur_sub na now")
    case True
    with d zdiv_mono1[OF d pos] show ?thesis by (simp add: days_left_def Let_def)
  next
    case False
    then have n: "0 \<le> (- dur_sub na now) div (24 * hour)" using pos by (simp add: pos_imp_zdiv_nonneg_iff)
    show ?thesis
    proof (cases "0 \<le> dur_sub nb now")
      case True
      then have "0 \<le> dur_sub nb now div (24 * hour)" using pos by (simp add: pos_imp_zdiv_nonneg_iff)
      with False True n show ?thesis by (simp add: days_left_def Let_def)
    next
      case F: False
      from d have "(- dur_sub nb now) div (24 * hour) \<le> (- dur_sub na now) div (24 * hour)" by (intro zdiv_mono1 pos) simp
      with False F show ?thesis by (simp add: days_left_def Let_def)
    qed
  qed
qed

lemma tier_severity_mono:
  assumes "na \<le> nb"
  shows "severity_rank (fst (snd (renewal_tier now nb))) \<le> severity_rank (fst (snd (renewal_tier now na)))"
  using days_left_mono[OF assms, of now] by (simp add: renewal_tier_def severity_rank_def Let_def)

lemma severity_bounds: "0 \<le> severity_rank s"
  by (simp add: severity_rank_def)

lemma foldl_more_severe:
  "severity_rank (foldl more_severe a ss) = Max (severity_rank ` set (a # ss))"
proof (induction ss arbitrary: a)
  case (Cons s ss)
  have "severity_rank (more_severe a s) = max (severity_rank a) (severity_rank s)" by (simp add: more_severe_def max_def)
  then show ?case by (cases "ss = []") (simp_all add: Cons.IH max.assoc)
qed simp

text \<open>
  The summary of the dashboard hides no expiring certificate: every recorded topic is
  listed, the nearest expiry is shown, its tier is at least as severe as every other's, and
  the overall severity is exactly the worst of all; there is a warning exactly when some
  topic is within 90 days of its expiry.
\<close>

theorem dashboard_shows_worst:
  assumes "apns_status None now rows = Some s"
  shows "ts_topic ` set (as_topics s) = at_topic ` set rows \<and> as_nearest s \<in> set (as_topics s) \<and>
    (\<forall>r\<in>set (as_topics s). ts_expires (as_nearest s) \<le> ts_expires r \<and>
       severity_rank (ts_severity r) \<le> severity_rank (ts_severity (as_nearest s))) \<and>
    severity_rank (as_severity s) = severity_rank (ts_severity (as_nearest s)) \<and>
    (as_warn s \<longleftrightarrow> (\<exists>t\<in>set rows. days_left now (of_secs (at_not_after t)) \<le> 90))"
proof -
  let ?l = "sort_key at_not_after (sort_key at_topic rows)"
  obtain t ts where l: "?l = t # ts" and s: "as_topics s = map (topic_row now) (t # ts)" "as_nearest s = topic_row now t"
    "as_severity s = foldl more_severe [] (map ts_severity (map (topic_row now) (t # ts)))"
    "as_warn s = (\<exists>r\<in>set (map (topic_row now) (t # ts)). ts_warn r)"
    using assms by (auto simp: apns_status_def list_apns_topics_def on_read_def Let_def split: list.splits)
  have set: "set (t # ts) = set rows" unfolding l[symmetric] by simp
  have "sorted (map at_not_after (t # ts))" unfolding l[symmetric] by simp
  then have near: "\<forall>u\<in>set (t # ts). at_not_after t \<le> at_not_after u" by auto
  have sev: "ts_severity (topic_row now u) = fst (snd (renewal_tier now (of_secs (at_not_after u))))" for u
    by (simp add: topic_row_def split: prod.splits)
  have worst: "\<forall>u\<in>set (t # ts). severity_rank (ts_severity (topic_row now u)) \<le> severity_rank (ts_severity (topic_row now t))"
    using near by (auto simp: sev intro!: tier_severity_mono of_secs_mono)
  have "severity_rank (as_severity s) = Max (severity_rank ` set ([] # map ts_severity (map (topic_row now) (t # ts))))"
    unfolding s(3) by (rule foldl_more_severe)
  also have "\<dots> = severity_rank (ts_severity (topic_row now t))"
  proof (rule Max_eqI)
    fix y assume "y \<in> severity_rank ` set ([] # map ts_severity (map (topic_row now) (t # ts)))"
    with worst severity_bounds show "y \<le> severity_rank (ts_severity (topic_row now t))"
      by (auto simp: severity_rank_def[of "[]"])
  qed auto
  finally have w: "severity_rank (as_severity s) = severity_rank (ts_severity (as_nearest s))" by (simp add: s(2))
  have warn: "ts_warn (topic_row now u) \<longleftrightarrow> days_left now (of_secs (at_not_after u)) \<le> 90" for u
    by (auto simp: topic_row_def renewal_tier_def Let_def)
  have names: "ts_topic (topic_row now u) = at_topic u" "ts_expires (topic_row now u) = at_not_after u" for u
    by (simp_all add: topic_row_def split: prod.splits)
  have "ts_topic ` set (as_topics s) = at_topic ` set rows" unfolding s(1) set[symmetric] by (simp add: names image_image)
  moreover have "as_nearest s \<in> set (as_topics s)" by (simp add: s)
  moreover have "\<forall>r\<in>set (as_topics s). ts_expires (as_nearest s) \<le> ts_expires r \<and>
       severity_rank (ts_severity r) \<le> severity_rank (ts_severity (as_nearest s))"
    using near worst by (auto simp: s(1,2) names)
  moreover have "as_warn s \<longleftrightarrow> (\<exists>t\<in>set rows. days_left now (of_secs (at_not_after t)) \<le> 90)"
    unfolding s(4) set[symmetric] by (simp add: warn)
  ultimately show ?thesis using w by blast
qed

lemma dashboard_shows_worst_witness:
  "\<exists>s. apns_status None 0 [\<lparr>at_topic = ''A'', at_not_after = 86400 * 300, at_subject = [], at_loaded_at = 0, at_loaded_by = []\<rparr>,
      \<lparr>at_topic = ''B'', at_not_after = 86400 * 10, at_subject = [], at_loaded_at = 0, at_loaded_by = []\<rparr>] = Some s \<and>
     severity_rank (as_severity s) = 4 \<and> as_warn s"
proof -
  let ?rows = "[\<lparr>at_topic = ''A'', at_not_after = 86400 * 300, at_subject = [], at_loaded_at = 0, at_loaded_by = []\<rparr>,
      \<lparr>at_topic = ''B'', at_not_after = 86400 * 10, at_subject = [], at_loaded_at = 0, at_loaded_by = []\<rparr>] :: apns_topic list"
  obtain s where s: "apns_status None 0 ?rows = Some s"
    by (simp add: apns_status_def list_apns_topics_def on_read_def Let_def)
  have "ts_severity (as_nearest (the (apns_status None 0 ?rows))) = ''high''" by code_simp
  with s have n: "ts_severity (as_nearest s) = ''high''" by simp
  have "\<exists>t\<in>set ?rows. days_left 0 (of_secs (at_not_after t)) \<le> 90"
    by (simp add: days_left_def of_secs_def dur_sub_def hour_def second_def)
  with dashboard_shows_worst[OF s] n have "severity_rank (as_severity s) = 4 \<and> as_warn s" by (simp add: severity_rank_def)
  with s show ?thesis by blast
qed

text \<open>
  For the first day after a push certificate has expired its days are 0, not negative,
  and its tier says "renew now", not "expired".
\<close>

theorem expired_today_not_expired:
  assumes "not_after < now" and "now < not_after + 24 * hour"
  shows "renewal_tier now not_after = (0, ''critical'', ''renew now'')"
proof -
  have "dur_sub not_after now = not_after - now" using assms by (simp add: dur_sub_def hour_def second_def)
  moreover have "(now - not_after) div (24 * hour) = 0" using assms by (intro div_pos_pos_trivial) simp_all
  ultimately show ?thesis using assms by (simp add: renewal_tier_def days_left_def)
qed

lemma expired_today_not_expired_witness: "renewal_tier (2 * hour) 0 = (0, ''critical'', ''renew now'')"
  by (rule expired_today_not_expired) (simp_all add: hour_def second_def)

end
