(* ===== verification/PushRequest.thy ===== *)
theory PushRequest
  imports Cli CertAuth Push
begin

section \<open>Requesting a push certificate\<close>

text \<open>
  \<open>cmd/cairn/pushcertreq.go\<close> and the check of \<open>pushcert.go\<close>: the key pair and the signing request for
  APNs, the throwaway identity to which mdmcert.download encrypts its answer, the files both are
  kept in, and the decryption of the answer.  RSA, X.509 and PKCS7 are parameters, and so is the
  service: what it answers to a request.
\<close>

record sign_request =
  sr_csr :: string      \<comment> \<open>base64 of the PEM\<close>
  sr_email :: string
  sr_key :: string
  sr_encrypt :: string

record ('k, 'p) request_env =
  pr_os :: os_env
  pr_lib :: "'k crypto"
  pr_push_key :: "string + 'k"
  pr_csr :: "string \<Rightarrow> string \<Rightarrow> string \<Rightarrow> 'k \<Rightarrow> string + string"   \<comment> \<open>name, country, email; the DER\<close>
  pr_enc_key :: "string + 'k"
  pr_serial :: "string + int"
  pr_self_cert :: "string \<Rightarrow> int \<Rightarrow> nanos \<Rightarrow> nanos \<Rightarrow> 'k \<Rightarrow> string + string"
  pr_now :: nanos
  pr_in_3_months :: nanos
  pr_send :: "sign_request \<Rightarrow> string + int \<times> string"   \<comment> \<open>the status and the body\<close>
  pr_p7 :: "string \<Rightarrow> string + 'p"
  pr_decrypt :: "'p \<Rightarrow> cert \<Rightarrow> 'k \<Rightarrow> string + string"

definition mdmcert_api_key :: string where
  "mdmcert_api_key = ''f847aea2ba06b41264d587b229e2712c89b1490a1208b7ff1aafab5bb40d47bc''"

definition pushcert_dir :: "config \<Rightarrow> string" where
  "pushcert_dir cfg = path_join (path_dir (storage_path (cfg_storage cfg))) ''pushcert''"

definition new_push_csr :: "('k, 'p) request_env \<Rightarrow> string \<Rightarrow> string \<Rightarrow> string \<Rightarrow> string + 'k \<times> string" where
  "new_push_csr pr cn country email = and_then (pr_push_key pr) (\<lambda>k. and_then (pr_csr pr cn country email k) (\<lambda>der.
     Inr (k, cr_encode (pr_lib pr) ''CERTIFICATE REQUEST'' der)))"

definition new_encryption_cert :: "('k, 'p) request_env \<Rightarrow> string \<Rightarrow> string + 'k \<times> string" where
  "new_encryption_cert pr cn = and_then (pr_enc_key pr) (\<lambda>k. and_then (pr_serial pr) (\<lambda>serial.
     and_then (pr_self_cert pr cn serial (pr_now pr - hour) (pr_in_3_months pr) k) (\<lambda>der.
       Inr (k, cr_encode (pr_lib pr) ''CERTIFICATE'' der))))"

definition key_pem :: "'k crypto \<Rightarrow> 'k \<Rightarrow> string" where
  "key_pem lib k = cr_encode lib ''RSA PRIVATE KEY'' (cr_marshal lib k)"

definition write_key_pem :: "os_env \<Rightarrow> 'k crypto \<Rightarrow> string \<Rightarrow> 'k \<Rightarrow> file_system \<Rightarrow> fault \<times> file_system" where
  "write_key_pem x lib path k fs = write_file x path (key_pem lib k) 384 fs"

definition request_name :: "string \<Rightarrow> string \<Rightarrow> string" where
  "request_name cn email = (if cn = [] then ''mdm-push.'' @ tl (dropWhile (\<lambda>c. c \<noteq> CHR ''@'') email) else cn)"

definition and_write :: "(fault \<times> file_system) \<Rightarrow> (file_system \<Rightarrow> (cli_error + unit) \<times> file_system) \<Rightarrow> (cli_error + unit) \<times> file_system" where
  "and_write w f = (case w of (Some e, fs) \<Rightarrow> (Inl (Failed e), fs) | (None, fs) \<Rightarrow> f fs)"

definition submit :: "('k, 'p) request_env \<Rightarrow> string \<Rightarrow> string \<Rightarrow> string \<Rightarrow> cli_error + unit" where
  "submit pr email csr_pem cert_pem =
     (case pr_send pr \<lparr>sr_csr = base64 base64_std ''='' csr_pem, sr_email = email, sr_key = mdmcert_api_key,
             sr_encrypt = base64 base64_std ''='' cert_pem\<rparr> of
        Inl e \<Rightarrow> Inl (Failed (''mdmcert.download request: '' @ e))
      | Inr (status, body) \<Rightarrow> if status \<noteq> 200 then Inl (Failed (''mdmcert.download returned '' @ int_str status @ '': '' @ trim_space body)) else Inr ())"

definition save_request ::
  "('k, 'p) request_env \<Rightarrow> string \<Rightarrow> string \<Rightarrow> string \<Rightarrow> string \<Rightarrow> file_system \<Rightarrow> (cli_error + unit) \<times> file_system" where
  \<comment> \<open>from the creation of the directory on\<close>
  "save_request pr dir name country email fs =
     (case os_mkdir (pr_os pr) dir of
        Some e \<Rightarrow> (Inl (Failed e), fs)
      | None \<Rightarrow>
     (case new_push_csr pr name country email of
        Inl e \<Rightarrow> (Inl (Failed e), fs)
      | Inr (k, csr_pem) \<Rightarrow>
          and_write (write_key_pem (pr_os pr) (pr_lib pr) (path_join dir ''push.key'') k fs) (\<lambda>fs1.
     (case new_encryption_cert pr (name @ '' (mdmcert decrypt)'') of
        Inl e \<Rightarrow> (Inl (Failed e), fs1)
      | Inr (ek, cert_pem) \<Rightarrow>
          and_write (write_key_pem (pr_os pr) (pr_lib pr) (path_join dir ''encrypt.key'') ek fs1) (\<lambda>fs2.
          and_write (write_file (pr_os pr) (path_join dir ''encrypt.crt'') cert_pem 384 fs2) (\<lambda>fs3.
          and_write (write_file (pr_os pr) (path_join dir ''push.csr'') csr_pem 384 fs3) (\<lambda>fs4.
            (submit pr email csr_pem cert_pem, fs4))))))))"

definition pushcert_request ::
  "('k, 'p) request_env \<Rightarrow> string \<Rightarrow> string \<Rightarrow> string \<Rightarrow> string \<Rightarrow> file_system \<Rightarrow> (cli_error + unit) \<times> file_system" where
  "pushcert_request pr path email country cn fs =
     (if email = [] \<or> CHR ''@'' \<notin> set email then (Inl (Usage ''-email is required''), fs)
      else case load_config (pr_os pr) path fs of
        Inl e \<Rightarrow> (Inl e, fs)
      | Inr cfg \<Rightarrow> save_request pr (pushcert_dir cfg) (request_name cn email) country email fs)"

definition load_encryption_identity :: "('k, 'p) request_env \<Rightarrow> string \<Rightarrow> file_system \<Rightarrow> string + cert \<times> 'k" where
  "load_encryption_identity pr dir fs =
     (case read_file (pr_os pr) (path_join dir ''encrypt.crt'') fs of
        Inl e \<Rightarrow> Inl (''read encryption cert: '' @ e)
      | Inr cert_pem \<Rightarrow>
     and_then (read_file (pr_os pr) (path_join dir ''encrypt.key'') fs) (\<lambda>k_pem.
     (case cr_pem (pr_lib pr) cert_pem of
        None \<Rightarrow> Inl ''encrypt.crt is not PEM''
      | Some ((_, cb), _) \<Rightarrow>
     and_then (cr_parse (pr_lib pr) cb) (\<lambda>c.
     (case cr_pem (pr_lib pr) k_pem of
        None \<Rightarrow> Inl ''encrypt.key is not PEM''
      | Some ((_, kb), _) \<Rightarrow>
     (case cr_pkcs1 (pr_lib pr) kb of
        Inr k \<Rightarrow> Inr (c, k)
      | Inl e \<Rightarrow> (case cr_pkcs8 (pr_lib pr) kb of Inr (Some k) \<Rightarrow> Inr (c, k) | _ \<Rightarrow> Inl e)))))))"

definition pushcert_decrypt ::
  "('k, 'p) request_env \<Rightarrow> string \<Rightarrow> string \<Rightarrow> string \<Rightarrow> file_system \<Rightarrow> (cli_error + unit) \<times> file_system" where
  "pushcert_decrypt pr path inp out fs =
     (if inp = [] then (Inl (Usage ''-in is required''), fs)
      else case load_config (pr_os pr) path fs of
        Inl e \<Rightarrow> (Inl e, fs)
      | Inr cfg \<Rightarrow>
          let dir = pushcert_dir cfg; dest = (if out = [] then path_join dir ''push_request.plist'' else out) in
          (case and_then (load_encryption_identity pr dir fs) (\<lambda>(c, k).
                and_then (read_file (pr_os pr) inp fs) (\<lambda>data.
                (case hex_decode (trim_space data) of
                   None \<Rightarrow> Inl ''attachment is not hex-encoded as expected''
                 | Some p7 \<Rightarrow> (case pr_p7 pr p7 of
                     Inl e \<Rightarrow> Inl (''parse PKCS7: '' @ e)
                   | Inr p \<Rightarrow> (case pr_decrypt pr p c k of Inl e \<Rightarrow> Inl (''decrypt: '' @ e) | Inr content \<Rightarrow> Inr content))))) of
             Inl e \<Rightarrow> (Inl (Failed e), fs)
           | Inr content \<Rightarrow> and_write (write_file (pr_os pr) dest content 384 fs) (\<lambda>fs1. (Inr (), fs1))))"

definition check_topics :: "fault \<Rightarrow> nanos \<Rightarrow> apns_topic list \<Rightarrow> sql_err + (string \<times> secs \<times> int \<times> string \<times> string) list" where
  \<comment> \<open>the rows that \<open>cairn pushcert check\<close> prints\<close>
  "check_topics ft now rows = (case list_apns_topics ft rows of
     Inl e \<Rightarrow> Inl e
   | Inr ts \<Rightarrow> Inr (map (\<lambda>t. (at_topic t, at_not_after t, renewal_tier now (of_secs (at_not_after t)))) ts))"

subsection \<open>What a request leaves behind\<close>

lemma path_join_inj [simp]: "path_join d a = path_join d b \<longleftrightarrow> a = b"
  by (auto simp: path_join_def)

definition contents :: "file_system \<Rightarrow> string \<Rightarrow> string option" where
  "contents fs p = map_option snd (fs p)"

lemma read_contents: "read_file x p fs = Inr data \<longleftrightarrow> os_read x p = None \<and> contents fs p = Some data"
  by (auto simp: read_file_def contents_def split: option.splits)

lemma write_contents: "write_file x p data perm fs = (None, fs') \<Longrightarrow> contents fs' q = (if q = p then Some data else contents fs q)"
  by (auto dest!: write_file_done simp: contents_def)

lemma and_write_Inr: "and_write w f = (Inr (), fs') \<longleftrightarrow> (\<exists>fs. w = (None, fs) \<and> f fs = (Inr (), fs'))"
  by (auto simp: and_write_def split: prod.splits option.splits)

lemma save_request_saved:
  assumes "save_request pr dir name country email fs = (Inr (), fs')"
  obtains k csr_pem ek cert_pem where
    "new_push_csr pr name country email = Inr (k, csr_pem)"
    "new_encryption_cert pr (name @ '' (mdmcert decrypt)'') = Inr (ek, cert_pem)"
    "contents fs' (path_join dir ''push.key'') = Some (key_pem (pr_lib pr) k)"
    "contents fs' (path_join dir ''encrypt.key'') = Some (key_pem (pr_lib pr) ek)"
    "contents fs' (path_join dir ''encrypt.crt'') = Some cert_pem"
    "contents fs' (path_join dir ''push.csr'') = Some csr_pem"
    "submit pr email csr_pem cert_pem = Inr ()"
proof -
  from assms have m: "os_mkdir (pr_os pr) dir = None" by (auto simp: save_request_def split: option.splits)
  with assms obtain k csr_pem where k: "new_push_csr pr name country email = Inr (k, csr_pem)"
    by (auto simp: save_request_def split: sum.splits)
  with assms m obtain ek cert_pem where e: "new_encryption_cert pr (name @ '' (mdmcert decrypt)'') = Inr (ek, cert_pem)"
    by (cases "new_encryption_cert pr (name @ '' (mdmcert decrypt)'')") (auto simp: save_request_def and_write_def split: option.splits prod.splits)
  from assms m k e that show thesis
    by (auto simp: save_request_def and_write_Inr write_key_pem_def write_contents)
qed

definition seals :: "('k, 'p) request_env \<Rightarrow> (string \<Rightarrow> string \<Rightarrow> string) \<Rightarrow> bool" where
  \<comment> \<open>\<open>seal der content\<close> is a PKCS7 envelope for the self-signed certificate \<open>der\<close>: the holder of its key opens it\<close>
  "seals pr seal \<longleftrightarrow> (\<forall>cn serial a b k der. pr_self_cert pr cn serial a b k = Inr der \<longrightarrow>
     (\<exists>c. cr_parse (pr_lib pr) der = Inr c \<and>
       (\<forall>content. \<exists>p. pr_p7 pr (seal der content) = Inr p \<and> pr_decrypt pr p c k = Inr content)))"

lemma new_encryption_cert_opens:
  assumes "codec_ok (pr_lib pr)" and "seals pr seal" and "new_encryption_cert pr cn = Inr (k, pem)"
  obtains der rest c where "cr_pem (pr_lib pr) pem = Some ((''CERTIFICATE'', der), rest)" "cr_parse (pr_lib pr) der = Inr c"
    "\<And>content. \<exists>p. pr_p7 pr (seal der content) = Inr p \<and> pr_decrypt pr p c k = Inr content"
proof -
  from assms(3) obtain serial a b der where
    d: "pr_self_cert pr cn serial a b k = Inr der" "pem = cr_encode (pr_lib pr) ''CERTIFICATE'' der"
    by (auto simp: new_encryption_cert_def and_then_Inr)
  from assms(1) d(2) obtain rest where "cr_pem (pr_lib pr) pem = Some ((''CERTIFICATE'', der), rest)"
    unfolding codec_ok_def by metis
  with assms(2) d(1) that show thesis unfolding seals_def by metis
qed

lemma trim_space_hex [simp]: "trim_space (hex_encode s @ [CHR 0x0A]) = hex_encode s"
proof -
  have d: "n < 16 \<Longrightarrow> \<not> is_space (hex_digit n)" for n
  proof -
    have "list_all (\<lambda>n. \<not> is_space (hex_digit n)) [0..<16]" by code_simp
    then show "n < 16 \<Longrightarrow> \<not> is_space (hex_digit n)" by (simp add: list_all_iff)
  qed
  have "of_char c div 16 < (16 :: nat)" for c using nat_of_char_less_256[of c] by (simp add: div_less_iff_less_mult)
  with d have all: "\<forall>c\<in>set (hex_encode s). \<not> is_space c" by (auto simp: hex_encode_def Let_def)
  have k: "\<forall>c\<in>set xs. \<not> is_space c \<Longrightarrow> dropWhile is_space xs = xs" for xs by (cases xs) auto
  have n: "is_space (CHR 0x0A)" by (simp add: is_space_def)
  show ?thesis
  proof (cases "hex_encode s")
    case Nil
    then show ?thesis by (simp add: trim_space_def trim_both_def trim_left_def trim_right_def n)
  next
    case (Cons c cs)
    with all have "dropWhile is_space (hex_encode s @ [CHR 0x0A]) = hex_encode s @ [CHR 0x0A]" by simp
    with k[of "rev (hex_encode s)"] all show ?thesis by (simp add: trim_space_def trim_both_def trim_left_def trim_right_def n)
  qed
qed

lemma request_then_decrypt:
  assumes "codec_ok (pr_lib pr)" and "seals pr seal" and "pushcert_request pr path email country cn fs = (Inr (), fs1)"
    and "\<forall>p. os_read (pr_os pr) p = None"
  obtains cfg cert_pem der rest csr_pem where "load_config (pr_os pr) path fs = Inr cfg"
    "submit pr email csr_pem cert_pem = Inr ()" "contents fs1 (path_join (pushcert_dir cfg) ''encrypt.crt'') = Some cert_pem" "cr_pem (pr_lib pr) cert_pem = Some ((''CERTIFICATE'', der), rest)"
    "\<forall>fs2 inp out content. inp \<noteq> [] \<longrightarrow> load_config (pr_os pr) path fs2 = Inr cfg \<longrightarrow>
        (\<forall>n\<in>{''encrypt.crt'', ''encrypt.key''}. contents fs2 (path_join (pushcert_dir cfg) n) = contents fs1 (path_join (pushcert_dir cfg) n)) \<longrightarrow>
        contents fs2 inp = Some (hex_encode (seal der content) @ [CHR 0x0A]) \<longrightarrow>
      pushcert_decrypt pr path inp out fs2 =
        and_write (write_file (pr_os pr) (if out = [] then path_join (pushcert_dir cfg) ''push_request.plist'' else out) content 384 fs2)
          (\<lambda>fs3. (Inr (), fs3))"
proof -
  from assms(3) obtain cfg where cfg: "load_config (pr_os pr) path fs = Inr cfg"
    and s: "save_request pr (pushcert_dir cfg) (request_name cn email) country email fs = (Inr (), fs1)"
    by (auto simp: pushcert_request_def split: if_splits sum.splits)
  from save_request_saved[OF s] obtain ek cert_pem csr_pem where
    ek: "new_encryption_cert pr (request_name cn email @ '' (mdmcert decrypt)'') = Inr (ek, cert_pem)"
    and f: "contents fs1 (path_join (pushcert_dir cfg) ''encrypt.key'') = Some (key_pem (pr_lib pr) ek)"
      "contents fs1 (path_join (pushcert_dir cfg) ''encrypt.crt'') = Some cert_pem" "submit pr email csr_pem cert_pem = Inr ()"
    by metis
  from new_encryption_cert_opens[OF assms(1,2) ek] obtain der rest c where
    c: "cr_pem (pr_lib pr) cert_pem = Some ((''CERTIFICATE'', der), rest)" "cr_parse (pr_lib pr) der = Inr c"
    and o: "\<And>content. \<exists>p. pr_p7 pr (seal der content) = Inr p \<and> pr_decrypt pr p c ek = Inr content" by metis
  from assms(1) obtain r2 where
    k: "cr_pem (pr_lib pr) (key_pem (pr_lib pr) ek) = Some ((''RSA PRIVATE KEY'', cr_marshal (pr_lib pr) ek), r2)"
      "cr_pkcs1 (pr_lib pr) (cr_marshal (pr_lib pr) ek) = Inr ek" unfolding codec_ok_def key_pem_def by metis
  have read: "read_file (pr_os pr) p fs2 = Inr data" if "contents fs2 p = Some data" for p fs2 data
    using that assms(4) by (simp add: read_contents)
  show thesis
  proof (rule that[OF cfg f(3) f(2) c(1)], intro allI impI)
    fix fs2 inp out content
    assume a: "inp \<noteq> []" "load_config (pr_os pr) path fs2 = Inr cfg"
      "\<forall>n\<in>{''encrypt.crt'', ''encrypt.key''}. contents fs2 (path_join (pushcert_dir cfg) n) = contents fs1 (path_join (pushcert_dir cfg) n)"
      "contents fs2 inp = Some (hex_encode (seal der content) @ [CHR 0x0A])"
    from a(3) f have "load_encryption_identity pr (pushcert_dir cfg) fs2 = Inr (c, ek)"
      by (simp add: load_encryption_identity_def read c k)
    moreover from o obtain p where "pr_p7 pr (seal der content) = Inr p" "pr_decrypt pr p c ek = Inr content" by blast
    ultimately show "pushcert_decrypt pr path inp out fs2 =
        and_write (write_file (pr_os pr) (if out = [] then path_join (pushcert_dir cfg) ''push_request.plist'' else out) content 384 fs2)
          (\<lambda>fs3. (Inr (), fs3))"
      using a(1,2) read[OF a(4)] by (simp add: pushcert_decrypt_def Let_def)
  qed
qed

text \<open>
  C40: What \<open>cairn pushcert request\<close> leaves on disk opens the answer to it: after a request that was accepted, a
  \<open>.p7\<close> attachment that the service sealed for the certificate of the request, whatever it holds and
  wherever it was saved, is decrypted by \<open>cairn pushcert decrypt\<close> to exactly the contents that were
  sealed, into the file asked for, as long as the two encryption files and the configuration are still there.
\<close>

theorem push_request_roundtrip:
  assumes "codec_ok (pr_lib pr)" and "seals pr seal" and "pushcert_request pr path email country cn fs = (Inr (), fs1)"
    and "\<forall>p. os_read (pr_os pr) p = None"
  shows "\<exists>cfg cert_pem der rest csr_pem. load_config (pr_os pr) path fs = Inr cfg \<and>
    submit pr email csr_pem cert_pem = Inr () \<and> contents fs1 (path_join (pushcert_dir cfg) ''encrypt.crt'') = Some cert_pem \<and> cr_pem (pr_lib pr) cert_pem = Some ((''CERTIFICATE'', der), rest) \<and>
    (\<forall>fs2 inp out content. inp \<noteq> [] \<longrightarrow> out \<noteq> [] \<longrightarrow> os_write (pr_os pr) out = None \<longrightarrow> load_config (pr_os pr) path fs2 = Inr cfg \<longrightarrow>
       (\<forall>n\<in>{''encrypt.crt'', ''encrypt.key''}. contents fs2 (path_join (pushcert_dir cfg) n) = contents fs1 (path_join (pushcert_dir cfg) n)) \<longrightarrow>
       contents fs2 inp = Some (hex_encode (seal der content) @ [CHR 0x0A]) \<longrightarrow>
       (\<exists>fs3. pushcert_decrypt pr path inp out fs2 = (Inr (), fs3) \<and> contents fs3 out = Some content))"
proof -
  obtain cfg cert_pem der rest csr_pem where c: "load_config (pr_os pr) path fs = Inr cfg" "submit pr email csr_pem cert_pem = Inr ()"
    "contents fs1 (path_join (pushcert_dir cfg) ''encrypt.crt'') = Some cert_pem" "cr_pem (pr_lib pr) cert_pem = Some ((''CERTIFICATE'', der), rest)"
    and d: "\<forall>fs2 inp out content. inp \<noteq> [] \<longrightarrow> load_config (pr_os pr) path fs2 = Inr cfg \<longrightarrow>
        (\<forall>n\<in>{''encrypt.crt'', ''encrypt.key''}. contents fs2 (path_join (pushcert_dir cfg) n) = contents fs1 (path_join (pushcert_dir cfg) n)) \<longrightarrow>
        contents fs2 inp = Some (hex_encode (seal der content) @ [CHR 0x0A]) \<longrightarrow>
      pushcert_decrypt pr path inp out fs2 =
        and_write (write_file (pr_os pr) (if out = [] then path_join (pushcert_dir cfg) ''push_request.plist'' else out) content 384 fs2)
          (\<lambda>fs3. (Inr (), fs3))"
    by (rule request_then_decrypt[OF assms])
  have w: "\<exists>fs3. write_file (pr_os pr) out content 384 fs2 = (None, fs3) \<and> contents fs3 out = Some content"
    if "os_write (pr_os pr) out = None" for out content fs2
    using that by (simp add: write_file_def contents_def)
  show ?thesis
  proof (rule exI, rule exI, rule exI, rule exI, rule exI, intro conjI, rule c(1), rule c(2), rule c(3), rule c(4), intro allI impI)
    fix fs2 inp out content
    assume a: "inp \<noteq> []" "out \<noteq> []" "os_write (pr_os pr) out = None" "load_config (pr_os pr) path fs2 = Inr cfg"
      "\<forall>n\<in>{''encrypt.crt'', ''encrypt.key''}. contents fs2 (path_join (pushcert_dir cfg) n) = contents fs1 (path_join (pushcert_dir cfg) n)"
      "contents fs2 inp = Some (hex_encode (seal der content) @ [CHR 0x0A])"
    from w[OF a(3)] obtain fs3 where f: "write_file (pr_os pr) out content 384 fs2 = (None, fs3)" "contents fs3 out = Some content" by blast
    with d a show "\<exists>fs3. pushcert_decrypt pr path inp out fs2 = (Inr (), fs3) \<and> contents fs3 out = Some content"
      by (simp add: and_write_def)
  qed
qed

definition demo_request_env :: "(string, string) request_env" where
  \<comment> \<open>a certificate is the letter C and its key; an envelope is the certificate followed by the contents\<close>
  "demo_request_env = \<lparr>pr_os = demo_os, pr_lib = demo_crypto, pr_push_key = Inr ''push'', pr_csr = (\<lambda>cn country email k. Inr (cn @ k)),
     pr_enc_key = Inr ''enc'', pr_serial = Inr 7, pr_self_cert = (\<lambda>cn serial a b k. Inr (CHR ''C'' # k)), pr_now = 0, pr_in_3_months = 0,
     pr_send = (\<lambda>r. Inr (200, [])), pr_p7 = Inr,
     pr_decrypt = (\<lambda>p c k. if take (length (ct_raw c)) p = CHR ''C'' # k then Inr (drop (length (ct_raw c)) p) else Inl ''wrong key'')\<rparr>"

definition demo_files :: file_system where
  "demo_files = [''cairn.toml'' \<mapsto> (416, [])]"

lemma demo_seals: "seals demo_request_env (\<lambda>der content. der @ content)"
  by (simp add: seals_def demo_request_env_def demo_crypto_def)

lemma demo_loads: "fs ''cairn.toml'' = Some (m, data) \<Longrightarrow> load_config demo_os ''cairn.toml'' fs = Inr demo_config"
proof -
  define rf where "rf p = read_file demo_os p fs" for p
  assume "fs ''cairn.toml'' = Some (m, data)"
  then have "rf ''cairn.toml'' = Inr data" by (simp add: rf_def read_file_def demo_os_def)
  moreover have "resolve_secrets demo_env rf (apply_env_overrides demo_env demo_config0) = Inr demo_config" by code_simp
  moreover have "demo_decode data default_config = Inr demo_config0" by (simp add: demo_config0_def demo_decode_def)
  moreover have "validate demo_url demo_config = []" by code_simp
  ultimately show ?thesis by (simp add: load_config_def load_def demo_os_def rf_def[abs_def])
qed

theorem push_request_roundtrip_witness:
  "\<exists>fs1 fs3. pushcert_request demo_request_env ''cairn.toml'' ''a@x.org'' ''US'' [] demo_files = (Inr (), fs1) \<and>
     pushcert_decrypt demo_request_env ''cairn.toml'' ''a.p7'' ''out.plist''
       (fs1(''a.p7'' \<mapsto> (420, hex_encode ''Cencplist'' @ [CHR 0x0A]))) = (Inr (), fs3) \<and> contents fs3 ''out.plist'' = Some ''plist''"
proof -
  have r: "pr_os demo_request_env = demo_os" "pr_lib demo_request_env = demo_crypto" by (simp_all add: demo_request_env_def)
  have d: "pushcert_dir demo_config = ''/var/db/cairn/pushcert''" by code_simp
  have n: "request_name [] ''a@x.org'' = ''mdm-push.x.org''" by code_simp
  have l: "load_config demo_os ''cairn.toml'' fs = Inr demo_config" if "fs ''cairn.toml'' = Some (416, [])" for fs
    using that by (rule demo_loads)
  have "demo_files ''cairn.toml'' = Some (416, [])" by (simp add: demo_files_def)
  then have "pushcert_request demo_request_env ''cairn.toml'' ''a@x.org'' ''US'' [] demo_files =
      save_request demo_request_env ''/var/db/cairn/pushcert'' ''mdm-push.x.org'' ''US'' ''a@x.org'' demo_files"
    by (simp add: pushcert_request_def r l d n)
  then have "\<exists>fs1. pushcert_request demo_request_env ''cairn.toml'' ''a@x.org'' ''US'' [] demo_files = (Inr (), fs1) \<and>
    fs1 ''cairn.toml'' = Some (416, []) \<and>
    contents fs1 (path_join (pushcert_dir demo_config) ''encrypt.crt'') = Some (cr_encode demo_crypto ''CERTIFICATE'' ''Cenc'')"
    by (simp add: d demo_files_def save_request_def and_write_def write_key_pem_def write_file_def path_join_def contents_def
        new_push_csr_def new_encryption_cert_def submit_def demo_request_env_def demo_os_def)
  then obtain fs1 where f: "pushcert_request demo_request_env ''cairn.toml'' ''a@x.org'' ''US'' [] demo_files = (Inr (), fs1)"
    "fs1 ''cairn.toml'' = Some (416, [])"
    "contents fs1 (path_join (pushcert_dir demo_config) ''encrypt.crt'') = Some (cr_encode demo_crypto ''CERTIFICATE'' ''Cenc'')" by blast
  have os: "\<forall>p. os_read demo_os p = None" "os_write demo_os ''out.plist'' = None" by (simp_all add: demo_os_def)
  let ?fs2 = "fs1(''a.p7'' \<mapsto> (420, hex_encode ''Cencplist'' @ [CHR 0x0A]))"
  obtain cert_pem der rest where c: "contents fs1 (path_join (pushcert_dir demo_config) ''encrypt.crt'') = Some cert_pem"
    "cr_pem demo_crypto cert_pem = Some ((''CERTIFICATE'', der), rest)"
    and o: "\<forall>fs2 inp out content. inp \<noteq> [] \<longrightarrow> out \<noteq> [] \<longrightarrow> os_write demo_os out = None \<longrightarrow> load_config demo_os ''cairn.toml'' fs2 = Inr demo_config \<longrightarrow>
       (\<forall>n\<in>{''encrypt.crt'', ''encrypt.key''}. contents fs2 (path_join (pushcert_dir demo_config) n) = contents fs1 (path_join (pushcert_dir demo_config) n)) \<longrightarrow>
       contents fs2 inp = Some (hex_encode (der @ content) @ [CHR 0x0A]) \<longrightarrow>
       (\<exists>fs3. pushcert_decrypt demo_request_env ''cairn.toml'' inp out fs2 = (Inr (), fs3) \<and> contents fs3 out = Some content)"
    using push_request_roundtrip[OF _ demo_seals f(1)] l[of demo_files] by (auto simp: r os demo_codec_ok demo_files_def)
  from c(1) f(3) have "cert_pem = ''11111111111|CERTIFICATECenc''" by (simp add: demo_crypto_def)
  with c(2) have "der = ''Cenc''" by (simp add: demo_crypto_def Let_def)
  with o os have "\<exists>fs3. pushcert_decrypt demo_request_env ''cairn.toml'' ''a.p7'' ''out.plist'' ?fs2 = (Inr (), fs3) \<and> contents fs3 ''out.plist'' = Some ''plist''"
    using l[of ?fs2] f(2) by (simp add: d path_join_def contents_def)
  with f(1) show ?thesis by blast
qed

text \<open>
  A second request replaces the push key before the service has answered, and also when the service then
  rejects it: the certificate that Apple issued for the first request can no longer be imported.
\<close>

theorem request_replaces_push_key:
  assumes "load_config (pr_os pr) path fs = Inr cfg" and "CHR ''@'' \<in> set email" and "os_mkdir (pr_os pr) (pushcert_dir cfg) = None"
    and "new_push_csr pr (request_name cn email) country email = Inr (k, csr)" and "\<forall>p. os_write (pr_os pr) p = None"
    and "pushcert_request pr path email country cn fs = (r, fs')"
  shows "contents fs' (path_join (pushcert_dir cfg) ''push.key'') = Some (key_pem (pr_lib pr) k)"
proof -
  from assms(2) have "email \<noteq> []" by auto
  with assms have s: "save_request pr (pushcert_dir cfg) (request_name cn email) country email fs = (r, fs')"
    by (simp add: pushcert_request_def)
  obtain fs1 where w: "write_key_pem (pr_os pr) (pr_lib pr) (path_join (pushcert_dir cfg) ''push.key'') k fs = (None, fs1)"
    "contents fs1 (path_join (pushcert_dir cfg) ''push.key'') = Some (key_pem (pr_lib pr) k)"
    using assms(5) by (simp add: write_key_pem_def write_file_def contents_def)
  have o: "write_file (pr_os pr) (path_join d n) data perm fs = (x, fs2) \<Longrightarrow> n \<noteq> ''push.key'' \<Longrightarrow>
      contents fs2 (path_join d ''push.key'') = contents fs (path_join d ''push.key'')" for d n data perm fs x fs2
    by (auto dest: write_file_others[where q = "path_join d ''push.key''"] simp: contents_def)
  from s w assms(3,4) show ?thesis
    by (auto simp: save_request_def and_write_def write_key_pem_def o split: sum.splits prod.splits option.splits)
qed

end
