(* ===== verification/Setup.thy ===== *)
theory Setup
  imports PushRequest Pki LocalUsers "HOL-Library.Sublist"
begin

section \<open>Initial setup\<close>

text \<open>
  \<open>cairn init\<close>: \<open>cmd/cairn/init.go\<close>, \<open>rendertoml.go\<close>, \<open>paths.go\<close> and the password prompts of \<open>admin.go\<close>.  The
  command asks for what its flags leave out, validates the configuration, creates the data directory, the
  database, the authority and the first account, and writes \<open>cairn.toml\<close> last.  The state is the \<open>machine\<close> of
  \<open>Cli\<close> over the two tables that the command fills.  The TOML decoder stays a parameter; what a
  document means to it is stated by \<open>reads_toml\<close>.
\<close>

subsection \<open>The configuration file\<close>

datatype toml_line = Blank | Note string | Table string | Key string string

definition quote_char :: "char \<Rightarrow> string" where
  \<comment> \<open>one byte under \<open>%q\<close>; bytes from 128 on are taken to be part of printable runes\<close>
  "quote_char c =
     (let n = (of_char c :: nat); bs = CHR 0x5C in
      if n = 34 \<or> n = 92 then [bs, c]
      else if n = 7 then [bs, CHR ''a''] else if n = 8 then [bs, CHR ''b''] else if n = 12 then [bs, CHR ''f'']
      else if n = 10 then [bs, CHR ''n''] else if n = 13 then [bs, CHR ''r''] else if n = 9 then [bs, CHR ''t'']
      else if n = 11 then [bs, CHR ''v'']
      else if n < 32 \<or> n = 127 then [bs, CHR ''x'', hex_digit (n div 16), hex_digit (n mod 16)]
      else [c])"

definition go_quote :: "string \<Rightarrow> string" where
  "go_quote s = CHR 0x22 # concat (map quote_char s) @ [CHR 0x22]"

fun line_body :: "toml_line \<Rightarrow> string" where
  "line_body Blank = []"
| "line_body (Note s) = ''# '' @ s"
| "line_body (Table t) = ''['' @ t @ '']''"
| "line_body (Key k v) = k @ '' = '' @ go_quote v"

definition toml_text :: "toml_line list \<Rightarrow> string" where
  "toml_text ls = concat (map (\<lambda>l. line_body l @ [CHR 0x0A]) ls)"

definition toml_lines :: "config \<Rightarrow> toml_line list" where
  "toml_lines cfg =
     (let s = cfg_server cfg; t = cfg_tls s; ca = cfg_ca cfg in
      [Note (''Cairn configuration '' @ [CHR 0xE2, CHR 0x80, CHR 0x94] @ '' generated by `cairn init`.''),
       Note ''Secrets are never inlined here; use the *_file / *_env companions.'', Blank,
       Table ''server'', Key ''public_url'' (public_url s), Key ''listen'' (listen s), Key ''mdm_path'' (mdm_path s), Blank,
       Table ''server.tls'', Key ''mode'' (tls_mode t)] @
      (if tls_mode t = ''acme'' then [Key ''acme_email'' (acme_email t)]
       else if tls_mode t = ''files'' then [Key ''cert_file'' (tls_cert_file t), Key ''key_file'' (tls_key_file t)] else []) @
      [Blank, Table ''storage'', Key ''driver'' (driver (cfg_storage cfg)), Key ''path'' (storage_path (cfg_storage cfg)), Blank,
       Table ''ca'', Key ''mode'' (ca_mode ca)] @
      (if ca_mode ca = ''import''
       then [Blank, Table ''ca.import'', Key ''cert_file'' (import_cert_file ca), Key ''key_file'' (import_key_file ca)]
       else if ca_mode ca = ''external''
       then [Blank, Table ''ca.external'', Key ''scep_url'' (scep_url ca), Key ''ca_chain_file'' (ca_chain_file ca),
             Note (''challenge_env = '' @ go_quote ''CAIRN_SCEP_CHALLENGE'')] else []) @
      [Blank, Table ''log'', Key ''format'' (log_format (cfg_log cfg)), Key ''level'' (log_level (cfg_log cfg))])"

definition render_toml :: "config \<Rightarrow> string" where
  "render_toml cfg = toml_text (toml_lines cfg)"

subsection \<open>Paths and prompts\<close>

definition default_config_path :: "string \<Rightarrow> string" where
  "default_config_path goos = (if goos = ''freebsd'' then ''/usr/local/etc/cairn/cairn.toml''
     else if goos = ''darwin'' then ''/opt/homebrew/etc/cairn/cairn.toml'' else ''/etc/cairn/cairn.toml'')"

definition home_or :: "string + string \<Rightarrow> string \<Rightarrow> string" where
  "home_or home fallback = (case home of Inr h \<Rightarrow> if h \<noteq> [] then h else fallback | Inl _ \<Rightarrow> fallback)"

definition default_data_dir :: "string \<Rightarrow> string + string \<Rightarrow> string" where
  "default_data_dir goos home = (if goos = ''freebsd'' then ''/var/db/cairn''
     else if goos = ''darwin'' then path_join (path_join (path_join (home_or home ''/usr/local/var'') ''Library'') ''Application Support'') ''cairn''
     else ''/var/lib/cairn'')"

definition prompt :: "string \<Rightarrow> string \<times> string" where
  \<comment> \<open>the answer and what is left of the standard input\<close>
  "prompt inp = (let l = takeWhile (\<lambda>c. c \<noteq> CHR 0x0A) inp in (trim_space l, drop (Suc (length l)) inp))"

definition read_password_confirm :: "string + string \<Rightarrow> string + string \<Rightarrow> string + string" where
  "read_password_confirm read1 read2 =
     (case read1 of Inl e \<Rightarrow> Inl (''read password: '' @ e)
      | Inr pw1 \<Rightarrow> (case read2 of Inl e \<Rightarrow> Inl (''read password: '' @ e)
      | Inr pw2 \<Rightarrow> if pw1 \<noteq> pw2 then Inl ''passwords do not match''
                     else if pw1 = [] then Inl ''password must not be empty'' else Inr pw1))"

definition read_optional_password :: "string + string \<Rightarrow> string + string \<Rightarrow> string + string" where
  "read_optional_password read1 read2 =
     (case read1 of Inl e \<Rightarrow> Inl (''read password: '' @ e)
      | Inr pw1 \<Rightarrow> if pw1 = [] then Inr []
     else (case read2 of Inl e \<Rightarrow> Inl (''read password: '' @ e)
      | Inr pw2 \<Rightarrow> if pw1 \<noteq> pw2 then Inl ''passwords do not match'' else Inr pw1))"

definition random_password :: "string \<Rightarrow> string" where
  \<comment> \<open>of 18 random bytes\<close>
  "random_password bytes = base64 base64_url [] bytes"

subsection \<open>The command\<close>

record init_flags =
  nf_config :: string
  nf_public_url :: string
  nf_data_dir :: string
  nf_ca_mode :: string
  nf_ca_cert :: string
  nf_ca_key :: string
  nf_scep_url :: string
  nf_ca_chain :: string
  nf_tls :: string
  nf_acme_email :: string
  nf_admin_user :: string
  nf_admin_password :: string
  nf_force :: bool

record setup_tables =
  st_ca :: ca_table
  st_auth :: auth_db

record 'k init_env =
  ne_os :: os_env
  ne_open :: "setup_tables open_env"
  ne_goos :: string
  ne_home :: "string + string"
  ne_tty :: bool
  ne_stdin :: string
  ne_read1 :: "string + string"
  ne_read2 :: "string + string"
  ne_random :: string
  ne_lib :: "'k crypto"
  ne_ca :: "'k ca_env"
  ne_hash :: make_hash
  ne_salt :: string
  ne_insert :: fault
  ne_now :: nanos

datatype setup_error = SetupUsage string | Incomplete "cfg_error list" | SetupFailed string | OpenFailed cli_error | CaFailed ca_err | UserFailed user_err

definition init_public_url :: "('k, 'a) init_env_scheme \<Rightarrow> init_flags \<Rightarrow> (setup_error + string) \<times> string" where
  "init_public_url ne fl =
     (let (u, rest) = (if nf_public_url fl = [] \<and> ne_tty ne then prompt (ne_stdin ne) else (nf_public_url fl, ne_stdin ne)) in
      (if u = [] then Inl (SetupUsage ''-public-url is required'')
       else if \<not> has_prefix u ''https://'' then Inl (SetupFailed ''public-url must be an https:// URL'') else Inr u, rest))"

definition init_data_dir :: "('k, 'a) init_env_scheme \<Rightarrow> init_flags \<Rightarrow> string" where
  "init_data_dir ne fl = (if nf_data_dir fl = [] then default_data_dir (ne_goos ne) (ne_home ne) else nf_data_dir fl)"

definition init_email :: "('k, 'a) init_env_scheme \<Rightarrow> init_flags \<Rightarrow> string \<Rightarrow> string" where
  "init_email ne fl rest = (if nf_tls fl = ''acme'' \<and> nf_acme_email fl = [] \<and> ne_tty ne then fst (prompt rest) else nf_acme_email fl)"

definition init_config :: "init_flags \<Rightarrow> string \<Rightarrow> string \<Rightarrow> string \<Rightarrow> config" where
  "init_config fl url db_path email = default_config\<lparr>
     cfg_server := (cfg_server default_config)\<lparr>public_url := url, listen := '':443'',
       cfg_tls := (cfg_tls (cfg_server default_config))\<lparr>tls_mode := nf_tls fl, acme_email := email\<rparr>\<rparr>,
     cfg_storage := (cfg_storage default_config)\<lparr>storage_path := db_path\<rparr>,
     cfg_ca := (cfg_ca default_config)\<lparr>ca_mode := nf_ca_mode fl, import_cert_file := nf_ca_cert fl, import_key_file := nf_ca_key fl,
       scep_url := nf_scep_url fl, ca_chain_file := nf_ca_chain fl\<rparr>\<rparr>"

definition prepare_init :: "('k, 'a) init_env_scheme \<Rightarrow> init_flags \<Rightarrow> file_system \<Rightarrow> setup_error + config" where
  \<comment> \<open>up to the validated configuration\<close>
  "prepare_init ne fl fs =
     (let (u, rest) = init_public_url ne fl in
      and_then u (\<lambda>url.
        if exists_file (ne_os ne) (nf_config fl) fs \<and> \<not> nf_force fl
        then Inl (SetupFailed (''config '' @ nf_config fl @ '' already exists (use -force to overwrite)''))
        else let cfg = init_config fl url (path_join (init_data_dir ne fl) ''cairn.db'') (init_email ne fl rest);
                 errs = validate (os_parse_url (ne_os ne)) cfg
             in if errs \<noteq> [] then Inl (Incomplete errs) else Inr cfg))"

definition init_password :: "('k, 'a) init_env_scheme \<Rightarrow> init_flags \<Rightarrow> setup_error + string \<times> string" where
  \<comment> \<open>the password, and the one that was generated, or nothing\<close>
  "init_password ne fl =
     (if nf_admin_password fl \<noteq> [] then Inr (nf_admin_password fl, [])
      else case (if ne_tty ne then read_optional_password (ne_read1 ne) (ne_read2 ne) else Inr []) of
        Inl e \<Rightarrow> Inl (SetupFailed e)
      | Inr pw \<Rightarrow> if pw = [] then Inr (random_password (ne_random ne), random_password (ne_random ne)) else Inr (pw, []))"

definition init_ca_options :: "('k, 'a) init_env_scheme \<Rightarrow> init_flags \<Rightarrow> config \<Rightarrow> file_system \<Rightarrow> setup_error + ca_options" where
  "init_ca_options ne fl cfg fs =
     (let opts = empty_options\<lparr>co_common_name := ''Cairn CA ('' @ public_host (os_parse_url (ne_os ne)) (public_url (cfg_server cfg)) @ '')'',
            co_organization := ''Cairn''\<rparr> in
      if ca_mode (cfg_ca cfg) = ''import'' then
        (case read_file (ne_os ne) (nf_ca_cert fl) fs of
           Inl e \<Rightarrow> Inl (SetupFailed (''read -ca-cert: '' @ e))
         | Inr c \<Rightarrow> (case read_file (ne_os ne) (nf_ca_key fl) fs of
           Inl e \<Rightarrow> Inl (SetupFailed (''read -ca-key: '' @ e))
         | Inr k \<Rightarrow> Inr (opts\<lparr>co_import_cert := c, co_import_key := k\<rparr>)))
      else Inr opts)"

definition init_ca :: "('k, 'a) init_env_scheme \<Rightarrow> init_flags \<Rightarrow> config \<Rightarrow> file_system \<Rightarrow> ca_table \<Rightarrow> (setup_error + unit) \<times> ca_table" where
  \<comment> \<open>the external mode has no local authority\<close>
  "init_ca ne fl cfg fs tbl =
     (if \<not> embedded (ca_mode (cfg_ca cfg)) then (Inr (), tbl)
      else case init_ca_options ne fl cfg fs of
        Inl e \<Rightarrow> (Inl e, tbl)
      | Inr opts \<Rightarrow> (case ensure (ne_lib ne) (ne_ca ne) opts tbl of
          (Inl e, tbl1) \<Rightarrow> (Inl (CaFailed e), tbl1) | (Inr a, tbl1) \<Rightarrow> (Inr (), tbl1)))"

definition init_summary :: "config \<Rightarrow> string \<Rightarrow> string \<Rightarrow> string \<Rightarrow> string list" where
  "init_summary cfg path user generated =
     [''config: '' @ path, ''database: '' @ storage_path (cfg_storage cfg), ''CA mode: '' @ ca_mode (cfg_ca cfg), ''admin user: '' @ user] @
     (if generated \<noteq> [] then [''admin pass: '' @ generated] else []) @
     [''cairn pushcert import -config '' @ path, ''cairn serve -config '' @ path, public_url (cfg_server cfg) @ ''/enroll''] @
     (if ca_mode (cfg_ca cfg) = ''generate'' then [''cairn ca export -config '' @ path] else [])"

definition say_all :: "string list \<Rightarrow> ('s, 'a) machine_scheme \<Rightarrow> ('s, 'a) machine_scheme" where
  "say_all ls st = st\<lparr>mc_out := mc_out st @ ls\<rparr>"

definition set_tables :: "('s \<Rightarrow> 's) \<Rightarrow> ('s, 'a) machine_scheme \<Rightarrow> ('s, 'a) machine_scheme" where
  "set_tables f st = st\<lparr>mc_db := (mc_db st)\<lparr>sd_tables := f (sd_tables (mc_db st))\<rparr>\<rparr>"

definition create_first :: "('k, 'a) init_env_scheme \<Rightarrow> init_flags \<Rightarrow> config \<Rightarrow> string \<Rightarrow> setup_tables machine \<Rightarrow>
    (setup_error + unit) \<times> setup_tables machine" where
  \<comment> \<open>the data directory, the database, the authority and the account\<close>
  "create_first ne fl cfg pw st =
     (case os_mkdir (ne_os ne) (init_data_dir ne fl) of
        Some e \<Rightarrow> (Inl (SetupFailed (''create data dir: '' @ e)), st)
      | None \<Rightarrow>
     (case open_sqlite (ne_open ne) (storage_path (cfg_storage cfg)) st of
        (Inl e, st1) \<Rightarrow> (Inl (OpenFailed e), st1)
      | (Inr _, st1) \<Rightarrow>
     (case init_ca ne fl cfg (mc_files st1) (st_ca (sd_tables (mc_db st1))) of
        (Inl e, tbl) \<Rightarrow> (Inl e, set_tables (\<lambda>t. t\<lparr>st_ca := tbl\<rparr>) st1)
      | (Inr _, tbl) \<Rightarrow>
          let st2 = set_tables (\<lambda>t. t\<lparr>st_ca := tbl\<rparr>) st1 in
          (case create_user (ne_hash ne) 0 (ne_insert ne) (ne_now ne) (ne_salt ne) (nf_admin_user fl) pw role_admin [] (st_auth (sd_tables (mc_db st2))) of
             (Inl e, db) \<Rightarrow> (Inl (UserFailed e), set_tables (\<lambda>t. t\<lparr>st_auth := db\<rparr>) st2)
           | (Inr _, db) \<Rightarrow> (Inr (), set_tables (\<lambda>t. t\<lparr>st_auth := db\<rparr>) st2)))))"

definition write_config :: "('k, 'a) init_env_scheme \<Rightarrow> init_flags \<Rightarrow> config \<Rightarrow> string \<Rightarrow> setup_tables machine \<Rightarrow>
    (setup_error + unit) \<times> setup_tables machine" where
  "write_config ne fl cfg generated st =
     (case os_mkdir (ne_os ne) (path_dir (nf_config fl)) of
        Some e \<Rightarrow> (Inl (SetupFailed (''create config dir: '' @ e)), st)
      | None \<Rightarrow>
     (case write_file (ne_os ne) (nf_config fl) (render_toml cfg) 416 (mc_files st) of
        (Some e, fs) \<Rightarrow> (Inl (SetupFailed (''write config: '' @ e)), st\<lparr>mc_files := fs\<rparr>)
      | (None, fs) \<Rightarrow> (Inr (), say_all (init_summary cfg (nf_config fl) (nf_admin_user fl) generated) (st\<lparr>mc_files := fs\<rparr>))))"

definition run_init :: "('k, 'a) init_env_scheme \<Rightarrow> init_flags \<Rightarrow> setup_tables machine \<Rightarrow> (setup_error + unit) \<times> setup_tables machine" where
  "run_init ne fl st =
     (case prepare_init ne fl (mc_files st) of
        Inl e \<Rightarrow> (Inl e, st)
      | Inr cfg \<Rightarrow>
     (case init_password ne fl of
        Inl e \<Rightarrow> (Inl e, st)
      | Inr (pw, generated) \<Rightarrow>
     (case create_first ne fl cfg pw st of
        (Inl e, st1) \<Rightarrow> (Inl e, st1)
      | (Inr _, st1) \<Rightarrow> write_config ne fl cfg generated st1)))"

subsection \<open>What a document means\<close>

fun toml_pairs :: "string \<Rightarrow> toml_line list \<Rightarrow> ((string \<times> string) \<times> string) list" where
  \<comment> \<open>table and key; value\<close>
  "toml_pairs t [] = []"
| "toml_pairs t (Table u # ls) = toml_pairs u ls"
| "toml_pairs t (Key k v # ls) = ((t, k), v) # toml_pairs t ls"
| "toml_pairs t (Blank # ls) = toml_pairs t ls"
| "toml_pairs t (Note s # ls) = toml_pairs t ls"

fun toml_tables :: "toml_line list \<Rightarrow> string list" where
  "toml_tables [] = []"
| "toml_tables (Table u # ls) = u # toml_tables ls"
| "toml_tables (Key k v # ls) = toml_tables ls"
| "toml_tables (Blank # ls) = toml_tables ls"
| "toml_tables (Note s # ls) = toml_tables ls"

fun toml_notes :: "toml_line list \<Rightarrow> string list" where
  "toml_notes [] = []"
| "toml_notes (Note s # ls) = s # toml_notes ls"
| "toml_notes (Table u # ls) = toml_notes ls"
| "toml_notes (Key k v # ls) = toml_notes ls"
| "toml_notes (Blank # ls) = toml_notes ls"

definition config_tables :: "string list" where
  "config_tables = [''server'', ''server.tls'', ''storage'', ''ca'', ''ca.import'', ''ca.external'', ''log'']"

definition config_setters :: "((string \<times> string) \<times> (string \<Rightarrow> config \<Rightarrow> config)) list" where
  \<comment> \<open>the \<open>toml\<close> tags of the string fields that \<open>init\<close> writes\<close>
  "config_setters =
     [((''server'', ''public_url''), \<lambda>v c. c\<lparr>cfg_server := (cfg_server c)\<lparr>public_url := v\<rparr>\<rparr>),
      ((''server'', ''listen''), \<lambda>v c. c\<lparr>cfg_server := (cfg_server c)\<lparr>listen := v\<rparr>\<rparr>),
      ((''server'', ''mdm_path''), \<lambda>v c. c\<lparr>cfg_server := (cfg_server c)\<lparr>mdm_path := v\<rparr>\<rparr>),
      ((''server.tls'', ''mode''), \<lambda>v c. c\<lparr>cfg_server := (cfg_server c)\<lparr>cfg_tls := (cfg_tls (cfg_server c))\<lparr>tls_mode := v\<rparr>\<rparr>\<rparr>),
      ((''server.tls'', ''acme_email''), \<lambda>v c. c\<lparr>cfg_server := (cfg_server c)\<lparr>cfg_tls := (cfg_tls (cfg_server c))\<lparr>acme_email := v\<rparr>\<rparr>\<rparr>),
      ((''server.tls'', ''cert_file''), \<lambda>v c. c\<lparr>cfg_server := (cfg_server c)\<lparr>cfg_tls := (cfg_tls (cfg_server c))\<lparr>tls_cert_file := v\<rparr>\<rparr>\<rparr>),
      ((''server.tls'', ''key_file''), \<lambda>v c. c\<lparr>cfg_server := (cfg_server c)\<lparr>cfg_tls := (cfg_tls (cfg_server c))\<lparr>tls_key_file := v\<rparr>\<rparr>\<rparr>),
      ((''storage'', ''driver''), \<lambda>v c. c\<lparr>cfg_storage := (cfg_storage c)\<lparr>driver := v\<rparr>\<rparr>),
      ((''storage'', ''path''), \<lambda>v c. c\<lparr>cfg_storage := (cfg_storage c)\<lparr>storage_path := v\<rparr>\<rparr>),
      ((''ca'', ''mode''), \<lambda>v c. c\<lparr>cfg_ca := (cfg_ca c)\<lparr>ca_mode := v\<rparr>\<rparr>),
      ((''ca.import'', ''cert_file''), \<lambda>v c. c\<lparr>cfg_ca := (cfg_ca c)\<lparr>import_cert_file := v\<rparr>\<rparr>),
      ((''ca.import'', ''key_file''), \<lambda>v c. c\<lparr>cfg_ca := (cfg_ca c)\<lparr>import_key_file := v\<rparr>\<rparr>),
      ((''ca.external'', ''scep_url''), \<lambda>v c. c\<lparr>cfg_ca := (cfg_ca c)\<lparr>scep_url := v\<rparr>\<rparr>),
      ((''ca.external'', ''ca_chain_file''), \<lambda>v c. c\<lparr>cfg_ca := (cfg_ca c)\<lparr>ca_chain_file := v\<rparr>\<rparr>),
      ((''log'', ''format''), \<lambda>v c. c\<lparr>cfg_log := (cfg_log c)\<lparr>log_format := v\<rparr>\<rparr>),
      ((''log'', ''level''), \<lambda>v c. c\<lparr>cfg_log := (cfg_log c)\<lparr>log_level := v\<rparr>\<rparr>)]"

definition set_pairs :: "((string \<times> string) \<times> string) list \<Rightarrow> config \<Rightarrow> config" where
  "set_pairs ps c = foldl (\<lambda>c (k, v). case map_of config_setters k of None \<Rightarrow> c | Some f \<Rightarrow> f v c) c ps"

definition toml_plain :: "char \<Rightarrow> bool" where
  \<comment> \<open>a byte whose rendering by \<open>%q\<close> is the same in a basic string of TOML\<close>
  "toml_plain c \<longleftrightarrow> (let n = (of_char c :: nat) in 32 \<le> n \<and> n \<noteq> 127 \<or> n \<in> {8, 9, 10, 12, 13})"

definition toml_ok :: "toml_line list \<Rightarrow> bool" where
  \<comment> \<open>no table and no key twice, known keys, plain values, comments on one line\<close>
  "toml_ok ls \<longleftrightarrow> distinct (toml_tables ls) \<and> distinct (map fst (toml_pairs [] ls)) \<and>
     (\<forall>(k, v)\<in>set (toml_pairs [] ls). map_of config_setters k \<noteq> None \<and> (\<forall>c\<in>set v. toml_plain c)) \<and>
     set (toml_tables ls) \<subseteq> set config_tables \<and> (\<forall>s\<in>set (toml_notes ls). \<forall>c\<in>set s. c \<noteq> CHR 0x0A \<and> c \<noteq> CHR 0x0D)"

definition reads_toml :: "(string \<Rightarrow> config \<Rightarrow> string + config) \<Rightarrow> bool" where
  \<comment> \<open>what the decoder promises of documents of this form\<close>
  "reads_toml decode \<longleftrightarrow> (\<forall>ls c. toml_ok ls \<longrightarrow> decode (toml_text ls) c = Inr (set_pairs (toml_pairs [] ls) c))"

subsection \<open>A reader of these documents\<close>

text \<open>A reader for the fragment of TOML that \<open>init\<close> writes: it shows that \<open>reads_toml\<close> can be had.\<close>

fun toml_unescape :: "string \<Rightarrow> string option" where
  \<comment> \<open>a basic string after its opening quotation mark\<close>
  "toml_unescape [] = None"
| "toml_unescape (c # s) =
     (if c = CHR 0x22 then (if s = [] then Some [] else None)
      else if c = CHR 0x5C then
        (case s of [] \<Rightarrow> None
         | e # t \<Rightarrow> (case map_of [(CHR 0x22, CHR 0x22), (CHR 0x5C, CHR 0x5C), (CHR ''b'', CHR 0x08), (CHR ''f'', CHR 0x0C),
               (CHR ''n'', CHR 0x0A), (CHR ''r'', CHR 0x0D), (CHR ''t'', CHR 0x09)] e of
             None \<Rightarrow> None | Some d \<Rightarrow> map_option (\<lambda>r. d # r) (toml_unescape t)))
      else map_option (\<lambda>r. c # r) (toml_unescape s))"

definition parse_line :: "string \<Rightarrow> toml_line option" where
  "parse_line l =
     (if l = [] then Some Blank
      else if hd l = CHR ''#'' then Some (Note (drop 2 l))
      else if hd l = CHR ''['' then Some (Table (butlast (tl l)))
      else let k = takeWhile (\<lambda>c. c \<noteq> CHR '' '') l in map_option (Key k) (toml_unescape (drop (length k + 4) l)))"

fun parse_lines :: "string list \<Rightarrow> toml_line list option" where
  "parse_lines [] = Some []"
| "parse_lines (l # ls) = (case (parse_line l, parse_lines ls) of (Some x, Some xs) \<Rightarrow> Some (x # xs) | _ \<Rightarrow> None)"

definition read_toml :: "string \<Rightarrow> config \<Rightarrow> string + config" where
  "read_toml text c = (case parse_lines (butlast (split_on (CHR 0x0A) text)) of
     None \<Rightarrow> Inl ''toml: syntax error'' | Some ls \<Rightarrow> Inr (set_pairs (toml_pairs [] ls) c))"

lemma special_bytes:
  "char_of (34::nat) = CHR 0x22" "char_of (92::nat) = CHR 0x5C" "char_of (8::nat) = CHR 0x08" "char_of (9::nat) = CHR 0x09"
  "char_of (10::nat) = CHR 0x0A" "char_of (12::nat) = CHR 0x0C" "char_of (13::nat) = CHR 0x0D"
  by code_simp+

lemma quote_plain:
  assumes "toml_plain c"
  obtains (same) "quote_char c = [c]" "c \<noteq> CHR 0x22" "c \<noteq> CHR 0x5C" "c \<noteq> CHR 0x0A"
  | (escape) e where "quote_char c = [CHR 0x5C, e]" "e \<noteq> CHR 0x0A"
      "map_of [(CHR 0x22, CHR 0x22), (CHR 0x5C, CHR 0x5C), (CHR ''b'', CHR 0x08), (CHR ''f'', CHR 0x0C),
               (CHR ''n'', CHR 0x0A), (CHR ''r'', CHR 0x0D), (CHR ''t'', CHR 0x09)] e = Some c"
proof (cases "(of_char c :: nat) \<in> {34, 92, 8, 9, 10, 12, 13}")
  case True
  then have "char_of (of_char c :: nat) \<in> char_of ` {34 :: nat, 92, 8, 9, 10, 12, 13}" by (rule imageI)
  then have "c \<in> {CHR 0x22, CHR 0x5C, CHR 0x08, CHR 0x09, CHR 0x0A, CHR 0x0C, CHR 0x0D}"
    by (simp only: char_of_char image_insert image_empty special_bytes)
  then show thesis using escape by (auto simp: quote_char_def Let_def)
next
  case False
  with assms have "quote_char c = [c]" by (auto simp: quote_char_def toml_plain_def Let_def)
  moreover have "c \<noteq> CHR 0x22" "c \<noteq> CHR 0x5C" "c \<noteq> CHR 0x0A" using False by auto
  ultimately show thesis by (rule same)
qed

lemma unescape_plain:
  assumes "toml_plain c"
  shows "toml_unescape (quote_char c @ t) = map_option (\<lambda>r. c # r) (toml_unescape t)" and "CHR 0x0A \<notin> set (quote_char c)"
proof -
  show "toml_unescape (quote_char c @ t) = map_option (\<lambda>r. c # r) (toml_unescape t)"
    using assms by (cases rule: quote_plain) (simp_all del: map_of.simps)
  show "CHR 0x0A \<notin> set (quote_char c)"
    using assms by (cases rule: quote_plain) (simp_all del: map_of.simps)
qed

lemma unescape_quote:
  "\<forall>c\<in>set v. toml_plain c \<Longrightarrow> toml_unescape (concat (map quote_char v) @ [CHR 0x22]) = Some v"
  by (induction v) (simp_all add: unescape_plain)

definition line_ok :: "toml_line \<Rightarrow> bool" where
  "line_ok l \<longleftrightarrow> (case l of Blank \<Rightarrow> True | Note s \<Rightarrow> CHR 0x0A \<notin> set s | Table t \<Rightarrow> t \<in> set config_tables
     | Key k v \<Rightarrow> k \<in> snd ` fst ` set config_setters \<and> (\<forall>c\<in>set v. toml_plain c))"

lemma key_shape: "k \<in> snd ` fst ` set config_setters \<Longrightarrow> k \<noteq> [] \<and> hd k \<noteq> CHR ''#'' \<and> hd k \<noteq> CHR ''['' \<and> CHR '' '' \<notin> set k \<and> CHR 0x0A \<notin> set k"
  by (auto simp: config_setters_def)

lemma parse_line_body:
  assumes "line_ok l"
  shows "parse_line (line_body l) = Some l" and "CHR 0x0A \<notin> set (line_body l)"
proof -
  have "parse_line (line_body l) = Some l \<and> CHR 0x0A \<notin> set (line_body l)"
  proof (cases l)
    case (Key k v)
    with assms have k: "k \<noteq> []" "hd k \<noteq> CHR ''#''" "hd k \<noteq> CHR ''[''" "CHR '' '' \<notin> set k" "CHR 0x0A \<notin> set k" and v: "\<forall>c\<in>set v. toml_plain c"
      using key_shape[of k] by (auto simp: line_ok_def)
    have "takeWhile (\<lambda>c. c \<noteq> CHR '' '') (k @ '' = '' @ go_quote v) = k" using k(4)
      by (subst takeWhile_append2) (auto dest: in_set_conv_decomp[THEN iffD1])
    with k v have "parse_line (line_body l) = Some l"
      by (simp add: Key parse_line_def go_quote_def unescape_quote Let_def)
    with k(5) v show ?thesis by (auto simp: Key go_quote_def unescape_plain)
  next
    case (Table t)
    with assms show ?thesis by (auto simp: line_ok_def parse_line_def config_tables_def)
  qed (use assms in \<open>auto simp: line_ok_def parse_line_def\<close>)
  then show "parse_line (line_body l) = Some l" "CHR 0x0A \<notin> set (line_body l)" by simp_all
qed

lemma split_text:
  "\<forall>l\<in>set ls. line_ok l \<Longrightarrow> split_on (CHR 0x0A) (toml_text ls) = map line_body ls @ [[]]"
  by (induction ls) (simp_all add: toml_text_def split_on_append split_on_none parse_line_body)

lemma parse_text: "\<forall>l\<in>set ls. line_ok l \<Longrightarrow> parse_lines (map line_body ls) = Some ls"
  by (induction ls) (simp_all add: parse_line_body)

lemma toml_ok_lines:
  assumes "\<forall>(k, v)\<in>set (toml_pairs t ls). map_of config_setters k \<noteq> None \<and> (\<forall>c\<in>set v. toml_plain c)"
    and "set (toml_tables ls) \<subseteq> set config_tables" and "\<forall>s\<in>set (toml_notes ls). \<forall>c\<in>set s. c \<noteq> CHR 0x0A \<and> c \<noteq> CHR 0x0D"
  shows "\<forall>l\<in>set ls. line_ok l"
  using assms
proof (induction t ls rule: toml_pairs.induct)
  case (3 t k v ls)
  then obtain f where "map_of config_setters (t, k) = Some f" by auto
  then have "k \<in> snd ` fst ` set config_setters" by (force dest: map_of_SomeD)
  with 3 show ?case by (auto simp: line_ok_def)
qed (auto simp: line_ok_def)

lemma read_toml_reads: "reads_toml read_toml"
  unfolding reads_toml_def
proof (intro allI impI)
  fix ls c assume "toml_ok ls"
  then have "\<forall>l\<in>set ls. line_ok l" by (intro toml_ok_lines[where t = "[]"]) (auto simp: toml_ok_def)
  then show "read_toml (toml_text ls) c = Inr (set_pairs (toml_pairs [] ls) c)"
    by (simp add: read_toml_def split_text parse_text)
qed

subsection \<open>The file that is written is the configuration that was validated\<close>

definition plain_flags :: "string list \<Rightarrow> bool" where
  "plain_flags vs \<longleftrightarrow> (\<forall>v\<in>set vs. \<forall>c\<in>set v. toml_plain c)"

definition config_values :: "config \<Rightarrow> string list" where
  \<comment> \<open>the strings of the file\<close>
  "config_values cfg = map snd (toml_pairs [] (toml_lines cfg))"

lemma config_setter [simp]:
  "map_of config_setters (''server'', ''public_url'') = Some (\<lambda>v c. c\<lparr>cfg_server := (cfg_server c)\<lparr>public_url := v\<rparr>\<rparr>)"
  "map_of config_setters (''server'', ''listen'') = Some (\<lambda>v c. c\<lparr>cfg_server := (cfg_server c)\<lparr>listen := v\<rparr>\<rparr>)"
  "map_of config_setters (''server'', ''mdm_path'') = Some (\<lambda>v c. c\<lparr>cfg_server := (cfg_server c)\<lparr>mdm_path := v\<rparr>\<rparr>)"
  "map_of config_setters (''server.tls'', ''mode'') = Some (\<lambda>v c. c\<lparr>cfg_server := (cfg_server c)\<lparr>cfg_tls := (cfg_tls (cfg_server c))\<lparr>tls_mode := v\<rparr>\<rparr>\<rparr>)"
  "map_of config_setters (''server.tls'', ''acme_email'') = Some (\<lambda>v c. c\<lparr>cfg_server := (cfg_server c)\<lparr>cfg_tls := (cfg_tls (cfg_server c))\<lparr>acme_email := v\<rparr>\<rparr>\<rparr>)"
  "map_of config_setters (''server.tls'', ''cert_file'') = Some (\<lambda>v c. c\<lparr>cfg_server := (cfg_server c)\<lparr>cfg_tls := (cfg_tls (cfg_server c))\<lparr>tls_cert_file := v\<rparr>\<rparr>\<rparr>)"
  "map_of config_setters (''server.tls'', ''key_file'') = Some (\<lambda>v c. c\<lparr>cfg_server := (cfg_server c)\<lparr>cfg_tls := (cfg_tls (cfg_server c))\<lparr>tls_key_file := v\<rparr>\<rparr>\<rparr>)"
  "map_of config_setters (''storage'', ''driver'') = Some (\<lambda>v c. c\<lparr>cfg_storage := (cfg_storage c)\<lparr>driver := v\<rparr>\<rparr>)"
  "map_of config_setters (''storage'', ''path'') = Some (\<lambda>v c. c\<lparr>cfg_storage := (cfg_storage c)\<lparr>storage_path := v\<rparr>\<rparr>)"
  "map_of config_setters (''ca'', ''mode'') = Some (\<lambda>v c. c\<lparr>cfg_ca := (cfg_ca c)\<lparr>ca_mode := v\<rparr>\<rparr>)"
  "map_of config_setters (''ca.import'', ''cert_file'') = Some (\<lambda>v c. c\<lparr>cfg_ca := (cfg_ca c)\<lparr>import_cert_file := v\<rparr>\<rparr>)"
  "map_of config_setters (''ca.import'', ''key_file'') = Some (\<lambda>v c. c\<lparr>cfg_ca := (cfg_ca c)\<lparr>import_key_file := v\<rparr>\<rparr>)"
  "map_of config_setters (''ca.external'', ''scep_url'') = Some (\<lambda>v c. c\<lparr>cfg_ca := (cfg_ca c)\<lparr>scep_url := v\<rparr>\<rparr>)"
  "map_of config_setters (''ca.external'', ''ca_chain_file'') = Some (\<lambda>v c. c\<lparr>cfg_ca := (cfg_ca c)\<lparr>ca_chain_file := v\<rparr>\<rparr>)"
  "map_of config_setters (''log'', ''format'') = Some (\<lambda>v c. c\<lparr>cfg_log := (cfg_log c)\<lparr>log_format := v\<rparr>\<rparr>)"
  "map_of config_setters (''log'', ''level'') = Some (\<lambda>v c. c\<lparr>cfg_log := (cfg_log c)\<lparr>log_level := v\<rparr>\<rparr>)"
  by (simp_all add: config_setters_def)

lemma set_pairs_simps [simp]:
  "set_pairs [] c = c"
  "set_pairs ((k, v) # ps) c = set_pairs ps (case map_of config_setters k of None \<Rightarrow> c | Some f \<Rightarrow> f v c)"
  "set_pairs (ps @ qs) c = set_pairs qs (set_pairs ps c)"
  by (simp_all add: set_pairs_def)

lemma toml_lines_pairs:
  "toml_pairs [] (toml_lines cfg) =
     (let s = cfg_server cfg; t = cfg_tls s; ca = cfg_ca cfg in
      [((''server'', ''public_url''), public_url s), ((''server'', ''listen''), listen s), ((''server'', ''mdm_path''), mdm_path s),
       ((''server.tls'', ''mode''), tls_mode t)] @
      (if tls_mode t = ''acme'' then [((''server.tls'', ''acme_email''), acme_email t)]
       else if tls_mode t = ''files'' then [((''server.tls'', ''cert_file''), tls_cert_file t), ((''server.tls'', ''key_file''), tls_key_file t)] else []) @
      [((''storage'', ''driver''), driver (cfg_storage cfg)), ((''storage'', ''path''), storage_path (cfg_storage cfg)), ((''ca'', ''mode''), ca_mode ca)] @
      (if ca_mode ca = ''import'' then [((''ca.import'', ''cert_file''), import_cert_file ca), ((''ca.import'', ''key_file''), import_key_file ca)]
       else if ca_mode ca = ''external'' then [((''ca.external'', ''scep_url''), scep_url ca), ((''ca.external'', ''ca_chain_file''), ca_chain_file ca)]
       else []) @
      [((''log'', ''format''), log_format (cfg_log cfg)), ((''log'', ''level''), log_level (cfg_log cfg))])"
  by (simp add: toml_lines_def Let_def)

lemma toml_lines_tables:
  "toml_tables (toml_lines cfg) = [''server'', ''server.tls'', ''storage'', ''ca''] @
     (if ca_mode (cfg_ca cfg) = ''import'' then [''ca.import''] else if ca_mode (cfg_ca cfg) = ''external'' then [''ca.external''] else []) @ [''log'']"
  by (simp add: toml_lines_def Let_def)

lemma toml_lines_notes:
  "toml_notes (toml_lines cfg) =
     [''Cairn configuration '' @ [CHR 0xE2, CHR 0x80, CHR 0x94] @ '' generated by `cairn init`.'',
      ''Secrets are never inlined here; use the *_file / *_env companions.''] @
     (if ca_mode (cfg_ca cfg) = ''external'' then [''challenge_env = '' @ go_quote ''CAIRN_SCEP_CHALLENGE''] else [])"
  by (simp add: toml_lines_def Let_def)

lemma toml_lines_plain_comments: "\<forall>s\<in>set (toml_notes (toml_lines cfg)). \<forall>c\<in>set s. c \<noteq> CHR 0x0A \<and> c \<noteq> CHR 0x0D"
proof -
  have "go_quote ''CAIRN_SCEP_CHALLENGE'' = CHR 0x22 # ''CAIRN_SCEP_CHALLENGE'' @ [CHR 0x22]" by code_simp
  then show ?thesis by (simp add: toml_lines_notes)
qed

lemma toml_lines_keys: "subseq (map fst (toml_pairs [] (toml_lines cfg))) (map fst config_setters)"
proof -
  have k: "map fst config_setters =
      [(''server'', ''public_url''), (''server'', ''listen''), (''server'', ''mdm_path''), (''server.tls'', ''mode'')] @
      [(''server.tls'', ''acme_email''), (''server.tls'', ''cert_file''), (''server.tls'', ''key_file'')] @
      [(''storage'', ''driver''), (''storage'', ''path''), (''ca'', ''mode'')] @
      [(''ca.import'', ''cert_file''), (''ca.import'', ''key_file''), (''ca.external'', ''scep_url''), (''ca.external'', ''ca_chain_file'')] @
      [(''log'', ''format''), (''log'', ''level'')]"
    by (simp add: config_setters_def)
  show ?thesis
    unfolding k toml_lines_pairs Let_def map_append
    by (intro list_emb_append_mono) (simp_all add: if_distrib)
qed

lemma toml_lines_ok:
  assumes "plain_flags (config_values cfg)"
  shows "toml_ok (toml_lines cfg)"
proof -
  have all: "distinct (map fst config_setters)" by (simp add: config_setters_def)
  from toml_lines_keys[of cfg] obtain N where k: "map fst (toml_pairs [] (toml_lines cfg)) = nths (map fst config_setters) N"
    by (auto simp: subseq_conv_nths)
  with all have "distinct (map fst (toml_pairs [] (toml_lines cfg)))" by (simp only: distinct_nthsI)
  moreover have "\<forall>(k, v)\<in>set (toml_pairs [] (toml_lines cfg)). map_of config_setters k \<noteq> None"
  proof -
    have "map_of config_setters x \<noteq> None" if "x \<in> set (map fst (toml_pairs [] (toml_lines cfg)))" for x
      using that unfolding k by (auto simp: map_of_eq_None_iff dest: in_set_nthsD)
    then show ?thesis by force
  qed
  moreover have "distinct (toml_tables (toml_lines cfg))" "set (toml_tables (toml_lines cfg)) \<subseteq> set config_tables"
    by (simp_all add: toml_lines_tables config_tables_def) blast
  ultimately show ?thesis
    using assms toml_lines_plain_comments unfolding toml_ok_def plain_flags_def config_values_def by fastforce
qed

definition config_in_file :: "config \<Rightarrow> config" where
  \<comment> \<open>without what the chosen modes do not use\<close>
  "config_in_file cfg = cfg\<lparr>
     cfg_server := (cfg_server cfg)\<lparr>cfg_tls := (cfg_tls (cfg_server cfg))\<lparr>
       acme_email := (if tls_mode (cfg_tls (cfg_server cfg)) = ''acme'' then acme_email (cfg_tls (cfg_server cfg)) else [])\<rparr>\<rparr>,
     cfg_ca := (cfg_ca cfg)\<lparr>
       import_cert_file := (if ca_mode (cfg_ca cfg) = ''import'' then import_cert_file (cfg_ca cfg) else []),
       import_key_file := (if ca_mode (cfg_ca cfg) = ''import'' then import_key_file (cfg_ca cfg) else []),
       scep_url := (if ca_mode (cfg_ca cfg) = ''external'' then scep_url (cfg_ca cfg) else []),
       ca_chain_file := (if ca_mode (cfg_ca cfg) = ''external'' then ca_chain_file (cfg_ca cfg) else [])\<rparr>\<rparr>"

lemma set_pairs_if: "set_pairs (if b then ps else qs) c = (if b then set_pairs ps c else set_pairs qs c)"
  by simp

lemma init_config_fields:
  "cfg_server (init_config fl url db email) = \<lparr>public_url = url, listen = '':443'', mdm_path = ''/mdm'',
     cfg_tls = \<lparr>tls_mode = nf_tls fl, tls_cert_file = [], tls_key_file = [], acme_email = email, acme_cache_dir = [], acme_directory = [],
       trusted_proxies = []\<rparr>\<rparr>"
  "cfg_storage (init_config fl url db email) = \<lparr>driver = ''sqlite'', storage_path = db, dsn = [], dsn_file = [], dsn_env = []\<rparr>"
  "cfg_ca (init_config fl url db email) = \<lparr>ca_mode = nf_ca_mode fl, import_cert_file = nf_ca_cert fl, import_key_file = nf_ca_key fl,
     scep_url = nf_scep_url fl, ca_chain_file = nf_ca_chain fl, crl_url = [], challenge_env = [], challenge_file = [], challenge = []\<rparr>"
  "cfg_log (init_config fl url db email) = \<lparr>log_format = ''text'', log_level = ''info''\<rparr>"
  by (simp_all add: init_config_def default_config_def)

lemma init_config_rendered:
  "set_pairs (toml_pairs [] (toml_lines (init_config fl url db email))) default_config = config_in_file (init_config fl url db email)"
  by (simp add: toml_lines_pairs Let_def init_config_fields set_pairs_if) (simp add: config_in_file_def init_config_def default_config_def)

lemma validate_in_file: "validate pu (config_in_file cfg) = validate pu cfg"
  by (simp add: validate_def config_in_file_def validate_server_def validate_ca_def Let_def)

lemma no_secrets:
  assumes "dsn_env (cfg_storage c) = []" and "dsn_file (cfg_storage c) = []" and "challenge_env (cfg_ca c) = []"
    and "challenge_file (cfg_ca c) = []" and "challenge (cfg_ca c) = []"
    and "\<not> ldap_enabled (cfg_ldap (cfg_auth c))" and "\<not> oidc_enabled (cfg_oidc (cfg_auth c))"
  shows "resolve_secrets getenv rf c = Inr c"
  using assms by (simp add: resolve_secrets_def resolve_dsn_def resolve_challenge_def resolve_bind_password_def
      resolve_client_secret_def read_secret_def Let_def)

definition no_overrides :: "(string \<Rightarrow> string option) \<Rightarrow> bool" where
  "no_overrides getenv \<longleftrightarrow> (\<forall>k\<in>{''CAIRN_PUBLIC_URL'', ''CAIRN_LISTEN'', ''CAIRN_STORAGE_PATH'', ''CAIRN_LOG_LEVEL'', ''CAIRN_LOG_FORMAT''}.
     getenv k = None \<or> getenv k = Some [])"

lemma no_overrides_apply: "no_overrides getenv \<Longrightarrow> apply_env_overrides getenv c = c"
  by (auto simp: no_overrides_def apply_env_overrides_def override_def)

lemma rendered_config_loads:
  assumes "reads_toml (os_decode x)" and "no_overrides (os_getenv x)" and "cfg = init_config fl url db email"
    and "plain_flags (config_values cfg)" and "validate (os_parse_url x) cfg = []" and "path \<noteq> []" and "os_read x path = None"
    and "contents fs path = Some (render_toml cfg)"
  shows "load_config x path fs = Inr (config_in_file cfg)"
proof -
  have r: "read_file x path fs = Inr (render_toml cfg)" using assms(7,8) by (simp add: read_contents)
  have d: "os_decode x (render_toml cfg) default_config = Inr (config_in_file cfg)"
    using assms(1,3) toml_lines_ok[OF assms(4)] by (simp add: reads_toml_def render_toml_def init_config_rendered)
  have s: "resolve_secrets (os_getenv x) rf (config_in_file cfg) = Inr (config_in_file cfg)" for rf
    unfolding assms(3) by (rule no_secrets) (simp_all add: config_in_file_def init_config_def default_config_def zero_ldap_def zero_oidc_def)
  show ?thesis
    using assms(2,5,6) by (simp add: load_config_def load_def r d s no_overrides_apply validate_in_file)
qed

subsection \<open>What the command leaves behind\<close>

lemma open_sqlite_keeps: "open_sqlite v path st = (r, st1) \<Longrightarrow> mc_files st1 = mc_files st \<and> mc_out st1 = mc_out st"
  by (auto simp: open_sqlite_def split: prod.splits sum.splits)

lemma set_tables_simps [simp]:
  "mc_files (set_tables f st) = mc_files st" "mc_out (set_tables f st) = mc_out st"
  "sd_tables (mc_db (set_tables f st)) = f (sd_tables (mc_db st))"
  by (simp_all add: set_tables_def)

lemma create_first_keeps: "create_first ne fl cfg pw st = (r, st1) \<Longrightarrow> mc_files st1 = mc_files st \<and> mc_out st1 = mc_out st"
  by (auto simp: create_first_def Let_def dest!: open_sqlite_keeps split: option.splits prod.splits sum.splits)

lemma run_init_Inr:
  assumes "run_init ne fl st = (Inr (), st')"
  obtains cfg pw generated st1 where "prepare_init ne fl (mc_files st) = Inr cfg" "init_password ne fl = Inr (pw, generated)"
    "create_first ne fl cfg pw st = (Inr (), st1)" "write_config ne fl cfg generated st1 = (Inr (), st')"
  using assms by (auto simp: run_init_def split: sum.splits prod.splits)

lemma write_config_Inr:
  "write_config ne fl cfg generated st = (Inr (), st') \<Longrightarrow>
     contents (mc_files st') (nf_config fl) = Some (render_toml cfg) \<and> mc_db st' = mc_db st \<and>
     mc_out st' = mc_out st @ init_summary cfg (nf_config fl) (nf_admin_user fl) generated"
  by (auto simp: write_config_def say_all_def write_contents split: option.splits prod.splits)

lemma write_config_files: "write_config ne fl cfg generated st = (r, st') \<Longrightarrow> q \<noteq> nf_config fl \<Longrightarrow> mc_files st' q = mc_files st q"
  by (auto simp: write_config_def say_all_def dest: write_file_others split: option.splits prod.splits)

text \<open>
  \<open>cairn init\<close> touches no file but the configuration it is to write, and that one only after everything else
  succeeded: without \<open>-force\<close> an existing configuration makes it fail before it has changed anything at all,
  and when the checks, the directory, the database, the authority or the account fail, the
  configuration is what it was.
\<close>

theorem init_config_last:
  assumes "run_init ne fl st = (r, st')"
  shows "(\<forall>q. q \<noteq> nf_config fl \<longrightarrow> mc_files st' q = mc_files st q) \<and>
    (exists_file (ne_os ne) (nf_config fl) (mc_files st) \<and> \<not> nf_force fl \<longrightarrow> st' = st \<and> r \<noteq> Inr ()) \<and>
    (mc_files st' \<noteq> mc_files st \<longrightarrow>
       (\<exists>cfg pw generated st1. prepare_init ne fl (mc_files st) = Inr cfg \<and> init_password ne fl = Inr (pw, generated) \<and>
          create_first ne fl cfg pw st = (Inr (), st1) \<and> write_config ne fl cfg generated st1 = (r, st')))"
proof (intro conjI impI allI)
  show "mc_files st' q = mc_files st q" if "q \<noteq> nf_config fl" for q
    using assms that by (auto simp: run_init_def write_config_files dest!: create_first_keeps split: sum.splits prod.splits)
  show "st' = st" "r \<noteq> Inr ()" if "exists_file (ne_os ne) (nf_config fl) (mc_files st) \<and> \<not> nf_force fl"
    using assms that by (auto simp: run_init_def prepare_init_def and_then_def split: sum.splits prod.splits)
  show "\<exists>cfg pw generated st1. prepare_init ne fl (mc_files st) = Inr cfg \<and> init_password ne fl = Inr (pw, generated) \<and>
      create_first ne fl cfg pw st = (Inr (), st1) \<and> write_config ne fl cfg generated st1 = (r, st')" if "mc_files st' \<noteq> mc_files st"
    using assms that by (auto simp: run_init_def dest: create_first_keeps split: sum.splits prod.splits)
qed

lemma create_first_Inr:
  assumes "create_first ne fl cfg pw st = (Inr (), st1)"
  shows "\<exists>st2 tbl db. init_ca ne fl cfg (mc_files st2) (st_ca (sd_tables (mc_db st2))) = (Inr (), tbl) \<and>
    create_user (ne_hash ne) 0 (ne_insert ne) (ne_now ne) (ne_salt ne) (nf_admin_user fl) pw role_admin []
      (st_auth (sd_tables (mc_db st2))) = (Inr (), db) \<and> open_sqlite (ne_open ne) (storage_path (cfg_storage cfg)) st = (Inr (), st2) \<and>
    st_ca (sd_tables (mc_db st1)) = tbl \<and> st_auth (sd_tables (mc_db st1)) = db"
  using assms by (auto simp: create_first_def Let_def split: option.splits prod.splits sum.splits)

lemma create_first_ready:
  assumes "create_first ne fl cfg pw st = (Inr (), st1)" and "codec_ok (ne_lib ne)" and "argon_laws (ne_hash ne) cmp"
  shows "local_authenticate cmp None (st_auth (sd_tables (mc_db st1))) (nf_admin_user fl) pw' =
      (if pw' = pw then Inr \<lparr>id_username = nf_admin_user fl, id_display = [], id_role = role_admin, id_provider = ''local''\<rparr>
       else Inl InvalidCredentials) \<and>
    (embedded (ca_mode (cfg_ca cfg)) \<longrightarrow> (\<exists>ck. load_ca (ne_lib ne) None (st_ca (sd_tables (mc_db st1))) = Inr ck))"
proof -
  obtain st2 :: "setup_tables machine" and tbl db where
    c: "init_ca ne fl cfg (mc_files st2) (st_ca (sd_tables (mc_db st2))) = (Inr (), tbl)"
    and u: "create_user (ne_hash ne) 0 (ne_insert ne) (ne_now ne) (ne_salt ne) (nf_admin_user fl) pw role_admin []
        (st_auth (sd_tables (mc_db st2))) = (Inr (), db)"
    and s: "st_ca (sd_tables (mc_db st1)) = tbl" "st_auth (sd_tables (mc_db st1)) = db"
    using create_first_Inr[OF assms(1)] by blast
  from created_account_found[OF u] obtain h row where h: "ne_hash ne (ne_salt ne) pw = Inr (u_hash row)" "find_user (nf_admin_user fl) db = Some row"
    "u_display row = []" "u_role row = role_admin" by force
  from c have "\<exists>ck. load_ca (ne_lib ne) None tbl = Inr ck" if "embedded (ca_mode (cfg_ca cfg))"
    using that ensure_loads[OF assms(2)] by (fastforce simp: init_ca_def split: sum.splits prod.splits)
  with authenticate_found[OF assms(3) h(1,2), of pw'] h(3,4) s show ?thesis by simp
qed

text \<open>
  After \<open>cairn init\<close> succeeded the installation can be used: the administrator signs in with the password that was
  given, typed or generated, and with no other; a generated password was printed; an embedded authority can be loaded;
  and the configuration file holds exactly the configuration that was validated.
\<close>

theorem init_complete:
  assumes "run_init ne fl st = (Inr (), st')" and "codec_ok (ne_lib ne)" and "argon_laws (ne_hash ne) cmp"
  shows "\<exists>cfg pw generated. prepare_init ne fl (mc_files st) = Inr cfg \<and> init_password ne fl = Inr (pw, generated) \<and>
    (\<forall>pw'. local_authenticate cmp None (st_auth (sd_tables (mc_db st'))) (nf_admin_user fl) pw' =
      (if pw' = pw then Inr \<lparr>id_username = nf_admin_user fl, id_display = [], id_role = role_admin, id_provider = ''local''\<rparr>
       else Inl InvalidCredentials)) \<and>
    (generated \<noteq> [] \<longrightarrow> pw = generated \<and> ''admin pass: '' @ pw \<in> set (mc_out st')) \<and>
    (embedded (ca_mode (cfg_ca cfg)) \<longrightarrow> (\<exists>ck. load_ca (ne_lib ne) None (st_ca (sd_tables (mc_db st'))) = Inr ck)) \<and>
    contents (mc_files st') (nf_config fl) = Some (render_toml cfg)"
proof -
  obtain cfg pw generated st1 where r: "prepare_init ne fl (mc_files st) = Inr cfg" "init_password ne fl = Inr (pw, generated)"
    "create_first ne fl cfg pw st = (Inr (), st1)" "write_config ne fl cfg generated st1 = (Inr (), st')"
    using assms(1) by (rule run_init_Inr)
  from write_config_Inr[OF r(4)] have w: "mc_db st' = mc_db st1" "contents (mc_files st') (nf_config fl) = Some (render_toml cfg)"
    "mc_out st' = mc_out st1 @ init_summary cfg (nf_config fl) (nf_admin_user fl) generated" by auto
  have g: "generated \<noteq> [] \<Longrightarrow> pw = generated" using r(2) by (auto simp: init_password_def split: if_splits sum.splits)
  with w(3) have "generated \<noteq> [] \<longrightarrow> pw = generated \<and> ''admin pass: '' @ pw \<in> set (mc_out st')" by (auto simp: init_summary_def)
  with r(1,2) w(1,2) create_first_ready[OF r(3) assms(2,3)] show ?thesis by auto
qed

lemma prepare_init_Inr:
  assumes "prepare_init ne fl fs = Inr cfg"
  obtains url email where "cfg = init_config fl url (path_join (init_data_dir ne fl) ''cairn.db'') email"
    "validate (os_parse_url (ne_os ne)) cfg = []" "has_prefix url ''https://''"
  using assms by (auto simp: prepare_init_def init_public_url_def Let_def and_then_def split: prod.splits if_splits sum.splits)


subsection \<open>What the command does not do\<close>

text \<open>The usage offers \<open>-tls files\<close>, but there is no flag for the certificate: that mode never passes the validation.\<close>

theorem init_tls_files_never:
  assumes "nf_tls fl = ''files''"
  shows "run_init ne fl st = (r, st') \<Longrightarrow> st' = st \<and> r \<noteq> Inr ()"
proof -
  have "prepare_init ne fl fs \<noteq> Inr cfg" for fs cfg
  proof
    assume "prepare_init ne fl fs = Inr cfg"
    then obtain url email where "cfg = init_config fl url (path_join (init_data_dir ne fl) ''cairn.db'') email"
      "validate (os_parse_url (ne_os ne)) cfg = []" by (rule prepare_init_Inr)
    with assms show False by (simp add: validate_def validate_server_def init_config_fields err_if_def Let_def)
  qed
  then show "run_init ne fl st = (r, st') \<Longrightarrow> st' = st \<and> r \<noteq> Inr ()"
    by (auto simp: run_init_def split: sum.splits prod.splits)
qed

text \<open>
  When the last step fails the account is there, the password that was generated for it has not been shown to anyone, and the
  command cannot be repeated: the account is in its way, \<open>-force\<close> or not.
\<close>

theorem init_late_failure:
  assumes "prepare_init ne fl (mc_files st) = Inr cfg" and "init_password ne fl = Inr (pw, generated)"
    and "create_first ne fl cfg pw st = (Inr (), st1)" and "os_mkdir (ne_os ne) (path_dir (nf_config fl)) = Some e"
  shows "\<exists>st'. run_init ne fl st = (Inl (SetupFailed (''create config dir: '' @ e)), st') \<and> mc_out st' = mc_out st \<and>
    find_user (nf_admin_user fl) (st_auth (sd_tables (mc_db st'))) \<noteq> None \<and>
    (\<forall>ne2 fl2 r2 st2. nf_admin_user fl2 = nf_admin_user fl \<longrightarrow>
       (\<forall>path r st3. open_sqlite (ne_open ne2) path st' = (r, st3) \<longrightarrow> st_auth (sd_tables (mc_db st3)) = st_auth (sd_tables (mc_db st'))) \<longrightarrow>
       run_init (ne2 :: 'k init_env) fl2 st' = (r2, st2) \<longrightarrow> r2 \<noteq> Inr ())"
proof -
  have r: "run_init ne fl st = (Inl (SetupFailed (''create config dir: '' @ e)), st1)"
    using assms by (simp add: run_init_def write_config_def)
  obtain st2 :: "setup_tables machine" and db where u: "create_user (ne_hash ne) 0 (ne_insert ne) (ne_now ne) (ne_salt ne) (nf_admin_user fl) pw role_admin []
        (st_auth (sd_tables (mc_db st2))) = (Inr (), db)" and s: "st_auth (sd_tables (mc_db st1)) = db"
    using create_first_Inr[OF assms(3)] by blast
  from created_account_found[OF u] have f: "find_user (nf_admin_user fl) (st_auth (sd_tables (mc_db st1))) \<noteq> None" using s by force
  then have m: "nf_admin_user fl \<in> u_name ` set (db_users (st_auth (sd_tables (mc_db st1))))"
    by (auto simp: find_user_def find_None_iff image_iff) metis
  have "r2 \<noteq> Inr ()" if h: "nf_admin_user fl2 = nf_admin_user fl"
      "\<forall>path r st3. open_sqlite (ne_open ne2) path st1 = (r, st3) \<longrightarrow> st_auth (sd_tables (mc_db st3)) = st_auth (sd_tables (mc_db st1))"
      "run_init (ne2 :: 'k init_env) fl2 st1 = (r2, st2)" for ne2 fl2 r2 st2
  proof
    assume "r2 = Inr ()"
    with h(3) obtain cfg2 pw2 g2 st4 where "create_first ne2 fl2 cfg2 pw2 st1 = (Inr (), st4)" by (auto elim: run_init_Inr)
    then obtain path and st3 :: "setup_tables machine" and db2 where "open_sqlite (ne_open ne2) path st1 = (Inr (), st3)"
      "create_user (ne_hash ne2) 0 (ne_insert ne2) (ne_now ne2) (ne_salt ne2) (nf_admin_user fl2) pw2 role_admin []
        (st_auth (sd_tables (mc_db st3))) = (Inr (), db2)"
      using create_first_Inr by blast
    with h(1,2) m show False by (auto simp: create_user_def split: if_splits sum.splits option.splits)
  qed
  with r f assms(3) show ?thesis by (auto dest: create_first_keeps)
qed

subsection \<open>A run\<close>

definition quiet_open :: "'s open_env" where
  \<comment> \<open>nothing to migrate\<close>
  "quiet_open = \<lparr>ov_open = None, ov_ping = None, ov_touch1 = (\<lambda>m. m), ov_touch2 = (\<lambda>m. m), ov_chmod1 = (\<lambda>_. None), ov_chmod2 = (\<lambda>_. None),
     ov_migrate = \<lparr>mv_create = None, mv_read = None, mv_dir = Inr [], mv_file = Inr, mv_begin = (\<lambda>n. None), mv_exec = (\<lambda>b s. Inr s),
       mv_record = (\<lambda>n. None), mv_commit = (\<lambda>n. None)\<rparr>\<rparr>"

definition demo_setup_env :: "string init_env" where
  "demo_setup_env = \<lparr>ne_os = demo_os\<lparr>os_decode := read_toml, os_getenv := (\<lambda>_. None)\<rparr>,
     ne_open = quiet_open,
     ne_goos = ''linux'', ne_home = Inl [], ne_tty = False, ne_stdin = [], ne_read1 = Inl [], ne_read2 = Inl [], ne_random = ''abcdefghijklmnopqr'',
     ne_lib = demo_crypto, ne_ca = demo_ca_env, ne_hash = plain_hash, ne_salt = [], ne_insert = None, ne_now = 0\<rparr>"

definition demo_init_flags :: init_flags where
  "demo_init_flags = \<lparr>nf_config = ''cairn.toml'', nf_public_url = ''https://mdm.example.org'', nf_data_dir = [], nf_ca_mode = ''generate'',
     nf_ca_cert = [], nf_ca_key = [], nf_scep_url = [], nf_ca_chain = [], nf_tls = ''proxy'', nf_acme_email = [], nf_admin_user = ''admin'',
     nf_admin_password = ''x'', nf_force = False\<rparr>"

definition demo_setup :: "setup_tables machine" where
  "demo_setup = \<lparr>mc_files = Map.empty, mc_modes = [], mc_db = \<lparr>sd_versions = None, sd_tables = \<lparr>st_ca = None, st_auth = \<lparr>db_users = [], db_sessions = []\<rparr>\<rparr>\<rparr>,
     mc_out = []\<rparr>"

definition demo_init_config :: config where
  "demo_init_config = init_config demo_init_flags ''https://mdm.example.org'' ''/var/lib/cairn/cairn.db'' []"

lemma demo_prepare: "prepare_init demo_setup_env demo_init_flags Map.empty = Inr demo_init_config"
  by code_simp

lemma demo_password: "init_password demo_setup_env demo_init_flags = Inr (''x'', [])"
  by code_simp

lemma demo_values: "plain_flags (config_values demo_init_config)"
  by code_simp

lemma demo_create: "fst (create_first demo_setup_env demo_init_flags demo_init_config ''x'' demo_setup) = Inr ()"
  by code_simp

lemma demo_run_init:
  obtains st' where "run_init demo_setup_env demo_init_flags demo_setup = (Inr (), st')"
proof -
  obtain st1 where c: "create_first demo_setup_env demo_init_flags demo_init_config ''x'' demo_setup = (Inr (), st1)"
    using demo_create by (cases "create_first demo_setup_env demo_init_flags demo_init_config ''x'' demo_setup") simp
  have "mc_files demo_setup = Map.empty" by (simp add: demo_setup_def)
  with demo_prepare demo_password c
  have r: "run_init demo_setup_env demo_init_flags demo_setup = write_config demo_setup_env demo_init_flags demo_init_config [] st1"
    by (simp add: run_init_def)
  have "os_mkdir (ne_os demo_setup_env) p = None" "os_write (ne_os demo_setup_env) p = None" for p
    by (simp_all add: demo_setup_env_def demo_os_def)
  then have "\<exists>st'. write_config demo_setup_env demo_init_flags demo_init_config [] st1 = (Inr (), st')"
    by (simp add: write_config_def write_file_def)
  with r that show thesis by auto
qed

theorem init_config_last_witness:
  "snd (run_init demo_setup_env demo_init_flags (demo_setup\<lparr>mc_files := [''cairn.toml'' \<mapsto> (416, [])]\<rparr>)) = demo_setup\<lparr>mc_files := [''cairn.toml'' \<mapsto> (416, [])]\<rparr>"
proof -
  let ?st = "demo_setup\<lparr>mc_files := [''cairn.toml'' \<mapsto> (416, [])]\<rparr>"
  have "exists_file (ne_os demo_setup_env) (nf_config demo_init_flags) (mc_files ?st) \<and> \<not> nf_force demo_init_flags"
    by (simp add: exists_file_def demo_setup_env_def demo_os_def demo_init_flags_def)
  with init_config_last[of demo_setup_env demo_init_flags ?st "fst (run_init demo_setup_env demo_init_flags ?st)" "snd (run_init demo_setup_env demo_init_flags ?st)"]
  show ?thesis by simp
qed

theorem init_complete_witness:
  "\<exists>st'. run_init demo_setup_env demo_init_flags demo_setup = (Inr (), st') \<and>
     local_authenticate plain_cmp None (st_auth (sd_tables (mc_db st'))) ''admin'' ''x'' =
       Inr \<lparr>id_username = ''admin'', id_display = [], id_role = role_admin, id_provider = ''local''\<rparr>"
proof (rule demo_run_init)
  fix st' assume r: "run_init demo_setup_env demo_init_flags demo_setup = (Inr (), st')"
  have l: "codec_ok (ne_lib demo_setup_env)" "argon_laws (ne_hash demo_setup_env) plain_cmp" "nf_admin_user demo_init_flags = ''admin''"
    by (simp_all add: demo_setup_env_def demo_codec_ok plain_laws demo_init_flags_def)
  from init_complete[OF r l(1,2)] demo_password l(3)
  have "local_authenticate plain_cmp None (st_auth (sd_tables (mc_db st'))) ''admin'' ''x'' =
       Inr \<lparr>id_username = ''admin'', id_display = [], id_role = role_admin, id_provider = ''local''\<rparr>" by auto
  with r show ?thesis by blast
qed


text \<open>
  The policy for local passwords has a floor of eight characters by default, which \<open>cairn admin\<close> and the console enforce;
  \<open>init\<close> never sets it, and the first administrator may have a password of one character.
\<close>

theorem init_ignores_password_floor:
  "\<exists>st'. run_init demo_setup_env demo_init_flags demo_setup = (Inr (), st') \<and> length (nf_admin_password demo_init_flags) = 1 \<and>
     fst (create_user mk (set_min_password_len (min_password_len (login_with_defaults (cfg_login (cfg_auth demo_init_config))))) ft now salt
        (nf_admin_user demo_init_flags) (nf_admin_password demo_init_flags) role_admin [] db) = Inl (PasswordTooShort 8)"
proof -
  have m: "set_min_password_len (min_password_len (login_with_defaults (cfg_login (cfg_auth demo_init_config)))) = 8" by code_simp
  have f: "nf_admin_password demo_init_flags = ''x''" "nf_admin_user demo_init_flags = ''admin''" by (simp_all add: demo_init_flags_def)
  show ?thesis by (rule demo_run_init) (simp add: m f create_user_def)
qed

end
