(* ===== verification/AccountCli.thy ===== *)
theory AccountCli
  imports Setup SignOn
begin

section \<open>The account commands\<close>

text \<open>
  \<open>cairn admin\<close> (\<open>cmd/cairn/admin.go\<close>) from its flags to the exit: which password is used, opening the store
  with the length floor of the configuration, and the five subcommands over the account store of \<open>LocalUsers\<close>.
\<close>

record account_env =
  ae_os :: os_env
  ae_open :: "auth_db open_env"
  ae_tty :: bool
  ae_read1 :: "string + string"
  ae_read2 :: "string + string"
  ae_random :: string
  ae_hash :: make_hash
  ae_cmp :: compare_hash
  ae_salt :: string
  ae_now :: nanos
  ae_fault :: "nat \<Rightarrow> fault"   \<comment> \<open>of the statements of the store, in their order\<close>
  ae_has_certs :: "string \<Rightarrow> bool"
  ae_escape :: "string \<Rightarrow> string"
  ae_dial :: "string option \<Rightarrow> dialer"

datatype account_error = AccountUsage string | BadRole string | BadPassword string | NotOpened cli_error | Account user_err | SqlFailed sql_err
  | NoAuthenticator string | AuthFailed auth_err

definition choose_password :: "account_env \<Rightarrow> string \<Rightarrow> account_error + string \<times> bool" where
  \<comment> \<open>and whether it was generated\<close>
  "choose_password ae password =
     (if password \<noteq> [] then Inr (password, False)
      else if ae_tty ae then (case read_password_confirm (ae_read1 ae) (ae_read2 ae) of
             Inl e \<Rightarrow> Inl (BadPassword e) | Inr pw \<Rightarrow> Inr (pw, False))
      else Inr (random_password (ae_random ae), True))"

definition open_local_store :: "account_env \<Rightarrow> string \<Rightarrow> auth_db machine \<Rightarrow> (account_error + int) \<times> auth_db machine" where
  \<comment> \<open>the store is its database and the length floor\<close>
  "open_local_store ae path st =
     (case sqlite_config (ae_os ae) path (mc_files st) of
        Inl e \<Rightarrow> (Inl (NotOpened e), st)
      | Inr cfg \<Rightarrow>
     (case open_sqlite (ae_open ae) (storage_path (cfg_storage cfg)) st of
        (Inl e, st1) \<Rightarrow> (Inl (NotOpened e), st1)
      | (Inr _, st1) \<Rightarrow> (Inr (set_min_password_len (min_password_len (login_with_defaults (cfg_login (cfg_auth cfg))))), st1)))"

definition with_store ::
  "account_env \<Rightarrow> string \<Rightarrow> auth_db machine \<Rightarrow> (int \<Rightarrow> auth_db \<Rightarrow> (account_error + string list) \<times> auth_db) \<Rightarrow>
   (account_error + unit) \<times> auth_db machine" where
  \<comment> \<open>opens the store, runs an operation and prints what it returns\<close>
  "with_store ae path st op =
     (case open_local_store ae path st of
        (Inl e, st1) \<Rightarrow> (Inl e, st1)
      | (Inr floor, st1) \<Rightarrow>
     (case op floor (sd_tables (mc_db st1)) of
        (Inl e, db) \<Rightarrow> (Inl e, set_tables (\<lambda>_. db) st1)
      | (Inr ls, db) \<Rightarrow> (Inr (), say_all ls (set_tables (\<lambda>_. db) st1))))"

definition show_password :: "string \<Rightarrow> bool \<Rightarrow> string list" where
  "show_password pw generated = (if generated then [''password: '' @ pw] else [])"

definition add_account :: "account_env \<Rightarrow> string \<Rightarrow> string \<Rightarrow> bool \<Rightarrow> role \<Rightarrow> string \<Rightarrow> int \<Rightarrow> auth_db \<Rightarrow> (account_error + string list) \<times> auth_db" where
  "add_account ae u pw generated r disp floor db =
     (case create_user (ae_hash ae) floor (ae_fault ae 0) (ae_now ae) (ae_salt ae) u pw r disp db of
        (Inl e, db1) \<Rightarrow> (Inl (Account e), db1)
      | (Inr _, db1) \<Rightarrow> (Inr ((''user '' @ u @ '' created with role '' @ r) # show_password pw generated), db1))"

definition run_admin_add ::
  "account_env \<Rightarrow> string \<Rightarrow> string \<Rightarrow> string \<Rightarrow> string \<Rightarrow> string \<Rightarrow> auth_db machine \<Rightarrow> (account_error + unit) \<times> auth_db machine" where
  "run_admin_add ae path u role password disp st =
     (if u = [] then (Inl (AccountUsage ''-username is required''), st)
      else if \<not> role_valid (lower role) then (Inl (BadRole role), st)
      else case choose_password ae password of
        Inl e \<Rightarrow> (Inl e, st)
      | Inr (pw, generated) \<Rightarrow> with_store ae path st (add_account ae u pw generated (lower role) disp))"

definition reset_password :: "account_env \<Rightarrow> string \<Rightarrow> string \<Rightarrow> bool \<Rightarrow> int \<Rightarrow> auth_db \<Rightarrow> (account_error + string list) \<times> auth_db" where
  "reset_password ae u pw generated floor db =
     (case set_password (ae_hash ae) floor (ae_fault ae 0) (ae_salt ae) u pw db of
        (Inl e, db1) \<Rightarrow> (Inl (Account e), db1)
      | (Inr _, db1) \<Rightarrow>
          let out = (''password reset for '' @ u) # show_password pw generated in
          (case delete_by_username (ae_fault ae 1) u (db_sessions db1) of
             (Inl e, ss) \<Rightarrow> (Inr out, db1\<lparr>db_sessions := ss\<rparr>)
           | (Inr n, ss) \<Rightarrow> (Inr (out @ (if 0 < n then [''revoked '' @ nat_str n @ '' active session(s) for '' @ u] else [])),
                             db1\<lparr>db_sessions := ss\<rparr>)))"

definition run_admin_passwd ::
  "account_env \<Rightarrow> string \<Rightarrow> string \<Rightarrow> string \<Rightarrow> auth_db machine \<Rightarrow> (account_error + unit) \<times> auth_db machine" where
  "run_admin_passwd ae path u password st =
     (if u = [] then (Inl (AccountUsage ''-username is required''), st)
      else case choose_password ae password of
        Inl e \<Rightarrow> (Inl e, st)
      | Inr (pw, generated) \<Rightarrow> with_store ae path st (reset_password ae u pw generated))"

definition user_line :: "user_summary \<Rightarrow> string" where
  \<comment> \<open>without the padding; the time as a number\<close>
  "user_line u = us_role u @ '' '' @ us_name u @ (if us_display u \<noteq> [] then '' ('' @ us_display u @ '')'' else []) @ '' created '' @ int_str (us_created u)"

definition run_admin_list :: "account_env \<Rightarrow> string \<Rightarrow> auth_db machine \<Rightarrow> (account_error + unit) \<times> auth_db machine" where
  "run_admin_list ae path st = with_store ae path st (\<lambda>floor db.
     (case list_users (ae_fault ae 0) db of Inl e \<Rightarrow> Inl (SqlFailed e) | Inr us \<Rightarrow> Inr (map user_line us), db))"

definition run_admin_del :: "account_env \<Rightarrow> string \<Rightarrow> string \<Rightarrow> auth_db machine \<Rightarrow> (account_error + unit) \<times> auth_db machine" where
  "run_admin_del ae path u st =
     (if u = [] then (Inl (AccountUsage ''-username is required''), st)
      else with_store ae path st (\<lambda>floor db.
        case delete_user (ae_fault ae 0) (ae_fault ae 1) (ae_fault ae 2) (ae_fault ae 3) u db of
          (Inl e, db1) \<Rightarrow> (Inl (Account e), db1)
        | (Inr _, db1) \<Rightarrow> (Inr [''user '' @ u @ '' deleted (their sessions are revoked)''], db1)))"

definition test_password :: "account_env \<Rightarrow> string \<Rightarrow> string" where
  "test_password ae password =
     (if password \<noteq> [] then password else case os_getenv (ae_os ae) ''CAIRN_TEST_PASSWORD'' of None \<Rightarrow> [] | Some p \<Rightarrow> p)"

definition run_admin_testauth ::
  "account_env \<Rightarrow> string \<Rightarrow> string \<Rightarrow> string \<Rightarrow> auth_db machine \<Rightarrow> (account_error + identity) \<times> auth_db machine" where
  \<comment> \<open>the identity stands for the four lines that are printed\<close>
  "run_admin_testauth ae path u password st =
     (if u = [] then (Inl (AccountUsage ''-username is required''), st)
      else if test_password ae password = [] then (Inl (AccountUsage ''provide -password or CAIRN_TEST_PASSWORD''), st)
      else case load_config (ae_os ae) path (mc_files st) of
        Inl e \<Rightarrow> (Inl (NotOpened e), st)
      | Inr cfg \<Rightarrow>
     (case open_sqlite (ae_open ae) (storage_path (cfg_storage cfg)) st of
        (Inl e, st1) \<Rightarrow> (Inl (NotOpened e), st1)
      | (Inr _, st1) \<Rightarrow>
     (case console_login (\<lambda>p. read_file (ae_os ae) p (mc_files st1)) (ae_has_certs ae) (ae_escape ae) (ae_dial ae) (ae_cmp ae)
             (cfg_ldap (cfg_auth cfg)) (ae_fault ae 0) (sd_tables (mc_db st1)) of
        Inl e \<Rightarrow> (Inl (NoAuthenticator e), st1)
      | Inr authenticate \<Rightarrow> (case authenticate u (test_password ae password) of
            Inl e \<Rightarrow> (Inl (AuthFailed e), st1) | Inr i \<Rightarrow> (Inr i, st1)))))"

subsection \<open>The commands keep what the store promises\<close>

datatype account_command =
    AddCmd string string string string   \<comment> \<open>user, role, password, display name\<close>
  | PasswdCmd string string
  | ListCmd
  | DelCmd string
  | TestCmd string string

definition run_account :: "account_env \<Rightarrow> string \<Rightarrow> account_command \<Rightarrow> auth_db machine \<Rightarrow> (account_error + unit) \<times> auth_db machine" where
  \<comment> \<open>\<open>runAdmin\<close>\<close>
  "run_account ae path c st = (case c of
     AddCmd u r pw disp \<Rightarrow> run_admin_add ae path u r pw disp st
   | PasswdCmd u pw \<Rightarrow> run_admin_passwd ae path u pw st
   | ListCmd \<Rightarrow> run_admin_list ae path st
   | DelCmd u \<Rightarrow> run_admin_del ae path u st
   | TestCmd u pw \<Rightarrow> (case run_admin_testauth ae path u pw st of (Inl e, st1) \<Rightarrow> (Inl e, st1) | (Inr i, st1) \<Rightarrow> (Inr (), st1)))"

definition keeps_tables :: "'s open_env \<Rightarrow> 's machine \<Rightarrow> bool" where
  \<comment> \<open>opening the database leaves the accounts as they are: no migration is pending that touches them\<close>
  "keeps_tables v st \<longleftrightarrow> (\<forall>path. sd_tables (mc_db (snd (open_sqlite v path st))) = sd_tables (mc_db st))"

lemma open_local_store_keeps:
  assumes "open_local_store ae path st = (r, st1)" and "keeps_tables (ae_open ae) st"
  shows "sd_tables (mc_db st1) = sd_tables (mc_db st) \<and> mc_files st1 = mc_files st"
proof -
  have "sd_tables (mc_db st2) = sd_tables (mc_db st) \<and> mc_files st2 = mc_files st" if "open_sqlite (ae_open ae) p st = (x, st2)" for p x st2
    using assms(2) that open_sqlite_keeps[OF that] unfolding keeps_tables_def by (metis snd_conv)
  with assms(1) show ?thesis by (auto simp: open_local_store_def split: sum.splits prod.splits)
qed

lemma with_store_cases:
  assumes "with_store ae path st op = (r, st')" and "keeps_tables (ae_open ae) st"
  shows "mc_files st' = mc_files st \<and>
    (sd_tables (mc_db st') = sd_tables (mc_db st) \<and> r \<noteq> Inr () \<or>
     (\<exists>floor st1. open_local_store ae path st = (Inr floor, st1) \<and>
        sd_tables (mc_db st') = snd (op floor (sd_tables (mc_db st))) \<and>
        (r = Inr () \<longleftrightarrow> (\<exists>ls. fst (op floor (sd_tables (mc_db st))) = Inr ls))))"
proof -
  obtain x st1 where o: "open_local_store ae path st = (x, st1)" by (cases "open_local_store ae path st")
  note k = open_local_store_keeps[OF o assms(2)]
  show ?thesis
  proof (cases x)
    case (Inl e)
    with assms(1) o k show ?thesis by (auto simp: with_store_def)
  next
    case (Inr floor)
    with assms(1) o k show ?thesis
      by (auto simp: with_store_def say_all_def split: sum.splits prod.splits)
  qed
qed

definition same_users :: "auth_db \<Rightarrow> auth_db \<Rightarrow> bool" where
  "same_users db db' \<longleftrightarrow> db_users db = db_users db'"

lemma add_account_users: "same_users (snd (add_account ae u pw g r d floor db)) (user_step (ae_hash ae) floor (CreateUser (ae_fault ae 0) (ae_now ae) (ae_salt ae) u pw r d) db)"
  by (auto simp: same_users_def add_account_def split: sum.splits prod.splits)

lemma reset_password_users: "same_users (snd (reset_password ae u pw g floor db)) (user_step (ae_hash ae) floor (SetPassword (ae_fault ae 0) (ae_salt ae) u pw) db)"
  by (auto simp: same_users_def reset_password_def Let_def split: sum.splits prod.splits)

lemma with_store_step:
  assumes "with_store ae path st op = (r, st')" and "keeps_tables (ae_open ae) st"
    and step: "\<And>floor db. same_users (snd (op floor db)) (user_step mk floor call db)"
  shows "mc_files st' = mc_files st \<and>
    (same_users (sd_tables (mc_db st')) (sd_tables (mc_db st)) \<or>
     (\<exists>floor call. same_users (sd_tables (mc_db st')) (user_step mk floor call (sd_tables (mc_db st)))))"
proof -
  from with_store_cases[OF assms(1,2)] consider (kept) "mc_files st' = mc_files st" "sd_tables (mc_db st') = sd_tables (mc_db st)"
    | (op) floor where "mc_files st' = mc_files st" "sd_tables (mc_db st') = snd (op floor (sd_tables (mc_db st)))" by blast
  then show ?thesis
  proof cases
    case op
    with step[of floor "sd_tables (mc_db st)"] show ?thesis by auto
  qed (simp add: same_users_def)
qed

lemma account_command_step:
  assumes "run_account ae path c st = (r, st')" and "keeps_tables (ae_open ae) st"
  shows "mc_files st' = mc_files st \<and>
    (same_users (sd_tables (mc_db st')) (sd_tables (mc_db st)) \<or>
     (\<exists>floor call. same_users (sd_tables (mc_db st')) (user_step (ae_hash ae) floor call (sd_tables (mc_db st)))))"
proof -
  have refl: "same_users db db" for db by (simp add: same_users_def)
  show ?thesis
  proof (cases c)
    case (AddCmd u ro pw d)
    with assms(1) consider "st' = st" | g q where "with_store ae path st (add_account ae u q g (lower ro) d) = (r, st')"
      by (auto simp: run_account_def run_admin_add_def split: if_splits sum.splits)
    then show ?thesis
    proof cases
      case 2
      from with_store_step[OF this assms(2) add_account_users] show ?thesis .
    qed (simp add: refl)
  next
    case (PasswdCmd u pw)
    with assms(1) consider "st' = st" | g q where "with_store ae path st (reset_password ae u q g) = (r, st')"
      by (auto simp: run_account_def run_admin_passwd_def split: if_splits sum.splits)
    then show ?thesis
    proof cases
      case 2
      from with_store_step[OF this assms(2) reset_password_users] show ?thesis .
    qed (simp add: refl)
  next
    case ListCmd
    with assms(1) have "with_store ae path st (\<lambda>floor db. (case list_users (ae_fault ae 0) db of Inl e \<Rightarrow> Inl (SqlFailed e)
        | Inr us \<Rightarrow> Inr (map user_line us), db)) = (r, st')" by (simp add: run_account_def run_admin_list_def)
    from with_store_cases[OF this assms(2)] refl show ?thesis by auto
  next
    case (DelCmd u)
    let ?op = "\<lambda>floor db. case delete_user (ae_fault ae 0) (ae_fault ae 1) (ae_fault ae 2) (ae_fault ae 3) u db of
          (Inl e, db1) \<Rightarrow> (Inl (Account e), db1) | (Inr _, db1) \<Rightarrow> (Inr [''user '' @ u @ '' deleted (their sessions are revoked)''], db1)"
    have d: "same_users (snd (?op floor db)) (user_step (ae_hash ae) floor (DeleteUser (ae_fault ae 0) (ae_fault ae 1) (ae_fault ae 2) (ae_fault ae 3) u) db)"
      for floor db by (auto simp: same_users_def split: sum.splits prod.splits)
    from DelCmd assms(1) consider "st' = st" | "with_store ae path st ?op = (r, st')"
      by (auto simp: run_account_def run_admin_del_def split: if_splits)
    then show ?thesis
    proof cases
      case 2
      from with_store_step[OF this assms(2) d] show ?thesis .
    qed (simp add: refl)
  next
    case (TestCmd u pw)
    have "sd_tables (mc_db st2) = sd_tables (mc_db st) \<and> mc_files st2 = mc_files st" if "open_sqlite (ae_open ae) p st = (x, st2)" for p x st2
      using assms(2) that open_sqlite_keeps[OF that] unfolding keeps_tables_def by (metis snd_conv)
    with TestCmd assms(1) refl show ?thesis
      by (auto simp: run_account_def run_admin_testauth_def split: if_splits sum.splits prod.splits)
  qed
qed

text \<open>
  C27: Whatever \<open>cairn admin\<close> is asked to do and however it ends, the account table stays well formed: every name once
  and every role one of the three, an administrator remains when there was one, and no file
  is written.
\<close>

theorem account_commands_safe:
  assumes "run_account ae path c st = (r, st')" and "keeps_tables (ae_open ae) st" and "users_ok (sd_tables (mc_db st))"
  shows "users_ok (sd_tables (mc_db st')) \<and> (0 < admins (sd_tables (mc_db st)) \<longrightarrow> 0 < admins (sd_tables (mc_db st'))) \<and> mc_files st' = mc_files st"
proof -
  have cong: "users_ok db = users_ok db'" "admins db = admins db'" if "same_users db db'" for db db'
    using that by (simp_all add: same_users_def users_ok_def admins_def)
  from account_command_step[OF assms(1,2)] show ?thesis
  proof (elim conjE disjE exE)
    fix floor call assume f: "mc_files st' = mc_files st"
      and s: "same_users (sd_tables (mc_db st')) (user_step (ae_hash ae) floor call (sd_tables (mc_db st)))"
    show ?thesis using cong[OF s] f user_step_ok[OF assms(3)] admins_step[OF assms(3)] by simp
  qed (use cong assms(3) in simp)
qed

lemma quiet_open_keeps: "keeps_tables quiet_open st"
  by (simp add: keeps_tables_def quiet_open_def open_sqlite_def open_db_def migrate_def applied_versions_def schema_names_def Let_def
      split: option.splits)

definition demo_account_env :: account_env where
  "demo_account_env = \<lparr>ae_os = demo_os, ae_open = quiet_open, ae_tty = False, ae_read1 = Inl [], ae_read2 = Inl [], ae_random = ''abcdefghijklmnopqr'',
     ae_hash = plain_hash, ae_cmp = plain_cmp, ae_salt = [], ae_now = 0, ae_fault = (\<lambda>_. None), ae_has_certs = (\<lambda>_. True), ae_escape = (\<lambda>s. s),
     ae_dial = (\<lambda>_ _. Inl ''no route'')\<rparr>"

definition demo_accounts :: "auth_db machine" where
  "demo_accounts = \<lparr>mc_files = demo_files, mc_modes = [], mc_db = \<lparr>sd_versions = None, sd_tables = demo_db [''ann'']\<rparr>, mc_out = []\<rparr>"

theorem account_commands_safe_witness:
  "0 < admins (sd_tables (mc_db (snd (run_account demo_account_env ''cairn.toml'' (DelCmd ''ann'') demo_accounts))))"
proof -
  let ?run = "run_account demo_account_env ''cairn.toml'' (DelCmd ''ann'') demo_accounts"
  have k: "keeps_tables (ae_open demo_account_env) demo_accounts" by (simp add: demo_account_env_def quiet_open_keeps)
  have u: "users_ok (sd_tables (mc_db demo_accounts))" "0 < admins (sd_tables (mc_db demo_accounts))"
    by (simp_all add: demo_accounts_def users_ok_def admins_def demo_db_def demo_user_def role_names role_valid_def)
  from account_commands_safe[of demo_account_env "''cairn.toml''" "DelCmd ''ann''" demo_accounts "fst ?run" "snd ?run", OF _ k u(1)] u(2)
  show ?thesis by simp
qed

end
