(* ===== verification/Startup.thy ===== *)
theory Startup
  imports Setup SignOn Server
begin

section \<open>Starting the server\<close>

text \<open>
  \<open>cairn serve\<close> up to the moment it listens (\<open>runServe\<close> of \<open>cmd/cairn/serve.go\<close>, \<open>tls.go\<close>, \<open>buildOIDC\<close> of \<open>authn.go\<close>) and what its
  end means for the exit status; \<open>internal/version/log.go\<close> and \<open>internal/mdmcore/logadapter.go\<close>.  The result
  of a successful start is the record of everything the handlers of the other theories take as given.
\<close>

subsection \<open>The log\<close>

datatype level = LevelDebug | LevelInfo | LevelWarn | LevelError

definition logger_level :: "string \<Rightarrow> level" where
  "logger_level l = (if l = ''debug'' then LevelDebug else if l = ''warn'' then LevelWarn else if l = ''error'' then LevelError else LevelInfo)"

definition logger_json :: "string \<Rightarrow> bool" where
  "logger_json format \<longleftrightarrow> format = ''json''"

datatype log_arg = ArgString string | ArgOther

definition log_message :: "log_arg list \<Rightarrow> string \<times> log_arg list" where
  \<comment> \<open>\<open>slogAdapter.log\<close>: the message and the attributes\<close>
  "log_message args =
     (case args of
        ArgString k # ArgString m # rest \<Rightarrow> if k = ''msg'' then (m, rest) else ([], args)
      | _ \<Rightarrow> ([], args))"

definition version_info :: "string \<Rightarrow> string \<Rightarrow> string \<Rightarrow> string \<Rightarrow> string" where
  "version_info version commit date go = ''cairn '' @ version @ '' ('' @ commit @ '', '' @ date @ '', '' @ go @ '')''"

subsection \<open>The listener\<close>

datatype listener =
    Plaintext
  | TLSFiles string string
  | Acme string string string string   \<comment> \<open>host, cache directory, email, directory URL\<close>

definition configure_tls :: "url_parser \<Rightarrow> config \<Rightarrow> string + listener" where
  "configure_tls parse_url cfg =
     (let t = cfg_tls (cfg_server cfg) in
      if tls_mode t = ''proxy'' then Inr Plaintext
      else if tls_mode t = ''files'' then Inr (TLSFiles (tls_cert_file t) (tls_key_file t))
      else if tls_mode t = ''acme'' then
        Inr (Acme (public_host parse_url (public_url (cfg_server cfg)))
          (if acme_cache_dir t = [] then path_join (path_dir (storage_path (cfg_storage cfg))) ''acme'' else acme_cache_dir t)
          (acme_email t) (acme_directory t))
      else Inl (''unsupported tls.mode '' @ tls_mode t))"

subsection \<open>The session policy\<close>

definition minutes :: "int \<Rightarrow> int" where
  \<comment> \<open>\<open>time.Duration(n) * time.Minute\<close>\<close>
  "minutes n = wrap64 (n * (60 * second))"

definition session_policy :: "login_policy \<Rightarrow> session_store" where
  "session_policy p0 = (let p = login_with_defaults p0 in
     set_max_lifetime (new_session_store (minutes (idle_timeout_mins p))) (minutes (max_lifetime_mins p)))"

subsection \<open>The start\<close>

record serve_tables =
  vt_ca :: ca_table
  vt_auth :: auth_db

record 'k serve_env =
  ve_os :: os_env
  ve_open :: "serve_tables open_env"
  ve_lib :: "'k crypto"
  ve_pki :: "'k pki_env"
  ve_has_certs :: "string \<Rightarrow> bool"
  ve_escape :: "string \<Rightarrow> string"
  ve_dial :: "string option \<Rightarrow> dialer"
  ve_cmp :: compare_hash
  ve_parse_cidr :: "string \<Rightarrow> network option"
  ve_oidc_new :: "oidc_cfg \<Rightarrow> string \<Rightarrow> string + oidc_provider"   \<comment> \<open>with the discovery of the issuer\<close>
  ve_app :: app       \<comment> \<open>for the functions of the standard library in it\<close>
  ve_tools :: tools   \<comment> \<open>for those of the libraries\<close>
  ve_mdm :: "env \<Rightarrow> request \<Rightarrow> fleet_console \<Rightarrow> body \<times> fleet_console"
  ve_scep :: "'k scep_server \<Rightarrow> request \<Rightarrow> body"
  ve_version :: "string \<times> string \<times> string"

record 'k running =
  rn_config :: config
  rn_pki :: "'k pki_result"
  rn_deps :: "'k deps"
  rn_sessions :: session_store
  rn_throttle :: throttle
  rn_login :: "fault \<Rightarrow> auth_db \<Rightarrow> authn"
  rn_trusted :: "network list"
  rn_oidc :: "oidc_provider option"
  rn_listener :: listener

datatype serve_error = ServeConfig cli_error | ServeFailed string

definition serve_login :: "'k serve_env \<Rightarrow> config \<Rightarrow> file_system \<Rightarrow> fault \<Rightarrow> auth_db \<Rightarrow> string + authn" where
  \<comment> \<open>\<open>buildAuthenticator\<close>\<close>
  "serve_login ve cfg fs ft db = console_login (\<lambda>p. read_file (ve_os ve) p fs) (ve_has_certs ve) (ve_escape ve) (ve_dial ve) (ve_cmp ve)
     (cfg_ldap (cfg_auth cfg)) ft db"

definition build_oidc :: "'k serve_env \<Rightarrow> config \<Rightarrow> string + oidc_provider option" where
  "build_oidc ve cfg =
     (if \<not> oidc_enabled (cfg_oidc (cfg_auth cfg)) then Inr None
      else case oidc_new_cfg (cfg_oidc (cfg_auth cfg)) (public_url (cfg_server cfg)) of
        (oc, redirect) \<Rightarrow> (case ve_oidc_new ve oc redirect of Inl e \<Rightarrow> Inl e | Inr p \<Rightarrow> Inr (Some p)))"

definition assemble :: "'k serve_env \<Rightarrow> config \<Rightarrow> serve_tables machine \<Rightarrow> 'k pki_result \<Rightarrow> 'k deps \<Rightarrow> string + 'k running" where
  \<comment> \<open>what follows \<open>wirePKI\<close>: nothing of it writes\<close>
  "assemble ve cfg st pki deps =
     and_then (serve_login ve cfg (mc_files st) None (vt_auth (sd_tables (mc_db st)))) (\<lambda>login.
     and_then (parse_trusted_proxies (ve_parse_cidr ve) (ap_parse_ip (ve_app ve)) (trusted_proxies (cfg_tls (cfg_server cfg)))) (\<lambda>trusted.
     and_then (build_oidc ve cfg) (\<lambda>oidc.
     and_then (configure_tls (os_parse_url (ve_os ve)) cfg) (\<lambda>l.
       Inr \<lparr>rn_config = cfg, rn_pki = pki, rn_deps = deps, rn_sessions = session_policy (cfg_login (cfg_auth cfg)),
         rn_throttle = new_login_throttle (cfg_login (cfg_auth cfg)),
         rn_login = (\<lambda>ft db. case serve_login ve cfg (mc_files st) ft db of Inl e \<Rightarrow> (\<lambda>u p. Inl (OpError e)) | Inr a \<Rightarrow> a),
         rn_trusted = trusted, rn_oidc = oidc, rn_listener = l\<rparr>))))"

definition start_server ::
  "'k serve_env \<Rightarrow> string \<Rightarrow> serve_tables machine \<Rightarrow> ((serve_error + 'k running) \<times> serve_tables machine) option" where
  \<comment> \<open>\<open>None\<close>: reading the chain of an external authority does not end\<close>
  "start_server ve path st =
     (case sqlite_config (ve_os ve) path (mc_files st) of
        Inl e \<Rightarrow> Some (Inl (ServeConfig e), st)
      | Inr cfg \<Rightarrow>
     (case open_sqlite (ve_open ve) (storage_path (cfg_storage cfg)) st of
        (Inl e, st1) \<Rightarrow> Some (Inl (ServeConfig e), st1)
      | (Inr _, st1) \<Rightarrow>
     (case wire_pki (ve_lib ve) (os_parse_url (ve_os ve)) ((ve_pki ve)\<lparr>pe_read := (\<lambda>p. read_file (ve_os ve) p (mc_files st1))\<rparr>) cfg
             (vt_ca (sd_tables (mc_db st1))) of
        None \<Rightarrow> None
      | Some (Inl e, tbl) \<Rightarrow> Some (Inl (ServeFailed e), set_tables (\<lambda>t. t\<lparr>vt_ca := tbl\<rparr>) st1)
      | Some (Inr (pki, deps), tbl) \<Rightarrow>
          let st2 = set_tables (\<lambda>t. t\<lparr>vt_ca := tbl\<rparr>) st1 in
          Some (case assemble ve cfg st2 pki deps of Inl e \<Rightarrow> Inl (ServeFailed e) | Inr rn \<Rightarrow> Inr rn, st2))))"

definition server_of :: "'k serve_env \<Rightarrow> 'k running \<Rightarrow> fault \<Rightarrow> auth_db \<Rightarrow> server_deps" where
  \<comment> \<open>\<open>server.New\<close> over the accounts that a sign-in reads; the SCEP URL of the console's configuration only fills
     in a form of \<open>Pages\<close>, and its challenge is read by nothing\<close>
  "server_of ve rn ft db = \<lparr>
     sd_app = (ve_app ve)\<lparr>ap_store := rn_sessions rn, ap_public_url := public_url (cfg_server (rn_config rn)), ap_trusted := rn_trusted rn, ap_audit := True\<rparr>,
     sd_tools = (ve_tools ve)\<lparr>tl_organization := pk_org (rn_pki rn), tl_cairn_anchors := pk_anchors (rn_pki rn), tl_rec := True\<rparr>,
     sd_authn = rn_login rn ft db, sd_oidc = rn_oidc rn, sd_ui = True, sd_mdm_path = mdm_path (cfg_server (rn_config rn)),
     sd_mdm = Some (ve_mdm ve), sd_scep = map_option (ve_scep ve) (de_scep (rn_deps rn)), sd_enroll = Some (de_enroll (rn_deps rn)),
     sd_grant = Some (de_enroll (rn_deps rn)), sd_ca = Some (de_ca (rn_deps rn)), sd_ready = True, sd_version = ve_version ve\<rparr>"

datatype serve_end = Signalled fault | ListenFailed string
  \<comment> \<open>a signal, with the outcome of the shutdown; or the listener's error\<close>

definition serve_result :: "serve_end \<Rightarrow> string + unit" where
  "serve_result e = (case e of Signalled None \<Rightarrow> Inr () | Signalled (Some m) \<Rightarrow> Inl (''graceful shutdown: '' @ m) | ListenFailed m \<Rightarrow> Inl m)"

subsection \<open>The listener follows the validated configuration\<close>

lemma load_config_valid:
  assumes "load_config x path fs = Inr cfg"
  shows "validate (os_parse_url x) cfg = []"
  using assms by (auto simp: load_config_def dest: load_Inr split: sum.splits)

lemma valid_listener:
  assumes "validate pu cfg = []"
  shows "\<exists>l. configure_tls pu cfg = Inr l \<and> (l = Plaintext \<longleftrightarrow> tls_mode (cfg_tls (cfg_server cfg)) = ''proxy'') \<and>
    (\<forall>c k. l = TLSFiles c k \<longrightarrow> c \<noteq> [] \<and> k \<noteq> []) \<and>
    (\<forall>h d e u. l = Acme h d e u \<longrightarrow> e \<noteq> [] \<and> d \<noteq> [] \<and> h = public_host pu (public_url (cfg_server cfg)))"
proof -
  have j: "path_join d ''acme'' \<noteq> []" for d by (simp add: path_join_def)
  from assms have "validate_server pu (cfg_server cfg) = []" by (simp add: validate_def)
  then show ?thesis
    by (auto simp: validate_server_def configure_tls_def err_if_def Let_def j split: if_splits)
qed

text \<open>
  A configuration that loads always has a listener, and it is a plaintext one only when the file asks for a proxy in
  front: with \<open>files\<close> there is a certificate and a key to serve, with \<open>acme\<close> a contact and the host of the
  public URL, and no other mode gets past the validation.
\<close>

theorem tls_as_configured:
  assumes "load_config x path fs = Inr cfg"
  shows "\<exists>l. configure_tls (os_parse_url x) cfg = Inr l \<and> (l = Plaintext \<longleftrightarrow> tls_mode (cfg_tls (cfg_server cfg)) = ''proxy'') \<and>
    (\<forall>c k. l = TLSFiles c k \<longrightarrow> c \<noteq> [] \<and> k \<noteq> []) \<and>
    (\<forall>h d e u. l = Acme h d e u \<longrightarrow> e \<noteq> [] \<and> d \<noteq> [] \<and> h = public_host (os_parse_url x) (public_url (cfg_server cfg)))"
  by (rule valid_listener[OF load_config_valid[OF assms]])

theorem tls_as_configured_witness:
  "\<exists>l. configure_tls Config.demo_url demo_config = Inr l \<and> l = Plaintext"
proof -
  have l: "load_config demo_os ''cairn.toml'' demo_files = Inr demo_config"
    by (rule demo_loads[where m = 416 and data = "[]"]) (simp add: demo_files_def)
  have "tls_mode (cfg_tls (cfg_server demo_config)) = ''proxy''" by code_simp
  with tls_as_configured[OF l] show ?thesis by (auto simp: demo_os_def)
qed

text \<open>The host is checked with its port: a public URL of a port alone passes, and the certificate is asked for the empty name.\<close>

theorem acme_empty_host:
  assumes "parse_url u = Some (''https'', '':443'')"
  shows "https_url parse_url u \<and> public_host parse_url u = []"
proof -
  have "url_hostname '':443'' = []" by code_simp
  with assms show ?thesis by (simp add: https_url_def public_host_def)
qed

text \<open>
  The URLs of the profile are the public URL with the path appended: one that ends in a slash, which every other use
  trims, sends the devices to a path with two slashes.
\<close>

theorem trailing_slash_kept:
  assumes "public_url (cfg_server cfg) = ''https://mdm.example.org/''" and "mdm_path (cfg_server cfg) = ''/mdm''"
  shows "ec_server_url (enroll_config parse_url cfg anchors scep) = ''https://mdm.example.org//mdm''"
  using assms by (simp add: enroll_config_def Let_def)

subsection \<open>The session policy is the configured one\<close>

text \<open>The multiplication wraps from 153722868 minutes on; a configured lifetime of 200000000 minutes has become a negative one.\<close>

lemma minutes_exact:
  assumes "0 \<le> n" and "n \<le> 153722867"
  shows "minutes n = n * (60 * second)"
  using assms by (simp add: minutes_def wrap64_id second_def)

theorem lifetime_wraps: "minutes 200000000 < 0"
  by code_simp

subsection \<open>What a start has assembled\<close>

lemma start_server_Inr:
  assumes "start_server ve path st = Some (Inr rn, st')"
  obtains cfg st1 pki deps tbl where "sqlite_config (ve_os ve) path (mc_files st) = Inr cfg"
    "open_sqlite (ve_open ve) (storage_path (cfg_storage cfg)) st = (Inr (), st1)"
    "wire_pki (ve_lib ve) (os_parse_url (ve_os ve)) ((ve_pki ve)\<lparr>pe_read := (\<lambda>p. read_file (ve_os ve) p (mc_files st1))\<rparr>) cfg
       (vt_ca (sd_tables (mc_db st1))) = Some (Inr (pki, deps), tbl)"
    "st' = set_tables (\<lambda>t. t\<lparr>vt_ca := tbl\<rparr>) st1" "assemble ve cfg st' pki deps = Inr rn"
  using assms by (auto simp: start_server_def Let_def split: sum.splits prod.splits option.splits)

lemma start_server_files:
  assumes "start_server ve path st = Some (r, st')"
  shows "mc_files st' = mc_files st"
  using assms by (auto simp: start_server_def Let_def dest!: open_sqlite_keeps split: sum.splits prod.splits option.splits)

lemma assemble_Inr:
  assumes "assemble ve cfg st pki deps = Inr rn"
  shows "rn_config rn = cfg \<and> rn_pki rn = pki \<and> rn_deps rn = deps \<and> rn_sessions rn = session_policy (cfg_login (cfg_auth cfg)) \<and>
    configure_tls (os_parse_url (ve_os ve)) cfg = Inr (rn_listener rn) \<and>
    (rn_oidc rn \<noteq> None \<longleftrightarrow> oidc_enabled (cfg_oidc (cfg_auth cfg))) \<and>
    (\<not> ldap_enabled (cfg_ldap (cfg_auth cfg)) \<longrightarrow> rn_login rn = local_authenticate (ve_cmp ve))"
  using assms
  by (auto simp: assemble_def and_then_def build_oidc_def serve_login_def console_login_def build_authenticator_def fun_eq_iff
      split: sum.splits if_splits prod.splits)

lemma assemble_plain:
  assumes "\<not> ldap_enabled (cfg_ldap (cfg_auth cfg))" and "\<not> oidc_enabled (cfg_oidc (cfg_auth cfg))"
    and "trusted_proxies (cfg_tls (cfg_server cfg)) = []" and "configure_tls (os_parse_url (ve_os ve)) cfg = Inr l"
  shows "\<exists>rn. assemble ve cfg st pki deps = Inr rn"
  using assms by (simp add: assemble_def and_then_def build_oidc_def serve_login_def console_login_def build_authenticator_def)

lemma wire_pki_org:
  assumes "wire_pki lib pu pe cfg tbl = Some (Inr (pki, deps), tbl')"
  shows "pk_org pki = ''cairn.'' @ public_host pu (public_url (cfg_server cfg))"
  using assms
  by (auto simp: wire_pki_def wire_embedded_def wire_external_def Let_def split: if_splits sum.splits option.splits prod.splits)

lemma session_policy_exact:
  "0 < idle_timeout_mins (login_with_defaults p) \<Longrightarrow> idle_timeout_mins (login_with_defaults p) \<le> 153722867 \<Longrightarrow>
     ttl (session_policy p) = idle_timeout_mins (login_with_defaults p) * (60 * second)"
  "0 < max_lifetime_mins (login_with_defaults p) \<Longrightarrow> max_lifetime_mins (login_with_defaults p) \<le> 153722867 \<Longrightarrow>
     max_lifetime (session_policy p) = max_lifetime_mins (login_with_defaults p) * (60 * second)"
  by (simp_all add: session_policy_def set_max_lifetime_def new_session_store_def Let_def minutes_exact second_def)

text \<open>
  C24: A start changes no file, and the server it assembles is of one piece: it runs on a configuration that loads and
  validates, the anchors the console shows are those of the profiles it enrolls with and of the CA download, single
  sign-on is offered exactly when configured, SCEP is served exactly in the embedded modes, and sessions last as long as
  the login policy says, to the nanosecond, for lifetimes up to 153722867 minutes.
\<close>

theorem start_consistent:
  assumes "start_server ve path st = Some (Inr rn, st')"
  shows "mc_files st' = mc_files st \<and> load_config (ve_os ve) path (mc_files st) = Inr (rn_config rn) \<and>
    (let d = server_of ve rn ft db; p = login_with_defaults (cfg_login (cfg_auth (rn_config rn))) in
       (\<exists>e. sd_enroll d = Some e \<and> sd_grant d = Some e \<and> ec_anchors e = tl_cairn_anchors (sd_tools d) \<and>
          ec_organization e = tl_organization (sd_tools d)) \<and>
       sd_ca d = Some (ca_download (ve_lib ve) (tl_cairn_anchors (sd_tools d))) \<and>
       (sd_scep d \<noteq> None \<longleftrightarrow> embedded (ca_mode (cfg_ca (rn_config rn)))) \<and>
       (sd_oidc d \<noteq> None \<longleftrightarrow> oidc_enabled (cfg_oidc (cfg_auth (rn_config rn)))) \<and>
       (0 < idle_timeout_mins p \<and> idle_timeout_mins p \<le> 153722867 \<longrightarrow> ttl (ap_store (sd_app d)) = idle_timeout_mins p * (60 * second)) \<and>
       (0 < max_lifetime_mins p \<and> max_lifetime_mins p \<le> 153722867 \<longrightarrow>
          max_lifetime (ap_store (sd_app d)) = max_lifetime_mins p * (60 * second)))"
proof -
  obtain cfg pki deps tbl and st1 :: "serve_tables machine" where s: "sqlite_config (ve_os ve) path (mc_files st) = Inr cfg"
    "wire_pki (ve_lib ve) (os_parse_url (ve_os ve)) ((ve_pki ve)\<lparr>pe_read := (\<lambda>p. read_file (ve_os ve) p (mc_files st1))\<rparr>) cfg
       (vt_ca (sd_tables (mc_db st1))) = Some (Inr (pki, deps), tbl)"
    "assemble ve cfg st' pki deps = Inr rn"
    using start_server_Inr[OF assms] by metis
  have l: "load_config (ve_os ve) path (mc_files st) = Inr cfg" using s(1) by (auto simp: sqlite_config_def and_then_def split: sum.splits if_splits)
  from wire_pki_cases[OF s(2)] have w: "de_enroll deps = enroll_config (os_parse_url (ve_os ve)) cfg (pk_anchors pki) (pk_scep_url pki)"
    "de_ca deps = ca_download (ve_lib ve) (pk_anchors pki)" "de_scep deps \<noteq> None \<longleftrightarrow> embedded (ca_mode (cfg_ca cfg))"
    by (auto split: if_splits)
  note o = wire_pki_org[OF s(2)] and a = assemble_Inr[OF s(3)]
  show ?thesis
    using start_server_files[OF assms] l w o a
    by (simp add: server_of_def enroll_config_def Let_def session_policy_exact)
qed

subsection \<open>From the first command to a running server\<close>

definition served :: "setup_tables machine \<Rightarrow> serve_tables machine" where
  \<comment> \<open>the same machine, seen by the server\<close>
  "served st = \<lparr>mc_files = mc_files st, mc_modes = mc_modes st,
     mc_db = \<lparr>sd_versions = sd_versions (mc_db st), sd_tables = \<lparr>vt_ca = st_ca (sd_tables (mc_db st)), vt_auth = st_auth (sd_tables (mc_db st))\<rparr>\<rparr>,
     mc_out = mc_out st\<rparr>"

lemma wire_pki_loaded:
  assumes "load_ca lib None tbl = Inr (c, k)" and "ce_load (pe_ca pe) = None" and "pe_scep pe = None"
    and "ca_mode (cfg_ca cfg) = ''generate''" and "\<not> signing_enabled (cfg_signing cfg)"
  shows "\<exists>pki deps. wire_pki lib pu pe cfg tbl = Some (Inr (pki, deps), tbl) \<and> pk_anchors pki = [ct_raw c]"
  using assms
  by (simp add: wire_pki_def wire_signer_def embedded_def wire_embedded_def import_options_def ensure_def scep_handler_def Let_def)

lemma start_after_init:
  assumes "run_init ne fl st = (Inr (), st')" and "nf_ca_mode fl = ''generate''" and "nf_config fl \<noteq> []"
    and "reads_toml (os_decode (ne_os ne))" and "no_overrides (os_getenv (ne_os ne))" and "os_read (ne_os ne) (nf_config fl) = None"
    and "prepare_init ne fl (mc_files st) = Inr cfg" and "plain_flags (config_values cfg)"
    and "codec_ok (ne_lib ne)" and "argon_laws (ne_hash ne) (ve_cmp ve)"
    and "ve_os ve = ne_os ne" and "ve_lib ve = ne_lib ne" and "ce_load (pe_ca (ve_pki ve)) = None" and "pe_scep (ve_pki ve) = None"
    and "open_sqlite (ve_open ve) (storage_path (cfg_storage cfg)) (served st') = (Inr (), st2)"
    and "sd_tables (mc_db st2) = sd_tables (mc_db (served st'))"
  shows "\<exists>rn st3 c k pw g. start_server ve (nf_config fl) (served st') = Some (Inr rn, st3) \<and>
    sd_tables (mc_db st3) = sd_tables (mc_db (served st')) \<and> rn_config rn = config_in_file cfg \<and>
    load_ca (ne_lib ne) None (st_ca (sd_tables (mc_db st'))) = Inr (c, k) \<and> pk_anchors (rn_pki rn) = [ct_raw c] \<and>
    init_password ne fl = Inr (pw, g) \<and>
    (\<forall>pw'. rn_login rn None (vt_auth (sd_tables (mc_db st3))) (nf_admin_user fl) pw' =
       (if pw' = pw then Inr \<lparr>id_username = nf_admin_user fl, id_display = [], id_role = role_admin, id_provider = ''local''\<rparr>
        else Inl InvalidCredentials))"
proof -
  let ?cfg = "config_in_file cfg"
  obtain pw g st1 where r: "init_password ne fl = Inr (pw, g)" "create_first ne fl cfg pw st = (Inr (), st1)"
    "write_config ne fl cfg g st1 = (Inr (), st')"
    using assms(1,7) by (auto elim: run_init_Inr)
  obtain url email where c: "cfg = init_config fl url (path_join (init_data_dir ne fl) ''cairn.db'') email"
    "validate (os_parse_url (ne_os ne)) cfg = []" using assms(7) by (rule prepare_init_Inr)
  from write_config_Inr[OF r(3)] have w: "mc_db st' = mc_db st1" "contents (mc_files st') (nf_config fl) = Some (render_toml cfg)" by simp_all
  from rendered_config_loads[OF assms(4,5) c(1) assms(8) c(2) assms(3,6) w(2)]
  have l: "load_config (ve_os ve) (nf_config fl) (mc_files (served st')) = Inr ?cfg" by (simp add: served_def assms(11))
  have f: "\<not> ldap_enabled (cfg_ldap (cfg_auth ?cfg))" "\<not> oidc_enabled (cfg_oidc (cfg_auth ?cfg))"
    "trusted_proxies (cfg_tls (cfg_server ?cfg)) = []" "ca_mode (cfg_ca ?cfg) = ''generate''" "\<not> signing_enabled (cfg_signing ?cfg)"
    "driver (cfg_storage ?cfg) = ''sqlite''" "storage_path (cfg_storage ?cfg) = storage_path (cfg_storage cfg)"
    by (simp_all add: c(1) config_in_file_def init_config_def default_config_def zero_ldap_def zero_oidc_def signing_enabled_def assms(2))
  from l f(6) have q: "sqlite_config (ve_os ve) (nf_config fl) (mc_files (served st')) = Inr ?cfg"
    by (simp add: sqlite_config_def and_then_def)
  have m: "embedded (ca_mode (cfg_ca cfg))" using f(4) by (simp add: embedded_def config_in_file_def)
  note rdy = create_first_ready[OF r(2) assms(9,10), unfolded w(1)[symmetric]]
  from rdy[of pw] m obtain ca k where ca: "load_ca (ne_lib ne) None (st_ca (sd_tables (mc_db st'))) = Inr (ca, k)" by fastforce
  have t: "vt_ca (sd_tables (mc_db st2)) = st_ca (sd_tables (mc_db st'))" using assms(16) by (simp add: served_def)
  obtain pki deps where p: "wire_pki (ve_lib ve) (os_parse_url (ve_os ve)) ((ve_pki ve)\<lparr>pe_read := (\<lambda>p. read_file (ve_os ve) p (mc_files st2))\<rparr>) ?cfg
      (vt_ca (sd_tables (mc_db st2))) = Some (Inr (pki, deps), vt_ca (sd_tables (mc_db st2)))" "pk_anchors pki = [ct_raw ca]"
    using wire_pki_loaded[OF ca, of "(ve_pki ve)\<lparr>pe_read := (\<lambda>p. read_file (ve_os ve) p (mc_files st2))\<rparr>" ?cfg "os_parse_url (ve_os ve)"]
      f(4,5) t assms(12-14) by auto
  obtain ls where "configure_tls (os_parse_url (ve_os ve)) ?cfg = Inr ls" using valid_listener[OF load_config_valid[OF l]] by blast
  then obtain rn where a: "assemble ve ?cfg (set_tables (\<lambda>t. t\<lparr>vt_ca := vt_ca (sd_tables (mc_db st2))\<rparr>) st2) pki deps = Inr rn"
    using assemble_plain[OF f(1-3)] by blast
  have s: "start_server ve (nf_config fl) (served st') = Some (Inr rn, set_tables (\<lambda>t. t\<lparr>vt_ca := vt_ca (sd_tables (mc_db st2))\<rparr>) st2)"
    using q p(1) a assms(15) f(7) by (simp add: start_server_def Let_def)
  have d: "rn_config rn = ?cfg" "rn_pki rn = pki" "rn_login rn = local_authenticate (ve_cmp ve)" using assemble_Inr[OF a] f(1) by simp_all
  have x: "sd_tables (mc_db (set_tables (\<lambda>t. t\<lparr>vt_ca := vt_ca (sd_tables (mc_db st2))\<rparr>) st2)) = sd_tables (mc_db (served st'))"
    using assms(16) by (simp add: served_def)
  show ?thesis
    by (intro exI conjI, rule s, rule x, rule d(1), rule ca) (use p(2) d(2,3) x r(1) rdy in \<open>auto simp: served_def\<close>)
qed


subsection \<open>A start\<close>

lemma quiet_open_opens: "\<exists>st1. open_sqlite quiet_open path st = (Inr (), st1) \<and> sd_tables (mc_db st1) = sd_tables (mc_db st)"
  by (simp add: quiet_open_def open_sqlite_def open_db_def migrate_def applied_versions_def schema_names_def Let_def split: option.splits)

definition demo_serve_env :: "string serve_env" where
  "demo_serve_env = \<lparr>ve_os = ne_os demo_setup_env, ve_open = quiet_open, ve_lib = demo_crypto, ve_pki = demo_pki_env,
     ve_has_certs = (\<lambda>_. True), ve_escape = (\<lambda>s. s), ve_dial = (\<lambda>_ _. Inl ''no route''), ve_cmp = plain_cmp, ve_parse_cidr = (\<lambda>_. None),
     ve_oidc_new = (\<lambda>_ _. Inl ''no issuer''), ve_app = demo_app, ve_tools = demo_tools, ve_mdm = (\<lambda>_ _ s. (PemBody [], s)),
     ve_scep = (\<lambda>_ _. PemBody []), ve_version = ([], [], [])\<rparr>"

lemma demo_fresh:
  obtains st' st2 where "run_init demo_setup_env demo_init_flags demo_setup = (Inr (), st')"
    "open_sqlite (ve_open demo_serve_env) (storage_path (cfg_storage demo_init_config)) (served st') = (Inr (), st2)"
    "sd_tables (mc_db st2) = sd_tables (mc_db (served st'))"
proof (rule demo_run_init)
  fix st' assume "run_init demo_setup_env demo_init_flags demo_setup = (Inr (), st')"
  then show thesis using that quiet_open_opens[of "storage_path (cfg_storage demo_init_config)" "served st'"]
    by (auto simp: demo_serve_env_def)
qed

lemma demo_conditions:
  "nf_ca_mode demo_init_flags = ''generate''" "nf_config demo_init_flags \<noteq> []" "nf_admin_user demo_init_flags = ''admin''"
  "nf_config demo_init_flags = ''cairn.toml''"
  "reads_toml (os_decode (ne_os demo_setup_env))" "no_overrides (os_getenv (ne_os demo_setup_env))"
  "os_read (ne_os demo_setup_env) (nf_config demo_init_flags) = None"
  "prepare_init demo_setup_env demo_init_flags (mc_files demo_setup) = Inr demo_init_config"
  "codec_ok (ne_lib demo_setup_env)" "argon_laws (ne_hash demo_setup_env) (ve_cmp demo_serve_env)"
  "ve_os demo_serve_env = ne_os demo_setup_env" "ve_lib demo_serve_env = ne_lib demo_setup_env"
  "ce_load (pe_ca (ve_pki demo_serve_env)) = None" "pe_scep (ve_pki demo_serve_env) = None"
  using demo_prepare
  by (simp_all add: demo_init_flags_def demo_setup_env_def demo_serve_env_def read_toml_reads no_overrides_def demo_os_def demo_setup_def
      demo_codec_ok plain_laws demo_pki_env_def demo_ca_env_def)

theorem start_consistent_witness:
  "\<exists>st' rn st3. start_server demo_serve_env ''cairn.toml'' (served st') = Some (Inr rn, st3) \<and>
     sd_scep (server_of demo_serve_env rn None (demo_db [])) \<noteq> None"
proof (rule demo_fresh)
  fix st' st2 assume r: "run_init demo_setup_env demo_init_flags demo_setup = (Inr (), st')"
    and o: "open_sqlite (ve_open demo_serve_env) (storage_path (cfg_storage demo_init_config)) (served st') = (Inr (), st2)"
    "sd_tables (mc_db st2) = sd_tables (mc_db (served st'))"
  from start_after_init[OF r demo_conditions(1,2,5-8) demo_values demo_conditions(9-14) o] demo_conditions(4) obtain rn st3 where
    s: "start_server demo_serve_env ''cairn.toml'' (served st') = Some (Inr rn, st3)" and c: "rn_config rn = config_in_file demo_init_config"
    by auto
  have "embedded (ca_mode (cfg_ca (rn_config rn)))" by (simp add: c) code_simp
  with start_consistent[OF s, of None "demo_db []"] have "sd_scep (server_of demo_serve_env rn None (demo_db [])) \<noteq> None"
    by (simp only: Let_def simp_thms)
  with s show ?thesis by blast
qed


end
