(* ===== verification/Pages.thy ===== *)
theory Pages
  imports Server Push Cli
begin

section \<open>What the console shows\<close>

text \<open>
  The data behind the pages of the console: \<open>handleDashboard\<close>, \<open>handleDevices\<close> and \<open>handleDeviceDetail\<close> of
  \<open>internal/web/handlers.go\<close>, \<open>handleActivity\<close> of \<open>audit.go\<close>, and the pages of \<open>profiles.go\<close>, \<open>builders.go\<close>, \<open>groups.go\<close> and
  \<open>enrollment.go\<close>.  A query that fails is logged and shown as nothing.  Of a template, \<open>Handlers\<close> has its name and title; here is
  what it is given.
\<close>

subsection \<open>The data of a page\<close>

datatype page_data =
    DashboardData nat nat "device list" string "apns_summary option"  \<comment> \<open>total, active, recent, enrollment URL, APNs\<close>
  | ActivityData "audit_entry list"
  | DevicesData "device list" string bool nat
  | DeviceData device "command_entry list" "group_info list" "device_deploy list" "profile list"
  | ProfilesData "profile list"
  | ProfileData profile nat "profile_deploy list"
  | WifiData string bool   \<comment> \<open>the SCEP URL; whether there are anchors\<close>
  | SsoData
  | EnrollmentData "grant list" "(string \<times> string \<times> int \<times> int) option"   \<comment> \<open>a new link, its QR image, hours, uses\<close>
  | GroupsData "group_info list"
  | GroupData group_info "device list" "profile list" "int \<rightharpoonup> group_status" "device list" "profile list"
  | MissingData string

record page_tables =
  pt_apns :: "apns_topic list"
  pt_scep_url :: string

record page =
  pg_data :: page_data
  pg_flash :: string
  pg_error :: string
  pg_user :: identity
  pg_csrf :: string

definition or_empty :: "'e + 'a list \<Rightarrow> 'a list" where
  "or_empty x = (case x of Inl e \<Rightarrow> [] | Inr ys \<Rightarrow> ys)"

definition null_str :: "string option \<Rightarrow> string" where
  "null_str s = (case s of None \<Rightarrow> [CHR 0xE2, CHR 0x80, CHR 0x94] | Some v \<Rightarrow> if v = [] then [CHR 0xE2, CHR 0x80, CHR 0x94] else v)"

definition enrollment_url :: "app \<Rightarrow> string" where
  "enrollment_url a = trim_right (\<lambda>c. c = CHR ''/'') (ap_public_url a) @ ''/enroll''"

definition dashboard_data :: "app \<Rightarrow> env \<Rightarrow> page_tables \<Rightarrow> fleet_console \<Rightarrow> page_data" where
  "dashboard_data a ev pt st =
     (let ds = f_devices (c_fleet (fc_core st));
          counts = (case device_counts (ev_fault ev ''counts'') (ev_at ev ''counts'') ds of Inl e \<Rightarrow> (0, 0) | Inr c \<Rightarrow> c)
      in DashboardData (fst counts) (snd counts) (take 5 (or_empty (list_devices (ev_fault ev ''list-devices'') ds))) (enrollment_url a)
           (apns_status (ev_fault ev ''apns'') (ev_at ev ''apns'') (pt_apns pt)))"

definition devices_data :: "env \<Rightarrow> request \<Rightarrow> fleet_console \<Rightarrow> page_data" where
  "devices_data ev r st =
     (let q = trim_space (field (rq_query r) ''q''); enrolled = (field (rq_query r) ''enrolled'' = ''1'');
          ds = or_empty (list_devices_filtered (ev_fault ev ''list-devices'') q enrolled (f_devices (c_fleet (fc_core st))))
      in DevicesData ds q enrolled (length ds))"

definition device_data :: "env \<Rightarrow> string \<Rightarrow> fleet_console \<Rightarrow> page_data" where
  "device_data ev i st =
     (let fl = c_fleet (fc_core st) in
      case get_device (ev_fault ev ''get-device'') i (f_devices fl) of
        Inl e \<Rightarrow> MissingData ''No such device.''
      | Inr d \<Rightarrow> DeviceData d (or_empty (list_commands (ev_fault ev ''list-commands'') (d_id d) 25 fl))
          (or_empty (device_groups (ev_fault ev ''device-groups'') (d_id d) fl))
          (or_empty (device_deploys (ev_fault ev ''device-deploys'') (d_id d) fl))
          (or_empty (list_profiles (ev_fault ev ''list-profiles'') fl)))"

definition profile_data :: "env \<Rightarrow> string \<Rightarrow> fleet_console \<Rightarrow> page_data" where
  "profile_data ev i st =
     (case profile_from_path ev i st of
        None \<Rightarrow> MissingData ''No such profile.''
      | Some p \<Rightarrow> ProfileData p (length (p_data p)) (or_empty (profile_deploys (ev_fault ev ''profile-deploys'') (p_id p) (c_fleet (fc_core st)))))"

definition status_by_profile :: "group_status list \<Rightarrow> (int \<rightharpoonup> group_status)" where
  "status_by_profile ss = fold (\<lambda>s m. m(gs_profile s \<mapsto> s)) ss Map.empty"

definition addable :: "('r \<Rightarrow> 'k) \<Rightarrow> 'r list \<Rightarrow> 'r list \<Rightarrow> 'r list" where
  \<comment> \<open>everything that is not already in the group\<close>
  "addable key present everything = filter (\<lambda>x. key x \<notin> key ` set present) everything"

definition group_data :: "env \<Rightarrow> string \<Rightarrow> fleet_console \<Rightarrow> page_data" where
  "group_data ev i st =
     (case group_from_path ev i st of
        None \<Rightarrow> MissingData ''No such group.''
      | Some g \<Rightarrow>
          let fl = c_fleet (fc_core st);
              members = or_empty (group_devices (ev_fault ev ''group-devices'') (gr_id g) fl);
              assigned = or_empty (group_profiles (ev_fault ev ''group-profiles'') (gr_id g) fl)
          in GroupData g members assigned
               (status_by_profile (or_empty (group_deploy_status (ev_fault ev ''group-status'') (gr_id g) fl)))
               (addable d_id members (or_empty (list_devices (ev_fault ev ''list-devices'') (f_devices fl))))
               (addable p_id assigned (or_empty (list_profiles (ev_fault ev ''list-profiles'') fl))))"

definition activity_data :: "env \<Rightarrow> fleet_console \<Rightarrow> page_data" where
  "activity_data ev st = ActivityData (or_empty (list_audit (ev_fault ev ''list-audit'') 200 (cn_audit st)))"

definition profiles_data :: "env \<Rightarrow> fleet_console \<Rightarrow> page_data" where
  "profiles_data ev st = ProfilesData (or_empty (list_profiles (ev_fault ev ''list-profiles'') (c_fleet (fc_core st))))"

definition groups_data :: "env \<Rightarrow> fleet_console \<Rightarrow> page_data" where
  "groups_data ev st = GroupsData (or_empty (list_groups (ev_fault ev ''list-groups'') (c_fleet (fc_core st))))"

definition enrollment_data :: "env \<Rightarrow> (string \<times> string \<times> int \<times> int) option \<Rightarrow> fleet_console \<Rightarrow> page_data" where
  \<comment> \<open>\<open>renderEnrollment\<close>\<close>
  "enrollment_data ev created st = EnrollmentData (or_empty (list_grants (ev_fault ev ''list-grants'') (fc_grants st))) created"

definition wifi_form_data :: "tools \<Rightarrow> page_tables \<Rightarrow> page_data" where
  "wifi_form_data t pt = WifiData (pt_scep_url pt) (tl_cairn_anchors t \<noteq> [])"

fun data_of :: "app \<Rightarrow> tools \<Rightarrow> page_tables \<Rightarrow> env \<Rightarrow> request \<Rightarrow> route \<Rightarrow> fleet_console \<Rightarrow> page_data option" where
  "data_of a t pt ev r Dashboard st = Some (dashboard_data a ev pt st)"
| "data_of a t pt ev r Activity st = Some (activity_data ev st)"
| "data_of a t pt ev r DevicesPage st = Some (devices_data ev r st)"
| "data_of a t pt ev r (DeviceDetail i) st = Some (device_data ev i st)"
| "data_of a t pt ev r ProfilesPage st = Some (profiles_data ev st)"
| "data_of a t pt ev r (ProfileDetail i) st = Some (profile_data ev i st)"
| "data_of a t pt ev r WifiForm st = Some (wifi_form_data t pt)"
| "data_of a t pt ev r SsoForm st = Some SsoData"
| "data_of a t pt ev r EnrollmentPage st = Some (enrollment_data ev None st)"
| "data_of a t pt ev r GroupsPage st = Some (groups_data ev st)"
| "data_of a t pt ev r (GroupDetail i) st = Some (group_data ev i st)"
| "data_of a t pt ev r _ st = None"

definition qr_data_uri :: "(string \<Rightarrow> string + string) \<Rightarrow> string \<Rightarrow> string" where
  \<comment> \<open>\<open>encode\<close> is the QR library: the PNG of a text\<close>
  "qr_data_uri encode s = (case encode s of Inl e \<Rightarrow> [] | Inr png \<Rightarrow> ''data:image/png;base64,'' @ base64 base64_std ''='' png)"

definition created_data :: "app \<Rightarrow> (string \<Rightarrow> string + string) \<Rightarrow> env \<Rightarrow> request \<Rightarrow> string \<Rightarrow> fleet_console \<Rightarrow> page_data" where
  \<comment> \<open>the answer to a created grant: the only place where its token is ever shown\<close>
  "created_data a encode ev r raw st =
     (let link = trim_right (\<lambda>c. c = CHR ''/'') (ap_public_url a) @ ''/e/'' @ raw;
          mx = atoi (post r ''max_uses''); hs = atoi (post r ''expires_hours'')
      in enrollment_data ev (Some (link, qr_data_uri encode link, if hs \<le> 0 then 24 else hs, if mx \<le> 0 then 1 else mx)) st)"

fun shows_flash :: "page_data \<Rightarrow> bool" where
  "shows_flash (DeviceData d cs gs ds ps) = True"
| "shows_flash (ProfilesData ps) = True"
| "shows_flash (ProfileData p n ds) = True"
| "shows_flash (EnrollmentData gs c) = True"
| "shows_flash (GroupsData gs) = True"
| "shows_flash (GroupData g ms ps ss ds ls) = True"
| "shows_flash _ = False"

fun shows_error :: "page_data \<Rightarrow> bool" where
  "shows_error (ProfilesData ps) = True"
| "shows_error (ProfileData p n ds) = True"
| "shows_error (WifiData u h) = True"
| "shows_error SsoData = True"
| "shows_error (EnrollmentData gs c) = True"
| "shows_error (GroupsData gs) = True"
| "shows_error (GroupData g ms ps ss ds ls) = True"
| "shows_error _ = False"

definition render_page :: "request \<Rightarrow> session \<Rightarrow> page_data \<Rightarrow> page" where
  \<comment> \<open>\<open>render\<close> adds the signed-in user and the token of the forms\<close>
  "render_page r s d = \<lparr>pg_data = d,
     pg_flash = (if shows_flash d then field (rq_query r) ''flash'' else []),
     pg_error = (if shows_error d then field (rq_query r) ''error'' else []),
     pg_user = ses_identity s, pg_csrf = ses_csrf s\<rparr>"

subsection \<open>The page of a group\<close>

lemma addable_partition:
  assumes "key ` set present \<subseteq> key ` set everything"
  shows "key ` set present \<inter> key ` set (addable key present everything) = {}"
    "key ` set present \<union> key ` set (addable key present everything) = key ` set everything"
  using assms by (auto simp: addable_def) (metis imageI)

lemma status_by_profile_map: "status_by_profile ss = map_of (rev (map (\<lambda>s. (gs_profile s, s)) ss))"
proof -
  have "fold (\<lambda>s m. m(gs_profile s \<mapsto> s)) ss m = m ++ map_of (rev (map (\<lambda>s. (gs_profile s, s)) ss))" for m
    by (induction ss arbitrary: m) auto
  then show ?thesis by (simp add: status_by_profile_def)
qed

lemma status_by_profile_image:
  "dom (status_by_profile ss) = gs_profile ` set ss"
  "status_by_profile ss k = Some s \<Longrightarrow> s \<in> set ss \<and> gs_profile s = k"
  by (auto simp: status_by_profile_map dom_map_of_conv_image_fst image_image dest!: map_of_SomeD)

lemma exclusive_filters:
  assumes "\<And>m. P m \<Longrightarrow> \<not> Q m \<and> \<not> R m" and "\<And>m. Q m \<Longrightarrow> \<not> R m"
  shows "length (filter (\<lambda>m. B m \<and> P m) ms) + length (filter (\<lambda>m. B m \<and> Q m) ms) + length (filter (\<lambda>m. B m \<and> R m) ms) \<le> length (filter B ms)"
proof (induction ms)
  case (Cons m ms)
  with assms[of m] show ?case by auto
qed simp

lemma count_status_exclusive:
  "count_status g p ''installed'' st + count_status g p ''sent'' st + count_status g p ''failed'' st \<le> length (filter (\<lambda>m. fst m = g) (f_members st))"
  unfolding count_status_def by (rule exclusive_filters) (auto split: option.splits)

lemma group_info_profiles:
  assumes "fleet_ok fl"
  shows "gi_profiles (group_info_of fl g) = length (filter (\<lambda>p. (gr_id g, p_id p) \<in> set (f_assigned fl)) (f_profiles fl))"
proof -
  let ?a = "filter (\<lambda>a. fst a = gr_id g) (f_assigned fl)" and ?p = "filter (\<lambda>p. (gr_id g, p_id p) \<in> set (f_assigned fl)) (f_profiles fl)"
  have k: "distinct (f_assigned fl)" "distinct (map p_id (f_profiles fl))" "snd ` set (f_assigned fl) \<subseteq> p_id ` set (f_profiles fl)"
    using assms by (auto simp: fleet_ok_def keys_ok_def refs_ok_def)
  have "set (map snd ?a) = set (map p_id ?p)" using k(3) by force
  moreover have "distinct (map snd ?a)" using k(1) by (auto simp: distinct_map inj_on_def prod_eq_iff)
  moreover have "distinct (map p_id ?p)" using k(2) by (rule distinct_map_filter)
  ultimately have "length (map snd ?a) = length (map p_id ?p)" by (metis distinct_card)
  then show ?thesis by (simp add: group_info_of_def group_row.defs)
qed

text \<open>
  C38: What the page of a group offers is exact: the devices to add and the members divide the inventory between
  them, the profiles to assign and the assigned ones the library; the number of assigned profiles is the one of the list of
  groups; every assigned profile, and no other, has a status, and its three counts do not exceed the memberships.
\<close>

theorem group_page_complete:
  assumes "fleet_ok (c_fleet (fc_core st))" and "\<forall>k. ev_fault ev k = None"
    and "group_data ev i st = GroupData g members assigned status more_devices more_profiles"
  shows "d_id ` set members \<inter> d_id ` set more_devices = {} \<and>
    d_id ` set members \<union> d_id ` set more_devices = d_id ` set (f_devices (c_fleet (fc_core st))) \<and>
    p_id ` set assigned \<inter> p_id ` set more_profiles = {} \<and>
    p_id ` set assigned \<union> p_id ` set more_profiles = p_id ` set (f_profiles (c_fleet (fc_core st))) \<and>
    gi_profiles g = length assigned \<and> dom status = p_id ` set assigned \<and>
    (\<forall>k s. status k = Some s \<longrightarrow> gs_profile s = k \<and> gs_installed s + gs_pending s + gs_failed s \<le> gi_devices g)"
proof -
  let ?fl = "c_fleet (fc_core st)"
  obtain row where g: "g = group_info_of ?fl row" "group_from_path ev i st = Some g"
    using assms(3) by (auto simp: group_data_def group_from_path_def get_group_def Let_def split: option.splits parsed.splits sum.splits)
  have id: "gr_id g = gr_id row" by (simp add: g(1) group_info_of_def group_row.defs)
  have m: "members = nocase d_name (map (\<lambda>d. d\<lparr>d_capacity := [], d_battery := [], d_inventory_at := None\<rparr>)
        (filter (\<lambda>d. (gr_id g, d_id d) \<in> set (f_members ?fl)) (f_devices ?fl)))"
    and a: "assigned = nocase p_name (filter (\<lambda>p. (gr_id g, p_id p) \<in> set (f_assigned ?fl)) (f_profiles ?fl))"
    and s: "status = status_by_profile (or_empty (group_deploy_status None (gr_id g) ?fl))"
    and d: "more_devices = addable d_id members (or_empty (list_devices None (f_devices ?fl)))"
    and p: "more_profiles = addable p_id assigned (or_empty (list_profiles None ?fl))"
    using assms(2,3) g(2)
    by (auto simp: group_data_def Let_def group_devices_def group_profiles_def on_read_def or_empty_def)
  have ds: "d_id ` set (or_empty (list_devices None (f_devices ?fl))) = d_id ` set (f_devices ?fl)"
    by (simp add: or_empty_def list_devices_def list_devices_filtered_def)
  have ps: "p_id ` set (or_empty (list_profiles None ?fl)) = p_id ` set (f_profiles ?fl)"
    by (simp add: or_empty_def list_profiles_def on_read_def nocase_def)
  have ms: "d_id ` set members \<subseteq> d_id ` set (f_devices ?fl)" "p_id ` set assigned \<subseteq> p_id ` set (f_profiles ?fl)"
    by (auto simp: m a nocase_def)
  have n: "gi_profiles g = length assigned" using group_info_profiles[OF assms(1), of row] by (simp add: g(1) a nocase_def id[unfolded g(1)])
  let ?F = "\<lambda>p. \<lparr>gs_profile = p_id p, gs_name = p_name p, gs_identifier = p_identifier p,
       gs_installed = count_status (gr_id g) (p_id p) ''installed'' ?fl, gs_pending = count_status (gr_id g) (p_id p) ''sent'' ?fl,
       gs_failed = count_status (gr_id g) (p_id p) ''failed'' ?fl\<rparr>"
  have ss: "set (or_empty (group_deploy_status None (gr_id g) ?fl)) = ?F ` set assigned"
    by (simp add: or_empty_def group_deploy_status_def on_read_def nocase_def a)
  have c: "gs_installed s + gs_pending s + gs_failed s \<le> gi_devices g \<and> gs_profile s = k" if "status k = Some s" for k s
  proof -
    from status_by_profile_image(2)[OF that[unfolded \<open>status = _\<close>]]
    have k: "s \<in> ?F ` set assigned" "gs_profile s = k" unfolding ss by simp_all
    from k(1) obtain p :: profile where "s = ?F p" by (rule imageE)
    moreover have "gi_devices g = length (filter (\<lambda>m. fst m = gr_id g) (f_members ?fl))"
      by (simp add: g(1) group_info_of_def group_row.defs)
    ultimately show ?thesis using count_status_exclusive[of "gr_id g" "p_id p" ?fl] k(2) by simp
  qed
  have "dom status = p_id ` set assigned" unfolding \<open>status = _\<close> status_by_profile_image(1) ss by (simp add: image_image)
  moreover have "\<forall>k s. status k = Some s \<longrightarrow> gs_profile s = k \<and> gs_installed s + gs_pending s + gs_failed s \<le> gi_devices g" using c by blast
  ultimately show ?thesis
    using addable_partition[OF ms(1)[folded ds]] addable_partition[OF ms(2)[folded ps]] n by (simp only: d p ds ps simp_thms)
qed

subsection \<open>The dashboard\<close>

text \<open>
  The dashboard shows at most five devices, the latest seen: none that it leaves out was seen later than one that it shows; the
  number of active devices is part of the total, which is the size of the inventory.
\<close>

theorem dashboard_latest:
  assumes "\<forall>k. ev_fault ev k = None" and "dashboard_data a ev pt st = DashboardData n active recent url apns"
  shows "n = length (f_devices (c_fleet (fc_core st))) \<and> active \<le> n \<and> length recent = min 5 n \<and>
    (\<forall>d\<in>set recent. \<forall>e\<in>set (f_devices (c_fleet (fc_core st))) - set recent. d_last_seen e \<le> d_last_seen d)"
proof -
  let ?ds = "f_devices (c_fleet (fc_core st))"
  let ?l = "rev (sort_key d_last_seen ?ds)"
  have r: "recent = take 5 ?l" and c: "n = length ?ds" "active \<le> n"
    using assms by (auto simp: dashboard_data_def Let_def device_counts_def or_empty_def list_devices_def list_devices_filtered_def)
  have "d_last_seen e \<le> d_last_seen d" if "d \<in> set (take 5 ?l)" "e \<in> set ?ds - set (take 5 ?l)" for d e
  proof -
    have "set ?l = set (take 5 ?l) \<union> set (drop 5 ?l)" by (metis append_take_drop_id set_append)
    with that(2) have e: "e \<in> set (drop 5 ?l)" by auto
    have "sorted_wrt (\<lambda>x y. y \<le> x) (map d_last_seen ?l)" by (simp add: rev_map[symmetric] sorted_wrt_rev)
    then have "sorted_wrt (\<lambda>x y. d_last_seen y \<le> d_last_seen x) (take 5 ?l @ drop 5 ?l)" by (simp add: sorted_wrt_map)
    with that(1) e show ?thesis by (metis sorted_wrt_append)
  qed
  with r c show ?thesis by auto
qed

subsection \<open>What the pages get wrong\<close>

text \<open>The URL under which the dashboard tells the administrator to enroll devices is refused by default.\<close>

theorem advertised_url_refused:
  assumes "allow_open cfg = allow_open default_config"
  shows "\<exists>recent active n apns. dashboard_data a ev pt st = DashboardData n active recent
      (trim_right (\<lambda>c. c = CHR ''/'') (ap_public_url a) @ ''/enroll'') apns"
    "serve_open (c\<lparr>ec_allow_open := allow_open cfg\<rparr>) ee = Refused 404 ''404 page not found''"
  using assms by (simp_all add: dashboard_data_def Let_def enrollment_url_def serve_open_def default_config_def)

text \<open>
  A device can be made a member before it is known: it is then counted in the list of groups, but the page of
  the group, from which members are removed, does not show it.
\<close>

theorem hidden_member:
  assumes "has_group g fl" and "i \<notin> d_id ` set (f_devices fl)" and "(g, i) \<notin> set (f_members fl)"
  shows "\<exists>fl'. add_device_to_group None g i fl = (Inr (), fl') \<and>
    gi_devices (group_info_of fl' row) = gi_devices (group_info_of fl row) + (if gr_id row = g then 1 else 0) \<and>
    group_devices None g fl' = group_devices None g fl"
proof -
  have "filter (\<lambda>d. d_id d = i \<or> (g, d_id d) \<in> set (f_members fl)) (f_devices fl) =
      filter (\<lambda>d. (g, d_id d) \<in> set (f_members fl)) (f_devices fl)"
    using assms(2) by (intro filter_cong) auto
  with assms show ?thesis
    by (simp add: add_device_to_group_def group_info_of_def group_row.defs group_devices_def on_read_def)
qed

subsection \<open>A page\<close>

theorem group_page_complete_witness:
  "\<exists>g members assigned status more_devices more_profiles.
     group_data demo_web_env ''1'' (demo_state\<lparr>fc_core := demo_fleet\<rparr>) = GroupData g members assigned status more_devices more_profiles \<and>
     gi_profiles g = length assigned \<and> dom status = p_id ` set assigned"
proof -
  let ?st = "demo_state\<lparr>fc_core := demo_fleet\<rparr>"
  have "parse_int ''1'' = ParsedInt 1" by code_simp
  then have "\<exists>g. group_from_path demo_web_env ''1'' ?st = Some g"
    by (simp add: group_from_path_def get_group_def demo_web_env_def demo_fleet_eq empty_fleet_def)
  then obtain g members assigned status more_devices more_profiles where
    d: "group_data demo_web_env ''1'' ?st = GroupData g members assigned status more_devices more_profiles"
    by (auto simp: group_data_def Let_def)
  have "fleet_ok (c_fleet (fc_core ?st))" "\<forall>k. ev_fault demo_web_env k = None" by (simp_all add: demo_fleet_ok demo_web_env_def)
  from group_page_complete[OF this d] d show ?thesis by (intro exI conjI) auto
qed

end
