(* ===== verification/Signing.thy ===== *)
theory Signing
  imports Pki Push
begin

section \<open>Signing the enrollment profile\<close>

text \<open>
  \<open>Sign\<close> of \<open>internal/profile/profile.go\<close> and what is logged of a signing identity (\<open>signer.go\<close>), joined with the wiring of
  \<open>Pki\<close>.  The PKCS7 library is a record of functions over its own message type \<open>'e\<close>; what the code relies on is that
  a finished message holds the content, the signer and the added certificates (\<open>envelope_law\<close>).
\<close>

record 'e pkcs7 =
  p7_new :: "string \<Rightarrow> string + 'e"
  p7_signer :: "cert \<Rightarrow> string \<Rightarrow> 'e \<Rightarrow> string + 'e"
  p7_certificate :: "cert \<Rightarrow> 'e \<Rightarrow> 'e"
  p7_finish :: "'e \<Rightarrow> string + string"

definition sign_profile :: "'e pkcs7 \<Rightarrow> signer \<Rightarrow> string \<Rightarrow> string + string" where
  "sign_profile lib s xml =
     (case p7_new lib xml of
        Inl e \<Rightarrow> Inl (''profile: new signed data: '' @ e)
      | Inr sd \<Rightarrow>
     (case p7_signer lib (sg_leaf s) (sg_key s) sd of
        Inl e \<Rightarrow> Inl (''profile: add signer: '' @ e)
      | Inr sd1 \<Rightarrow>
     (case p7_finish lib (fold (p7_certificate lib) (sg_chain s) sd1) of
        Inl e \<Rightarrow> Inl (''profile: finish signing: '' @ e)
      | Inr der \<Rightarrow> Inr der)))"

definition fingerprint :: "(string \<Rightarrow> string) \<Rightarrow> (nanos \<Rightarrow> string) \<Rightarrow> signer \<Rightarrow> string" where
  \<comment> \<open>\<open>sha\<close> is SHA-256; \<open>date\<close> formats a day\<close>
  "fingerprint sha date s = ct_common_name (sg_leaf s) @ '' (sha256:'' @ take 16 (hex_encode (sha (ct_raw (sg_leaf s)))) @
     [CHR 0xE2, CHR 0x80, CHR 0xA6] @ '', expires '' @ date (ct_not_after (sg_leaf s)) @ '')''"

definition days_until_expiry :: "nanos \<Rightarrow> signer \<Rightarrow> int" where
  "days_until_expiry now s = days_left now (ct_not_after (sg_leaf s))"

definition enroll_with :: "'e pkcs7 \<Rightarrow> 'k deps \<Rightarrow> enroll_env \<Rightarrow> enroll_env" where
  \<comment> \<open>the endpoint signs with the identity that \<open>wirePKI\<close> loaded\<close>
  "enroll_with lib d ev = ev\<lparr>ee_sign := map_option (sign_profile lib) (de_signer d)\<rparr>"

definition key_pair_law :: "(cert \<Rightarrow> string \<Rightarrow> bool) \<Rightarrow> 'k crypto \<Rightarrow> (string \<Rightarrow> string \<Rightarrow> string + string list \<times> string) \<Rightarrow> bool" where
  \<comment> \<open>\<open>tls.LoadX509KeyPair\<close> returns only a key that belongs to the first certificate\<close>
  "key_pair_law fits lib pair \<longleftrightarrow> (\<forall>cf kf der ders k c. pair cf kf = Inr (der # ders, k) \<and> cr_parse lib der = Inr c \<longrightarrow> fits c k)"

definition envelope_law :: "(cert \<Rightarrow> string \<Rightarrow> bool) \<Rightarrow> 'e pkcs7 \<Rightarrow> (string \<Rightarrow> (string \<times> string \<times> string list) option) \<Rightarrow> bool" where
  \<comment> \<open>what a device reads in a message that was signed with the signer's own key: the content, the signer, the other certificates\<close>
  "envelope_law fits lib opens \<longleftrightarrow> (\<forall>xml c k sd sd1 cs der. fits c k \<and> p7_new lib xml = Inr sd \<and> p7_signer lib c k sd = Inr sd1 \<and>
     p7_finish lib (fold (p7_certificate lib) cs sd1) = Inr der \<longrightarrow> opens der = Some (xml, ct_raw c, map ct_raw cs))"

lemma sign_profile_opens:
  assumes "envelope_law fits lib opens" and "fits (sg_leaf s) (sg_key s)" and "sign_profile lib s xml = Inr der"
  shows "opens der = Some (xml, ct_raw (sg_leaf s), map ct_raw (sg_chain s))"
  using assms by (auto simp: envelope_law_def sign_profile_def split: sum.splits)

lemma parse_chain_all: "parse_chain lib ders = Inr cs \<Longrightarrow> list_all2 (\<lambda>der c. cr_parse lib der = Inr c) ders cs"
  by (induction ders arbitrary: cs) (auto simp: and_then_Inr split: sum.splits)

lemma load_signer_spec:
  assumes "load_signer lib pair rfc3339 now cert_file key_file = Inr s"
  obtains der ders where "pair cert_file key_file = Inr (der # ders, sg_key s)" and "cr_parse lib der = Inr (sg_leaf s)"
    and "list_all2 (\<lambda>der c. cr_parse lib der = Inr c) ders (sg_chain s)"
    and "ct_not_before (sg_leaf s) \<le> now" and "now \<le> ct_not_after (sg_leaf s)"
  using assms by (auto simp: load_signer_def dest: parse_chain_all split: sum.splits list.splits prod.splits if_splits)

lemma wire_pki_signer:
  assumes "wire_pki lib pu pe cfg tbl = Some (Inr (pki, deps), tbl')" and "signing_enabled (cfg_signing cfg)"
  shows "\<exists>s. de_signer deps = Some s \<and> load_signer lib (pe_pair pe) (pe_rfc3339 pe) (pe_now pe) (signing_cert_file (cfg_signing cfg))
    (signing_key_file (cfg_signing cfg)) = Inr s"
  using assms
  by (auto simp: wire_pki_def wire_signer_def wire_embedded_def wire_external_def Let_def split: if_splits sum.splits option.splits prod.splits)

text \<open>
  C39: With a signing identity configured no unsigned enrollment profile is ever served.  A server
  that started found in the configured file a chain with its key, whose first certificate, the
  leaf, was valid at that moment; and every profile it hands out opens to exactly the marshaled
  profile, signed by that leaf and carrying every other certificate of the file, in their order.
\<close>

theorem enrollment_signed:
  assumes "wire_pki lib pu pe cfg tbl = Some (Inr (pki, deps), tbl')" and "signing_enabled (cfg_signing cfg)"
    and "key_pair_law fits lib (pe_pair pe)" and "envelope_law fits p7 opens"
    and "serve_profile (de_enroll deps) (enroll_with p7 deps ev) red = Served prof body"
  shows "\<exists>der ders key leaf chain xml.
    pe_pair pe (signing_cert_file (cfg_signing cfg)) (signing_key_file (cfg_signing cfg)) = Inr (der # ders, key) \<and>
    cr_parse lib der = Inr leaf \<and> list_all2 (\<lambda>der c. cr_parse lib der = Inr c) ders chain \<and>
    ct_not_before leaf \<le> pe_now pe \<and> pe_now pe \<le> ct_not_after leaf \<and>
    ee_marshal ev prof = Inr xml \<and> opens body = Some (xml, ct_raw leaf, map ct_raw chain)"
proof -
  obtain s where s: "de_signer deps = Some s" "load_signer lib (pe_pair pe) (pe_rfc3339 pe) (pe_now pe) (signing_cert_file (cfg_signing cfg))
    (signing_key_file (cfg_signing cfg)) = Inr s" using wire_pki_signer[OF assms(1,2)] by blast
  from assms(5) s(1) obtain xml where x: "ee_marshal ev prof = Inr xml" "sign_profile p7 s xml = Inr body"
    by (auto simp: serve_profile_def enroll_with_def split: sum.splits if_splits)
  from s(2) show ?thesis
  proof (rule load_signer_spec)
    fix der ders
    assume p: "pe_pair pe (signing_cert_file (cfg_signing cfg)) (signing_key_file (cfg_signing cfg)) = Inr (der # ders, sg_key s)"
      "cr_parse lib der = Inr (sg_leaf s)"
    then have "fits (sg_leaf s) (sg_key s)" using assms(3) unfolding key_pair_law_def by blast
    from sign_profile_opens[OF assms(4) this x(2)] p x(1)
    show "list_all2 (\<lambda>der c. cr_parse lib der = Inr c) ders (sg_chain s) \<Longrightarrow> ct_not_before (sg_leaf s) \<le> pe_now pe \<Longrightarrow>
      pe_now pe \<le> ct_not_after (sg_leaf s) \<Longrightarrow> ?thesis" by blast
  qed
qed

subsection \<open>A signed profile\<close>

definition seal_items :: "string list \<Rightarrow> string" where
  "seal_items is = concat (map (\<lambda>i. concat (map (\<lambda>c. [CHR ''x'', c]) i) @ [CHR ''|'']) is)"

fun read_items :: "string \<Rightarrow> string list" where
  "read_items [] = []"
| "read_items [a] = (if a = CHR ''|'' then [[]] else [])"
| "read_items (a # c # s) =
     (if a = CHR ''|'' then [] # read_items (c # s)
      else case read_items s of [] \<Rightarrow> [] | i # is \<Rightarrow> (c # i) # is)"

lemma read_items_end: "read_items (CHR ''|'' # s) = [] # read_items s"
  by (cases s) simp_all

lemma read_items_item: "read_items (concat (map (\<lambda>c. [CHR ''x'', c]) i) @ CHR ''|'' # s) = i # read_items s"
  by (induction i) (simp_all add: read_items_end)

lemma read_seal: "read_items (seal_items is) = is"
  by (induction "is") (simp_all add: seal_items_def read_items_item)

definition demo_pkcs7 :: "string list pkcs7" where
  \<comment> \<open>a message is the list of its parts\<close>
  "demo_pkcs7 = \<lparr>p7_new = (\<lambda>xml. Inr [xml]), p7_signer = (\<lambda>c k e. Inr (take 1 e @ [if k = ''key'' then ct_raw c else []])), p7_certificate = (\<lambda>c e. e @ [ct_raw c]),
     p7_finish = (\<lambda>e. Inr (seal_items e))\<rparr>"

definition demo_opens :: "string \<Rightarrow> (string \<times> string \<times> string list) option" where
  "demo_opens der = (case read_items der of xml # leaf # cs \<Rightarrow> Some (xml, leaf, cs) | _ \<Rightarrow> None)"

lemma demo_envelope: "envelope_law (\<lambda>c k. k = ''key'') demo_pkcs7 demo_opens"
proof -
  have "fold (\<lambda>c e. e @ [ct_raw c]) cs e = e @ map ct_raw cs" for cs :: "cert list" and e
    by (induction cs arbitrary: e) simp_all
  then show ?thesis by (auto simp: envelope_law_def demo_pkcs7_def demo_opens_def read_seal)
qed

definition demo_signing_config :: config where
  "demo_signing_config = demo_pki_config\<lparr>cfg_signing := \<lparr>signing_cert_file = ''sign.pem'', signing_key_file = ''sign.key''\<rparr>\<rparr>"

definition demo_signing_env :: "string pki_env" where
  "demo_signing_env = demo_pki_env\<lparr>pe_pair := (\<lambda>c k. Inr ([''leaf'', ''intermediate''], ''key''))\<rparr>"

lemma demo_signed:
  "\<exists>pki deps tbl'. wire_pki demo_crypto Pki.demo_url demo_signing_env demo_signing_config None = Some (Inr (pki, deps), tbl') \<and>
     ec_organization (de_enroll deps) = ''cairn.m'' \<and> map ct_raw (sg_chain (the (de_signer deps))) = [''intermediate'']"
proof -
  have "public_host Pki.demo_url u = ''m''" for u by (simp add: public_host_def Pki.demo_url_def) code_simp
  then show ?thesis
    by (simp add: wire_pki_def wire_signer_def demo_signing_config_def demo_pki_config_def default_config_def signing_enabled_def embedded_def
        wire_embedded_def import_options_def serve_options_def empty_options_def ensure_def load_ca_def demo_signing_env_def demo_pki_env_def
        demo_ca_env_def ca_defaults_def generate_ca_def insert_ca_def demo_crypto_def scep_handler_def enroll_config_def load_signer_def Let_def)
qed

theorem enrollment_signed_witness:
  "\<exists>body chain (leaf :: cert). list_all2 (\<lambda>der c. cr_parse demo_crypto der = Inr c) [''intermediate''] chain \<and>
     demo_opens body = Some (''xml'', ct_raw leaf, map ct_raw chain)"
proof -
  obtain pki deps tbl' where w: "wire_pki demo_crypto Pki.demo_url demo_signing_env demo_signing_config None = Some (Inr (pki, deps), tbl')"
    and o: "ec_organization (de_enroll deps) = ''cairn.m''" "map ct_raw (sg_chain (the (de_signer deps))) = [''intermediate'']"
    using demo_signed by (elim exE conjE) (rule that)
  have g: "signing_enabled (cfg_signing demo_signing_config)" by (simp add: demo_signing_config_def signing_enabled_def)
  let ?red = "\<lparr>red_id = 0, red_platform = [], red_owner = [], red_expected_serial = []\<rparr>"
  obtain s where s: "de_signer deps = Some s" using wire_pki_signer[OF w g] by blast
  have m: "ee_marshal (demo_enroll_env ''topic'') p = Inr ''xml''" for p by (simp add: demo_enroll_env_def)
  obtain prof where "build_enrollment (\<lambda>n. replicate 16 0) (params_for (de_enroll deps) ''topic'' []) = Inr prof"
    using o(1) by (auto simp: build_enrollment_def params_for_def Let_def)
  then have "\<exists>prof body. serve_profile (de_enroll deps) (enroll_with demo_pkcs7 deps (demo_enroll_env ''topic'')) ?red = Served prof body"
    by (simp add: serve_profile_def enroll_with_def demo_enroll_env_def s sign_profile_def demo_pkcs7_def)
  then obtain prof body where sv: "serve_profile (de_enroll deps) (enroll_with demo_pkcs7 deps (demo_enroll_env ''topic'')) ?red = Served prof body" by blast
  have kl: "key_pair_law (\<lambda>c k. k = ''key'') demo_crypto (pe_pair demo_signing_env)"
    by (simp add: key_pair_law_def demo_signing_env_def)
  obtain der ders key xml and leaf :: cert and chain :: "cert list" where
    "pe_pair demo_signing_env (signing_cert_file (cfg_signing demo_signing_config)) (signing_key_file (cfg_signing demo_signing_config)) = Inr (der # ders, key)"
    "list_all2 (\<lambda>der c. cr_parse demo_crypto der = Inr c) ders chain" "ee_marshal (demo_enroll_env ''topic'') prof = Inr xml"
    "demo_opens body = Some (xml, ct_raw leaf, map ct_raw chain)"
    using enrollment_signed[OF w g kl demo_envelope sv] by (elim exE conjE) (rule that, assumption+)
  with m show ?thesis
    by (intro exI[of _ body] exI[of _ chain] exI[of _ leaf]) (simp add: demo_signing_env_def)
qed

end
