(* ===== verification/Service.thy ===== *)
theory Service
  imports Commands KeyStores
begin

section \<open>The MDM endpoint\<close>

text \<open>
  How \<open>internal/mdmcore/service.go\<close> puts the handler of the device protocol together, and what
  \<open>internal/storage/sqlite/nanostore.go\<close> gives the library: the event service of \<open>Commands\<close> around the protocol core, the
  certificate check around both.  The core, the check and the extraction of the certificate are NanoMDM's: parameters.
  What the code relies on is that the check, which goes first, lets a message pass only with a certificate that it finds or
  records for the enrollment, and never removes an association (\<open>gate_law\<close>).
\<close>

subsection \<open>The storage\<close>

definition nano_buckets :: "string list" where
  \<comment> \<open>of the one table, in the order of \<open>nanokv.New\<close>\<close>
  "nano_buckets = [''users'', ''certauth'', ''queue'', ''pushcert'', ''devices'', ''enrollments'']"

record cert_store =
  cs_has :: "string \<Rightarrow> cert_auth \<Rightarrow> sql_err + bool"
  cs_enrollment_has :: "string \<Rightarrow> string \<Rightarrow> cert_auth \<Rightarrow> sql_err + bool"
  cs_associated :: "string \<Rightarrow> string \<Rightarrow> cert_auth \<Rightarrow> sql_err + bool"
  cs_associate :: "string \<Rightarrow> string \<Rightarrow> cert_auth \<Rightarrow> (sql_err + unit) \<times> cert_auth"
  cs_from_hash :: "string \<Rightarrow> cert_auth \<Rightarrow> sql_err + string"

definition nano_store :: "(string \<Rightarrow> fault) \<Rightarrow> cert_store" where
  \<comment> \<open>the overridden methods; the rest of the storage is the library's over the buckets\<close>
  "nano_store ft = \<lparr>cs_has = has_cert_hash (ft ''has''), cs_enrollment_has = enrollment_has_cert_hash (ft ''enrollment''),
     cs_associated = is_cert_hash_associated (ft ''associated''), cs_associate = associate_cert_hash (ft ''associate''),
     cs_from_hash = enrollment_from_hash (ft ''from'')\<rparr>"

subsection \<open>The chain of services\<close>

datatype message = AuthenticateMsg authenticate_msg | TokenUpdateMsg | CheckOutMsg | ResultsMsg command_results
  | OtherMsg string string
  \<comment> \<open>the kinds that the event service embeds and does not override: user authentication, bootstrap tokens,
     declarative management, tokens\<close>

record 'p mdm_state =
  md_core :: core
  md_certs :: cert_auth
  md_protocol :: 'p           \<comment> \<open>the library's own state\<close>
  md_pushable :: "string list"   \<comment> \<open>the hooks that were started\<close>

type_synonym 'p protocol = "string \<Rightarrow> message \<Rightarrow> 'p \<Rightarrow> (string + string option) \<times> 'p"
  \<comment> \<open>the next command for the device, or the error\<close>
type_synonym gate = "cert_store \<Rightarrow> string option \<Rightarrow> string \<Rightarrow> message \<Rightarrow> cert_auth \<Rightarrow> (string + unit) \<times> cert_auth"

definition err_of :: "'e + 'a \<Rightarrow> 'e option" where
  "err_of x = (case x of Inl e \<Rightarrow> Some e | Inr _ \<Rightarrow> None)"

definition event_service ::
  "(string \<Rightarrow> dict option) \<Rightarrow> projection \<Rightarrow> 'p protocol \<Rightarrow> nanos \<Rightarrow> string \<Rightarrow> message \<Rightarrow> 'p mdm_state \<Rightarrow> (string + string option) \<times> 'p mdm_state" where
  "event_service decode pj inner now i m st0 =
     (case inner i m (md_protocol st0) of (res, p) \<Rightarrow>
      let st = st0\<lparr>md_protocol := p\<rparr> in
      case m of
        AuthenticateMsg a \<Rightarrow> (res, st\<lparr>md_core := snd (on_authenticate decode pj (err_of res) now i a (md_core st))\<rparr>)
      | TokenUpdateMsg \<Rightarrow> (case on_token_update pj (err_of res) now i (md_core st) of (_, c, hook) \<Rightarrow>
          (res, st\<lparr>md_core := c, md_pushable := md_pushable st @ (case hook of None \<Rightarrow> [] | Some d \<Rightarrow> [d])\<rparr>))
      | CheckOutMsg \<Rightarrow> (res, st\<lparr>md_core := snd (on_check_out pj (err_of res) now i (md_core st))\<rparr>)
      | ResultsMsg r \<Rightarrow> (res, st\<lparr>md_core := snd (on_command_results decode pj res now i r (md_core st))\<rparr>)
      | OtherMsg k body \<Rightarrow> (res, st))"

definition plain_service :: "'p protocol \<Rightarrow> string \<Rightarrow> message \<Rightarrow> 'p mdm_state \<Rightarrow> (string + string option) \<times> 'p mdm_state" where
  "plain_service inner i m st = (case inner i m (md_protocol st) of (res, p) \<Rightarrow> (res, st\<lparr>md_protocol := p\<rparr>))"

definition mdm_service ::
  "(string \<Rightarrow> dict option) \<Rightarrow> projection \<Rightarrow> 'p protocol \<Rightarrow> gate \<Rightarrow> cert_store \<Rightarrow> nanos \<Rightarrow> string option \<Rightarrow> string \<Rightarrow> message \<Rightarrow>
   'p mdm_state \<Rightarrow> (string + string option) \<times> 'p mdm_state" where
  \<comment> \<open>\<open>mdmcore.New\<close>: the certificate check on the outside\<close>
  "mdm_service decode pj inner gate cs now cert i m st =
     (case gate cs cert i m (md_certs st) of
        (Inl e, certs) \<Rightarrow> (Inl e, st\<lparr>md_certs := certs\<rparr>)
      | (Inr _, certs) \<Rightarrow>
          if pj_on pj \<or> pj_recorder pj then event_service decode pj inner now i m (st\<lparr>md_certs := certs\<rparr>)
          else plain_service inner i m (st\<lparr>md_certs := certs\<rparr>))"

definition handle_mdm ::
  "('r \<Rightarrow> string option) \<Rightarrow> ('r \<Rightarrow> string + string \<times> message) \<Rightarrow> (string \<Rightarrow> dict option) \<Rightarrow> projection \<Rightarrow> 'p protocol \<Rightarrow> gate \<Rightarrow> cert_store \<Rightarrow>
   nanos \<Rightarrow> 'r \<Rightarrow> 'p mdm_state \<Rightarrow> (string + string option) \<times> 'p mdm_state" where
  \<comment> \<open>\<open>extract\<close>: the hash of the certificate of a verified signature; \<open>parse\<close>: the enrollment and its message\<close>
  "handle_mdm extract parse decode pj inner gate cs now r st =
     (case parse r of
        Inl e \<Rightarrow> (Inl e, st)
      | Inr (i, m) \<Rightarrow> mdm_service decode pj inner gate cs now (extract r) i m st)"

definition gate_law :: "gate \<Rightarrow> cert_store \<Rightarrow> bool" where
  "gate_law gate cs \<longleftrightarrow>
     (\<forall>cert i m rows rows'. gate cs cert i m rows = (Inr (), rows') \<longrightarrow> (\<exists>h. cert = Some h \<and> (i, h) \<in> set rows')) \<and>
     (\<forall>cert i m rows. set rows \<subseteq> set (snd (gate cs cert i m rows)))"

subsection \<open>Every device of the inventory has a certificate\<close>

lemma buckets_distinct: "distinct nano_buckets"
  by (simp add: nano_buckets_def)

lemma ids_update: "(\<And>d. d_id (f d) = d_id d) \<Longrightarrow> d_id ` set (update_where P f rows) = d_id ` set rows"
  using map_update_where[where g = d_id and f = f] by (metis set_map)

lemma device_ids:
  "d_id ` set (snd (device_enrolled ft now r rows)) \<subseteq> insert (dr_id r) (d_id ` set rows)"
  "d_id ` set (snd (device_token_updated ft now i rows)) = d_id ` set rows"
  "d_id ` set (snd (device_checked_out ft now i rows)) = d_id ` set rows"
  "d_id ` set (snd (device_checked_in ft now i rows)) = d_id ` set rows"
  "d_id ` set (snd (store_inventory ft now i v rows)) = d_id ` set rows"
proof -
  have "d_id ` set (upsert (\<lambda>d. d_id d = dr_id r) (enroll_again t r) (enroll_new t r) rows) \<subseteq> insert (dr_id r) (d_id ` set rows)" for t
    using ids_update[of "enroll_again t r"] by (auto simp: upsert_def enroll_again_def enroll_new_def split: option.splits)
  then show "d_id ` set (snd (device_enrolled ft now r rows)) \<subseteq> insert (dr_id r) (d_id ` set rows)"
    by (cases ft) (auto simp: device_enrolled_def on_fault_def)
qed (cases ft; simp add: device_token_updated_def device_checked_out_def device_checked_in_def store_inventory_def on_fault_def
      ids_update project_inventory_def)+

lemma with_devices_ids:
  "d_id ` set (snd (f (f_devices (c_fleet st)))) \<subseteq> insert i (d_id ` set (f_devices (c_fleet st))) \<Longrightarrow>
   d_id ` set (f_devices (c_fleet (with_devices on f st))) \<subseteq> insert i (d_id ` set (f_devices (c_fleet st)))"
  by (auto simp: with_devices_def)

lemma command_result_devices [simp]: "f_devices (snd (command_result ft ft2 now d u s e fl)) = f_devices fl"
  by (simp add: command_result_def Let_def split: option.splits)

lemma dr_id_record: "dr_id (record_from_authenticate decode i m) = i"
  by (simp add: record_from_authenticate_def enrich_from_raw_def split: option.splits)

abbreviation known :: "core \<Rightarrow> string set" where
  "known c \<equiv> d_id ` set (f_devices (c_fleet c))"

lemma on_message_ids:
  "known (snd (on_authenticate decode pj err now i a c)) \<subseteq> insert i (known c)"
  "known (fst (snd (on_token_update pj err now i c))) = known c"
  "known (snd (on_check_out pj err now i c)) = known c"
  "known (snd (on_command_results decode pj res now i r c)) = known c"
  using device_ids(1)[of "pj_device pj" now "record_from_authenticate decode i a"]
  by (auto simp: on_authenticate_def on_token_update_def on_check_out_def on_command_results_def with_devices_def Let_def dr_id_record
      device_ids(2-) split: option.splits sum.splits)

lemma event_service_ids:
  "known (md_core (snd (event_service decode pj inner now i m st))) \<subseteq> insert i (known (md_core st)) \<and>
   md_certs (snd (event_service decode pj inner now i m st)) = md_certs st"
proof -
  have t: "known c = known (md_core st)" if "on_token_update pj err now i (md_core st) = (e, c, h)" for err e c h
    using on_message_ids(2)[of pj err now i "md_core st"] that by simp
  show ?thesis
    by (cases m) (auto simp: event_service_def Let_def on_message_ids dest: t subsetD[OF on_message_ids(1)] split: prod.splits)
qed

lemma mdm_service_ids:
  assumes "gate_law gate cs" and "snd (mdm_service decode pj inner gate cs now cert i m st) = st'"
  shows "set (md_certs st) \<subseteq> set (md_certs st')"
    "known (md_core st') \<subseteq> known (md_core st) \<or> (\<exists>h. (i, h) \<in> set (md_certs st')) \<and> known (md_core st') \<subseteq> insert i (known (md_core st))"
proof -
  obtain g certs where g: "gate cs cert i m (md_certs st) = (g, certs)" by fastforce
  obtain res p where r: "inner i m (md_protocol (st\<lparr>md_certs := certs\<rparr>)) = (res, p)" by fastforce
  from assms(1) g have c: "set (md_certs st) \<subseteq> set certs" "g = Inr () \<Longrightarrow> \<exists>h. (i, h) \<in> set certs"
    unfolding gate_law_def by (metis snd_conv)+
  have k: "md_certs st' = certs" "g \<noteq> Inr () \<Longrightarrow> known (md_core st') = known (md_core st)"
    "known (md_core st') \<subseteq> insert i (known (md_core st))"
    using event_service_ids[of decode pj inner now i m "st\<lparr>md_certs := certs\<rparr>"] r
    unfolding assms(2)[symmetric] by (auto simp: mdm_service_def g plain_service_def split: sum.splits)
  then show "set (md_certs st) \<subseteq> set (md_certs st')"
    "known (md_core st') \<subseteq> known (md_core st) \<or> (\<exists>h. (i, h) \<in> set (md_certs st')) \<and> known (md_core st') \<subseteq> insert i (known (md_core st))"
    using c by (cases "g = Inr ()"; simp)+
qed

definition certified :: "'p mdm_state \<Rightarrow> bool" where
  "certified st \<longleftrightarrow> (\<forall>i\<in>known (md_core st). \<exists>h. (i, h) \<in> set (md_certs st))"

lemma mdm_service_certified:
  assumes "gate_law gate cs" and "certified st"
  shows "certified (snd (mdm_service decode pj inner gate cs now cert i m st))"
  using mdm_service_ids[OF assms(1) refl, where st = st and decode = decode and pj = pj and inner = inner and now = now and cert = cert and i = i and m = m] assms(2) unfolding certified_def by blast

definition mdm_run ::
  "('r \<Rightarrow> string option) \<Rightarrow> ('r \<Rightarrow> string + string \<times> message) \<Rightarrow> (string \<Rightarrow> dict option) \<Rightarrow> 'p protocol \<Rightarrow> gate \<Rightarrow>
   (nanos \<times> projection \<times> (string \<Rightarrow> fault) \<times> 'r) list \<Rightarrow> 'p mdm_state \<Rightarrow> 'p mdm_state" where
  "mdm_run extract parse decode inner gate evs st =
     fold (\<lambda>(now, pj, ft, r) s. snd (handle_mdm extract parse decode pj inner gate (nano_store ft) now r s)) evs st"

text \<open>
  C21: The inventory grows only through the certificate check: after any sequence of requests to the endpoint, with any
  failures of the storage, every device of the inventory has a certificate associated with it; a request without a
  verified certificate, or one that NanoMDM rejects, changes no table of the fleet and starts no reconciliation.
\<close>

theorem inventory_certified:
  assumes "\<forall>ft. gate_law gate (nano_store ft)" and "certified st"
  shows "certified (mdm_run extract parse decode inner gate evs st) \<and>
    (\<forall>pj ft now r. case handle_mdm extract parse decode pj inner gate (nano_store ft) now r st of (res, st') \<Rightarrow>
       (extract r = None \<longrightarrow> err_of res \<noteq> None) \<and>
       (err_of res \<noteq> None \<longrightarrow> md_core st' = md_core st \<and> md_pushable st' = md_pushable st))"
proof (intro conjI allI)
  have "certified (snd (handle_mdm extract parse decode pj inner gate (nano_store ft) now r s))" if "certified s" for pj ft now r s
    using that assms(1) by (auto simp: handle_mdm_def intro!: mdm_service_certified split: sum.splits)
  then have "certified s \<Longrightarrow> certified (mdm_run extract parse decode inner gate evs s)" for s
    unfolding mdm_run_def by (induction evs arbitrary: s) (auto split: prod.splits)
  with assms(2) show "certified (mdm_run extract parse decode inner gate evs st)" by blast
next
  fix pj ft now r
  have n: "\<exists>h. c = Some h" if "gate (nano_store ft) c i m rows = (Inr (), certs)" for c i m rows certs
    using assms(1) that unfolding gate_law_def by metis
  show "case handle_mdm extract parse decode pj inner gate (nano_store ft) now r st of (res, st') \<Rightarrow>
       (extract r = None \<longrightarrow> err_of res \<noteq> None) \<and>
       (err_of res \<noteq> None \<longrightarrow> md_core st' = md_core st \<and> md_pushable st' = md_pushable st)"
    by (auto simp: handle_mdm_def mdm_service_def event_service_def plain_service_def on_authenticate_def on_token_update_def
        on_check_out_def on_command_results_def err_of_def Let_def dest: n split: sum.splits prod.splits if_splits message.splits)
qed

subsection \<open>A device\<close>

definition demo_gate :: gate where
  \<comment> \<open>the first message records the certificate, every other one needs it\<close>
  "demo_gate cs cert i m rows =
     (case cert of
        None \<Rightarrow> (Inl ''no certificate'', rows)
      | Some h \<Rightarrow>
         (case m of
            AuthenticateMsg a \<Rightarrow> (case cs_associate cs i h rows of (Inl e, rows1) \<Rightarrow> (Inl ''not recorded'', rows1) | (Inr _, rows1) \<Rightarrow> (Inr (), rows1))
          | _ \<Rightarrow> (if cs_associated cs i h rows = Inr True then Inr () else Inl ''not associated'', rows)))"

lemma demo_gate_law: "gate_law demo_gate (nano_store ft)"
proof -
  have k: "associate_cert_hash f i h rows = (r, rows') \<Longrightarrow> set rows \<subseteq> set rows' \<and> (r = Inr () \<longrightarrow> (i, h) \<in> set rows')" for f i h r rows rows'
    by (cases f) (auto simp: associate_cert_hash_def on_fault_def split: if_splits)
  show ?thesis
    by (auto simp: gate_law_def demo_gate_def nano_store_def is_cert_hash_associated_def on_read_def dest: k split: option.splits message.splits
        prod.splits sum.splits if_splits)
qed

theorem inventory_certified_witness:
  "certified (mdm_run Some (\<lambda>r. Inr (r, AuthenticateMsg \<lparr>am_udid = r, am_serial = [], am_topic = [], am_raw = []\<rparr>)) (\<lambda>_. None)
     (\<lambda>i m p. (Inr None, p)) demo_gate
     [(0, \<lparr>pj_on = True, pj_recorder = True, pj_hook = True, pj_device = None, pj_inventory = None, pj_result = None, pj_result2 = None\<rparr>,
       (\<lambda>_. None), ''D1'')]
     \<lparr>md_core = \<lparr>c_fleet = empty_fleet, c_queue = []\<rparr>, md_certs = [], md_protocol = (), md_pushable = []\<rparr>)"
proof -
  have "certified \<lparr>md_core = \<lparr>c_fleet = empty_fleet, c_queue = []\<rparr>, md_certs = [], md_protocol = (), md_pushable = []\<rparr>"
    by (simp add: certified_def empty_fleet_def)
  moreover have "\<forall>ft. gate_law demo_gate (nano_store ft)" by (simp add: demo_gate_law)
  ultimately show ?thesis using inventory_certified by blast
qed

end
