(* ===== verification/Timestamps.thy ===== *)
theory Timestamps
  imports Calendar "HOL-Library.Monad_Syntax"
begin

section \<open>Stored timestamps\<close>

text \<open>
  Every time the program stores is text: \<open>time.RFC3339\<close> for the expiry of a session
  (\<open>2024-02-29T12:00:00Z\<close>), and the form of SQLite's \<open>datetime('now')\<close> for the other
  columns and for the expiry of a grant (\<open>2024-02-29 12:00:00\<close>).  \<open>rfc3339\<close> and
  \<open>sqlite_time\<close> are \<open>Format\<close> with the two layouts for a time in UTC; \<open>parse_in_zone\<close> is
  \<open>time.Parse\<close> with them, with the things it accepts that the program never writes (one-digit
  hours, several spaces, fractions of a second, zone offsets).  SQL compares the texts byte
  by byte: for the years 0 to 9999 that is the order of the times.
\<close>

subsection \<open>Numbers of fixed width\<close>

definition append_int :: "nat \<Rightarrow> int \<Rightarrow> string" where
  \<comment> \<open>\<open>appendInt\<close> of package \<open>time\<close>: decimal, padded with zeros\<close>
  "append_int w x =
     (let s = nat_str (nat \<bar>x\<bar>) in (if x < 0 then ''-'' else []) @ replicate (w - length s) (CHR ''0'') @ s)"

definition dec_digit :: "nat \<Rightarrow> char" where
  "dec_digit k = ''0123456789'' ! k"

primrec pad :: "nat \<Rightarrow> nat \<Rightarrow> string" where
  "pad 0 k = []"
| "pad (Suc n) k = pad n (k div 10) @ [dec_digit (k mod 10)]"

definition digit_val :: "char \<Rightarrow> int option" where
  "digit_val c = (let n = (of_char c :: nat) in if 48 \<le> n \<and> n \<le> 57 then Some (int n - 48) else None)"

lemma less_10_cases: "(k::nat) < 10 \<Longrightarrow> k \<in> {0, 1, 2, 3, 4, 5, 6, 7, 8, 9}"
  by auto

lemma digit_val_dec: "k < 10 \<Longrightarrow> digit_val (dec_digit k) = Some (int k)"
  by (drule less_10_cases) (auto simp: digit_val_def dec_digit_def)

lemma of_char_dec: "k < 10 \<Longrightarrow> (of_char (dec_digit k) :: nat) = 48 + k"
  by (drule less_10_cases) (auto simp: dec_digit_def)

lemma dec_digit_less: "j < 10 \<Longrightarrow> k < 10 \<Longrightarrow> dec_digit j < dec_digit k \<longleftrightarrow> j < k"
  by (simp add: less_char_def of_char_dec)

lemma dec_digit_eq: "j < 10 \<Longrightarrow> k < 10 \<Longrightarrow> dec_digit j = dec_digit k \<longleftrightarrow> j = k"
  using dec_digit_less[of j k] dec_digit_less[of k j] by (metis less_irrefl linorder_neqE_nat)

lemma dec_digit_not_space: "k < 10 \<Longrightarrow> dec_digit k \<noteq> CHR '' ''"
  using digit_val_dec[of k] by (auto simp: digit_val_def)

lemma length_pad [simp]: "length (pad n k) = n"
  by (induction n arbitrary: k) simp_all

lemma pad_zero: "pad n 0 = replicate n (CHR ''0'')"
  by (induction n) (simp_all add: dec_digit_def replicate_append_same)

lemma pad_nat_str:
  "k < 10 ^ n \<Longrightarrow> 0 < n \<Longrightarrow> replicate (n - length (nat_str k)) (CHR ''0'') @ nat_str k = pad n k"
proof (induction n arbitrary: k)
  case (Suc n)
  show ?case
  proof (cases "k < 10")
    case True
    then show ?thesis by (simp add: nat_str.simps[of k] pad_zero dec_digit_def)
  next
    case False
    with Suc.prems have "k div 10 < 10 ^ n" "0 < n" by (auto intro: Nat.gr0I)
    from Suc.IH[OF this] False show ?thesis
      by (simp add: nat_str.simps[of k] dec_digit_def)
  qed
qed simp

lemma append_int_pad: "0 \<le> x \<Longrightarrow> x < 10 ^ n \<Longrightarrow> 0 < n \<Longrightarrow> append_int n x = pad n (nat x)"
  using pad_nat_str[of "nat x" n] by (simp add: append_int_def Let_def nat_less_iff)

subsection \<open>The order of texts\<close>

lemma append_less:
  fixes xs us :: string
  shows "length xs = length us \<Longrightarrow> xs @ ys < us @ vs \<longleftrightarrow> xs < us \<or> xs = us \<and> ys < vs"
  by (induction xs us rule: list_induct2) auto

lemma radix_less: "b < 10 \<Longrightarrow> d < 10 \<Longrightarrow> a * 10 + b < c * 10 + d \<longleftrightarrow> a < c \<or> a = c \<and> b < (d::nat)"
  by arith

lemma pad_less: "j < 10 ^ n \<Longrightarrow> k < 10 ^ n \<Longrightarrow> (pad n j < pad n k \<longleftrightarrow> j < k) \<and> (pad n j = pad n k \<longleftrightarrow> j = k)"
proof (induction n arbitrary: j k)
  case (Suc n)
  have d: "j div 10 < 10 ^ n" "k div 10 < 10 ^ n" using Suc.prems by auto
  have m: "j mod 10 < 10" "k mod 10 < 10" by simp_all
  have eq: "j = k \<longleftrightarrow> j div 10 = k div 10 \<and> j mod 10 = k mod 10"
    by (metis div_mult_mod_eq)
  have less: "j < k \<longleftrightarrow> j div 10 < k div 10 \<or> j div 10 = k div 10 \<and> j mod 10 < k mod 10"
    using radix_less[OF m, of "j div 10" "k div 10"] by (simp only: div_mult_mod_eq)
  have "pad (Suc n) j < pad (Suc n) k \<longleftrightarrow> j < k"
    unfolding less using Suc.IH[OF d] dec_digit_less[OF m] by (simp add: append_less)
  moreover have "pad (Suc n) j = pad (Suc n) k \<longleftrightarrow> j = k"
    unfolding eq using Suc.IH[OF d] dec_digit_eq[OF m] by simp
  ultimately show ?case by blast
qed simp

subsection \<open>Formatting\<close>

definition format_date :: "civil \<Rightarrow> string" where
  "format_date c = append_int 4 (cv_year c) @ ''-'' @ append_int 2 (cv_month c) @ ''-'' @ append_int 2 (cv_day c)"

definition format_clock :: "civil \<Rightarrow> string" where
  "format_clock c = append_int 2 (cv_hour c) @ '':'' @ append_int 2 (cv_minute c) @ '':'' @ append_int 2 (cv_second c)"

definition format_stamp :: "char \<Rightarrow> string \<Rightarrow> secs \<Rightarrow> string" where
  "format_stamp sep zone s = (let c = civil_of s in format_date c @ [sep] @ format_clock c @ zone)"

definition rfc3339 :: "nanos \<Rightarrow> string" where
  \<comment> \<open>\<open>t.UTC().Format(time.RFC3339)\<close>\<close>
  "rfc3339 t = format_stamp (CHR ''T'') ''Z'' (to_secs t)"

definition sqlite_time :: "nanos \<Rightarrow> string" where
  \<comment> \<open>\<open>datetime('now')\<close>, and \<open>t.UTC().Format("2006-01-02 15:04:05")\<close>\<close>
  "sqlite_time t = format_stamp (CHR '' '') [] (to_secs t)"

definition text_time :: "nanos \<Rightarrow> bool" where
  \<comment> \<open>the years 0 to 9999\<close>
  "text_time t \<longleftrightarrow> - 62167219200 \<le> to_secs t \<and> to_secs t < 253402300800"

definition text_civil :: "civil \<Rightarrow> bool" where
  "text_civil c \<longleftrightarrow> valid_civil c \<and> 0 \<le> cv_year c \<and> cv_year c < 10000"

lemma text_time_civil:
  assumes "text_time t"
  shows "text_civil (civil_of (to_secs t))"
proof -
  let ?d = "to_secs t div 86400"
  have ys: "year_start 0 = - 719528" "year_start 10000 = 2932897" by (simp_all add: year_start_def)
  have "- 719528 \<le> ?d" "?d < 2932897" using assms unfolding text_time_def by linarith+
  then have "0 \<le> year_of ?d" "year_of ?d < 10000"
    using year_of_bounds[of ?d] year_start_mono[of "year_of ?d + 1" 0] year_start_mono[of 10000 "year_of ?d"] ys
    by linarith+
  then show ?thesis
    using civil_of_days(1,3)[OF refl, of "to_secs t"] by (simp add: text_civil_def)
qed

lemma text_civil_pads:
  assumes "text_civil c"
  shows "append_int 4 (cv_year c) = pad 4 (nat (cv_year c))" "append_int 2 (cv_month c) = pad 2 (nat (cv_month c))"
    "append_int 2 (cv_day c) = pad 2 (nat (cv_day c))" "append_int 2 (cv_hour c) = pad 2 (nat (cv_hour c))"
    "append_int 2 (cv_minute c) = pad 2 (nat (cv_minute c))" "append_int 2 (cv_second c) = pad 2 (nat (cv_second c))"
    and "nat (cv_year c) < 10000" "nat (cv_month c) < 100" "nat (cv_day c) < 100" "nat (cv_hour c) < 100"
    "nat (cv_minute c) < 100" "nat (cv_second c) < 100"
proof -
  have v: "1 \<le> cv_month c" "cv_month c \<le> 12" "cv_day c \<le> month_lengths (cv_year c) ! nat (cv_month c - 1)"
    using assms by (simp_all add: text_civil_def valid_civil_def valid_date_def)
  then have "nat (cv_month c - 1) < 12" by linarith
  from month_length_31[OF this, of "cv_year c"] v(3) have "cv_day c \<le> 31" by linarith
  then have b: "0 \<le> cv_year c \<and> cv_year c < 10 ^ 4" "0 \<le> cv_month c \<and> cv_month c < 10 ^ 2"
    "0 \<le> cv_day c \<and> cv_day c < 10 ^ 2" "0 \<le> cv_hour c \<and> cv_hour c < 10 ^ 2"
    "0 \<le> cv_minute c \<and> cv_minute c < 10 ^ 2" "0 \<le> cv_second c \<and> cv_second c < 10 ^ 2"
    using assms by (auto simp: text_civil_def valid_civil_def valid_date_def)
  then show "append_int 4 (cv_year c) = pad 4 (nat (cv_year c))" "append_int 2 (cv_month c) = pad 2 (nat (cv_month c))"
    "append_int 2 (cv_day c) = pad 2 (nat (cv_day c))" "append_int 2 (cv_hour c) = pad 2 (nat (cv_hour c))"
    "append_int 2 (cv_minute c) = pad 2 (nat (cv_minute c))" "append_int 2 (cv_second c) = pad 2 (nat (cv_second c))"
    by (blast intro: append_int_pad zero_less_numeral)+
  show "nat (cv_year c) < 10000" "nat (cv_month c) < 100" "nat (cv_day c) < 100" "nat (cv_hour c) < 100"
    "nat (cv_minute c) < 100" "nat (cv_second c) < 100"
    using b by (simp_all add: nat_less_iff)
qed

lemma field_less:
  assumes "0 \<le> x" "0 \<le> y" "nat x < 10 ^ n" "nat y < 10 ^ n"
  shows "pad n (nat x) < pad n (nat y) \<longleftrightarrow> x < y" "pad n (nat x) = pad n (nat y) \<longleftrightarrow> x = y"
  using pad_less[OF assms(3,4)] assms(1,2) by auto

lemma text_civil_nonneg:
  assumes "text_civil c"
  shows "0 \<le> cv_year c" "0 \<le> cv_month c" "0 \<le> cv_day c" "0 \<le> cv_hour c" "0 \<le> cv_minute c" "0 \<le> cv_second c"
  using assms by (simp_all add: text_civil_def valid_civil_def valid_date_def)

lemma format_stamp_key:
  assumes "text_civil c" "text_civil c'"
  shows "format_date c @ [sep] @ format_clock c @ zone < format_date c' @ [sep] @ format_clock c' @ zone \<longleftrightarrow>
    civil_key c < civil_key c'"
proof -
  note n = text_civil_nonneg[OF assms(1)] text_civil_nonneg[OF assms(2)]
  note p = text_civil_pads(7-12)[OF assms(1)] text_civil_pads(7-12)[OF assms(2)]
  have 4: "(10::nat) ^ 4 = 10000" and 2: "(10::nat) ^ 2 = 100" by simp_all
  note f = field_less[where n = 4, unfolded 4, OF n(1) n(7) p(1) p(7)]
    field_less[where n = 2, unfolded 2, OF n(2) n(8) p(2) p(8)]
    field_less[where n = 2, unfolded 2, OF n(3) n(9) p(3) p(9)]
    field_less[where n = 2, unfolded 2, OF n(4) n(10) p(4) p(10)]
    field_less[where n = 2, unfolded 2, OF n(5) n(11) p(5) p(11)]
    field_less[where n = 2, unfolded 2, OF n(6) n(12) p(6) p(12)]
  show ?thesis
    by (simp only: format_date_def format_clock_def text_civil_pads(1-6)[OF assms(1)]
        text_civil_pads(1-6)[OF assms(2)] append_assoc append_less length_pad f civil_key_def
        append_Cons append_Nil Cons_less_Cons less_irrefl simp_thms)
qed

lemma format_stamp_less:
  assumes "text_time t" "text_time u"
  shows "format_stamp sep zone (to_secs t) < format_stamp sep zone (to_secs u) \<longleftrightarrow> to_secs t < to_secs u"
  using format_stamp_key[OF text_time_civil[OF assms(1)] text_time_civil[OF assms(2)]]
  by (simp add: format_stamp_def Let_def civil_order)

lemma rfc3339_less: "text_time t \<Longrightarrow> text_time u \<Longrightarrow> rfc3339 t < rfc3339 u \<longleftrightarrow> to_secs t < to_secs u"
  by (simp add: rfc3339_def format_stamp_less)

lemma sqlite_time_less: "text_time t \<Longrightarrow> text_time u \<Longrightarrow> sqlite_time t < sqlite_time u \<longleftrightarrow> to_secs t < to_secs u"
  by (simp add: sqlite_time_def format_stamp_less)

lemma stamps_nonempty: "rfc3339 t \<noteq> []" "sqlite_time t \<noteq> []"
  by (simp_all add: rfc3339_def sqlite_time_def format_stamp_def Let_def)

subsection \<open>Parsing\<close>

fun get_num :: "bool \<Rightarrow> string \<Rightarrow> (int \<times> string) option" where
  \<comment> \<open>\<open>getnum\<close>: two digits, or one when the layout does not fix the width\<close>
  "get_num fixed [] = None"
| "get_num fixed (a # s) =
     (case digit_val a of
        None \<Rightarrow> None
      | Some x \<Rightarrow>
          (case s of
             [] \<Rightarrow> if fixed then None else Some (x, [])
           | b # s' \<Rightarrow> (case digit_val b of
                 None \<Rightarrow> if fixed then None else Some (x, s)
               | Some y \<Rightarrow> Some (10 * x + y, s'))))"

fun get_year :: "string \<Rightarrow> (int \<times> string) option" where
  "get_year (a # b # c # d # s) =
     do { w \<leftarrow> digit_val a; x \<leftarrow> digit_val b; y \<leftarrow> digit_val c; z \<leftarrow> digit_val d;
          Some (1000 * w + 100 * x + 10 * y + z, s) }"
| "get_year s = None"

definition skip :: "char \<Rightarrow> string \<Rightarrow> string option" where
  \<comment> \<open>one byte of the layout that is not a field; a space stands for any number of spaces, and
     for none at the end of the text\<close>
  "skip p s =
     (case s of
        [] \<Rightarrow> if p = CHR '' '' then Some [] else None
      | c # s' \<Rightarrow> if c \<noteq> p then None
                  else if p = CHR '' '' then Some (dropWhile (\<lambda>c. c = CHR '' '') s) else Some s')"

definition within :: "int \<Rightarrow> int \<Rightarrow> int \<times> string \<Rightarrow> (int \<times> string) option" where
  "within lo hi r = (if lo \<le> fst r \<and> fst r \<le> hi then Some r else None)"

definition digits_val :: "string \<Rightarrow> int" where
  "digits_val s = foldl (\<lambda>n c. 10 * n + (case digit_val c of Some x \<Rightarrow> x | None \<Rightarrow> 0)) 0 s"

definition get_fraction :: "string \<Rightarrow> int \<times> string" where
  \<comment> \<open>a fraction the layout does not have: the digits after the ninth are dropped\<close>
  "get_fraction s =
     (case s of
        p # c # _ \<Rightarrow>
          if (p = CHR ''.'' \<or> p = CHR '','') \<and> digit_val c \<noteq> None
          then (let ds = takeWhile (\<lambda>c. digit_val c \<noteq> None) (tl s); ns = take 9 ds
                in (digits_val ns * 10 ^ (9 - length ns), drop (length ds) (tl s)))
          else (0, s)
      | _ \<Rightarrow> (0, s))"

fun get_zone :: "string \<Rightarrow> (int \<times> string) option" where
  \<comment> \<open>\<open>Z07:00\<close>: the offset in seconds\<close>
  "get_zone [] = None"
| "get_zone (g # s) =
     (if g = CHR ''Z'' then Some (0, s)
      else (case s of
          a # b # c # d # e # s' \<Rightarrow>
            if c \<noteq> CHR '':'' then None
            else do {
              (hr, u) \<leftarrow> get_num True [a, b];
              (mm, v) \<leftarrow> get_num True [d, e];
              (if 24 < hr \<or> 60 < mm then None
               else if g = CHR ''+'' then Some ((hr * 60 + mm) * 60, s')
               else if g = CHR ''-'' then Some (- ((hr * 60 + mm) * 60), s')
               else None) }
        | _ \<Rightarrow> None))"

definition parse_in_zone :: "char \<Rightarrow> bool \<Rightarrow> string \<Rightarrow> (nanos \<times> int) option" where
  \<comment> \<open>the layout \<open>2006-01-02?15:04:05\<close> with the separator \<open>sep\<close> for the question mark,
     followed by \<open>Z07:00\<close> if \<open>zone\<close>; the time and the offset of the zone it is in\<close>
  "parse_in_zone sep zone s =
     do { (y, s) \<leftarrow> get_year s;
          s \<leftarrow> skip (CHR ''-'') s;
          (m, s) \<leftarrow> Option.bind (get_num True s) (within 1 12);
          s \<leftarrow> skip (CHR ''-'') s;
          (d, s) \<leftarrow> get_num True s;
          s \<leftarrow> skip sep s;
          (hh, s) \<leftarrow> Option.bind (get_num False s) (within 0 23);
          s \<leftarrow> skip (CHR '':'') s;
          (mi, s) \<leftarrow> Option.bind (get_num True s) (within 0 59);
          s \<leftarrow> skip (CHR '':'') s;
          (ss, s) \<leftarrow> Option.bind (get_num True s) (within 0 59);
          let (ns, s) = get_fraction s;
          (off, s) \<leftarrow> (if zone then get_zone s else Some (0, s));
          (if s = [] \<and> valid_date y m d
           then Some (of_secs (secs_of \<lparr>cv_year = y, cv_month = m, cv_day = d, cv_hour = hh,
                        cv_minute = mi, cv_second = ss\<rparr> - off) + ns, off)
           else None) }"

definition parse_stamp :: "char \<Rightarrow> bool \<Rightarrow> string \<Rightarrow> nanos option" where
  "parse_stamp sep zone s = map_option fst (parse_in_zone sep zone s)"

abbreviation parse_rfc3339 :: "string \<Rightarrow> nanos option" where
  "parse_rfc3339 \<equiv> parse_stamp (CHR ''T'') True"

abbreviation parse_sqlite_time :: "string \<Rightarrow> nanos option" where
  "parse_sqlite_time \<equiv> parse_stamp (CHR '' '') False"

subsection \<open>Parsing what was formatted\<close>

lemma get_num_pad: "k < 100 \<Longrightarrow> get_num fixed (pad 2 k @ s) = Some (int k, s)"
proof -
  have "10 * int (k div 10) + int (k mod 10) = int k" using mult_div_mod_eq[of 10 k] by linarith
  then show "k < 100 \<Longrightarrow> get_num fixed (pad 2 k @ s) = Some (int k, s)"
    by (simp add: numeral_2_eq_2 digit_val_dec)
qed

lemma four_digits: "a * 10 + w = k \<Longrightarrow> b * 10 + x = a \<Longrightarrow> c * 10 + y = b \<Longrightarrow> z = c \<Longrightarrow> 1000 * z + 100 * y + 10 * x + w = (k::nat)"
  by simp

lemma get_year_pad: "k < 10000 \<Longrightarrow> get_year (pad 4 k @ s) = Some (int k, s)"
proof -
  assume k: "k < 10000"
  have four: "4 = Suc (Suc (Suc (Suc 0)))" by simp
  have p: "pad 4 k @ s = dec_digit (k div 10 div 10 div 10 mod 10) # dec_digit (k div 10 div 10 mod 10)
      # dec_digit (k div 10 mod 10) # dec_digit (k mod 10) # s"
    using four by (simp only: pad.simps append.simps append_assoc)
  have "k div 10 div 10 div 10 < 10" using k by (simp add: div_less_iff_less_mult)
  then have "1000 * (k div 10 div 10 div 10 mod 10) + 100 * (k div 10 div 10 mod 10)
      + 10 * (k div 10 mod 10) + k mod 10 = k"
    by (intro four_digits[OF div_mult_mod_eq div_mult_mod_eq div_mult_mod_eq] mod_less)
  from arg_cong[OF this, of int]
  have "1000 * int (k div 10 div 10 div 10 mod 10) + 100 * int (k div 10 div 10 mod 10)
      + 10 * int (k div 10 mod 10) + int (k mod 10) = int k"
    by (simp only: of_nat_add of_nat_mult of_nat_numeral)
  moreover have "digit_val (dec_digit (j mod 10)) = Some (int (j mod 10))" for j
    by (rule digit_val_dec) simp
  ultimately show ?thesis unfolding p by (simp only: get_year.simps bind.bind_lunit)
qed

lemma skip_byte: "c \<noteq> CHR '' '' \<Longrightarrow> skip c (c # s) = Some s"
  by (simp add: skip_def)

lemma skip_space: "skip (CHR '' '') (CHR '' '' # pad 2 k @ s) = Some (pad 2 k @ s)"
  by (simp add: skip_def numeral_2_eq_2 dec_digit_not_space)

lemma format_stamp_pads:
  assumes "text_civil (civil_of s)"
  shows "format_stamp sep z s = (let c = civil_of s in pad 4 (nat (cv_year c)) @ CHR ''-'' # pad 2 (nat (cv_month c)) @
      CHR ''-'' # pad 2 (nat (cv_day c)) @ sep # pad 2 (nat (cv_hour c)) @ CHR '':'' # pad 2 (nat (cv_minute c)) @
      CHR '':'' # pad 2 (nat (cv_second c)) @ z)"
  by (simp add: format_stamp_def format_date_def format_clock_def Let_def text_civil_pads(1-6)[OF assms])

lemma parse_format:
  assumes t: "text_time t" and sep: "sep = CHR '' '' \<and> z = [] \<and> \<not> zone \<or> sep = CHR ''T'' \<and> z = ''Z'' \<and> zone"
  shows "parse_in_zone sep zone (format_stamp sep z (to_secs t)) = Some (of_secs (to_secs t), 0)"
proof -
  define c where "c = civil_of (to_secs t)"
  have c: "text_civil c" unfolding c_def by (rule text_time_civil[OF t])
  note n = text_civil_nonneg[OF c]
  note b = text_civil_pads(7-12)[OF c]
  have v: "valid_date (cv_year c) (cv_month c) (cv_day c)" "cv_hour c \<le> 23" "cv_minute c \<le> 59" "cv_second c \<le> 59"
    "1 \<le> cv_month c" "cv_month c \<le> 12"
    using c by (auto simp: text_civil_def valid_civil_def valid_date_def)
  note s = format_stamp_pads[OF c[unfolded c_def], folded c_def]
  have sk: "skip sep (sep # pad 2 k @ u) = Some (pad 2 k @ u)" for k u
    using sep skip_space skip_byte[of "CHR ''T''"] by auto
  have fr: "get_fraction z = (0, z)" using sep by (auto simp: get_fraction_def)
  have zn: "(if zone then get_zone z else Some (0, z)) = Some (0, [])" using sep by auto
  have "parse_in_zone sep zone (format_stamp sep z (to_secs t)) =
      Some (of_secs (secs_of \<lparr>cv_year = cv_year c, cv_month = cv_month c, cv_day = cv_day c, cv_hour = cv_hour c,
         cv_minute = cv_minute c, cv_second = cv_second c\<rparr>), 0)"
    unfolding s[unfolded Let_def] parse_in_zone_def
    by (simp add: get_year_pad[OF b(1)] get_num_pad b skip_byte sk within_def n v fr zn Let_def
        del: pad.simps get_num.simps get_zone.simps)
  also have "\<lparr>cv_year = cv_year c, cv_month = cv_month c, cv_day = cv_day c, cv_hour = cv_hour c,
         cv_minute = cv_minute c, cv_second = cv_second c\<rparr> = c" by simp
  finally show ?thesis by (simp only: c_def secs_of_civil_of)
qed

lemma parse_rfc3339_zone: "text_time t \<Longrightarrow> parse_in_zone (CHR ''T'') True (rfc3339 t) = Some (of_secs (to_secs t), 0)"
  unfolding rfc3339_def by (erule parse_format) simp

lemma parse_rfc3339_format: "text_time t \<Longrightarrow> parse_rfc3339 (rfc3339 t) = Some (of_secs (to_secs t))"
  by (simp add: parse_stamp_def parse_rfc3339_zone)

lemma parse_sqlite_time_format: "text_time t \<Longrightarrow> parse_sqlite_time (sqlite_time t) = Some (of_secs (to_secs t))"
  unfolding sqlite_time_def parse_stamp_def by (subst parse_format) simp_all

lemma parse_other_layout:
  assumes "text_time t" and "sep' \<noteq> sep"
  shows "parse_stamp sep' zoned (format_stamp sep zone (to_secs t)) = None"
proof -
  define c where "c = civil_of (to_secs t)"
  have c: "text_civil c" unfolding c_def by (rule text_time_civil[OF assms(1)])
  have v: "1 \<le> cv_month c" "cv_month c \<le> 12"
    using c by (auto simp: text_civil_def valid_civil_def valid_date_def)
  note s = format_stamp_pads[OF c[unfolded c_def], folded c_def, unfolded Let_def]
  show ?thesis
    unfolding s parse_stamp_def parse_in_zone_def
    using assms(2)
    by (simp add: get_year_pad text_civil_pads(7-12)[OF c] get_num_pad skip_byte within_def v
        text_civil_nonneg[OF c] skip_def[of sep'] del: pad.simps get_num.simps)
qed

lemma parse_rfc3339_sqlite: "text_time t \<Longrightarrow> parse_rfc3339 (sqlite_time t) = None"
  unfolding sqlite_time_def by (rule parse_other_layout) simp_all

lemma parse_sqlite_rfc3339: "text_time t \<Longrightarrow> parse_sqlite_time (rfc3339 t) = None"
  unfolding rfc3339_def by (rule parse_other_layout) simp_all

end
