(* ===== verification/TextTables.thy ===== *)
theory TextTables
  imports Timestamps Sessions Grants
begin

section \<open>The tables with their stored texts\<close>

text \<open>
  The tables \<open>app_sessions\<close> and \<open>enrollment_grants\<close> as the database has them, with text in
  their time columns, and the operations of \<open>internal/auth/session.go\<close> and
  \<open>internal/storage/sqlite/grants.go\<close> on them: times are formatted when a row is written,
  compared as text by SQL and parsed by Go.  \<open>row_of\<close> and \<open>grant_of\<close> read a row of text as
  the row of seconds of \<open>Sessions\<close> and \<open>Grants\<close>; every operation on the texts is the one on
  the seconds as long as the clock is in the years 0 to 9999.
\<close>

definition parse_session_time :: "string \<Rightarrow> nanos option" where
  "parse_session_time v =
     (if v = [] then None
      else case parse_rfc3339 v of
        Some t \<Rightarrow> Some t
      | None \<Rightarrow> (case parse_sqlite_time v of Some t \<Rightarrow> Some t | None \<Rightarrow> None))"

definition parse_time :: "string \<Rightarrow> nanos" where
  \<comment> \<open>\<open>parseTime\<close> of the grants: the zero time for anything else\<close>
  "parse_time s =
     (case parse_sqlite_time s of
        Some t \<Rightarrow> t
      | None \<Rightarrow> (case parse_rfc3339 s of Some t \<Rightarrow> t | None \<Rightarrow> zero_time))"

definition or_zero :: "nanos option \<Rightarrow> nanos" where
  \<comment> \<open>a result used without a look at the error\<close>
  "or_zero r = (case r of Some t \<Rightarrow> t | None \<Rightarrow> zero_time)"

subsection \<open>Sessions\<close>

record session_text =
  x_token :: string
  x_username :: string
  x_role :: role
  x_display :: string
  x_provider :: string
  x_csrf :: string
  x_created :: string
  x_expires :: string

definition create_session_text ::
  "(string \<Rightarrow> string) \<Rightarrow> session_store \<Rightarrow> fault \<Rightarrow> nanos \<Rightarrow> string \<Rightarrow> string \<Rightarrow> identity \<Rightarrow> session_text list \<Rightarrow>
   (sql_err + session) \<times> session_text list" where
  "create_session_text sha st ft now rnd1 rnd2 ident rows =
     (let token = hex_encode rnd1; csrf = hex_encode rnd2; expires = now + ttl st
      in case ft of
           Some e \<Rightarrow> (Inl (SqlErr e), rows)
         | None \<Rightarrow>
             if hash_token sha token \<in> set (map x_token rows)
             then (Inl (SqlErr ''UNIQUE constraint failed: app_sessions.token''), rows)
             else (Inr \<lparr>ses_token = token, ses_identity = ident, ses_csrf = csrf, ses_expires = expires\<rparr>,
                   rows @ [\<lparr>x_token = hash_token sha token, x_username = id_username ident,
                     x_role = id_role ident, x_display = id_display ident,
                     x_provider = provider_or (id_provider ident), x_csrf = csrf,
                     x_created = sqlite_time now, x_expires = rfc3339 expires\<rparr>]))"

definition delete_session_text ::
  "(string \<Rightarrow> string) \<Rightarrow> fault \<Rightarrow> string \<Rightarrow> session_text list \<Rightarrow> (sql_err + unit) \<times> session_text list" where
  "delete_session_text sha ft token rows =
     (case ft of Some e \<Rightarrow> (Inl (SqlErr e), rows)
      | None \<Rightarrow> (Inr (), delete_where (\<lambda>r. x_token r = hash_token sha token) rows))"

definition text_cap :: "session_store \<Rightarrow> session_text \<Rightarrow> nanos" where
  \<comment> \<open>the variable \<open>lifetimeCap\<close>: the zero time when there is no cap\<close>
  "text_cap st r =
     (if 0 < max_lifetime st
      then (case parse_session_time (x_created r) of Some c \<Rightarrow> c + max_lifetime st | None \<Rightarrow> zero_time)
      else zero_time)"

definition get_session_text ::
  "(string \<Rightarrow> string) \<Rightarrow> session_store \<Rightarrow> fault \<Rightarrow> fault \<Rightarrow> fault \<Rightarrow> nanos \<Rightarrow> string \<Rightarrow> session_text list \<Rightarrow>
   (session_err + session) \<times> session_text list" where
  "get_session_text sha st f_sel f_del f_upd now token rows =
     (if token = [] then (Inl NoSession, rows)
      else case f_sel of
        Some e \<Rightarrow> (Inl (SessionDb (SqlErr e)), rows)
      | None \<Rightarrow> (case List.find (\<lambda>r. x_token r = hash_token sha token) rows of
          None \<Rightarrow> (Inl NoSession, rows)
        | Some r \<Rightarrow>
            let exp = or_zero (parse_rfc3339 (x_expires r)) in
            if exp < now then (Inl NoSession, snd (delete_session_text sha f_del token rows))
            else
              let cap = text_cap st r in
              if 0 < max_lifetime st \<and> parse_session_time (x_created r) \<noteq> None \<and> cap < now
              then (Inl NoSession, snd (delete_session_text sha f_del token rows))
              else
                let new_exp = (if cap \<noteq> zero_time \<and> cap < now + ttl st then cap else now + ttl st);
                    renew = (exp < new_exp \<and> f_upd = None)
                in (Inr \<lparr>ses_token = token,
                         ses_identity = \<lparr>id_username = x_username r, id_display = x_display r,
                           id_role = x_role r, id_provider = x_provider r\<rparr>,
                         ses_csrf = x_csrf r, ses_expires = (if renew then new_exp else exp)\<rparr>,
                    if renew then update_where (\<lambda>r. x_token r = hash_token sha token)
                                    (\<lambda>r. r\<lparr>x_expires := rfc3339 new_exp\<rparr>) rows
                    else rows)))"

definition delete_expired_text :: "fault \<Rightarrow> nanos \<Rightarrow> session_text list \<Rightarrow> (sql_err + nat) \<times> session_text list" where
  \<comment> \<open>\<open>WHERE expires_at < ?\<close>: the comparison of two texts\<close>
  "delete_expired_text ft now rows =
     (case ft of Some e \<Rightarrow> (Inl (SqlErr e), rows)
      | None \<Rightarrow> (Inr (affected (\<lambda>r. x_expires r < rfc3339 now) rows),
                 delete_where (\<lambda>r. x_expires r < rfc3339 now) rows))"

definition delete_by_username_text ::
  "fault \<Rightarrow> string \<Rightarrow> session_text list \<Rightarrow> (sql_err + nat) \<times> session_text list" where
  "delete_by_username_text ft u rows =
     (case ft of Some e \<Rightarrow> (Inl (SqlErr e), rows)
      | None \<Rightarrow> (Inr (affected (\<lambda>r. x_username r = u) rows), delete_where (\<lambda>r. x_username r = u) rows))"

fun session_text_step ::
  "(string \<Rightarrow> string) \<Rightarrow> session_store \<Rightarrow> session_event \<Rightarrow> session_text list \<Rightarrow> session_text list" where
  "session_text_step sha st (now, ft, CreateSession ident r1 r2) rows =
     snd (create_session_text sha st ft now r1 r2 ident rows)"
| "session_text_step sha st (now, ft, GetSession tok fd fu) rows = snd (get_session_text sha st ft fd fu now tok rows)"
| "session_text_step sha st (now, ft, DeleteSession tok) rows = snd (delete_session_text sha ft tok rows)"
| "session_text_step sha st (now, ft, DeleteExpired) rows = snd (delete_expired_text ft now rows)"
| "session_text_step sha st (now, ft, DeleteByUsername u) rows = snd (delete_by_username_text ft u rows)"

definition session_text_run ::
  "(string \<Rightarrow> string) \<Rightarrow> session_store \<Rightarrow> session_event list \<Rightarrow> session_text list \<Rightarrow> session_text list" where
  "session_text_run sha st evs rows = fold (session_text_step sha st) evs rows"

subsection \<open>Grants\<close>

record grant_text =
  gt_id :: int
  gt_label :: string
  gt_platform :: string
  gt_owner :: string
  gt_created_by :: string
  gt_created_at :: string
  gt_expires_at :: string
  gt_max_uses :: int
  gt_use_count :: int
  gt_revoked_at :: "string option"
  gt_expected_serial :: string
  gt_last_used_at :: "string option"
  gt_token_hash :: string

definition grant_status_text :: "nanos \<Rightarrow> grant_text \<Rightarrow> string" where
  "grant_status_text now g =
     (if gt_revoked_at g \<noteq> None then ''revoked''
      else if gt_max_uses g \<le> gt_use_count g then ''used''
      else if parse_time (gt_expires_at g) < now then ''expired''
      else ''active'')"

definition create_grant_text ::
  "fault \<Rightarrow> nanos \<Rightarrow> grant_text \<Rightarrow> string \<Rightarrow> grant_text list \<Rightarrow> (sql_err + int) \<times> grant_text list" where
  "create_grant_text ft now g token_hash rows =
     (let i = next_rowid (map gt_id rows)
      in case ft of
           Some e \<Rightarrow> (Inl (SqlErr e), rows)
         | None \<Rightarrow>
             if token_hash \<in> set (map gt_token_hash rows)
             then (Inl (SqlErr ''UNIQUE constraint failed: enrollment_grants.token_hash''), rows)
             else (Inr i, rows @ [\<lparr>gt_id = i, gt_label = gt_label g,
                gt_platform = (if gt_platform g = [] then ''any'' else gt_platform g), gt_owner = gt_owner g,
                gt_created_by = gt_created_by g, gt_created_at = sqlite_time now,
                gt_expires_at = gt_expires_at g, gt_max_uses = normal_uses (gt_max_uses g), gt_use_count = 0,
                gt_revoked_at = None, gt_expected_serial = gt_expected_serial g,
                gt_last_used_at = None, gt_token_hash = token_hash\<rparr>]))"

definition redeem_grant_text ::
  "(string \<Rightarrow> string) \<Rightarrow> fault \<Rightarrow> nanos \<Rightarrow> string \<Rightarrow> grant_text list \<Rightarrow> (grant_err + redemption) \<times> grant_text list" where
  "redeem_grant_text sha ft now raw rows =
     (let h = hash_grant_token sha raw;
          p = (\<lambda>g. gt_token_hash g = h \<and> gt_revoked_at g = None \<and> gt_use_count g < gt_max_uses g \<and>
                   sqlite_time now < gt_expires_at g)
      in case ft of
           Some e \<Rightarrow> (Inl (GrantDb (SqlErr e)), rows)
         | None \<Rightarrow> (case List.find p rows of
               None \<Rightarrow> (Inl GrantInvalid, rows)
             | Some g \<Rightarrow> (Inr \<lparr>red_id = gt_id g, red_platform = gt_platform g, red_owner = gt_owner g,
                  red_expected_serial = gt_expected_serial g\<rparr>,
                 update_where p (\<lambda>g. g\<lparr>gt_use_count := gt_use_count g + 1,
                    gt_last_used_at := Some (sqlite_time now)\<rparr>) rows)))"

definition revoke_grant_text ::
  "fault \<Rightarrow> fault \<Rightarrow> nanos \<Rightarrow> int \<Rightarrow> grant_text list \<Rightarrow> (sql_err + unit) \<times> grant_text list" where
  "revoke_grant_text ft ft2 now i rows =
     (let live = (\<lambda>g. gt_id g = i \<and> gt_revoked_at g = None)
      in case ft of
        Some e \<Rightarrow> (Inl (SqlErr e), rows)
      | None \<Rightarrow>
          (if affected live rows = 0 \<and> ft2 = None \<and> List.find (\<lambda>g. gt_id g = i) rows = None
           then Inl NoRows else Inr (),
           update_where live (\<lambda>g. g\<lparr>gt_revoked_at := Some (sqlite_time now)\<rparr>) rows))"

definition delete_expired_grants_text ::
  "fault \<Rightarrow> nanos \<Rightarrow> int \<Rightarrow> grant_text list \<Rightarrow> (sql_err + nat) \<times> grant_text list" where
  "delete_expired_grants_text ft now older rows =
     (let old = (\<lambda>g. gt_expires_at g < sqlite_time (now + wrap64 (- older)))
      in case ft of Some e \<Rightarrow> (Inl (SqlErr e), rows)
         | None \<Rightarrow> (Inr (affected old rows), delete_where old rows))"

datatype grant_text_call =
    CreateGrantText grant_text string
  | RedeemGrantText string
  | RevokeGrantText int fault
  | DeleteExpiredGrantsText int

type_synonym grant_text_event = "nanos \<times> fault \<times> grant_text_call"

fun grant_text_step :: "(string \<Rightarrow> string) \<Rightarrow> grant_text_event \<Rightarrow> grant_text list \<Rightarrow> grant_text list" where
  "grant_text_step sha (now, ft, CreateGrantText g h) rows = snd (create_grant_text ft now g h rows)"
| "grant_text_step sha (now, ft, RedeemGrantText raw) rows = snd (redeem_grant_text sha ft now raw rows)"
| "grant_text_step sha (now, ft, RevokeGrantText i ft2) rows = snd (revoke_grant_text ft ft2 now i rows)"
| "grant_text_step sha (now, ft, DeleteExpiredGrantsText d) rows = snd (delete_expired_grants_text ft now d rows)"

definition grant_text_run :: "(string \<Rightarrow> string) \<Rightarrow> grant_text_event list \<Rightarrow> grant_text list \<Rightarrow> grant_text list" where
  "grant_text_run sha evs rows = fold (grant_text_step sha) evs rows"

subsection \<open>Reading the texts\<close>

lemma parse_session_time_rfc3339: "text_time t \<Longrightarrow> parse_session_time (rfc3339 t) = Some (of_secs (to_secs t))"
  by (simp add: parse_session_time_def parse_rfc3339_format stamps_nonempty)

lemma parse_session_time_sqlite: "text_time t \<Longrightarrow> parse_session_time (sqlite_time t) = Some (of_secs (to_secs t))"
  using parse_rfc3339_sqlite[of t] parse_sqlite_time_format[of t]
  by (simp add: parse_session_time_def stamps_nonempty)

lemma parse_time_sqlite: "text_time t \<Longrightarrow> parse_time (sqlite_time t) = of_secs (to_secs t)"
  by (simp add: parse_time_def parse_sqlite_time_format)

lemma parse_time_rfc3339: "text_time t \<Longrightarrow> parse_time (rfc3339 t) = of_secs (to_secs t)"
  by (simp add: parse_time_def parse_sqlite_rfc3339 parse_rfc3339_format)

text \<open>
  C26: Over the years 0 to 9999, what the program writes as a time it reads back as the same
  second: a text of either layout by the reader of the sessions and by that of the grants, each
  of which tries the two layouts one after the other; and the byte order of two texts of one
  layout, which is how SQL compares and sorts the columns, is the order of their seconds.
\<close>

theorem timestamps_exact:
  assumes "text_time t" and "text_time u"
  shows "parse_session_time (rfc3339 t) = Some (of_secs (to_secs t)) \<and>
    parse_session_time (sqlite_time t) = Some (of_secs (to_secs t)) \<and>
    parse_time (rfc3339 t) = of_secs (to_secs t) \<and>
    parse_time (sqlite_time t) = of_secs (to_secs t) \<and>
    (rfc3339 t < rfc3339 u \<longleftrightarrow> to_secs t < to_secs u) \<and>
    (sqlite_time t < sqlite_time u \<longleftrightarrow> to_secs t < to_secs u)"
  using assms
  by (simp_all add: parse_session_time_rfc3339 parse_session_time_sqlite parse_time_rfc3339 parse_time_sqlite rfc3339_less sqlite_time_less)

theorem timestamps_exact_witness:
  "rfc3339 (951827696 * second) < rfc3339 (4102444799 * second) \<and>
   parse_session_time (rfc3339 (951827696 * second)) = Some (951827696 * second) \<and>
   parse_time (rfc3339 (951827696 * second)) = 951827696 * second"
proof -
  have "text_time (951827696 * second)" "text_time (4102444799 * second)"
    by (simp_all add: text_time_def to_secs_def second_def)
  from timestamps_exact[OF this] show ?thesis
    by (simp add: to_secs_def second_def of_secs_def)
qed

lemma timestamps_example:
  "rfc3339 (951827696 * second) = ''2000-02-29T12:34:56Z''"
proof -
  let ?c = "\<lparr>cv_year = 2000, cv_month = 2, cv_day = 29, cv_hour = 12, cv_minute = 34, cv_second = 56\<rparr>"
  have "valid_civil ?c"
    by (simp add: valid_civil_def valid_date_def month_lengths_def leap_year_def)
  moreover have "secs_of ?c = 951827696"
    by (simp add: secs_of_def days_of_def year_start_def month_start_def month_lengths_def)
  ultimately have "civil_of 951827696 = ?c" using civil_of_secs_of[of ?c] by simp
  then show ?thesis
    by (simp add: rfc3339_def to_secs_def second_def format_stamp_def Let_def format_date_def
        format_clock_def append_int_def nat_str.simps)
qed

text \<open>
  An \<open>ORDER BY\<close> over a column of texts sorts the rows as one over the seconds.
\<close>

lemma insort_key_cong:
  "\<forall>y\<in>set ys. f x \<le> f y \<longleftrightarrow> g x \<le> g y \<Longrightarrow> insort_key f x ys = insort_key g x ys"
  by (induction ys) auto

lemma sort_key_cong_order:
  "\<forall>x\<in>set xs. \<forall>y\<in>set xs. f x \<le> f y \<longleftrightarrow> g x \<le> g y \<Longrightarrow> sort_key f xs = sort_key g xs"
proof (induction xs)
  case (Cons x xs)
  then have "sort_key f xs = sort_key g xs" by simp
  moreover have "insort_key f x (sort_key g xs) = insort_key g x (sort_key g xs)"
    using Cons.prems by (intro insort_key_cong) simp
  ultimately show ?case by simp
qed simp

theorem order_by_text:
  assumes "\<forall>r\<in>set rows. text_time (f r)"
  shows "sort_key (\<lambda>r. sqlite_time (f r)) rows = sort_key (\<lambda>r. to_secs (f r)) rows"
    and "sort_key (\<lambda>r. rfc3339 (f r)) rows = sort_key (\<lambda>r. to_secs (f r)) rows"
  using assms by (auto intro!: sort_key_cong_order simp: sqlite_time_less rfc3339_less simp flip: not_less)

subsection \<open>What a table of texts shares with its table of seconds\<close>

lemma map_delete_where:
  "\<forall>r\<in>set rows. p r \<longleftrightarrow> q (f r) \<Longrightarrow> map f (delete_where p rows) = delete_where q (map f rows)"
  by (induction rows) (auto simp: table_simps)

lemma map_update_where_sim:
  "\<forall>r\<in>set rows. (p r \<longleftrightarrow> q (f r)) \<and> (p r \<longrightarrow> f (g r) = h (f r)) \<Longrightarrow>
   map f (update_where p g rows) = update_where q h (map f rows)"
  by (induction rows) (auto simp: table_simps)

lemma affected_map: "\<forall>r\<in>set rows. p r \<longleftrightarrow> q (f r) \<Longrightarrow> affected q (map f rows) = affected p rows"
  by (induction rows) (auto simp: affected_def)

lemma find_map: "\<forall>r\<in>set rows. p r \<longleftrightarrow> q (f r) \<Longrightarrow> List.find q (map f rows) = map_option f (List.find p rows)"
  by (induction rows) auto

lemmas table_sim = map_delete_where map_update_where_sim affected_map find_map

locale text_table =
  fixes read_row :: "'x \<Rightarrow> 'r" and row_ok :: "'x \<Rightarrow> bool"
    and read_event :: "'ev \<Rightarrow> 'e" and event_ok :: "'ev \<Rightarrow> bool"
    and text_step :: "'ev \<Rightarrow> 'x list \<Rightarrow> 'x list" and secs_step :: "'e \<Rightarrow> 'r list \<Rightarrow> 'r list"
  assumes step_reads: "\<forall>r\<in>set rows. row_ok r \<Longrightarrow> event_ok ev \<Longrightarrow>
      map read_row (text_step ev rows) = secs_step (read_event ev) (map read_row rows)"
    and step_keeps: "\<forall>r\<in>set rows. row_ok r \<Longrightarrow> event_ok ev \<Longrightarrow> \<forall>r\<in>set (text_step ev rows). row_ok r"
begin

lemma run_keeps:
  "\<forall>r\<in>set rows. row_ok r \<Longrightarrow> \<forall>ev\<in>set evs. event_ok ev \<Longrightarrow> \<forall>r\<in>set (fold text_step evs rows). row_ok r"
proof (induction evs arbitrary: rows)
  case (Cons ev evs)
  then have "\<forall>r\<in>set (text_step ev rows). row_ok r" by (intro step_keeps) auto
  with Cons show ?case by simp
qed simp

lemma run_reads:
  "\<forall>r\<in>set rows. row_ok r \<Longrightarrow> \<forall>ev\<in>set evs. event_ok ev \<Longrightarrow>
   map read_row (fold text_step evs rows) = fold secs_step (map read_event evs) (map read_row rows)"
proof (induction evs arbitrary: rows)
  case (Cons ev evs)
  then have "\<forall>r\<in>set (text_step ev rows). row_ok r" by (intro step_keeps) auto
  with Cons show ?case by (simp add: step_reads)
qed simp

end

subsection \<open>Sessions: the texts refine the seconds\<close>

definition row_of :: "session_text \<Rightarrow> session_row" where
  "row_of r = \<lparr>s_token = x_token r, s_username = x_username r, s_role = x_role r, s_display = x_display r,
     s_provider = x_provider r, s_csrf = x_csrf r,
     s_created = map_option to_secs (parse_session_time (x_created r)),
     s_expires = to_secs (or_zero (parse_rfc3339 (x_expires r)))\<rparr>"

definition row_written :: "session_text \<Rightarrow> bool" where
  \<comment> \<open>the times of the row are texts that the program wrote\<close>
  "row_written r \<longleftrightarrow> (\<exists>c. text_time c \<and> x_created r = sqlite_time c) \<and> (\<exists>e. text_time e \<and> x_expires r = rfc3339 e)"

definition session_clock_ok :: "session_store \<Rightarrow> session_event \<Rightarrow> bool" where
  "session_clock_ok st ev \<longleftrightarrow> text_time (fst ev) \<and> text_time (fst ev + ttl st)"

lemma row_of_simps [simp]:
  "s_token (row_of r) = x_token r" "s_username (row_of r) = x_username r" "s_csrf (row_of r) = x_csrf r"
  "row_identity (row_of r) = \<lparr>id_username = x_username r, id_display = x_display r, id_role = x_role r, id_provider = x_provider r\<rparr>"
  by (simp_all add: row_of_def row_identity_def)

lemma row_of_token: "map s_token (map row_of rows) = map x_token rows"
  by simp

lemma row_written_times:
  assumes "row_written r"
  obtains c e where "text_time c" "text_time e" "x_created r = sqlite_time c" "x_expires r = rfc3339 e"
    "parse_session_time (x_created r) = Some (of_secs (to_secs c))"
    "or_zero (parse_rfc3339 (x_expires r)) = of_secs (to_secs e)"
    "s_created (row_of r) = Some (to_secs c)" "s_expires (row_of r) = to_secs e"
proof -
  from assms obtain c e where ce: "text_time c" "text_time e" "x_created r = sqlite_time c" "x_expires r = rfc3339 e"
    by (auto simp: row_written_def)
  moreover from ce have "parse_session_time (x_created r) = Some (of_secs (to_secs c))"
    "or_zero (parse_rfc3339 (x_expires r)) = of_secs (to_secs e)"
    by (simp_all add: parse_session_time_sqlite or_zero_def parse_rfc3339_format)
  ultimately show ?thesis by (intro that[of c e]) (simp_all add: row_of_def)
qed

lemma row_written_expiry: "row_written r \<Longrightarrow> or_zero (parse_rfc3339 (x_expires r)) = of_secs (s_expires (row_of r))"
  by (elim row_written_times) simp

lemma row_written_cap: "row_written r \<Longrightarrow> text_cap st r = lifetime_cap st (row_of r)"
  by (elim row_written_times) (simp add: text_cap_def lifetime_cap_def)

lemma row_written_created: "row_written r \<Longrightarrow> parse_session_time (x_created r) \<noteq> None \<and> s_created (row_of r) \<noteq> None"
  by (elim row_written_times) simp

lemma row_written_less:
  "row_written r \<Longrightarrow> text_time now \<Longrightarrow> x_expires r < rfc3339 now \<longleftrightarrow> s_expires (row_of r) < to_secs now"
  by (elim row_written_times) (simp add: rfc3339_less)

lemma row_of_renewed:
  "text_time e \<Longrightarrow> row_of (r\<lparr>x_expires := rfc3339 e\<rparr>) = (row_of r)\<lparr>s_expires := to_secs e\<rparr>"
  by (simp add: row_of_def parse_rfc3339_format or_zero_def)

lemma row_written_renewed: "row_written r \<Longrightarrow> text_time e \<Longrightarrow> row_written (r\<lparr>x_expires := rfc3339 e\<rparr>)"
  by (auto simp: row_written_def)

lemma text_time_between: "text_time t \<Longrightarrow> text_time u \<Longrightarrow> t \<le> v \<Longrightarrow> v \<le> u \<Longrightarrow> text_time v"
  using to_secs_mono[of t v] to_secs_mono[of v u] by (simp add: text_time_def)

lemma text_time_of_secs: "text_time t \<Longrightarrow> text_time (of_secs (to_secs t))"
  by (simp add: text_time_def)

lemma slid_expiry_text:
  assumes "row_written r" and "text_time (now + ttl st)"
  shows "text_time (slid_expiry st now (row_of r))"
proof -
  obtain c where c: "text_time c" "s_created (row_of r) = Some (to_secs c)"
    using assms(1) by (elim row_written_times)
  show ?thesis
  proof (cases "0 < max_lifetime st \<and> of_secs (to_secs c) + max_lifetime st < now + ttl st")
    case True
    then have "text_time (of_secs (to_secs c) + max_lifetime st)"
      by (intro text_time_between[OF text_time_of_secs[OF c(1)] assms(2)]) auto
    then show ?thesis using assms(2) c(2) by (simp add: slid_expiry_def lifetime_cap_def Let_def)
  next
    case False
    then show ?thesis using assms(2) c(2) by (auto simp: slid_expiry_def lifetime_cap_def Let_def)
  qed
qed

lemma delete_token_sim:
  "map row_of (delete_where (\<lambda>r. x_token r = h) rows) = delete_where (\<lambda>r. s_token r = h) (map row_of rows)"
  by (rule map_delete_where) simp

lemma create_session_sim:
  assumes "text_time now" "text_time (now + ttl st)"
  shows "create_session sha st ft now r1 r2 ident (map row_of rows) =
    (fst (create_session_text sha st ft now r1 r2 ident rows),
     map row_of (snd (create_session_text sha st ft now r1 r2 ident rows)))"
  using assms
  by (simp add: create_session_def create_session_text_def Let_def row_of_def parse_session_time_sqlite
      parse_rfc3339_format or_zero_def comp_def split: option.split)

lemma delete_session_sim:
  "delete_session sha ft tok (map row_of rows) =
     (fst (delete_session_text sha ft tok rows), map row_of (snd (delete_session_text sha ft tok rows)))"
  by (simp add: delete_session_def delete_session_text_def delete_token_sim split: option.split)

lemma delete_by_username_sim:
  "delete_by_username ft u (map row_of rows) =
     (fst (delete_by_username_text ft u rows), map row_of (snd (delete_by_username_text ft u rows)))"
  using map_delete_where[of rows "\<lambda>r. x_username r = u" "\<lambda>r. s_username r = u" row_of]
    affected_map[of rows "\<lambda>r. x_username r = u" "\<lambda>r. s_username r = u" row_of]
  by (simp add: delete_by_username_def delete_by_username_text_def split: option.split)

lemma delete_expired_sim:
  assumes "\<forall>r\<in>set rows. row_written r" "text_time now"
  shows "delete_expired ft now (map row_of rows) =
     (fst (delete_expired_text ft now rows), map row_of (snd (delete_expired_text ft now rows)))"
proof -
  have "\<forall>r\<in>set rows. x_expires r < rfc3339 now \<longleftrightarrow> s_expires (row_of r) < to_secs now"
    using assms row_written_less by blast
  then have "map row_of (delete_where (\<lambda>r. x_expires r < rfc3339 now) rows) =
      delete_where (\<lambda>r. s_expires r < to_secs now) (map row_of rows)"
    and "affected (\<lambda>r. s_expires r < to_secs now) (map row_of rows) = affected (\<lambda>r. x_expires r < rfc3339 now) rows"
    by (rule map_delete_where, rule affected_map)
  then show ?thesis
    by (simp add: delete_expired_def delete_expired_text_def split: option.split)
qed

lemma get_session_sim:
  assumes rows: "\<forall>r\<in>set rows. row_written r" and now: "text_time (now + ttl st)"
  shows "get_session sha st f1 f2 f3 now tok (map row_of rows) =
     (fst (get_session_text sha st f1 f2 f3 now tok rows), map row_of (snd (get_session_text sha st f1 f2 f3 now tok rows)))"
proof (cases "tok = [] \<or> f1 \<noteq> None \<or> List.find (\<lambda>r. x_token r = hash_token sha tok) rows = None")
  case True
  then show ?thesis
    using find_map[of rows "\<lambda>r. x_token r = hash_token sha tok" "\<lambda>r. s_token r = hash_token sha tok" row_of]
    by (auto simp: get_session_def get_session_text_def split: option.split)
next
  case False
  then obtain r where r: "List.find (\<lambda>r. x_token r = hash_token sha tok) rows = Some r" and t: "tok \<noteq> []" "f1 = None"
    by auto
  have r': "List.find (\<lambda>r. s_token r = hash_token sha tok) (map row_of rows) = Some (row_of r)"
    using find_map[of rows "\<lambda>r. x_token r = hash_token sha tok" "\<lambda>r. s_token r = hash_token sha tok" row_of] r by simp
  have w: "row_written r" using rows find_SomeD[OF r] by blast
  define e where "e = slid_expiry st now (row_of r)"
  have e: "text_time e" unfolding e_def by (rule slid_expiry_text[OF w now])
  have upd: "map row_of (update_where (\<lambda>r. x_token r = h) (\<lambda>r. r\<lparr>x_expires := rfc3339 e\<rparr>) rows) =
      update_where (\<lambda>r. s_token r = h) (\<lambda>r. r\<lparr>s_expires := to_secs e\<rparr>) (map row_of rows)" for h
    by (rule map_update_where_sim) (simp add: row_of_renewed[OF e])
  have cap: "text_cap st r = lifetime_cap st (row_of r)" by (rule row_written_cap[OF w])
  have pc: "past_cap st now (row_of r) \<longleftrightarrow> 0 < max_lifetime st \<and> parse_session_time (x_created r) \<noteq> None \<and> text_cap st r < now"
    using row_written_created[OF w] by (simp add: past_cap_def cap)
  have ne: "e = (if text_cap st r \<noteq> zero_time \<and> text_cap st r < now + ttl st then text_cap st r else now + ttl st)"
    by (simp add: e_def slid_expiry_def Let_def cap)
  show ?thesis
    unfolding get_session_def get_session_text_def
    by (simp add: t r r' row_written_expiry[OF w] pc delete_session_sim Let_def upd flip: e_def ne) auto
qed

lemma get_session_keeps:
  assumes rows: "\<forall>r\<in>set rows. row_written r" and now: "text_time (now + ttl st)"
  shows "\<forall>r\<in>set (snd (get_session_text sha st f1 f2 f3 now tok rows)). row_written r"
proof (cases "tok = [] \<or> f1 \<noteq> None \<or> List.find (\<lambda>r. x_token r = hash_token sha tok) rows = None")
  case True
  then show ?thesis using rows by (auto simp: get_session_text_def split: option.splits)
next
  case False
  then obtain r where r: "List.find (\<lambda>r. x_token r = hash_token sha tok) rows = Some r" and t: "tok \<noteq> []" "f1 = None"
    by auto
  have w: "row_written r" using rows find_SomeD[OF r] by blast
  have e: "text_time (if text_cap st r \<noteq> zero_time \<and> text_cap st r < now + ttl st then text_cap st r else now + ttl st)"
    using slid_expiry_text[OF w now] unfolding slid_expiry_def Let_def row_written_cap[OF w] .
  show ?thesis
    unfolding get_session_text_def
    using rows row_written_renewed[OF _ e]
    by (auto simp: t r Let_def delete_session_text_def set_update_where split: option.splits)
qed

interpretation session_texts: text_table row_of row_written "\<lambda>ev. ev" "session_clock_ok st"
  "session_text_step sha st" "session_step sha st" for sha st
proof unfold_locales
  fix rows and ev :: session_event
  assume rows: "\<forall>r\<in>set rows. row_written r" and ok: "session_clock_ok st ev"
  obtain now ft c where ev: "ev = (now, ft, c)" by (cases ev rule: prod_cases3)
  have t: "text_time now" "text_time (now + ttl st)" using ok by (simp_all add: session_clock_ok_def ev)
  show "map row_of (session_text_step sha st ev rows) = session_step sha st ev (map row_of rows)"
    by (cases c) (simp_all add: ev create_session_sim[OF t] get_session_sim[OF rows t(2)] delete_session_sim
        delete_expired_sim[OF rows t(1)] delete_by_username_sim)
  have new: "row_written (r\<lparr>x_created := sqlite_time now, x_expires := rfc3339 (now + ttl st)\<rparr>)" for r
    using t by (auto simp: row_written_def)
  show "\<forall>r\<in>set (session_text_step sha st ev rows). row_written r"
  proof (cases c)
    case (GetSession tok fd fu)
    then show ?thesis using get_session_keeps[OF rows t(2)] by (simp add: ev)
  qed (use rows new t in \<open>auto simp: ev create_session_text_def delete_session_text_def delete_expired_text_def
      delete_by_username_text_def Let_def row_written_def split: option.splits if_splits\<close>)
qed

text \<open>
  C7: The session table of texts refines the one of seconds: after any run of the store from
  an empty table, at times of the years 0 to 9999, reading its rows gives exactly the table
  of seconds, a look-up gives the same answer and leaves the same table, and the purge of
  expired sessions, which compares texts, deletes the same rows.
\<close>

theorem session_texts_refine:
  assumes "\<forall>ev\<in>set evs. session_clock_ok st ev" and "text_time now" and "text_time (now + ttl st)"
  shows "map row_of (session_text_run sha st evs []) = session_run sha st evs [] \<and>
    get_session sha st f1 f2 f3 now tok (session_run sha st evs []) =
      (fst (get_session_text sha st f1 f2 f3 now tok (session_text_run sha st evs [])),
       map row_of (snd (get_session_text sha st f1 f2 f3 now tok (session_text_run sha st evs [])))) \<and>
    delete_expired ft now (session_run sha st evs []) =
      (fst (delete_expired_text ft now (session_text_run sha st evs [])),
       map row_of (snd (delete_expired_text ft now (session_text_run sha st evs []))))"
proof (intro conjI)
  let ?rows = "session_text_run sha st evs []"
  show run: "map row_of ?rows = session_run sha st evs []"
    using session_texts.run_reads[of "[]" evs st sha] assms(1) by (simp add: session_text_run_def session_run_def)
  have w: "\<forall>r\<in>set ?rows. row_written r"
    using session_texts.run_keeps[of "[]" evs st sha] assms(1) by (simp add: session_text_run_def)
  show "get_session sha st f1 f2 f3 now tok (session_run sha st evs []) =
      (fst (get_session_text sha st f1 f2 f3 now tok ?rows), map row_of (snd (get_session_text sha st f1 f2 f3 now tok ?rows)))"
    using get_session_sim[OF w assms(3)] by (simp only: run)
  show "delete_expired ft now (session_run sha st evs []) =
      (fst (delete_expired_text ft now ?rows), map row_of (snd (delete_expired_text ft now ?rows)))"
    using delete_expired_sim[OF w assms(2)] by (simp only: run)
qed

theorem session_texts_refine_witness:
  "map row_of (session_text_run (\<lambda>s. s) demo_store demo_sessions []) =
     [\<lparr>s_token = ''3734'', s_username = ''ann'', s_role = role_admin, s_display = ''Ann'',
       s_provider = ''local'', s_csrf = ''63'', s_created = Some 0, s_expires = 7200\<rparr>]"
proof -
  have "\<forall>ev\<in>set demo_sessions. session_clock_ok demo_store ev" and "text_time 0" and "text_time (0 + ttl demo_store)"
    by (simp_all add: demo_sessions_def session_clock_ok_def text_time_def to_secs_def second_def hour_def
        demo_store_def set_max_lifetime_def new_session_store_def)
  from session_texts_refine[OF this, THEN conjunct1] show ?thesis by (simp only: demo_session_run)
qed

subsection \<open>Grants: the texts refine the seconds\<close>

definition grant_of :: "grant_text \<Rightarrow> grant_row" where
  "grant_of g = \<lparr>g_id = gt_id g, g_label = gt_label g, g_platform = gt_platform g, g_owner = gt_owner g,
     g_created_by = gt_created_by g, g_created_at = to_secs (parse_time (gt_created_at g)),
     g_expires_at = to_secs (parse_time (gt_expires_at g)), g_max_uses = gt_max_uses g,
     g_use_count = gt_use_count g, g_revoked_at = map_option (\<lambda>s. to_secs (parse_time s)) (gt_revoked_at g),
     g_expected_serial = gt_expected_serial g,
     g_last_used_at = map_option (\<lambda>s. to_secs (parse_time s)) (gt_last_used_at g),
     g_token_hash = gt_token_hash g\<rparr>"

definition expiry_written :: "grant_text \<Rightarrow> bool" where
  \<comment> \<open>the expiry is a text in the form that the console's form handler writes\<close>
  "expiry_written g \<longleftrightarrow> (\<exists>e. text_time e \<and> gt_expires_at g = sqlite_time e)"

fun grant_call_of :: "grant_text_call \<Rightarrow> grant_call" where
  "grant_call_of (CreateGrantText g h) = CreateGrant (grant.truncate (grant_of g)) h"
| "grant_call_of (RedeemGrantText raw) = RedeemGrant raw"
| "grant_call_of (RevokeGrantText i ft) = RevokeGrant i ft"
| "grant_call_of (DeleteExpiredGrantsText d) = DeleteExpiredGrants d"

definition grant_event_of :: "grant_text_event \<Rightarrow> grant_event" where
  "grant_event_of ev = (case ev of (now, ft, c) \<Rightarrow> (now, ft, grant_call_of c))"

definition grant_clock_ok :: "grant_text_event \<Rightarrow> bool" where
  "grant_clock_ok ev \<longleftrightarrow>
     (case ev of (now, ft, c) \<Rightarrow> text_time now \<and>
       (case c of
          CreateGrantText g h \<Rightarrow> expiry_written g
        | DeleteExpiredGrantsText d \<Rightarrow> text_time (now + wrap64 (- d))
        | _ \<Rightarrow> True))"

lemma grant_of_simps [simp]:
  "g_id (grant_of g) = gt_id g" "g_token_hash (grant_of g) = gt_token_hash g" "g_owner (grant_of g) = gt_owner g"
  "g_platform (grant_of g) = gt_platform g" "g_max_uses (grant_of g) = gt_max_uses g"
  "g_use_count (grant_of g) = gt_use_count g" "g_expected_serial (grant_of g) = gt_expected_serial g"
  "g_revoked_at (grant_of g) = None \<longleftrightarrow> gt_revoked_at g = None"
  by (simp_all add: grant_of_def)

lemma expiry_written_less:
  "expiry_written g \<Longrightarrow> text_time now \<Longrightarrow> sqlite_time now < gt_expires_at g \<longleftrightarrow> to_secs now < g_expires_at (grant_of g)"
  "expiry_written g \<Longrightarrow> text_time now \<Longrightarrow> gt_expires_at g < sqlite_time now \<longleftrightarrow> g_expires_at (grant_of g) < to_secs now"
  by (auto simp: expiry_written_def sqlite_time_less parse_time_sqlite grant_of_def)

lemma create_grant_sim:
  assumes "text_time now"
  shows "create_grant ft now (grant.truncate (grant_of g)) h (map grant_of rows) =
     (fst (create_grant_text ft now g h rows), map grant_of (snd (create_grant_text ft now g h rows)))"
proof -
  have c: "g_id \<circ> grant_of = gt_id" "g_token_hash \<circ> grant_of = gt_token_hash" by (auto simp: comp_def)
  show ?thesis
    using assms
    by (simp add: create_grant_def create_grant_text_def Let_def c parse_time_sqlite grant_of_def
        grant.truncate_def split: option.split)
qed

lemma redeem_grant_sim:
  assumes "\<forall>g\<in>set rows. expiry_written g" "text_time now"
  shows "redeem_grant sha ft now raw (map grant_of rows) =
     (fst (redeem_grant_text sha ft now raw rows), map grant_of (snd (redeem_grant_text sha ft now raw rows)))"
proof -
  let ?p = "\<lambda>g. gt_token_hash g = hash_grant_token sha raw \<and> gt_revoked_at g = None \<and>
    gt_use_count g < gt_max_uses g \<and> sqlite_time now < gt_expires_at g"
  let ?q = "\<lambda>g. g_token_hash g = hash_grant_token sha raw \<and> redeemable (to_secs now) g"
  have pq: "\<forall>g\<in>set rows. ?p g \<longleftrightarrow> ?q (grant_of g)"
    using assms expiry_written_less(1) by (auto simp: redeemable_def)
  have f: "List.find ?q (map grant_of rows) = map_option grant_of (List.find ?p rows)"
    using pq by (rule find_map)
  have u: "map grant_of (update_where ?p (\<lambda>g. g\<lparr>gt_use_count := gt_use_count g + 1,
        gt_last_used_at := Some (sqlite_time now)\<rparr>) rows) =
      update_where ?q (consume (to_secs now)) (map grant_of rows)"
    using pq assms(2) by (intro map_update_where_sim) (simp add: consume_def grant_of_def parse_time_sqlite)
  show ?thesis
    unfolding redeem_grant_def redeem_grant_text_def Let_def
    by (simp add: f u split: option.split)
qed

lemma revoke_grant_sim:
  assumes "text_time now"
  shows "revoke_grant ft ft2 now i (map grant_of rows) =
     (fst (revoke_grant_text ft ft2 now i rows), map grant_of (snd (revoke_grant_text ft ft2 now i rows)))"
proof -
  let ?p = "\<lambda>g. gt_id g = i \<and> gt_revoked_at g = None"
  have pq: "\<forall>g\<in>set rows. ?p g \<longleftrightarrow> live_id i (grant_of g)" by (simp add: live_id_def)
  have u: "map grant_of (update_where ?p (\<lambda>g. g\<lparr>gt_revoked_at := Some (sqlite_time now)\<rparr>) rows) =
      update_where (live_id i) (\<lambda>g. g\<lparr>g_revoked_at := Some (to_secs now)\<rparr>) (map grant_of rows)"
    using pq assms by (intro map_update_where_sim) (simp add: grant_of_def parse_time_sqlite)
  have f: "List.find (\<lambda>g. g_id g = i) (map grant_of rows) = map_option grant_of (List.find (\<lambda>g. gt_id g = i) rows)"
    by (rule find_map) simp
  have a: "affected (live_id i) (map grant_of rows) = affected ?p rows"
    using pq by (rule affected_map)
  show ?thesis
    unfolding revoke_grant_def revoke_grant_text_def get_grant_def Let_def
    by (auto simp: f u a split: option.split)
qed

lemma delete_expired_grants_sim:
  assumes "\<forall>g\<in>set rows. expiry_written g" "text_time (now + wrap64 (- d))"
  shows "delete_expired_grants ft now d (map grant_of rows) =
     (fst (delete_expired_grants_text ft now d rows), map grant_of (snd (delete_expired_grants_text ft now d rows)))"
proof -
  let ?p = "\<lambda>g. gt_expires_at g < sqlite_time (now + wrap64 (- d))"
  let ?q = "\<lambda>g. g_expires_at g < to_secs (now + wrap64 (- d))"
  have pq: "\<forall>g\<in>set rows. ?p g \<longleftrightarrow> ?q (grant_of g)"
    using assms expiry_written_less(2) by blast
  have "map grant_of (delete_where ?p rows) = delete_where ?q (map grant_of rows)"
    and "affected ?q (map grant_of rows) = affected ?p rows"
    using pq by (rule map_delete_where, rule affected_map)
  then show ?thesis
    by (simp add: delete_expired_grants_def delete_expired_grants_text_def Let_def split: option.split)
qed

lemma grant_status_sim:
  "expiry_written g \<Longrightarrow> grant_status_text now g = grant_status now (grant_of g)"
  by (auto simp: grant_status_text_def grant_status_def expiry_written_def grant_of_def parse_time_sqlite)

interpretation grant_texts: text_table grant_of expiry_written grant_event_of grant_clock_ok
  "grant_text_step sha" "grant_step sha" for sha
proof unfold_locales
  fix rows and ev :: grant_text_event
  assume rows: "\<forall>r\<in>set rows. expiry_written r" and ok: "grant_clock_ok ev"
  obtain now ft c where ev: "ev = (now, ft, c)" by (cases ev rule: prod_cases3)
  have t: "text_time now" using ok by (simp add: grant_clock_ok_def ev)
  show "map grant_of (grant_text_step sha ev rows) = grant_step sha (grant_event_of ev) (map grant_of rows)"
    using ok by (cases c) (simp_all add: ev grant_clock_ok_def grant_event_of_def create_grant_sim[OF t]
        redeem_grant_sim[OF rows t] revoke_grant_sim[OF t] delete_expired_grants_sim[OF rows])
  show "\<forall>r\<in>set (grant_text_step sha ev rows). expiry_written r"
    using rows ok
    by (cases c) (auto simp: ev grant_clock_ok_def create_grant_text_def redeem_grant_text_def revoke_grant_text_def
        delete_expired_grants_text_def Let_def set_update_where expiry_written_def split: option.splits if_splits)
qed

text \<open>
  C19: The grant table of texts refines the one of seconds: after any run of creations,
  redemptions, revocations and purges from an empty table, at times of the years 0 to 9999 and
  with expiries in the form that the console writes, reading its rows gives exactly the table
  of seconds, and a redemption, decided by SQL on the texts, succeeds or fails alike.
\<close>

theorem grant_texts_refine:
  assumes "\<forall>ev\<in>set evs. grant_clock_ok ev" and "text_time now"
  shows "map grant_of (grant_text_run sha evs []) = grant_run sha (map grant_event_of evs) [] \<and>
    redeem_grant sha ft now raw (grant_run sha (map grant_event_of evs) []) =
      (fst (redeem_grant_text sha ft now raw (grant_text_run sha evs [])),
       map grant_of (snd (redeem_grant_text sha ft now raw (grant_text_run sha evs [])))) \<and>
    (\<forall>g\<in>set (grant_text_run sha evs []). grant_status_text now g = grant_status now (grant_of g))"
proof (intro conjI)
  let ?rows = "grant_text_run sha evs []"
  show run: "map grant_of ?rows = grant_run sha (map grant_event_of evs) []"
    using grant_texts.run_reads[of "[]" evs sha] assms(1) by (simp add: grant_text_run_def grant_run_def)
  have w: "\<forall>g\<in>set ?rows. expiry_written g"
    using grant_texts.run_keeps[of "[]" evs sha] assms(1) by (simp add: grant_text_run_def)
  show "redeem_grant sha ft now raw (grant_run sha (map grant_event_of evs) []) =
      (fst (redeem_grant_text sha ft now raw ?rows), map grant_of (snd (redeem_grant_text sha ft now raw ?rows)))"
    using redeem_grant_sim[OF w assms(2)] by (simp only: run)
  show "\<forall>g\<in>set ?rows. grant_status_text now g = grant_status now (grant_of g)"
    using w grant_status_sim by blast
qed

definition demo_grant_text :: grant_text where
  "demo_grant_text = \<lparr>gt_id = 0, gt_label = [], gt_platform = [], gt_owner = ''ann'', gt_created_by = ''op'',
     gt_created_at = [], gt_expires_at = sqlite_time (2 * hour), gt_max_uses = 0, gt_use_count = 0,
     gt_revoked_at = None, gt_expected_serial = [], gt_last_used_at = None, gt_token_hash = []\<rparr>"

definition demo_grant_events :: "grant_text_event list" where
  "demo_grant_events = [(0, None, CreateGrantText demo_grant_text ''74''), (hour, None, RedeemGrantText ''t'')]"

theorem grant_texts_refine_witness:
  "map (\<lambda>g. (g_id g, g_use_count g, g_expires_at g, g_last_used_at g))
     (map grant_of (grant_text_run (\<lambda>s. s) demo_grant_events [])) = [(1, 1, 7200, Some 3600)]"
proof -
  have t: "text_time 0" "text_time (2 * hour)" by (simp_all add: text_time_def to_secs_def hour_def second_def)
  then have "expiry_written demo_grant_text"
    by (auto simp: expiry_written_def demo_grant_text_def)
  then have "\<forall>ev\<in>set demo_grant_events. grant_clock_ok ev"
    by (simp add: demo_grant_events_def grant_clock_ok_def text_time_def to_secs_def hour_def second_def)
  note run = grant_texts_refine[OF this t(1), where sha = "\<lambda>s. s", THEN conjunct1]
  have "parse_time (sqlite_time (2 * hour)) = 7200 * second"
    using parse_time_sqlite[OF t(2)] by (simp add: of_secs_def to_secs_def hour_def second_def)
  then show ?thesis
    unfolding run
    by (simp add: demo_grant_events_def grant_run_def grant_event_of_def demo_grant_text_def grant_of_def
        grant.truncate_def create_grant_def redeem_grant_def hash_grant_token_def hex_encode_def hex_digit_def
        Let_def next_rowid_def normal_uses_def redeemable_def consume_def update_where_def to_secs_def
        hour_def second_def)
qed

end
