(* ===== verification/LoginRace.thy ===== *)
theory LoginRace
  imports Throttle
begin

section \<open>Concurrent sign-ins\<close>

text \<open>
  \<open>handleLogin\<close> in \<open>internal/web/handlers.go\<close> asks the throttle, then verifies the password
  (a slow hash, or a round trip to the directory), then records the outcome: the throttle's
  mutex covers each of the three calls and not the sequence.  A request is in flight between
  its question and its record.  A run interleaves the moves of any number of requests: each
  of them first makes the move \<open>Check\<close>, and, when admitted, one of \<open>Deny\<close> and \<open>Accept\<close>
  later.  \<open>rc_admitted\<close> lists the keys whose password was or is being verified.
\<close>

record race =
  rc_throttle :: throttle
  rc_flight :: "string list"
  rc_admitted :: "string list"

datatype login_move = Check string | Deny string | Accept string | Sweep

fun race_step :: "nanos \<times> login_move \<Rightarrow> race \<Rightarrow> race" where
  "race_step (now, Check k) s =
     (if fst (allowed (rc_throttle s) now k)
      then s\<lparr>rc_flight := k # rc_flight s, rc_admitted := k # rc_admitted s\<rparr> else s)"
| "race_step (now, Deny k) s =
     (if k \<in> set (rc_flight s)
      then s\<lparr>rc_throttle := record_failure (rc_throttle s) now k, rc_flight := remove1 k (rc_flight s)\<rparr> else s)"
| "race_step (now, Accept k) s =
     (if k \<in> set (rc_flight s)
      then s\<lparr>rc_throttle := record_success (rc_throttle s) k, rc_flight := remove1 k (rc_flight s)\<rparr> else s)"
| "race_step (now, Sweep) s = s\<lparr>rc_throttle := cleanup (rc_throttle s) now\<rparr>"

definition race_run :: "(nanos \<times> login_move) list \<Rightarrow> race \<Rightarrow> race" where
  "race_run mvs s = fold race_step mvs s"

definition race_start :: "throttle \<Rightarrow> race" where
  "race_start t = \<lparr>rc_throttle = t, rc_flight = [], rc_admitted = []\<rparr>"

fun peak :: "string \<Rightarrow> (nanos \<times> login_move) list \<Rightarrow> race \<Rightarrow> nat" where
  \<comment> \<open>the most requests of the key that are in flight at once\<close>
  "peak key [] s = count_list (rc_flight s) key"
| "peak key (mv # mvs) s = max (count_list (rc_flight s) key) (peak key mvs (race_step mv s))"

lemma race_run_simps [simp]:
  "race_run [] s = s" "race_run (mv # mvs) s = race_run mvs (race_step mv s)"
  "race_run (xs @ ys) s = race_run ys (race_run xs s)"
  by (simp_all add: race_run_def)

subsection \<open>What the throttle knows of a key after some failures\<close>

text \<open>
  \<open>phase t key m a f now\<close>: the throttle has recorded \<open>f\<close> failures of the key since \<open>a\<close>, of
  the \<open>m\<close> that lock it.
\<close>

definition phase :: "throttle \<Rightarrow> string \<Rightarrow> nat \<Rightarrow> nanos \<Rightarrow> nat \<Rightarrow> nanos \<Rightarrow> bool" where
  "phase t key m a f now \<longleftrightarrow>
     (if f = 0 then entries t key = None
      else if f < m then \<exists>w0. a \<le> w0 \<and> w0 \<le> now \<and> counting t key f w0 now
      else \<exists>e. entries t key = Some e \<and> a + t_lockout t \<le> lockout_until e)"

lemma phase_later: "phase t key m a f now \<Longrightarrow> now \<le> u \<Longrightarrow> phase t key m a f u"
  by (force simp: phase_def counting_def split: if_splits)

lemma phase_allowed: "phase t key m a f now \<Longrightarrow> f < m \<Longrightarrow> fst (allowed t now key)"
  by (auto simp: phase_def counting_def allowed_def split: if_splits)

lemma phase_locked:
  "phase t key m a f now \<Longrightarrow> 0 < m \<Longrightarrow> m \<le> f \<Longrightarrow> now < a + t_lockout t \<Longrightarrow> \<not> fst (allowed t now key)"
  by (auto simp: phase_def allowed_def split: if_splits)

lemma window_within: "a \<le> w0 \<Longrightarrow> now \<le> b \<Longrightarrow> dur_sub b a \<le> w \<Longrightarrow> dur_sub now w0 \<le> w"
  using dur_sub_mono[of a w0 now] dur_sub_mono_left[of now b a] by linarith

lemma first_failure:
  assumes "entries t key = None" "t_max t = int m" "0 < m" "zero_time < now" "0 \<le> t_window t"
  shows "if m = 1 then \<exists>e. entries (record_failure t now key) key = Some e \<and> lockout_until e = now + t_lockout t
    else counting (record_failure t now key) key 1 now now"
  using assms
  by (auto simp: counting_def record_failure_def fail_entry_def fresh_entry_def Let_def dur_sub_def)

lemma phase_failure:
  assumes p: "phase t key m a f now" and m: "t_max t = int m" "0 < m" and z: "zero_time < now" "0 \<le> t_window t"
    and now: "a \<le> now" "now < a + t_lockout t" and w: "now \<le> b" "dur_sub b a \<le> t_window t"
  shows "phase (record_failure t now key) key m a (Suc f) now"
proof -
  consider "f = 0" | "0 < f" "f < m" | "0 < f" "m \<le> f" by linarith
  then show ?thesis
  proof cases
    case 1
    with p have "entries t key = None" by (simp add: phase_def)
    from first_failure[OF this m z] 1 m(2) now(1) show ?thesis by (auto simp: phase_def split: if_splits)
  next
    case 2
    with p obtain w0 where w0: "a \<le> w0" "w0 \<le> now" "counting t key f w0 now" by (auto simp: phase_def)
    have "dur_sub now w0 \<le> t_window t" by (rule window_within[OF w0(1) w])
    from counting_failure[OF w0(3) this w0(2)] 2 m w0 now(1) show ?thesis
      by (auto simp: phase_def split: if_splits)
  next
    case 3
    with p obtain e where "entries t key = Some e" "a + t_lockout t \<le> lockout_until e" by (auto simp: phase_def)
    with 3 now(2) show ?thesis by (simp add: phase_def record_failure_def fail_entry_def Let_def)
  qed
qed

lemma phase_other:
  assumes p: "phase t key m a f now" and c: "c \<noteq> RecordFailure key" "c \<noteq> RecordSuccess key"
    and now: "now < a + t_lockout t" and w: "now \<le> b" "dur_sub b a \<le> t_window t"
  shows "phase (throttle_step t now c) key m a f now"
proof -
  consider "f = 0" | "0 < f" "f < m" | "0 < f" "m \<le> f" by linarith
  then show ?thesis
  proof cases
    case 1
    with p throttle_step_other[OF c, of t now] show ?thesis by (simp add: phase_def)
  next
    case 2
    with p obtain w0 where w0: "a \<le> w0" "w0 \<le> now" "counting t key f w0 now" by (auto simp: phase_def)
    from counting_other[OF w0(3) window_within[OF w0(1) w] c] w0 2 show ?thesis by (auto simp: phase_def)
  next
    case 3
    with p obtain e where "entries t key = Some e" "a + t_lockout t \<le> lockout_until e" by (auto simp: phase_def)
    with 3 now throttle_step_other[OF c, of t now] show ?thesis by (auto simp: phase_def stale_def)
  qed
qed

subsection \<open>The guesses that get through\<close>

definition race_inv :: "string \<Rightarrow> nat \<Rightarrow> nanos \<Rightarrow> nat \<Rightarrow> nat \<Rightarrow> nanos \<Rightarrow> race \<Rightarrow> bool" where
  \<comment> \<open>\<open>n\<close> guesses were settled up to the key's last success, \<open>f\<close> have failed since\<close>
  "race_inv key m a n f now s \<longleftrightarrow> phase (rc_throttle s) key m a f now \<and> t_max (rc_throttle s) = int m \<and>
     count_list (rc_admitted s) key = n + f + count_list (rc_flight s) key"

definition race_clock :: "throttle \<Rightarrow> nanos \<Rightarrow> nanos \<Rightarrow> bool" where
  \<comment> \<open>the span fits into one window and ends before a lockout started in it does\<close>
  "race_clock t a b \<longleftrightarrow> zero_time < a \<and> 0 \<le> t_window t \<and> dur_sub b a \<le> t_window t \<and> b < a + t_lockout t"

lemma race_step_policy [simp]:
  "t_max (rc_throttle (race_step mv s)) = t_max (rc_throttle s)"
  "t_window (rc_throttle (race_step mv s)) = t_window (rc_throttle s)"
  "t_lockout (rc_throttle (race_step mv s)) = t_lockout (rc_throttle s)"
  by (cases "(mv, s)" rule: race_step.cases; simp add: record_success_def cleanup_def)+

lemma race_clock_step [simp]: "race_clock (rc_throttle (race_step mv s)) a b \<longleftrightarrow> race_clock (rc_throttle s) a b"
  by (simp add: race_clock_def)

lemma count_remove1: "count_list (remove1 k xs) key = (if k = key then count_list xs key - 1 else count_list xs key)"
  by (induction xs) auto

lemma count_replicate [simp]: "count_list (replicate n x) x = n"
  by (induction n) simp_all

lemma race_step_inv:
  assumes inv: "race_inv key m a n f now s" and m: "0 < m" and c: "race_clock (rc_throttle s) a b"
    and u: "now \<le> fst mv" "a \<le> fst mv" "fst mv \<le> b" and ns: "snd mv \<noteq> Accept key"
  shows "\<exists>f'. race_inv key m a n f' (fst mv) (race_step mv s)"
    and "count_list (rc_admitted (race_step mv s)) key \<le>
      max (count_list (rc_admitted s) key) (n + (m - 1) + count_list (rc_flight (race_step mv s)) key)"
proof -
  obtain u c where mv: "mv = (u, c)" by (cases mv)
  let ?t = "rc_throttle s"
  have p: "phase ?t key m a f u" using inv u(1) phase_later by (auto simp: race_inv_def mv)
  have t: "t_max ?t = int m" and ad: "count_list (rc_admitted s) key = n + f + count_list (rc_flight s) key"
    using inv by (simp_all add: race_inv_def)
  have cl: "zero_time < u" "0 \<le> t_window ?t" "u < a + t_lockout ?t" "u \<le> b" "dur_sub b a \<le> t_window ?t" "a \<le> u"
    using c u by (auto simp: race_clock_def mv)
  note ph = phase_failure[OF p t m cl(1,2,6,3,4,5)] phase_other[OF p _ _ cl(3,4,5)]
  show "\<exists>f'. race_inv key m a n f' (fst mv) (race_step mv s)"
  proof (cases c)
    case (Check k)
    with p t ad show ?thesis by (intro exI[of _ f]) (simp add: race_inv_def mv)
  next
    case (Deny k)
    show ?thesis
    proof (cases "k \<in> set (rc_flight s) \<and> k = key")
      case True
      then have "0 < count_list (rc_flight s) key" by (metis count_list_0_iff gr0I)
      with True Deny ph(1) t ad show ?thesis
        by (intro exI[of _ "Suc f"]) (auto simp: race_inv_def mv count_remove1)
    next
      case False
      with Deny p ph(2)[of "RecordFailure k"] t ad show ?thesis
        by (intro exI[of _ f]) (auto simp: race_inv_def mv count_remove1)
    qed
  next
    case (Accept k)
    with ns ph(2)[of "RecordSuccess k"] p t ad show ?thesis
      by (intro exI[of _ f]) (auto simp: race_inv_def mv count_remove1 record_success_def)
  next
    case Sweep
    with ph(2)[of Cleanup] t ad show ?thesis
      by (intro exI[of _ f]) (simp add: race_inv_def mv cleanup_def)
  qed
  show "count_list (rc_admitted (race_step mv s)) key \<le>
      max (count_list (rc_admitted s) key) (n + (m - 1) + count_list (rc_flight (race_step mv s)) key)"
  proof (cases "c = Check key \<and> fst (allowed ?t u key)")
    case True
    then have "f < m" using phase_locked[OF p m _ cl(3)] by (meson not_le)
    with True ad show ?thesis by (simp add: mv)
  next
    case False
    then have "count_list (rc_admitted (race_step mv s)) key = count_list (rc_admitted s) key"
      by (cases c) (auto simp: mv)
    then show ?thesis by simp
  qed
qed

lemma race_accept:
  assumes "race_inv key m a n f now s" and "now \<le> u"
  shows "\<exists>n' f'. race_inv key m a n' f' u (race_step (u, Accept key) s) \<and>
    n' \<le> max n (count_list (rc_admitted (race_step (u, Accept key) s)) key) \<and>
    count_list (rc_admitted (race_step (u, Accept key) s)) key = count_list (rc_admitted s) key"
proof (cases "key \<in> set (rc_flight s)")
  case True
  then have fl: "0 < count_list (rc_flight s) key" by (metis count_list_0_iff gr0I)
  have "race_inv key m a (n + f + 1) 0 u (race_step (u, Accept key) s)"
    using True fl assms(1) by (simp add: race_inv_def phase_def record_success_def count_remove1)
  then show ?thesis using assms(1) fl True by (intro exI[of _ "n + f + 1"] exI[of _ 0]) (simp add: race_inv_def)
next
  case False
  with assms phase_later[of "rc_throttle s" key m a f now u] show ?thesis
    by (intro exI[of _ n] exI[of _ f]) (auto simp: race_inv_def)
qed

fun successes :: "string \<Rightarrow> (nanos \<times> login_move) list \<Rightarrow> nat" where
  "successes key [] = 0"
| "successes key (mv # mvs) = (if snd mv = Accept key then 1 else 0) + successes key mvs"

lemma race_bounded:
  "race_inv key m a n f now s \<Longrightarrow> 0 < m \<Longrightarrow> race_clock (rc_throttle s) a b \<Longrightarrow> sorted (now # map fst mvs) \<Longrightarrow>
   \<forall>mv\<in>set mvs. a \<le> fst mv \<and> fst mv \<le> b \<Longrightarrow> peak key mvs s \<le> p \<Longrightarrow>
   count_list (rc_admitted (race_run mvs s)) key \<le>
     max (count_list (rc_admitted s) key) (n + (m - 1) + p) + successes key mvs * (m - 1 + p)"
proof (induction mvs arbitrary: n f now s)
  case (Cons mv mvs)
  have u: "now \<le> fst mv" "a \<le> fst mv" "fst mv \<le> b" using Cons.prems(4,5) by auto
  have pk: "peak key mvs (race_step mv s) \<le> p" using Cons.prems(6) by simp
  note IH = Cons.IH[OF _ Cons.prems(2) _ _ _ pk]
  show ?case
  proof (cases "snd mv = Accept key")
    case True
    then have mv: "mv = (fst mv, Accept key)" by (cases mv) simp
    from race_accept[OF Cons.prems(1) u(1)] obtain n' f' where n': "race_inv key m a n' f' (fst mv) (race_step mv s)"
      "n' \<le> max n (count_list (rc_admitted (race_step mv s)) key)"
      "count_list (rc_admitted (race_step mv s)) key = count_list (rc_admitted s) key"
      unfolding mv[symmetric] by blast
    have "count_list (rc_admitted (race_run mvs (race_step mv s))) key \<le>
        max (count_list (rc_admitted s) key) (n' + (m - 1) + p) + successes key mvs * (m - 1 + p)"
      using IH[OF n'(1)] Cons.prems(3-5) n'(3) by simp
    with n'(2,3) True show ?thesis by (simp add: algebra_simps)
  next
    case False
    note st = race_step_inv[OF Cons.prems(1-3) u False]
    obtain f' where f': "race_inv key m a n f' (fst mv) (race_step mv s)" using st(1) by blast
    have "count_list (rc_flight (race_step mv s)) key \<le> p" using pk by (cases mvs) simp_all
    moreover have "count_list (rc_admitted (race_run mvs (race_step mv s))) key \<le>
        max (count_list (rc_admitted (race_step mv s)) key) (n + (m - 1) + p) + successes key mvs * (m - 1 + p)"
      using IH[OF f'] Cons.prems(3-5) by simp
    ultimately show ?thesis using st(2) False by simp
  qed
qed simp

text \<open>
  C16: However the sign-ins of a key and of others interleave, within one window (and before a
  lockout that starts in it ends), of a key with no failures on record at its start, at most
  \<open>MaxAttempts - 1\<close> guesses more than were ever in flight at once get their password verified:
  \<open>MaxAttempts\<close> of them when the guesses come one after the other.  A sign-in of the key that
  succeeds clears its record, and each of them allows for as many guesses again.
\<close>

theorem guesses_bounded:
  assumes "entries t key = None" and "t_max t = int m" and "0 < m" and "race_clock t a b"
    and "sorted (map fst mvs)" and "\<forall>mv\<in>set mvs. a \<le> fst mv \<and> fst mv \<le> b"
  shows "count_list (rc_admitted (race_run mvs (race_start t))) key \<le>
    (1 + successes key mvs) * (m - 1 + peak key mvs (race_start t))"
proof -
  have "race_inv key m a 0 0 (fst (hd mvs)) (race_start t)"
    using assms(1,2) by (simp add: race_inv_def phase_def race_start_def)
  moreover have "sorted (fst (hd mvs) # map fst mvs)"
    using assms(5) by (cases mvs) auto
  ultimately show ?thesis
    using race_bounded[of key m a 0 0 "fst (hd mvs)" "race_start t" b mvs "peak key mvs (race_start t)"] assms(3,4,6)
    by (simp add: race_start_def)
qed

subsection \<open>The bound is reached\<close>

definition one_guess :: "nanos \<Rightarrow> string \<Rightarrow> (nanos \<times> login_move) list" where
  "one_guess now key = [(now, Check key), (now, Deny key)]"

definition burst :: "nanos \<Rightarrow> string \<Rightarrow> nat \<Rightarrow> nat \<Rightarrow> (nanos \<times> login_move) list" where
  \<comment> \<open>\<open>n\<close> guesses one after the other, then \<open>k\<close> requests at once\<close>
  "burst now key n k = concat (replicate n (one_guess now key)) @ replicate k (now, Check key)"

lemma guesses_one_by_one:
  assumes "t_max t = int m" "0 < m" "race_clock t now now" "entries t key = None"
  shows "n < m \<Longrightarrow> \<exists>s. race_run (concat (replicate n (one_guess now key))) (race_start t) = s \<and>
    race_inv key m now 0 n now s \<and> race_clock (rc_throttle s) now now \<and> rc_flight s = [] \<and>
    rc_admitted s = replicate n key"
proof (induction n)
  case 0
  then show ?case using assms by (simp add: race_inv_def phase_def race_start_def)
next
  case (Suc n)
  then obtain s where s: "race_run (concat (replicate n (one_guess now key))) (race_start t) = s"
    "race_inv key m now 0 n now s" "race_clock (rc_throttle s) now now" "rc_flight s = []"
    "rc_admitted s = replicate n key" by auto
  define s1 where "s1 = race_step (now, Check key) s"
  define s2 where "s2 = race_step (now, Deny key) s1"
  have p: "phase (rc_throttle s) key m now n now" "t_max (rc_throttle s) = int m"
    using s(2) by (simp_all add: race_inv_def)
  have al: "fst (allowed (rc_throttle s) now key)" using phase_allowed[OF p(1)] Suc.prems by simp
  have "phase (record_failure (rc_throttle s) now key) key m now (Suc n) now"
    using s(3) by (intro phase_failure[OF p assms(2), where b = now]) (auto simp: race_clock_def)
  moreover have "race_clock (rc_throttle s2) now now" using s(3) by (simp add: s2_def s1_def del: race_step.simps)
  ultimately have inv: "race_inv key m now 0 (Suc n) now s2 \<and> race_clock (rc_throttle s2) now now \<and> rc_flight s2 = [] \<and>
      rc_admitted s2 = replicate (Suc n) key"
    using s(4,5) al p(2) by (simp add: s2_def s1_def race_inv_def)
  have cc: "concat (replicate (Suc n) (one_guess now key)) = concat (replicate n (one_guess now key)) @ one_guess now key"
    by (simp flip: replicate_append_same)
  have "race_run (concat (replicate (Suc n) (one_guess now key))) (race_start t) = s2"
    unfolding cc race_run_simps(3) s(1) by (simp add: one_guess_def s1_def s2_def del: race_step.simps)
  with inv show ?case by blast
qed

lemma checks_at_once:
  "fst (allowed (rc_throttle s) now key) \<Longrightarrow>
   rc_admitted (race_run (replicate k (now, Check key)) s) = replicate k key @ rc_admitted s"
  by (induction k arbitrary: s) (simp_all add: replicate_app_Cons_same)

theorem guesses_bound_reached:
  assumes "entries t key = None" and "t_max t = int m" and "0 < m" and "race_clock t now now"
  shows "count_list (rc_admitted (race_run (burst now key (m - 1) k) (race_start t))) key = m - 1 + k"
proof -
  obtain s where s: "race_run (concat (replicate (m - 1) (one_guess now key))) (race_start t) = s"
    "race_inv key m now 0 (m - 1) now s" "rc_admitted s = replicate (m - 1) key"
    using guesses_one_by_one[OF assms(2,3,4,1), of "m - 1"] assms(3) by auto
  have "fst (allowed (rc_throttle s) now key)"
    using s(2) assms(3) by (intro phase_allowed[of _ _ m now "m - 1"]) (simp_all add: race_inv_def)
  from checks_at_once[OF this] s show ?thesis
    by (simp add: burst_def)
qed

definition demo_guard :: throttle where
  "demo_guard = new_login_throttle zero_login"

lemma demo_guard_policy:
  "entries demo_guard key = None" "t_max demo_guard = int 5" "race_clock demo_guard 0 (60 * second)"
  "race_clock demo_guard 0 0"
  by (simp_all add: demo_guard_def new_login_throttle_def zero_login_def login_with_defaults_def Let_def
      wrap64_def second_def race_clock_def zero_time_def dur_sub_def)

definition demo_moves :: "(nanos \<times> login_move) list" where
  "demo_moves = one_guess 0 ''eve'' @ [(second, Check ''eve''), (second, Check ''eve''), (second, Check ''bob''),
     (2 * second, Accept ''bob''), (3 * second, Deny ''eve''), (3 * second, Sweep), (3 * second, Accept ''eve''),
     (4 * second, Check ''eve'')]"

theorem guesses_bounded_witness:
  "count_list (rc_admitted (race_run demo_moves (race_start demo_guard))) ''eve''
     \<le> 2 * (4 + peak ''eve'' demo_moves (race_start demo_guard))"
proof -
  have "sorted (map fst demo_moves)" and "\<forall>mv\<in>set demo_moves. 0 \<le> fst mv \<and> fst mv \<le> 60 * second"
    by (simp_all add: demo_moves_def one_guess_def second_def)
  moreover have "successes ''eve'' demo_moves = 1" by (simp add: demo_moves_def one_guess_def)
  ultimately show ?thesis using guesses_bounded[OF demo_guard_policy(1,2) _ demo_guard_policy(3), of demo_moves, where key = "''eve''"] by simp
qed

theorem guesses_bound_reached_witness:
  "count_list (rc_admitted (race_run (burst 0 ''eve'' 4 100) (race_start demo_guard))) ''eve'' = 104"
  using guesses_bound_reached[OF demo_guard_policy(1,2) _ demo_guard_policy(4), where k = 100] by simp

end
