(* ===== verification/Browser.thy ===== *)
theory Browser
  imports Handlers
begin

section \<open>The cookies and the browser\<close>

text \<open>
  What becomes of the cookies of \<open>Console\<close> in a browser.  The browser is a parameter: what it
  stores and what it sends, with the rules of RFC 6265 and of the \<open>__Host-\<close> prefix as the
  hypothesis \<open>rfc6265\<close>.
\<close>

subsection \<open>The browser\<close>

record 'j user_agent =
  ua_store :: "nanos \<Rightarrow> http_cookie \<Rightarrow> 'j \<Rightarrow> 'j"
  ua_send :: "nanos \<Rightarrow> 'j \<Rightarrow> (string \<times> string) list"
  ua_script :: "nanos \<Rightarrow> 'j \<Rightarrow> (string \<times> string) list"   \<comment> \<open>\<open>document.cookie\<close> of a page\<close>

definition host_bound :: "http_cookie \<Rightarrow> bool" where
  "host_bound c \<longleftrightarrow> has_prefix (hc_name c) ''__Host-'' \<and> hc_secure c \<and> hc_path c = ''/'' \<and> hc_domain c = []"

definition cookie_over :: "nanos \<Rightarrow> http_cookie \<Rightarrow> nanos \<Rightarrow> bool" where
  \<comment> \<open>a cookie stored at \<open>now\<close> has expired at \<open>t\<close>; \<open>Max-Age\<close> comes before \<open>Expires\<close>, a text of seconds\<close>
  "cookie_over now c t \<longleftrightarrow>
     (if hc_max_age c < 0 then True
      else if 0 < hc_max_age c then now + hc_max_age c * second < t
      else case hc_expires c of None \<Rightarrow> False | Some e \<Rightarrow> of_secs (to_secs e) < t)"

definition rfc6265 :: "'j user_agent \<Rightarrow> bool" where
  "rfc6265 ua \<longleftrightarrow>
     (\<forall>now c j t. host_bound c \<longrightarrow>
        map_of (ua_send ua t (ua_store ua now c j)) (hc_name c) = (if cookie_over now c t then None else Some (hc_value c)) \<and>
        (hc_http_only c \<longrightarrow> map_of (ua_script ua t (ua_store ua now c j)) (hc_name c) = None)) \<and>
     (\<forall>now c j t n. n \<noteq> hc_name c \<longrightarrow>
        map_of (ua_send ua t (ua_store ua now c j)) n = map_of (ua_send ua t j) n \<and>
        map_of (ua_script ua t (ua_store ua now c j)) n = map_of (ua_script ua t j) n)"

lemma rfc_send:
  "rfc6265 ua \<Longrightarrow> host_bound c \<Longrightarrow>
   map_of (ua_send ua t (ua_store ua now c j)) (hc_name c) = (if cookie_over now c t then None else Some (hc_value c))"
  by (simp add: rfc6265_def)

lemma rfc_script:
  "rfc6265 ua \<Longrightarrow> host_bound c \<Longrightarrow> hc_http_only c \<Longrightarrow> map_of (ua_script ua t (ua_store ua now c j)) (hc_name c) = None"
  by (simp add: rfc6265_def)

lemma rfc_send_other:
  "rfc6265 ua \<Longrightarrow> n \<noteq> hc_name c \<Longrightarrow> map_of (ua_send ua t (ua_store ua now c j)) n = map_of (ua_send ua t j) n"
  by (simp add: rfc6265_def)

lemma rfc_script_other:
  "rfc6265 ua \<Longrightarrow> n \<noteq> hc_name c \<Longrightarrow> map_of (ua_script ua t (ua_store ua now c j)) n = map_of (ua_script ua t j) n"
  by (simp add: rfc6265_def)

definition receive :: "'j user_agent \<Rightarrow> nanos \<Rightarrow> http_cookie list \<Rightarrow> 'j \<Rightarrow> 'j" where
  \<comment> \<open>a response's cookies are stored in their order\<close>
  "receive ua now cs j = fold (ua_store ua now) cs j"

definition visit_all :: "'j user_agent \<Rightarrow> (nanos \<times> http_cookie list) list \<Rightarrow> 'j \<Rightarrow> 'j" where
  "visit_all ua rs j = fold (\<lambda>(now, cs). receive ua now cs) rs j"

subsection \<open>Which cookies the console sets\<close>

definition console_cookie :: "http_cookie \<Rightarrow> bool" where
  \<comment> \<open>one of the calls of \<open>setSessionCookie\<close>, \<open>clearSessionCookie\<close>, \<open>setShortCookie\<close> and \<open>clearShortCookie\<close>\<close>
  "console_cookie c \<longleftrightarrow> (\<exists>t e. c = session_set_cookie t e) \<or> c = session_clear_cookie \<or>
     (\<exists>n\<in>{state_cookie, nonce_cookie}. c = short_clear_cookie n \<or> (\<exists>v. c = short_set_cookie n v))"

lemma console_cookie_intros [intro]:
  "console_cookie (session_set_cookie t e)" "console_cookie session_clear_cookie"
  "console_cookie (short_clear_cookie state_cookie)" "console_cookie (short_clear_cookie nonce_cookie)"
  "console_cookie (short_set_cookie state_cookie v)" "console_cookie (short_set_cookie nonce_cookie v)"
  by (auto simp: console_cookie_def)

lemma start_session_cookies:
  "start_session a ev ident st = (rep, ck, st') \<Longrightarrow> ck = [] \<or> (\<exists>v e. ck = [session_set_cookie v e])"
  using start_session_cases[of a ev ident st rep ck st'] by auto

lemma login_cookies:
  "handle_login a authenticate ev r st = (rep, ck, st') \<Longrightarrow> list_all console_cookie ck"
  by (auto simp: handle_login_def Let_def dest!: start_session_cookies split: if_splits sum.splits)

lemma callback_cookies:
  "handle_oidc_callback a oidc ev r st = (rep, ck, st') \<Longrightarrow> list_all console_cookie ck"
  by (auto simp: handle_oidc_callback_def Let_def
      dest!: start_session_cookies split: if_splits sum.splits option.splits prod.splits)

lemma other_cookies:
  "handle_login_form a ev r st = (rep, ck, st') \<Longrightarrow> list_all console_cookie ck"
  "handle_logout a ev r st = (rep, ck, st') \<Longrightarrow> list_all console_cookie ck"
  "handle_oidc_login a oidc ev r st = (rep, ck, st') \<Longrightarrow> list_all console_cookie ck"
  by (auto simp: handle_login_form_def handle_logout_def handle_oidc_login_def
      split: option.splits prod.splits bool.splits)

lemma post_only_cookies:
  "(case res of (rep, ck, st1) \<Rightarrow> case audited a ev r (rep, st1) of (rep, st2) \<Rightarrow> (rep, ck, st2)) = (rep', ck', st') \<Longrightarrow>
   \<exists>rep st1. res = (rep, ck', st1)"
  by (auto split: prod.splits)

lemma serve_cookies:
  assumes "serve a t authenticate oidc ev r segs st = (rep, ck, st')"
  shows "list_all console_cookie ck"
  using assms
  by (auto simp: serve_def Let_def
      dest!: post_only_cookies login_cookies callback_cookies other_cookies
      split: option.splits if_splits prod.splits)

lemmas cookie_defs = session_set_cookie_def session_clear_cookie_def short_set_cookie_def short_clear_cookie_def

lemma console_cookie_attributes:
  "console_cookie c \<Longrightarrow> host_bound c \<and> hc_http_only c \<and> hc_same_site c = SameSiteLax"
  by (auto simp: console_cookie_def host_bound_def cookie_defs session_cookie_def state_cookie_def nonce_cookie_def)

text \<open>
  Every cookie that any response of the console sets is one of its three, bound to the
  origin as its \<open>__Host-\<close> prefix demands (HTTPS only, the whole site, no domain), hidden from
  scripts and not sent by cross-site posts; so in every browser that keeps the rules a
  response leaves no cookie that a page's script can read, whatever the browser held before.
\<close>

theorem cookies_host_bound:
  assumes "serve a t authenticate oidc ev r segs st = (rep, ck, st')"
  shows "\<forall>c\<in>set ck. host_bound c \<and> hc_http_only c \<and> hc_same_site c = SameSiteLax \<and>
      (rfc6265 ua \<longrightarrow> map_of (ua_script ua u (receive ua now ck j)) (hc_name c) = None)"
proof
  fix c assume c: "c \<in> set ck"
  have hb: "\<forall>c\<in>set ck. host_bound c \<and> hc_http_only c \<and> hc_same_site c = SameSiteLax"
    using serve_cookies[OF assms] by (auto simp: list_all_iff dest: console_cookie_attributes)
  have "map_of (ua_script ua u (fold (ua_store ua now) cs j)) (hc_name c) = None"
    if "rfc6265 ua" "\<forall>c\<in>set cs. host_bound c \<and> hc_http_only c \<and> hc_same_site c = SameSiteLax" "c \<in> set cs" for cs
    using that(2,3)
  proof (induction cs rule: rev_induct)
    case (snoc d cs)
    show ?case
    proof (cases "hc_name d = hc_name c")
      case True
      then show ?thesis using rfc_script[OF that(1), of d] snoc.prems(1) by simp
    next
      case False
      then show ?thesis using rfc_script_other[OF that(1), of "hc_name c" d] snoc by auto
    qed
  qed simp
  from this[OF _ hb c] hb c show "host_bound c \<and> hc_http_only c \<and> hc_same_site c = SameSiteLax \<and>
      (rfc6265 ua \<longrightarrow> map_of (ua_script ua u (receive ua now ck j)) (hc_name c) = None)"
    by (auto simp: receive_def)
qed

subsection \<open>How long a sign-in lasts\<close>

lemma receive_other:
  "rfc6265 ua \<Longrightarrow> \<forall>c\<in>set cs. hc_name c \<noteq> n \<Longrightarrow> map_of (ua_send ua t (receive ua now cs j)) n = map_of (ua_send ua t j) n"
  unfolding receive_def
  by (induction cs rule: rev_induct) (auto simp: rfc_send_other)

lemma visit_all_other:
  "rfc6265 ua \<Longrightarrow> \<forall>(now, cs)\<in>set rs. \<forall>c\<in>set cs. hc_name c \<noteq> n \<Longrightarrow>
   map_of (ua_send ua t (visit_all ua rs j)) n = map_of (ua_send ua t j) n"
  unfolding visit_all_def
  by (induction rs rule: rev_induct) (auto simp: receive_other)

lemma start_session_row:
  assumes "start_session a ev ident st = (rep, ck, st')" and "ck \<noteq> []"
  shows "\<exists>token row. ck = [session_set_cookie token (ev_at ev ''create'' + ttl (ap_store a))] \<and>
    List.find (\<lambda>x. s_token x = hash_token (ap_sha a) token) (cn_sessions st') = Some row \<and>
    s_created row = Some (to_secs (ev_at ev ''create'')) \<and> s_expires row = to_secs (ev_at ev ''create'' + ttl (ap_store a))"
proof -
  have "List.find (\<lambda>x. s_token x = h) rows = None" if "h \<notin> s_token ` set rows" for h and rows :: "session_row list"
    using that by (simp add: find_None_key)
  with assms show ?thesis
    by (auto simp: start_session_def create_session_def Let_def find_append split: option.splits if_splits)
qed

lemma current_session_other:
  assumes "current_session a ev k r rows = (x, rows')"
    and "\<forall>c. map_of (rq_cookies r) session_cookie = Some c \<longrightarrow> hash_token (ap_sha a) c \<noteq> h"
  shows "List.find (\<lambda>x. s_token x = h) rows' = List.find (\<lambda>x. s_token x = h) rows"
proof (cases "map_of (rq_cookies r) session_cookie")
  case None
  with assms(1) show ?thesis by (simp add: current_session_def)
next
  case (Some c)
  let ?p = "\<lambda>x. s_token x = hash_token (ap_sha a) c"
  have n: "hash_token (ap_sha a) c \<noteq> h" using assms(2) Some by blast
  have "rows' = rows \<or> rows' = delete_where ?p rows \<or> (\<exists>e. rows' = update_where ?p (\<lambda>r. r\<lparr>s_expires := e\<rparr>) rows)"
    using assms(1) Some
    by (auto simp: current_session_def get_session_def delete_session_def Let_def split: option.splits if_splits prod.splits sum.splits)
  moreover have "List.find (\<lambda>x. s_token x = h) (update_where ?p (\<lambda>r. r\<lparr>s_expires := e\<rparr>) rows) = List.find (\<lambda>x. s_token x = h) rows" for e
    using n by (subst find_update_where) (auto simp: option.map_ident_strong dest!: find_SomeD intro!: option.map_ident_strong)
  moreover have "List.find (\<lambda>x. s_token x = h) (delete_where ?p rows) = List.find (\<lambda>x. s_token x = h) rows"
    unfolding find_delete_where using n by (metis (mono_tags, lifting))
  ultimately show ?thesis by auto
qed

lemma audited_sessions:
  assumes "audited a ev r (rep, st) = (rep', st')"
    and "\<forall>c. map_of (rq_cookies r) session_cookie = Some c \<longrightarrow> hash_token (ap_sha a) c \<noteq> h"
  shows "List.find (\<lambda>x. s_token x = h) (cn_sessions st') = List.find (\<lambda>x. s_token x = h) (cn_sessions st)"
  using assms current_session_other[of a ev "''audit''" r "cn_sessions st" _ _ h]
  by (auto simp: audited_def split: if_splits prod.splits)

definition signs_in :: "app \<Rightarrow> env \<Rightarrow> cookies \<Rightarrow> session_row list \<Rightarrow> string \<Rightarrow> bool" where
  "signs_in a ev ck rows token \<longleftrightarrow>
     (\<exists>ck1 row. ck = ck1 @ [session_set_cookie token (ev_at ev ''create'' + ttl (ap_store a))] \<and>
        (\<forall>c\<in>set ck1. hc_name c \<noteq> session_cookie) \<and>
        List.find (\<lambda>x. s_token x = hash_token (ap_sha a) token) rows = Some row \<and>
        s_created row = Some (to_secs (ev_at ev ''create'')) \<and> s_expires row = to_secs (ev_at ev ''create'' + ttl (ap_store a)))"

lemma cookie_names [simp]:
  "hc_name (session_set_cookie t e) = session_cookie" "hc_value (session_set_cookie t e) = t"
  "hc_name session_clear_cookie = session_cookie" "hc_value session_clear_cookie = []"
  "hc_name (short_set_cookie n v) = n" "hc_name (short_clear_cookie n) = n"
  "state_cookie \<noteq> session_cookie" "nonce_cookie \<noteq> session_cookie"
  by (simp_all add: cookie_defs session_cookie_def state_cookie_def nonce_cookie_def)

lemma signed_in:
  assumes "serve a t authenticate oidc ev r segs st = (rep, ck, st')"
    and "c \<in> set ck" and "hc_name c = session_cookie" and "hc_value c = token" and "token \<noteq> []"
    and "\<forall>c. map_of (rq_cookies r) session_cookie = Some c \<longrightarrow> hash_token (ap_sha a) c \<noteq> hash_token (ap_sha a) token"
  shows "signs_in a ev ck (cn_sessions st') token"
proof -
  have start: "signs_in a ev (pre @ ck2) (cn_sessions st2) token"
    if "start_session a ev ident st1 = (rep2, ck2, st2)" "c \<in> set ck2" "\<forall>d\<in>set pre. hc_name d \<noteq> session_cookie"
    for ident rep2 pre ck2 and st1 st2 :: fleet_console
    using start_session_row[OF that(1)] that(2,3) assms(4) by (fastforce simp: signs_in_def)
  have 1: "signs_in a ev ck (cn_sessions st1) token" if "handle_login a authenticate ev r st = (rep1, ck, st1)" for rep1 st1
    using that assms(2) start[where pre = "[]"] by (auto simp: handle_login_def Let_def split: if_splits sum.splits)
  have 2: "signs_in a ev ck (cn_sessions st') token" if h: "handle_oidc_callback a oidc ev r st = (rep1, ck, st')" for rep1
    using that assms(2,3) start[where pre = "[short_clear_cookie state_cookie, short_clear_cookie nonce_cookie]"]
    by (auto simp: handle_oidc_callback_def Let_def split: if_splits sum.splits option.splits prod.splits)
  have 3: False if "handle_logout a ev r st = (rep1, ck, st1)" for rep1 st1
    using that assms(2,4,5) by (auto simp: handle_logout_def split: option.splits prod.splits bool.splits)
  have 4: False if "handle_oidc_login a oidc ev r st = (rep1, ck, st1)" for rep1 st1
    using that assms(2,3) by (auto simp: handle_oidc_login_def split: option.splits prod.splits)
  have 5: False if "handle_login_form a ev r st = (rep1, ck, st1)" for rep1 st1
    using that assms(2) by (auto simp: handle_login_form_def split: option.splits prod.splits)
  have post: "signs_in a ev ck (cn_sessions st') token"
    if "audited a ev r (rep1, st1) = (rep, st')" "signs_in a ev ck (cn_sessions st1) token" for rep1 st1
    using that(2) audited_sessions[OF that(1) assms(6)] by (simp add: signs_in_def)
  show ?thesis
    using assms(1,2)
    by (auto simp: serve_def Let_def intro: post dest: 1 2 3 4 5 split: option.splits if_splits prod.splits)
qed

subsection \<open>A session in use\<close>

definition spares :: "(string \<Rightarrow> string) \<Rightarrow> session_row \<Rightarrow> session_event \<Rightarrow> bool" where
  \<comment> \<open>an event before the row's expiry that does not end its session on purpose\<close>
  "spares sha row ev \<longleftrightarrow> fst ev \<le> of_secs (s_expires row) \<and>
     (case snd (snd ev) of DeleteSession tok \<Rightarrow> hash_token sha tok \<noteq> s_token row | DeleteByUsername u \<Rightarrow> u \<noteq> s_username row
      | _ \<Rightarrow> True)"

definition lives_on :: "session_row \<Rightarrow> session_row list \<Rightarrow> bool" where
  "lives_on row rows \<longleftrightarrow> (\<exists>e. s_expires row \<le> e \<and> List.find (\<lambda>x. s_token x = s_token row) rows = Some (row\<lparr>s_expires := e\<rparr>))"

definition uncapped :: "session_store \<Rightarrow> session_row \<Rightarrow> bool" where
  \<comment> \<open>the absolute lifetime does not end before the expiry does\<close>
  "uncapped st row \<longleftrightarrow> (\<forall>c. 0 < max_lifetime st \<and> s_created row = Some c \<longrightarrow> of_secs (s_expires row) \<le> of_secs c + max_lifetime st)"

lemma find_still: "List.find q rs = Some r \<Longrightarrow> \<not> p r \<Longrightarrow> List.find (\<lambda>x. q x \<and> \<not> p x) rs = Some r"
  by (induction rs) (auto split: if_splits)

lemma lives_on_delete:
  assumes "lives_on row rows" and "\<And>e. s_expires row \<le> e \<Longrightarrow> \<not> p (row\<lparr>s_expires := e\<rparr>)"
  shows "lives_on row (delete_where p rows)"
proof -
  obtain e where e: "s_expires row \<le> e" "List.find (\<lambda>x. s_token x = s_token row) rows = Some (row\<lparr>s_expires := e\<rparr>)"
    using assms(1) by (auto simp: lives_on_def)
  have "List.find (\<lambda>x. s_token x = s_token row) (delete_where p rows) = Some (row\<lparr>s_expires := e\<rparr>)"
    unfolding find_delete_where using e(2) assms(2)[OF e(1)] by (rule find_still)
  with e(1) show ?thesis unfolding lives_on_def by blast
qed

lemma lives_on_append: "lives_on row rows \<Longrightarrow> lives_on row (rows @ new)"
  by (auto simp: lives_on_def find_append)

lemma lives_on_renew:
  assumes "lives_on row rows" and "s_token row \<noteq> h \<or> s_expires row \<le> e'"
  shows "lives_on row (update_where (\<lambda>x. s_token x = h) (\<lambda>r. r\<lparr>s_expires := e'\<rparr>) rows)"
proof -
  obtain e where e: "s_expires row \<le> e" "List.find (\<lambda>x. s_token x = s_token row) rows = Some (row\<lparr>s_expires := e\<rparr>)"
    using assms(1) by (auto simp: lives_on_def)
  let ?e = "if s_token row = h then e' else e"
  have "List.find (\<lambda>x. s_token x = s_token row) (update_where (\<lambda>x. s_token x = h) (\<lambda>r. r\<lparr>s_expires := e'\<rparr>) rows) =
      Some (row\<lparr>s_expires := ?e\<rparr>)"
    by (subst find_update_where) (simp_all add: e(2))
  moreover have "s_expires row \<le> ?e" using e(1) assms(2) by auto
  ultimately show ?thesis unfolding lives_on_def by blast
qed

lemma live_row:
  assumes "s_expires row \<le> e" and "now \<le> of_secs (s_expires row)" and "uncapped st row"
  shows "now \<le> of_secs e" and "\<not> past_cap st now (row\<lparr>s_expires := e\<rparr>)"
proof -
  show "now \<le> of_secs e" using assms(2) of_secs_mono[OF assms(1)] by linarith
  show "\<not> past_cap st now (row\<lparr>s_expires := e\<rparr>)"
    using assms(2,3) by (fastforce simp: past_cap_def lifetime_cap_def uncapped_def)
qed

lemma lives_on_get:
  assumes "lives_on row rows" and "now \<le> of_secs (s_expires row)" and "uncapped st row"
  shows "lives_on row (snd (get_session sha st f_sel f_del f_upd now tok rows))"
proof -
  obtain e where e: "s_expires row \<le> e" "List.find (\<lambda>x. s_token x = s_token row) rows = Some (row\<lparr>s_expires := e\<rparr>)"
    using assms(1) by (auto simp: lives_on_def)
  note live = live_row[OF e(1) assms(2,3)]
  show ?thesis
  proof (cases "hash_token sha tok = s_token row")
    case True
    have "e \<le> to_secs u" if "of_secs e < u" for u using to_secs_mono[of "of_secs e" u] that by simp
    with True e live assms(1) show ?thesis
      by (auto simp: get_session_def Let_def intro!: lives_on_renew split: option.split) (meson le_less_trans less_imp_le order.trans)+
  next
    case False
    with assms(1) show ?thesis
      by (auto simp: get_session_def delete_session_def Let_def intro!: lives_on_renew lives_on_delete split: option.split)
  qed
qed

lemma lives_on_step:
  assumes "lives_on row rows" and "spares sha row ev" and "uncapped st row"
  shows "lives_on row (session_step sha st ev rows)"
proof -
  obtain now ft c where ev: "ev = (now, ft, c)" by (cases ev rule: prod_cases3)
  have now: "now \<le> of_secs (s_expires row)" using assms(2) by (simp add: spares_def ev)
  show ?thesis
  proof (cases c)
    case (CreateSession ident r1 r2)
    with assms(1) show ?thesis by (auto simp: ev create_session_def Let_def intro: lives_on_append split: option.split)
  next
    case (GetSession tok fd fu)
    then show ?thesis by (simp add: ev lives_on_get[OF assms(1) now assms(3)])
  next
    case (DeleteSession tok)
    with assms(1,2) show ?thesis
      by (auto simp: ev spares_def delete_session_def intro!: lives_on_delete split: option.split)
  next
    case DeleteExpired
    have "to_secs now \<le> s_expires row" using to_secs_mono[OF now] by simp
    with DeleteExpired assms(1) show ?thesis
      by (auto simp: ev delete_expired_def intro!: lives_on_delete split: option.split)
  next
    case (DeleteByUsername u)
    with assms(1,2) show ?thesis
      by (auto simp: ev spares_def delete_by_username_def intro!: lives_on_delete split: option.split)
  qed
qed

lemma lives_on_run:
  "lives_on row rows \<Longrightarrow> list_all (spares sha row) evs \<Longrightarrow> uncapped st row \<Longrightarrow> lives_on row (session_run sha st evs rows)"
  unfolding session_run_def by (induction evs arbitrary: rows) (simp_all add: lives_on_step)

lemma lives_on_accepted:
  assumes "lives_on row rows" and "now \<le> of_secs (s_expires row)" and "uncapped st row" and "hash_token sha token = s_token row"
    and "token \<noteq> []"
  shows "\<exists>s rows'. get_session sha st None f_del f_upd now token rows = (Inr s, rows') \<and> ses_identity s = row_identity row \<and>
    ses_token s = token"
proof -
  obtain e where e: "s_expires row \<le> e" "List.find (\<lambda>x. s_token x = s_token row) rows = Some (row\<lparr>s_expires := e\<rparr>)"
    using assms(1) by (auto simp: lives_on_def)
  from live_row[OF e(1) assms(2,3)] e(2) assms(4,5) show ?thesis
    by (auto simp: get_session_def Let_def row_identity_def)
qed


subsection \<open>A browser\<close>

text \<open>
  A browser that keeps its cookies in a list, with when they expire and whether scripts may
  read them.
\<close>

definition kept_until :: "nanos \<Rightarrow> http_cookie \<Rightarrow> nanos option" where
  "kept_until now c =
     (if 0 < hc_max_age c then Some (now + hc_max_age c * second)
      else map_option (\<lambda>e. of_secs (to_secs e)) (hc_expires c))"

definition alive :: "nanos \<Rightarrow> string \<times> string \<times> nanos option \<times> bool \<Rightarrow> bool" where
  "alive t x = (case fst (snd (snd x)) of None \<Rightarrow> True | Some e \<Rightarrow> t \<le> e)"

definition demo_browser :: "(string \<times> string \<times> nanos option \<times> bool) list user_agent" where
  "demo_browser = \<lparr>
     ua_store = (\<lambda>now c j. (if hc_max_age c < 0 then [] else [(hc_name c, hc_value c, kept_until now c, hc_http_only c)]) @
       filter (\<lambda>x. fst x \<noteq> hc_name c) j),
     ua_send = (\<lambda>t j. map (\<lambda>x. (fst x, fst (snd x))) (filter (alive t) j)),
     ua_script = (\<lambda>t j. map (\<lambda>x. (fst x, fst (snd x))) (filter (\<lambda>x. alive t x \<and> \<not> snd (snd (snd x))) j))\<rparr>"

lemma jar_without:
  "map_of (map (\<lambda>x. (fst x, fst (snd x))) (filter P (filter (\<lambda>x. fst x \<noteq> m) j))) n =
     (if n = m then None else map_of (map (\<lambda>x. (fst x, fst (snd x))) (filter P j)) n)"
  by (induction j) auto

lemma rfc6265_demo_browser: "rfc6265 demo_browser"
  unfolding rfc6265_def demo_browser_def
  by (auto simp: jar_without alive_def kept_until_def cookie_over_def split: option.splits simp del: filter_filter)

definition demo_signed_in :: "reply \<times> cookies \<times> fleet_console" where
  "demo_signed_in = serve demo_app demo_tools demo_auth None demo_web_env demo_request [''login''] demo_state"

lemma demo_signed_in_cookie: "fst (snd demo_signed_in) = [session_set_cookie (hex_encode ''token'') (5 * second + 12 * hour)]"
  by code_simp

theorem cookies_host_bound_witness:
  "\<exists>c\<in>set (fst (snd demo_signed_in)). host_bound c \<and>
     map_of (ua_script demo_browser 0 (receive demo_browser 0 (fst (snd demo_signed_in)) [])) (hc_name c) = None"
proof -
  have "serve demo_app demo_tools demo_auth None demo_web_env demo_request [''login''] demo_state
      = (fst demo_signed_in, fst (snd demo_signed_in), snd (snd demo_signed_in))" by (simp add: demo_signed_in_def)
  from cookies_host_bound[OF this, where ua = demo_browser and u = 0 and now = 0 and j = "[]"]
  have "\<forall>c\<in>set (fst (snd demo_signed_in)). host_bound c \<and>
      map_of (ua_script demo_browser 0 (receive demo_browser 0 (fst (snd demo_signed_in)) [])) (hc_name c) = None"
    using rfc6265_demo_browser by blast
  then show ?thesis by (simp add: demo_signed_in_cookie)
qed

definition demo_idle :: "session_event list" where
  \<comment> \<open>the new administrator loads a page at 11 hours\<close>
  "demo_idle = [(11 * hour, None, GetSession (hex_encode ''token'') None None)]"

definition demo_return :: "nanos \<Rightarrow> session option \<times> session_row list" where
  \<comment> \<open>and comes back at \<open>t\<close>\<close>
  "demo_return t = current_session demo_app (demo_web_env\<lparr>ev_at := \<lambda>k. t\<rparr>) ''session''
     (demo_request\<lparr>rq_cookies := ua_send demo_browser t (receive demo_browser 0 (fst (snd demo_signed_in)) [])\<rparr>)
     (session_run (ap_sha demo_app) (ap_store demo_app) demo_idle (cn_sessions (snd (snd demo_signed_in))))"


text \<open>
  The idle timeout is meant to slide with every request, and in the session table it does; the
  cookie's expiry does not, because only a sign-in sets it.  With an idle timeout of an hour, a
  sign-in at 0 and a visit after 50 minutes, the token is good until 110 minutes after the
  sign-in; after 70 minutes the browser no longer sends it.
\<close>

definition active_admin :: "session_event list" where
  "active_admin = [(0, None, CreateSession demo_ident ''t'' ''c''), (3000 * second, None, GetSession ''74'' None None)]"

theorem idle_renewal_lost:
  "fst (get_session (\<lambda>s. s) (new_session_store hour) None None None (4200 * second) ''74''
      (session_run (\<lambda>s. s) (new_session_store hour) active_admin [])) \<noteq> Inl NoSession \<and>
   current_session (demo_app\<lparr>ap_store := new_session_store hour\<rparr>) (demo_web_env\<lparr>ev_at := \<lambda>k. 4200 * second\<rparr>) ''session''
      (demo_request\<lparr>rq_cookies := ua_send demo_browser (4200 * second)
         (receive demo_browser 0 [session_set_cookie ''74'' hour] [])\<rparr>)
      (session_run (\<lambda>s. s) (new_session_store hour) active_admin [])
    = (None, session_run (\<lambda>s. s) (new_session_store hour) active_admin [])"
proof
  show "fst (get_session (\<lambda>s. s) (new_session_store hour) None None None (4200 * second) ''74''
      (session_run (\<lambda>s. s) (new_session_store hour) active_admin [])) \<noteq> Inl NoSession" by code_simp
  have "ua_send demo_browser (4200 * second) (receive demo_browser 0 [session_set_cookie ''74'' hour] []) = []"
    by (simp add: receive_def demo_browser_def session_set_cookie_def kept_until_def alive_def to_secs_def
        of_secs_def second_def hour_def)
  then show "current_session (demo_app\<lparr>ap_store := new_session_store hour\<rparr>) (demo_web_env\<lparr>ev_at := \<lambda>k. 4200 * second\<rparr>) ''session''
      (demo_request\<lparr>rq_cookies := ua_send demo_browser (4200 * second)
         (receive demo_browser 0 [session_set_cookie ''74'' hour] [])\<rparr>)
      (session_run (\<lambda>s. s) (new_session_store hour) active_admin [])
    = (None, session_run (\<lambda>s. s) (new_session_store hour) active_admin [])"
    by (simp add: current_session_def)
qed

end
