(* ===== verification/PushCheck.thy ===== *)
theory PushCheck
  imports ImportCli Push Timestamps
begin

section \<open>Push certificates through an import, to the dashboard\<close>

text \<open>
  \<open>validatePushCert\<close> of \<open>internal/importer/importer.go\<close> (PEM and X.509 are the record
  \<open>pem_certs\<close>), and the dashboard's row of a certificate (\<open>apnsStatus\<close> in
  \<open>internal/web/handlers.go\<close>) from the text of its stored expiry.  A run of the import that
  returns a report has checked every push certificate of the source; the expiry it reports
  is a text of RFC3339, stored as it is, and the dashboard reads back the same second.
\<close>

record leaf_cert =
  lf_not_before :: nanos
  lf_not_after :: nanos
  lf_subject :: string
  lf_topic :: "string + string"   \<comment> \<open>\<open>cryptoutil.TopicFromCert\<close>\<close>

record pem_certs =
  pm_pair :: "string \<Rightarrow> string \<Rightarrow> fault"   \<comment> \<open>\<open>tls.X509KeyPair\<close>\<close>
  pm_decode :: "string \<Rightarrow> string + leaf_cert"

definition validate_push_cert :: "pem_certs \<Rightarrow> (string \<Rightarrow> nanos) \<Rightarrow> string \<Rightarrow> string \<Rightarrow> string + (string \<times> string \<times> string)" where
  \<comment> \<open>\<open>clock\<close> gives the time at which each certificate is checked\<close>
  "validate_push_cert pm clock cert key =
     (case pm_pair pm cert key of
        Some e \<Rightarrow> Inl (''cert/key do not match: '' @ e)
      | None \<Rightarrow>
     (case pm_decode pm cert of
        Inl e \<Rightarrow> Inl (''parse cert: '' @ e)
      | Inr c \<Rightarrow>
     (case lf_topic c of
        Inl e \<Rightarrow> Inl (''extract topic: '' @ e)
      | Inr topic \<Rightarrow>
          let now = clock cert in
          if now < lf_not_before c then Inl (''push cert not valid until '' @ rfc3339 (lf_not_before c))
          else if lf_not_after c < now
          then Inl (''push cert EXPIRED '' @ rfc3339 (lf_not_after c) @ '' '' @ [CHR 0xE2, CHR 0x80, CHR 0x94] @
            '' the migrated fleet could not be pushed'')
          else Inr (topic, rfc3339 (lf_not_after c), lf_subject c))))"

record topic_view =
  tv_topic :: string
  tv_subject :: string
  tv_expires :: string
  tv_days :: int
  tv_severity :: string
  tv_label :: string
  tv_warn :: bool

definition topic_view_of :: "nanos \<Rightarrow> string \<Rightarrow> string \<Rightarrow> string \<Rightarrow> topic_view" where
  \<comment> \<open>the row of one topic, its expiry being the stored text; the day is that of the text's own zone\<close>
  "topic_view_of now topic subject not_after =
     (case parse_in_zone (CHR ''T'') True not_after of
        Some (parsed, off) \<Rightarrow> (case renewal_tier now parsed of (days, sev, label) \<Rightarrow>
          \<lparr>tv_topic = topic, tv_subject = subject, tv_expires = format_date (civil_of (to_secs parsed + off)), tv_days = days,
           tv_severity = sev, tv_label = label, tv_warn = (sev \<noteq> ''ok'')\<rparr>)
      | None \<Rightarrow> \<lparr>tv_topic = topic, tv_subject = subject, tv_expires = not_after, tv_days = 0, tv_severity = ''unknown'',
           tv_label = ''unknown'', tv_warn = False\<rparr>)"

subsection \<open>What a certificate that passed is\<close>

definition push_cert_valid :: "pem_certs \<Rightarrow> (string \<Rightarrow> nanos) \<Rightarrow> push_cert_src \<Rightarrow> string \<times> string \<times> string \<Rightarrow> bool" where
  "push_cert_valid pm clock pc meta \<longleftrightarrow>
     pm_pair pm (pc_cert pc) (pc_key pc) = None \<and>
     (\<exists>c. pm_decode pm (pc_cert pc) = Inr c \<and> lf_not_before c \<le> clock (pc_cert pc) \<and> clock (pc_cert pc) \<le> lf_not_after c \<and>
        lf_topic c = Inr (fst meta) \<and> snd meta = (rfc3339 (lf_not_after c), lf_subject c))"

lemma validated_push_cert:
  "validate_push_cert pm clock (pc_cert pc) (pc_key pc) = Inr meta \<Longrightarrow> push_cert_valid pm clock pc meta"
  by (auto simp: validate_push_cert_def push_cert_valid_def Let_def split: option.splits sum.splits if_splits)

subsection \<open>The report keeps the certificates it has checked\<close>

lemma add_skip_topics [simp]: "rep_push_topics (add_skip i r opts rep) = rep_push_topics rep"
  by (simp add: add_skip_def)

lemma bump_topics [simp]: "rep_push_topics (bump_devices rep) = rep_push_topics rep"
  by (simp add: bump_devices_def)

lemma set_source_topics [simp]: "rep_push_topics (set_source f rep) = rep_push_topics rep"
  by (simp add: set_source_def)

lemma push_topics_checked:
  "import_push_certs d dec opts pcs rep st = (Inr rep', st') \<Longrightarrow>
   (\<And>pc meta. dec_push_cert dec (pc_cert pc) (pc_key pc) = Inr meta \<Longrightarrow> P pc meta) \<Longrightarrow>
   \<exists>ms. rep_push_topics rep' = rep_push_topics rep @ ms \<and> list_all2 P pcs ms"
proof (induction pcs arbitrary: rep st)
  case (Cons pc pcs)
  then obtain meta st1 where m: "dec_push_cert dec (pc_cert pc) (pc_key pc) = Inr meta"
    and r: "import_push_certs d dec opts pcs
      (rep\<lparr>rep_push_topics := rep_push_topics rep @ [meta], rep_push_certs := rep_push_certs rep + 1\<rparr>) st1 = (Inr rep', st')"
    by (auto split: sum.splits prod.splits option.splits)
  from Cons.IH[OF r Cons.prems(2)] obtain ms where
    "rep_push_topics rep' = rep_push_topics rep @ meta # ms" "list_all2 P pcs ms" by auto
  then show ?case using Cons.prems(2)[OF m] by (intro exI[of _ "meta # ms"]) simp
qed simp

lemma device_topics:
  "import_device d dec opts row rep st = (Inr rep', st') \<Longrightarrow> rep_push_topics rep' = rep_push_topics rep"
  by (auto simp: import_device_def import_bootstrap_def Let_def split: if_splits sum.splits prod.splits option.splits)

lemma user_auth_topics:
  "import_user_auth d dec opts row raws rep st = (Inr rep', st') \<Longrightarrow> rep_push_topics rep' = rep_push_topics rep"
  by (induction raws arbitrary: rep st) (fastforce split: if_splits sum.splits prod.splits option.splits)+

lemma user_topics:
  "import_user d dec opts row rep st = (Inr rep', st') \<Longrightarrow> rep_push_topics rep' = rep_push_topics rep"
  by (auto simp: import_user_def simp del: import_user_auth.simps dest!: user_auth_topics
      split: if_splits sum.splits prod.splits option.splits)

lemma assoc_topics:
  "import_assoc d opts a rep st = (Inr rep', st') \<Longrightarrow> rep_push_topics rep' = rep_push_topics rep"
  by (auto simp: import_assoc_def split: prod.splits option.splits)

lemma each_topics:
  assumes "\<And>r rep st rep' st'. f r rep st = (Inr rep', st') \<Longrightarrow> rep_push_topics rep' = rep_push_topics rep"
  shows "each_row f rs rep st = (Inr rep', st') \<Longrightarrow> rep_push_topics rep' = rep_push_topics rep"
proof (induction rs arbitrary: rep st)
  case (Cons r rs)
  from Cons.prems obtain rep1 st1 where 1: "f r rep st = (Inr rep1, st1)" "each_row f rs rep1 st1 = (Inr rep', st')"
    by (auto split: prod.splits sum.splits)
  from Cons.IH[OF 1(2)] assms[OF 1(1)] show ?case by simp
qed simp

lemma disable_all_topics: "disable_all d es rep st = (rep', st') \<Longrightarrow> rep_push_topics rep' = rep_push_topics rep"
  by (induction es arbitrary: rep st) (auto split: prod.splits option.splits if_splits)

lemma enrollments_topics: "import_enrollments d opts es as rep st = (rep', st') \<Longrightarrow> rep_push_topics rep' = rep_push_topics rep"
  by (auto simp: import_enrollments_def Let_def dest: disable_all_topics split: prod.splits if_splits)

lemma run_import_topics:
  assumes "run_import d dec src opts st = (Inr rep, st')"
    and "\<And>pc meta. dec_push_cert dec (pc_cert pc) (pc_key pc) = Inr meta \<Longrightarrow> P pc meta"
  shows "\<exists>pcs. src_push_certs src = Inr pcs \<and> list_all2 P pcs (rep_push_topics rep)"
proof -
  from assms(1)[unfolded run_import_def phase_Inr] obtain p pcs ds us rep1 s1 rep2 s2 rep3 s3 assocs rep4 s4 es where
      src: "src_push_certs src = Inr pcs"
    and 1: "import_push_certs d dec opts pcs
            (set_source (\<lambda>s. s\<lparr>sc_pending := p, sc_push_certs := length pcs\<rparr>) (new_report opts)) st = (Inr rep1, s1)"
    and 2: "each_row (import_device d dec opts) ds (set_source (\<lambda>s. s\<lparr>sc_devices := length ds\<rparr>) rep1) s1 = (Inr rep2, s2)"
    and 3: "each_row (import_user d dec opts) us (set_source (\<lambda>s. s\<lparr>sc_users := length us\<rparr>) rep2) s2 = (Inr rep3, s3)"
    and 4: "each_row (import_assoc d opts) assocs (set_source (\<lambda>s. s\<lparr>sc_associations := length assocs\<rparr>) rep3) s3 = (Inr rep4, s4)"
    and 5: "(case import_enrollments d opts es assocs (set_source (\<lambda>s. s\<lparr>sc_enrollments := length es\<rparr>) rep4) s4 of
               (rep5, st5) \<Rightarrow> (Inr rep5 :: string + report, st5)) = (Inr rep, st')"
    by (auto simp: and_next_Inr phase_Inr split: if_splits)
  obtain ms where ms: "rep_push_topics rep1 = ms" "list_all2 P pcs ms"
    using push_topics_checked[OF 1 assms(2)] by (auto simp: new_report_def)
  have e2: "rep_push_topics rep2 = rep_push_topics (set_source (\<lambda>s. s\<lparr>sc_devices := length ds\<rparr>) rep1)"
    by (rule each_topics[OF _ 2]) (rule device_topics)
  have e3: "rep_push_topics rep3 = rep_push_topics (set_source (\<lambda>s. s\<lparr>sc_users := length us\<rparr>) rep2)"
    by (rule each_topics[OF _ 3]) (rule user_topics)
  have e4: "rep_push_topics rep4 = rep_push_topics (set_source (\<lambda>s. s\<lparr>sc_associations := length assocs\<rparr>) rep3)"
    by (rule each_topics[OF _ 4]) (rule assoc_topics)
  have "rep_push_topics rep = rep_push_topics rep4"
    using 5 by (auto dest: enrollments_topics split: prod.splits)
  also have "\<dots> = rep_push_topics rep1"
    using e2 e3 e4 by simp
  finally show ?thesis using ms src by auto
qed

text \<open>
  An import that returns a report has found every push certificate of the source usable:
  its key matches, it names a topic and it was valid when it was checked; the report lists
  the topics in the source's order, and the dashboard, given the reported expiry as it is
  stored, shows the certificate's own expiry day and the renewal tier of its own expiry, to
  the second.
\<close>

theorem imported_certs_valid:
  assumes "run_import d (dec\<lparr>dec_push_cert := validate_push_cert pm clock\<rparr>) src opts st = (Inr rep, st')"
    and "\<forall>cert c. pm_decode pm cert = Inr c \<longrightarrow> text_time (lf_not_after c)"
  shows "\<exists>pcs. src_push_certs src = Inr pcs \<and> list_all2 (\<lambda>pc (topic, na, subject).
      pm_pair pm (pc_cert pc) (pc_key pc) = None \<and>
      (\<exists>c. pm_decode pm (pc_cert pc) = Inr c \<and> lf_not_before c \<le> clock (pc_cert pc) \<and> clock (pc_cert pc) \<le> lf_not_after c \<and>
         lf_topic c = Inr topic \<and>
         (let v = topic_view_of now topic subject na; tier = renewal_tier now (of_secs (to_secs (lf_not_after c))) in
          tv_expires v = format_date (civil_of (to_secs (lf_not_after c))) \<and> (tv_days v, tv_severity v, tv_label v) = tier)))
    pcs (rep_push_topics rep)"
proof -
  have "\<exists>pcs. src_push_certs src = Inr pcs \<and> list_all2 (push_cert_valid pm clock) pcs (rep_push_topics rep)"
    by (rule run_import_topics[OF assms(1)]) (auto intro: validated_push_cert)
  then obtain pcs where pcs: "src_push_certs src = Inr pcs" "list_all2 (push_cert_valid pm clock) pcs (rep_push_topics rep)"
    by blast
  show ?thesis
  proof (intro exI[of _ pcs] conjI pcs(1) list_all2_mono[OF pcs(2)])
    fix pc and meta :: "string \<times> string \<times> string"
    assume v: "push_cert_valid pm clock pc meta"
    obtain topic na subject where m: "meta = (topic, na, subject)" by (cases meta rule: prod_cases3)
    from v obtain c where c: "pm_pair pm (pc_cert pc) (pc_key pc) = None" "pm_decode pm (pc_cert pc) = Inr c"
      "lf_not_before c \<le> clock (pc_cert pc)" "clock (pc_cert pc) \<le> lf_not_after c" "lf_topic c = Inr topic"
      "na = rfc3339 (lf_not_after c)" by (auto simp: push_cert_valid_def m)
    have "parse_in_zone (CHR ''T'') True na = Some (of_secs (to_secs (lf_not_after c)), 0)"
      using assms(2) c(2) by (simp add: c(6) parse_rfc3339_zone)
    then show "case meta of (topic, na, subject) \<Rightarrow>
      pm_pair pm (pc_cert pc) (pc_key pc) = None \<and>
      (\<exists>c. pm_decode pm (pc_cert pc) = Inr c \<and> lf_not_before c \<le> clock (pc_cert pc) \<and> clock (pc_cert pc) \<le> lf_not_after c \<and>
         lf_topic c = Inr topic \<and>
         (let v = topic_view_of now topic subject na; tier = renewal_tier now (of_secs (to_secs (lf_not_after c))) in
          tv_expires v = format_date (civil_of (to_secs (lf_not_after c))) \<and> (tv_days v, tv_severity v, tv_label v) = tier))"
      using c by (auto simp: m topic_view_of_def Let_def split: prod.splits)
  qed
qed

definition demo_pem :: pem_certs where
  "demo_pem = \<lparr>pm_pair = (\<lambda>c k. if k = ''k'' then None else Some ''mismatch''),
     pm_decode = (\<lambda>c. if c = ''c'' then Inr \<lparr>lf_not_before = 0, lf_not_after = 86400 * second, lf_subject = ''CN'',
         lf_topic = Inr ''com.apple.mgmt''\<rparr> else Inl ''no PEM block'')\<rparr>"

definition demo_push_source :: source where
  "demo_push_source = (example_source ''A'')\<lparr>src_push_certs := Inr [\<lparr>pc_topic = ''t'', pc_cert = ''c'', pc_key = ''k''\<rparr>]\<rparr>"

theorem imported_certs_valid_witness:
  "\<exists>rep st'. run_import example_dst (example_decoders\<lparr>dec_push_cert := validate_push_cert demo_pem (\<lambda>c. hour)\<rparr>) demo_push_source
     (example_options False []) [] = (Inr rep, st') \<and> map fst (rep_push_topics rep) = [''com.apple.mgmt'']"
proof -
  let ?x = "run_import example_dst (example_decoders\<lparr>dec_push_cert := validate_push_cert demo_pem (\<lambda>c. hour)\<rparr>) demo_push_source
     (example_options False []) []"
  have "\<not> isl (fst ?x)" by code_simp
  then obtain rep :: report and st' where h: "?x = (Inr rep, st')" by (cases ?x; cases "fst ?x") auto
  have "\<forall>cert c. pm_decode demo_pem cert = Inr c \<longrightarrow> text_time (lf_not_after c)"
    by (auto simp: demo_pem_def text_time_def to_secs_def second_def split: if_splits)
  from imported_certs_valid[OF h this, of 0] have "map fst (rep_push_topics rep) = [''com.apple.mgmt'']"
    by (auto simp: demo_push_source_def list_all2_Cons1 demo_pem_def)
  with h show ?thesis by (intro exI[of _ rep] exI[of _ st'] conjI)
qed

end
