(* ===== verification/AuditWriter.thy ===== *)
theory AuditWriter
  imports Server
begin

section \<open>What the audit log records of a response\<close>

text \<open>
  \<open>statusRecorder\<close> and \<open>audited\<close> of \<open>internal/web/audit.go\<close> at the level of the response
  writer.  A handler is the sequence of the calls it makes on its writer, and may panic after
  them.  \<open>Console.audited\<close>, in which a handler returns its reply, records the reply's status;
  here that status is the one that the recorder has seen and that the client received.
\<close>

datatype write_call =
    SetHeader string string
  | AddHeader string string
  | WriteHeader int
  | Write chunk

fun do_write :: "write_call \<Rightarrow> writer \<Rightarrow> writer" where
  "do_write (SetHeader k v) w = set_header k v w"
| "do_write (AddHeader k v) w = add_header k v w"
| "do_write (WriteHeader c) w = write_header c w"
| "do_write (Write b) w = write_chunk b w"

record recorder =
  rec_status :: int
  rec_writer :: writer

definition new_recorder :: "writer \<Rightarrow> recorder" where
  "new_recorder w = \<lparr>rec_status = 0, rec_writer = w\<rparr>"

definition rec_write_header :: "int \<Rightarrow> recorder \<Rightarrow> recorder" where
  "rec_write_header c s = s\<lparr>rec_status := c, rec_writer := write_header c (rec_writer s)\<rparr>"

definition rec_write :: "chunk \<Rightarrow> recorder \<Rightarrow> recorder" where
  "rec_write b s =
     (let s1 = (if rec_status s = 0 then s\<lparr>rec_status := 200\<rparr> else s)
      in s1\<lparr>rec_writer := write_chunk b (rec_writer s1)\<rparr>)"

fun rec_call :: "write_call \<Rightarrow> recorder \<Rightarrow> recorder" where
  \<comment> \<open>the header map is the embedded writer's\<close>
  "rec_call (WriteHeader c) s = rec_write_header c s"
| "rec_call (Write b) s = rec_write b s"
| "rec_call c s = s\<lparr>rec_writer := do_write c (rec_writer s)\<rparr>"

definition recorded_status :: "recorder \<Rightarrow> int" where
  "recorded_status s = (if rec_status s = 0 then 200 else rec_status s)"

definition audited_response ::
  "app \<Rightarrow> env \<Rightarrow> request \<Rightarrow> (('a) console_scheme \<Rightarrow> write_call list \<times> bool \<times> ('a) console_scheme) \<Rightarrow> writer \<Rightarrow> ('a) console_scheme \<Rightarrow>
   bool \<times> writer \<times> ('a) console_scheme" where
  \<comment> \<open>a panic leaves the wrapper before the row is written\<close>
  "audited_response a ev r h w st =
     (case h st of (calls, panicked, st1) \<Rightarrow>
        let s = fold rec_call calls (new_recorder w) in
        if panicked then (True, rec_writer s, st1)
        else if \<not> ap_audit a then (False, rec_writer s, st1)
        else case current_session a ev ''audit'' r (cn_sessions st1) of (sess, rows) \<Rightarrow>
          (False, rec_writer s, st1\<lparr>cn_sessions := rows,
             cn_audit := snd (append_audit (ev_fault ev ''append'') (ev_at ev ''append'')
               \<lparr>au_id = 0, au_at = 0,
                au_username = (let u = (case sess of None \<Rightarrow> [] | Some s \<Rightarrow> id_username (ses_identity s))
                               in if u = [] then field (rq_form r) ''username'' else u),
                au_provider = (case sess of None \<Rightarrow> [] | Some s \<Rightarrow> id_provider (ses_identity s)),
                au_action = rq_method r, au_target = rq_path r, au_result = int_str (recorded_status s),
                au_remote = client_ip a r\<rparr> (cn_audit st1))\<rparr>))"

subsection \<open>The calls behind a reply\<close>

fun reply_calls :: "reply \<Rightarrow> write_call list" where
  "reply_calls (Redirect c u flash) =
     [SetHeader ''Location'' (case flash of None \<Rightarrow> u | Some (k, m) \<Rightarrow> u @ ''?'' @ k @ ''='' @ query_escape m), WriteHeader c]"
| "reply_calls (Page c t m) = [SetHeader ''Content-Type'' ''text/html; charset=utf-8'', WriteHeader c, Write (Html t m)]"
| "reply_calls (TextError c m) = [SetHeader ''Content-Type'' ''text/plain; charset=utf-8'',
     SetHeader ''X-Content-Type-Options'' ''nosniff'', WriteHeader c, Write (Text m)]"
| "reply_calls (Download n data) = [SetHeader ''Content-Type'' ''application/x-apple-aspen-config'',
     SetHeader ''Content-Disposition'' (''attachment; filename='' @ [CHR 0x22] @ n @ [CHR 0x22]), Write (Text data)]"

definition console_calls :: "reply \<Rightarrow> cookies \<Rightarrow> write_call list" where
  "console_calls rep ck = map (\<lambda>c. AddHeader ''Set-Cookie'' (cookie_text c)) ck @ reply_calls rep"

lemma fold_reply_calls: "fold do_write (reply_calls rep) w = write_reply rep w"
  by (cases rep) simp_all

lemma fold_cookies:
  "fold do_write (map (\<lambda>c. AddHeader ''Set-Cookie'' (cookie_text c)) ck) w =
   foldl (\<lambda>w c. add_header ''Set-Cookie'' (cookie_text c) w) w ck"
  by (induction ck arbitrary: w) simp_all

lemma console_calls_write: "fold do_write (console_calls rep ck) w = write_body (ConsoleBody rep ck) w"
  by (simp add: console_calls_def fold_cookies fold_reply_calls)

subsection \<open>The recorder sees what the client gets\<close>

lemma recorder_transparent: "rec_writer (fold rec_call calls s) = fold do_write calls (rec_writer s)"
proof (induction calls arbitrary: s)
  case (Cons c calls)
  have "rec_writer (rec_call c s) = do_write c (rec_writer s)"
    by (cases c) (simp_all add: rec_write_header_def rec_write_def Let_def)
  with Cons show ?case by simp
qed simp

fun status_once :: "write_call list \<Rightarrow> bool" where
  \<comment> \<open>no status after a status or a part of the body\<close>
  "status_once [] = True"
| "status_once (WriteHeader c # cs) = (c \<noteq> 0 \<and> (\<forall>d. WriteHeader d \<notin> set cs))"
| "status_once (Write b # cs) = (\<forall>d. WriteHeader d \<notin> set cs)"
| "status_once (c # cs) = status_once cs"

lemma status_settled:
  "\<forall>d. WriteHeader d \<notin> set calls \<Longrightarrow> rec_status s \<noteq> 0 \<Longrightarrow> wr_sent (rec_writer s) = Some (rec_status s, hs) \<Longrightarrow>
   recorded_status (fold rec_call calls s) = rec_status s \<and> fst (sent_response (rec_writer (fold rec_call calls s))) = rec_status s"
proof (induction calls arbitrary: s)
  case Nil
  then show ?case by (simp add: recorded_status_def sent_response_def)
next
  case (Cons c calls)
  have "rec_status (rec_call c s) = rec_status s \<and> wr_sent (rec_writer (rec_call c s)) = Some (rec_status s, hs)"
    using Cons.prems by (cases c) (auto simp: rec_write_def set_header_def add_header_def write_chunk_def Let_def)
  with Cons.IH[of "rec_call c s"] Cons.prems(1,2) show ?case by simp
qed

lemma status_exact:
  "status_once calls \<Longrightarrow> rec_status s = 0 \<Longrightarrow> wr_sent (rec_writer s) = None \<Longrightarrow>
   recorded_status (fold rec_call calls s) = fst (sent_response (rec_writer (fold rec_call calls s)))"
proof (induction calls arbitrary: s)
  case Nil
  then show ?case by (simp add: recorded_status_def sent_response_def)
next
  case (Cons call cs)
  show ?case
  proof (cases call)
    case (WriteHeader c)
    have "wr_sent (rec_writer (rec_write_header c s)) = Some (c, wr_headers (rec_writer s))" "rec_status (rec_write_header c s) = c"
      using Cons.prems by (simp_all add: rec_write_header_def write_header_def)
    with WriteHeader Cons.prems status_settled[of cs "rec_write_header c s"] show ?thesis by simp
  next
    case (Write b)
    have "wr_sent (rec_writer (rec_write b s)) = Some (200, wr_headers (rec_writer s))" "rec_status (rec_write b s) = 200"
      using Cons.prems by (simp_all add: rec_write_def write_chunk_def Let_def)
    with Write Cons.prems status_settled[of cs "rec_write b s"] show ?thesis by simp
  qed (use Cons in \<open>simp_all add: set_header_def add_header_def\<close>)
qed

lemma status_once_cookies: "status_once (map (\<lambda>c. AddHeader k (f c)) ck @ calls) = status_once calls"
  by (induction ck) simp_all

lemma status_once_reply: "reply_status rep \<noteq> 0 \<Longrightarrow> status_once (console_calls rep ck)"
  unfolding console_calls_def status_once_cookies by (cases rep) auto

lemma reply_sent: "wr_sent w = None \<Longrightarrow> fst (sent_response (write_reply rep w)) = reply_status rep"
  by (cases rep) (simp_all add: write_header_def write_chunk_def set_header_def sent_response_def)

lemma cookies_unsent: "wr_sent (foldl (\<lambda>w c. add_header k (f c) w) w ck) = wr_sent w"
  by (induction ck arbitrary: w) (simp_all add: add_header_def)

text \<open>
  The wrapper of the console's handlers, given a handler that writes its reply, sends exactly
  that reply and appends to the audit log the row of \<open>Console.audited\<close>: the status recorded is
  the status that the client received, whatever headers an outer handler had already set.
\<close>

theorem audit_row_exact:
  assumes "h st = (console_calls rep ck, False, st1)" and "reply_status rep \<noteq> 0" and "wr_sent w = None"
  shows "audited_response a ev r h w st = (False, write_body (ConsoleBody rep ck) w, snd (audited a ev r (rep, st1))) \<and>
    fst (sent_response (write_body (ConsoleBody rep ck) w)) = reply_status rep"
proof -
  let ?s = "fold rec_call (console_calls rep ck) (new_recorder w)"
  have w: "rec_writer ?s = write_body (ConsoleBody rep ck) w"
    unfolding recorder_transparent by (simp add: new_recorder_def console_calls_write del: write_body.simps)
  have sent: "fst (sent_response (write_body (ConsoleBody rep ck) w)) = reply_status rep"
    using assms(3) by (simp add: reply_sent cookies_unsent)
  have "recorded_status ?s = reply_status rep"
    using status_exact[OF status_once_reply[OF assms(2), of ck], of "new_recorder w"] assms(3) sent w
    by (simp add: new_recorder_def)
  with assms(1) w sent show ?thesis
    by (simp add: audited_response_def audited_def audit_row_def Let_def del: write_body.simps split: prod.split)
qed

theorem audit_row_exact_witness:
  "cn_audit (snd (snd (audited_response demo_app demo_web_env demo_request
     (\<lambda>st. (console_calls (Redirect 302 ''/admin'' None) [session_set_cookie ''tok'' 0], False, st)) new_writer demo_console))) \<noteq> []"
proof -
  let ?h = "\<lambda>st :: console. (console_calls (Redirect 302 ''/admin'' None) [session_set_cookie ''tok'' 0], False, st)"
  have h: "?h demo_console = (console_calls (Redirect 302 ''/admin'' None) [session_set_cookie ''tok'' 0], False, demo_console)"
    and w: "reply_status (Redirect 302 ''/admin'' None) \<noteq> 0" "wr_sent new_writer = None" by (simp_all add: new_writer_def)
  from audit_row_exact[of ?h, OF h w, of demo_app demo_web_env demo_request]
  have "snd (snd (audited_response demo_app demo_web_env demo_request ?h new_writer demo_console)) =
      snd (audited demo_app demo_web_env demo_request (Redirect 302 ''/admin'' None, demo_console))" by simp
  then show ?thesis
    by (simp add: audited_def demo_app_def demo_web_env_def append_audit_def on_fault_def split: prod.splits)
qed

subsection \<open>Every mutation leaves a row\<close>

lemma has_prefix_scep: "p = ''/scep'' \<or> has_prefix p ''/scep/'' \<Longrightarrow> \<exists>ss. path_segs p = ''scep'' # ss"
  by (auto simp: has_prefix_iff path_segs_def)

lemma audited_path_not_own:
  assumes "audited_path (path_segs p)"
  shows "\<not> own_path d p (path_segs p) \<and> \<not> (p = ''/scep'' \<or> has_prefix p ''/scep/'')"
proof -
  have segs: "\<exists>s ss. path_segs p = s # ss \<and> s \<in> {''admin'', ''login'', ''logout''}"
    using assms by (auto simp: audited_path_def post_route_def split: list.splits if_splits)
  have "path_segs ''/healthz'' = [''healthz'']" "path_segs ''/readyz'' = [''readyz'']" "path_segs ''/version'' = [''version'']"
    "path_segs ''/enroll'' = [''enroll'']" "path_segs ''/ca'' = [''ca'']" by code_simp+
  with segs have n: "p \<notin> {''/healthz'', ''/readyz'', ''/version'', ''/enroll'', ''/ca''}" by auto
  have g: "grant_token d (path_segs p) = None"
    using segs by (auto simp: grant_token_def split: list.splits)
  have "\<not> (p = ''/scep'' \<or> has_prefix p ''/scep/'')"
  proof
    assume "p = ''/scep'' \<or> has_prefix p ''/scep/''"
    from has_prefix_scep[OF this] segs show False by auto
  qed
  moreover have "\<not> own_path d p (path_segs p)"
    using n g unfolding own_path_def by blast
  ultimately show ?thesis by blast
qed

lemma served_by_console:
  assumes "serve_http d ee ev tls proto r st = (logs, w, st')" and "audited_path (path_segs (rq_path r))"
    and "sd_ui d" and "sd_mdm d = None \<or> rq_path r \<noteq> sd_mdm_path d"
  obtains rep ck where "serve (sd_app d) (sd_tools d) (sd_authn d) (sd_oidc d) ev r (path_segs (rq_path r)) st = (rep, ck, st')"
    and "fst (sent_response w) = reply_status rep"
proof -
  let ?w = "secure_headers tls proto (rq_path r) new_writer"
  obtain rep ck st1 where s: "serve (sd_app d) (sd_tools d) (sd_authn d) (sd_oidc d) ev r (path_segs (rq_path r)) st = (rep, ck, st1)"
    by (cases "serve (sd_app d) (sd_tools d) (sd_authn d) (sd_oidc d) ev r (path_segs (rq_path r)) st")
  have n: "\<not> own_path d (rq_path r) (path_segs (rq_path r))" "rq_path r \<noteq> ''/scep''" "\<not> has_prefix (rq_path r) ''/scep/''"
    using audited_path_not_own[OF assms(2), of d] by simp_all
  have "dispatch d ee ev r st = (ConsoleBody rep ck, st1)"
  proof (cases "sd_mdm d = None")
    case True
    then show ?thesis by (simp add: dispatch_def Let_def n s assms(3) split: option.split)
  next
    case False
    with assms(4) have "rq_path r \<noteq> sd_mdm_path d" by simp
    then show ?thesis by (simp add: dispatch_def Let_def n s assms(3) split: option.split)
  qed
  with assms(1) have e: "w = write_body (ConsoleBody rep ck) ?w" "st' = st1"
    by (simp_all add: serve_http_def handler_chain_def serve_mux_def)
  have "wr_sent ?w = None" by (simp add: secure_headers_def new_writer_def set_header_def Let_def)
  then have "fst (sent_response w) = reply_status rep" by (simp add: e(1) reply_sent cookies_unsent)
  with s e(2) that show ?thesis by blast
qed

text \<open>
  C36: Every POST to the console that its handler answers (sign-in, sign-out and every action,
  whether it was allowed, refused or failed) leaves exactly one row in the audit log, with the
  method, the path, the status that the client received, the client's address and the time,
  when the server keeps an audit log and the insertion of the row works; without a log, or when
  the insertion fails, the log stays as it was, and nothing a handler does touches it otherwise.
\<close>

theorem mutations_audited:
  assumes "serve_http d ee ev tls proto r st = (logs, w, st')" and "rq_method r = ''POST''"
    and "audited_path (path_segs (rq_path r))" and "sd_ui d" and "sd_mdm d = None \<or> rq_path r \<noteq> sd_mdm_path d"
  shows "\<exists>rows. cn_audit st' = cn_audit st @ rows \<and>
    (if ap_audit (sd_app d) \<and> ev_fault ev ''append'' = None
     then \<exists>row. rows = [row] \<and> au_action row = ''POST'' \<and> au_target row = rq_path r \<and>
       au_result row = int_str (fst (sent_response w)) \<and> au_remote row = client_ip (sd_app d) r \<and>
       au_at row = to_secs (ev_at ev ''append'')
     else rows = [])"
proof -
  from served_by_console[OF assms(1,3-5)] obtain rep ck where
    s: "serve (sd_app d) (sd_tools d) (sd_authn d) (sd_oidc d) ev r (path_segs (rq_path r)) st = (rep, ck, st')"
    and status: "fst (sent_response w) = reply_status rep" by blast
  obtain st0 where a: "audited (sd_app d) ev r (rep, st0) = (rep, st')" and e: "cn_audit st0 = cn_audit st"
    by (rule serve_post_audit[OF s assms(2,3)])
  show ?thesis
  proof (cases "ap_audit (sd_app d) \<and> ev_fault ev ''append'' = None")
    case True
    with audited_row[OF a] e assms(2) status show ?thesis by auto
  next
    case False
    with audited_no_row[OF a] e show ?thesis by auto
  qed
qed

theorem mutations_audited_witness:
  "\<exists>logs w st' row. serve_http quiet_deps (demo_enroll_env ''topic'') demo_web_env True [] demo_group_post demo_state = (logs, w, st') \<and>
     cn_audit st' = [row] \<and> au_target row = ''/admin/groups'' \<and> au_result row = int_str (fst (sent_response w))"
proof -
  let ?run = "serve_http quiet_deps (demo_enroll_env ''topic'') demo_web_env True [] demo_group_post demo_state"
  obtain logs w st' where h: "?run = (logs, w, st')" by (cases ?run) auto
  have p: "rq_path demo_group_post = ''/admin/groups''" "rq_method demo_group_post = ''POST''"
    by (simp_all add: demo_group_post_def demo_post_def demo_request_def)
  have "path_segs ''/admin/groups'' = [''admin'', ''groups'']" by code_simp
  then have a: "audited_path (path_segs (rq_path demo_group_post))" unfolding p by (simp add: audited_path_def post_route_def)
  have d: "sd_ui quiet_deps" "sd_mdm quiet_deps = None" "ap_audit (sd_app quiet_deps)" "ev_fault demo_web_env ''append'' = None"
    by (simp_all add: quiet_deps_def demo_app_def demo_web_env_def)
  from mutations_audited[OF h p(2) a d(1)] d p(1) h show ?thesis by (auto simp: demo_state_def)
qed

text \<open>
  A handler that panics is answered with a 500 by the outermost handler, but leaves no row,
  even if it had already changed something.
\<close>

theorem panic_not_audited:
  assumes "h st = (calls, True, st1)"
  shows "\<exists>w'. audited_response a ev r h w st = (True, w', st1)"
  using assms by (simp add: audited_response_def Let_def)

end
